(* ===== verification/Prelude.thy ===== *)
theory Prelude
  imports Complex_Main "HOL-Library.Word"
begin

text \<open>
  Shared vocabulary of the development: machine integer types, the byte order layer
  (\<^verbatim>\<open>vanetza/common/byte_order.hpp\<close>), the input archive with its exceptions
  (\<^verbatim>\<open>vanetza/common/archives.hpp\<close>, \<^verbatim>\<open>archives.cpp\<close>), the generic
  integer serialization of \<^verbatim>\<open>vanetza/common/serialization.hpp\<close>, and the locale
  \<open>wire_codec\<close> that states what every fixed-width serializer of the protocol stack
  promises. The generic lemmas on lists and words that several components use are here too.
\<close>

unbundle bit_operations_syntax

section \<open>Types and lemma collections\<close>

type_synonym u8 = "8 word"
type_synonym u16 = "16 word"
type_synonym u32 = "32 word"
type_synonym u64 = "64 word"
type_synonym byte = "8 word"

text \<open>
  \<^verbatim>\<open>Clock::duration\<close> and \<^verbatim>\<open>Clock::time_point\<close> count microseconds in a signed
  integer; both are modelled by \<open>int\<close>. Durations of \<^verbatim>\<open>boost::units\<close> are seconds
  in a \<^verbatim>\<open>double\<close> and are modelled by \<open>real\<close>.
\<close>

type_synonym duration = int
type_synonym time_point = int

named_theorems wire_simps \<open>evaluation of serializers and of the reader monad\<close>
named_theorems wire_reads \<open>how many octets a reader consumes, and what it returns\<close>

section \<open>Exceptions\<close>

text \<open>A computation that may throw returns the exception as the left summand.\<close>

definition ebind :: "'e + 'a \<Rightarrow> ('a \<Rightarrow> 'e + 'b) \<Rightarrow> 'e + 'b" where
  "ebind m k = (case m of Inl e \<Rightarrow> Inl e | Inr x \<Rightarrow> k x)"

definition or_throw :: "'e \<Rightarrow> 'a option \<Rightarrow> 'e + 'a" where
  "or_throw e x = (case x of None \<Rightarrow> Inl e | Some v \<Rightarrow> Inr v)"

definition check_or_throw :: "bool \<Rightarrow> 'e \<Rightarrow> 'e + unit" where
  "check_or_throw ok e = (if ok then Inr () else Inl e)"

definition caught :: "'e + bool \<Rightarrow> bool" where
  "caught r = (case r of Inl _ \<Rightarrow> False | Inr b \<Rightarrow> b)"

named_theorems exn_simps \<open>when a computation with exceptions returns\<close>

lemma ebind_Inr [exn_simps]: "ebind m k = Inr y \<longleftrightarrow> (\<exists>x. m = Inr x \<and> k x = Inr y)"
  by (cases m) (simp_all add: ebind_def)

lemma or_throw_Inr [exn_simps]: "or_throw e x = Inr v \<longleftrightarrow> x = Some v"
  by (cases x) (simp_all add: or_throw_def)

lemma check_or_throw_Inr [exn_simps]: "check_or_throw ok e = Inr u \<longleftrightarrow> ok"
  by (simp add: check_or_throw_def)

lemma ebind_Inr_simp [simp]: "ebind (Inr x) k = k x"
  by (simp add: ebind_def)

lemma ebind_Inl_simp [simp]: "ebind (Inl e) k = Inl e"
  by (simp add: ebind_def)

lemma caught_iff: "caught r \<longleftrightarrow> r = Inr True"
  by (cases r) (simp_all add: caught_def)

section \<open>Lists\<close>

lemma take_append_length: "n = length xs \<Longrightarrow> take n (xs @ ys) = xs"
  by simp

lemma drop_append_length: "n = length xs \<Longrightarrow> drop n (xs @ ys) = ys"
  by simp

lemma sum_list_remove1:
  "x \<in> set xs \<Longrightarrow> f x + sum_list (map f (remove1 x xs)) = sum_list (map (f :: 'a \<Rightarrow> nat) xs)"
  by (induction xs) auto

lemma sum_list_filter_split:
  "sum_list (map f (filter P xs)) + sum_list (map f (filter (\<lambda>x. \<not> P x) xs))
     = sum_list (map (f :: 'a \<Rightarrow> nat) xs)"
  by (induction xs) auto

section \<open>Big endian octets of a word\<close>

lemma bit_word_less:
  assumes "(w :: 'a::len word) < 2 ^ k" and "k < LENGTH('a)" and "bit w n"
  shows "n < k"
proof -
  have "uint w < 2 ^ k" using assms(1,2) by (simp add: word_2p_lem word_size)
  then have "take_bit k (uint w) = uint w" by (simp add: take_bit_int_eq_self)
  moreover have "bit (uint w) n" using assms(3) by (auto simp: bit_uint_iff dest: bit_imp_le_length)
  ultimately show ?thesis by (metis bit_take_bit_iff)
qed

lemma Suc_Suc_diff: "2 \<le> n \<Longrightarrow> Suc (Suc (n - 2)) = n" "\<not> n < 2 \<Longrightarrow> Suc (Suc (n - 2)) = n"
  by simp_all

fun be_bytes :: "nat \<Rightarrow> 'a::len word \<Rightarrow> byte list" where
  "be_bytes 0 w = []"
| "be_bytes (Suc k) w = ucast (drop_bit (8 * k) w) # be_bytes k w"

fun be_word :: "byte list \<Rightarrow> 'a::len word" where
  "be_word [] = 0"
| "be_word (b # bs) = push_bit (8 * length bs) (ucast b) OR be_word bs"

lemma length_be_bytes [simp]: "length (be_bytes k w) = k"
  by (induction k) auto

lemma be_word_be_bytes: "be_word (be_bytes k w) = take_bit (8 * k) (w :: 'a::len word)"
proof (induction k)
  case 0
  then show ?case by simp
next
  case (Suc k)
  show ?case
    by (rule bit_word_eqI) (auto simp: Suc.IH bit_simps)
qed

lemma bit_be_word_high: "bit (be_word bs :: 'a::len word) n \<Longrightarrow> n < 8 * length bs"
proof (induction bs)
  case Nil
  then show ?case by simp
next
  case (Cons b bs)
  then show ?case by (fastforce simp: bit_simps dest: bit_imp_le_length)
qed

lemma be_bytes_cong:
  "(\<And>n. n < 8 * k \<Longrightarrow> bit v n = bit w n) \<Longrightarrow> be_bytes k (v :: 'a::len word) = be_bytes k w"
proof (induction k)
  case (Suc k)
  have "ucast (drop_bit (8 * k) v) = (ucast (drop_bit (8 * k) w) :: byte)"
    by (rule bit_word_eqI) (auto simp: bit_simps Suc.prems)
  with Suc show ?case by simp
qed simp

lemma be_bytes_be_word:
  "8 * length bs \<le> LENGTH('a) \<Longrightarrow> be_bytes (length bs) (be_word bs :: 'a::len word) = bs"
proof (induction bs)
  case (Cons b bs)
  let ?w = "be_word (b # bs) :: 'a word"
  have "ucast (drop_bit (8 * length bs) ?w) = b"
    using Cons.prems by (intro bit_word_eqI) (auto simp: bit_simps dest: bit_be_word_high)
  moreover have "be_bytes (length bs) ?w = be_bytes (length bs) (be_word bs :: 'a word)"
    by (rule be_bytes_cong) (auto simp: bit_simps)
  ultimately show ?case using Cons by simp
qed simp

text \<open>The number of octets of an integer type, \<^verbatim>\<open>sizeof(T)\<close>.\<close>

definition sizeof :: "'a::len word itself \<Rightarrow> nat" where
  "sizeof _ = LENGTH('a) div 8"

lemma sizeof_simps [simp]:
  "sizeof TYPE(8 word) = 1" "sizeof TYPE(16 word) = 2"
  "sizeof TYPE(32 word) = 4" "sizeof TYPE(64 word) = 8"
  by (simp_all add: sizeof_def)

text \<open>Integer types whose width is a whole number of octets.\<close>

definition octet_sized :: "'a::len word itself \<Rightarrow> bool" where
  "octet_sized _ \<longleftrightarrow> LENGTH('a) = 8 * (LENGTH('a) div 8)"

lemma octet_sized_simps [simp]:
  "octet_sized TYPE(8 word)" "octet_sized TYPE(16 word)"
  "octet_sized TYPE(32 word)" "octet_sized TYPE(64 word)"
  by (simp_all add: octet_sized_def)

lemma be_word_be_bytes_sizeof:
  "octet_sized TYPE('a word) \<Longrightarrow> be_word (be_bytes (sizeof TYPE('a word)) w) = (w :: 'a::len word)"
  by (metis be_word_be_bytes octet_sized_def sizeof_def take_bit_length_eq)

lemma be_bytes_be_word_sizeof:
  "octet_sized TYPE('a word) \<Longrightarrow> length bs = sizeof TYPE('a word) \<Longrightarrow>
     be_bytes (sizeof TYPE('a word)) (be_word bs :: 'a::len word) = bs"
  by (metis be_bytes_be_word octet_sized_def order_refl sizeof_def)

section \<open>Byte order (byte\_order.hpp)\<close>

datatype ByteOrder = BigEndian | LittleEndian

text \<open>
  The octets of an integer as they lie in memory on a host with the given byte order: what
  \<^verbatim>\<open>reinterpret_cast<const char*>(&t)\<close> in the archives exposes.
\<close>

definition mem_bytes :: "ByteOrder \<Rightarrow> 'a::len word \<Rightarrow> byte list" where
  "mem_bytes order w =
     (case order of BigEndian \<Rightarrow> be_bytes (sizeof TYPE('a word)) w
      | LittleEndian \<Rightarrow> rev (be_bytes (sizeof TYPE('a word)) w))"

definition mem_word :: "ByteOrder \<Rightarrow> byte list \<Rightarrow> 'a::len word" where
  "mem_word order bs = (case order of BigEndian \<Rightarrow> be_word bs | LittleEndian \<Rightarrow> be_word (rev bs))"

definition endian_reverse :: "'a::len word \<Rightarrow> 'a word" where
  "endian_reverse w = be_word (rev (be_bytes (sizeof TYPE('a word)) w))"

definition convert_endian :: "ByteOrder \<Rightarrow> ByteOrder \<Rightarrow> 'a::len word \<Rightarrow> 'a word" where
  "convert_endian from to w = (if from = to then w else endian_reverse w)"

definition hton :: "ByteOrder \<Rightarrow> 'a::len word \<Rightarrow> 'a word" where
  "hton host w = convert_endian host BigEndian w"

definition ntoh :: "ByteOrder \<Rightarrow> 'a::len word \<Rightarrow> 'a word" where
  "ntoh host w = convert_endian BigEndian host w"

lemma length_mem_bytes [simp]: "length (mem_bytes order (w :: 'a::len word)) = sizeof TYPE('a word)"
  by (simp add: mem_bytes_def split: ByteOrder.split)

lemma mem_word_mem_bytes:
  "octet_sized TYPE('a word) \<Longrightarrow> mem_word order (mem_bytes order w) = (w :: 'a::len word)"
  by (cases order) (simp_all add: mem_word_def mem_bytes_def be_word_be_bytes_sizeof)

lemma endian_reverse_twice:
  "octet_sized TYPE('a word) \<Longrightarrow> endian_reverse (endian_reverse w) = (w :: 'a::len word)"
  by (simp add: endian_reverse_def be_bytes_be_word_sizeof be_word_be_bytes_sizeof)

lemma ntoh_hton:
  "octet_sized TYPE('a word) \<Longrightarrow> ntoh host (hton host w) = (w :: 'a::len word)"
  by (simp add: ntoh_def hton_def convert_endian_def endian_reverse_twice)

lemma mem_bytes_hton:
  "octet_sized TYPE('a word) \<Longrightarrow>
     mem_bytes host (hton host w) = be_bytes (sizeof TYPE('a word)) (w :: 'a::len word)"
  by (cases host) (simp_all add: mem_bytes_def hton_def convert_endian_def endian_reverse_def
      be_bytes_be_word_sizeof)

lemma ntoh_mem_word:
  "octet_sized TYPE('a word) \<Longrightarrow> length bs = sizeof TYPE('a word) \<Longrightarrow>
     ntoh host (mem_word host bs) = (be_word bs :: 'a::len word)"
  using be_bytes_be_word_sizeof [of "rev bs", where 'a = 'a]
  by (cases host) (simp_all add: ntoh_def mem_word_def convert_endian_def endian_reverse_def)

section \<open>Input archive (archives.hpp, archives.cpp)\<close>

datatype ErrorCode = Ok | IncompleteData | ExcessiveLength | ConstraintViolation

datatype archive_exception = Incomplete_read | Impossible_peek

text \<open>
  An input archive over a stream buffer: the octets not read yet and the first error recorded.
  A reader returns a value or throws; in both cases the archive has changed.
\<close>

record InputArchive =
  stream :: "byte list"
  error_code :: ErrorCode

type_synonym 'a reader = "InputArchive \<Rightarrow> (archive_exception + 'a) \<times> InputArchive"

definition archive_fail :: "ErrorCode \<Rightarrow> InputArchive \<Rightarrow> InputArchive" where
  "archive_fail code ar = (if error_code ar = Ok then ar\<lparr>error_code := code\<rparr> else ar)"

definition is_good :: "InputArchive \<Rightarrow> bool" where
  "is_good ar \<longleftrightarrow> error_code ar = Ok"

definition load_binary :: "nat \<Rightarrow> byte list reader" where
  "load_binary len ar =
     (let read_bytes = take len (stream ar); ar' = ar\<lparr>stream := drop len (stream ar)\<rparr>
      in if length read_bytes \<noteq> len then (Inl Incomplete_read, archive_fail IncompleteData ar')
         else (Inr read_bytes, ar'))"

definition peek_byte :: "byte reader" where
  "peek_byte ar =
     (case stream ar of [] \<Rightarrow> (Inl Impossible_peek, archive_fail IncompleteData ar)
      | b # _ \<Rightarrow> (Inr b, ar))"

definition remaining_bytes :: "InputArchive \<Rightarrow> nat" where
  "remaining_bytes ar = length (stream ar)"

definition rreturn :: "'a \<Rightarrow> 'a reader" where
  "rreturn x ar = (Inr x, ar)"

definition rbind :: "'a reader \<Rightarrow> ('a \<Rightarrow> 'b reader) \<Rightarrow> 'b reader" where
  "rbind m k ar = (case m ar of (Inl e, ar') \<Rightarrow> (Inl e, ar') | (Inr x, ar') \<Rightarrow> k x ar')"

section \<open>Integer serialization (serialization.hpp)\<close>

text \<open>
  \<^verbatim>\<open>serialize(ar, value)\<close> converts to network byte order and writes the memory
  octets; \<^verbatim>\<open>deserialize\<close> reads memory octets and converts back. The host's byte
  order is a parameter.
\<close>

definition serialize_integral :: "ByteOrder \<Rightarrow> 'a::len word \<Rightarrow> byte list" where
  "serialize_integral host w = mem_bytes host (hton host w)"

definition deserialize_integral :: "ByteOrder \<Rightarrow> 'a::len word reader" where
  "deserialize_integral host =
     rbind (load_binary (sizeof TYPE('a word))) (\<lambda>bs. rreturn (ntoh host (mem_word host bs)))"

text \<open>The same operations once the host has been fixed to one order: big endian octets.\<close>

definition serialize_int :: "'a::len word \<Rightarrow> byte list" where
  "serialize_int w = be_bytes (sizeof TYPE('a word)) w"

definition deserialize_int :: "'a::len word reader" where
  "deserialize_int = rbind (load_binary (sizeof TYPE('a word))) (\<lambda>bs. rreturn (be_word bs))"

lemma serialize_integral_eq:
  "octet_sized TYPE('a word) \<Longrightarrow> serialize_integral host (w :: 'a::len word) = serialize_int w"
  by (simp add: serialize_integral_def serialize_int_def mem_bytes_hton)

lemma deserialize_integral_eq:
  assumes "octet_sized TYPE('a word)"
  shows "deserialize_integral host = (deserialize_int :: 'a::len word reader)"
  using assms
  by (auto simp: fun_eq_iff deserialize_integral_def deserialize_int_def rbind_def load_binary_def
      rreturn_def ntoh_mem_word Let_def)

section \<open>What a reader consumes\<close>

text \<open>
  \<open>decodes m n Q\<close>: on an archive holding at least \<open>n\<close> octets, \<open>m\<close> returns a value that \<open>Q\<close>
  relates to exactly those \<open>n\<close> octets and leaves the rest; on a shorter one it throws, records
  \<^verbatim>\<open>IncompleteData\<close> and has drained the stream.
\<close>

definition decodes :: "'a reader \<Rightarrow> nat \<Rightarrow> ('a \<Rightarrow> byte list \<Rightarrow> bool) \<Rightarrow> bool" where
  "decodes m n Q \<longleftrightarrow> (\<forall>ar.
     if n \<le> length (stream ar)
     then \<exists>x. m ar = (Inr x, ar\<lparr>stream := drop n (stream ar)\<rparr>) \<and> Q x (take n (stream ar))
     else m ar = (Inl Incomplete_read, archive_fail IncompleteData (ar\<lparr>stream := []\<rparr>)))"

lemma decodes_return: "Q x [] \<Longrightarrow> decodes (rreturn x) 0 Q"
  by (simp add: decodes_def rreturn_def)

lemma decodes_returnI: "n = 0 \<Longrightarrow> Q x [] \<Longrightarrow> decodes (rreturn x) n Q"
  by (simp add: decodes_return)

lemma decodes_load_binary: "decodes (load_binary n) n (\<lambda>x bs. x = bs \<and> length bs = n)"
  by (auto simp: decodes_def load_binary_def Let_def)

lemma decodes_bind:
  assumes m: "decodes m a P" and le: "a \<le> n"
    and k: "\<And>x bs. P x bs \<Longrightarrow> length bs = a \<Longrightarrow> decodes (k x) (n - a) (\<lambda>y bs'. Q y (bs @ bs'))"
  shows "decodes (rbind m k) n Q"
  unfolding decodes_def
proof (intro allI)
  fix ar :: InputArchive
  let ?s = "stream ar"
  show "if n \<le> length ?s
        then \<exists>x. rbind m k ar = (Inr x, ar\<lparr>stream := drop n ?s\<rparr>) \<and> Q x (take n ?s)
        else rbind m k ar = (Inl Incomplete_read, archive_fail IncompleteData (ar\<lparr>stream := []\<rparr>))"
  proof (cases "a \<le> length ?s")
    case True
    with m obtain x where x: "m ar = (Inr x, ar\<lparr>stream := drop a ?s\<rparr>)" "P x (take a ?s)"
      unfolding decodes_def by (metis (full_types))
    let ?ar = "ar\<lparr>stream := drop a ?s\<rparr>"
    from k [OF x(2)] True have kx: "decodes (k x) (n - a) (\<lambda>y bs'. Q y (take a ?s @ bs'))"
      by simp
    show ?thesis
    proof (cases "n \<le> length ?s")
      case nle: True
      then have "n - a \<le> length (stream ?ar)" by simp
      with kx obtain y where "k x ?ar = (Inr y, ?ar\<lparr>stream := drop (n - a) (stream ?ar)\<rparr>)"
        and "Q y (take a ?s @ take (n - a) (stream ?ar))"
        unfolding decodes_def by (metis (full_types))
      moreover have "take a ?s @ take (n - a) (drop a ?s) = take n ?s"
        using le take_add [of a "n - a" ?s] by simp
      ultimately show ?thesis
        using nle le by (auto simp: rbind_def x)
    next
      case False
      with True have "\<not> n - a \<le> length (stream ?ar)" by simp
      with kx have "k x ?ar = (Inl Incomplete_read, archive_fail IncompleteData (?ar\<lparr>stream := []\<rparr>))"
        unfolding decodes_def by (metis (full_types))
      with False show ?thesis by (simp add: rbind_def x)
    qed
  next
    case False
    with m have "m ar = (Inl Incomplete_read, archive_fail IncompleteData (ar\<lparr>stream := []\<rparr>))"
      unfolding decodes_def by (metis (full_types))
    with False le show ?thesis by (simp add: rbind_def)
  qed
qed

lemma decodes_weaken: "decodes m n P \<Longrightarrow> (\<And>x bs. P x bs \<Longrightarrow> Q x bs) \<Longrightarrow> decodes m n Q"
  unfolding decodes_def by (metis (full_types))

lemma decodes_okE:
  assumes "decodes m n Q" and "n \<le> length (stream ar)"
  obtains x where "m ar = (Inr x, ar\<lparr>stream := drop n (stream ar)\<rparr>)" "Q x (take n (stream ar))"
  using assms unfolding decodes_def by (metis (full_types))

lemma decodes_short:
  "decodes m n Q \<Longrightarrow> length (stream ar) < n \<Longrightarrow>
     m ar = (Inl Incomplete_read, archive_fail IncompleteData (ar\<lparr>stream := []\<rparr>))"
  unfolding decodes_def by (metis (full_types) not_le)

lemma decodes_int:
  assumes "octet_sized TYPE('a word)"
  shows "decodes (deserialize_int :: 'a::len word reader) (sizeof TYPE('a word))
           (\<lambda>x bs. serialize_int x = bs)"
proof -
  have "decodes (rreturn (be_word bs :: 'a word)) 0 (\<lambda>y bs'. serialize_int y = bs @ bs')"
    if "length bs = sizeof TYPE('a word)" for bs
    using assms that by (intro decodes_return) (simp add: serialize_int_def be_bytes_be_word_sizeof)
  then show ?thesis
    unfolding deserialize_int_def by (intro decodes_bind [OF decodes_load_binary]) auto
qed

lemma length_serialize_int [simp]:
  "length (serialize_int (w :: 'a::len word)) = sizeof TYPE('a word)"
  by (simp add: serialize_int_def)

text \<open>Running a reader on the octets its serializer wrote.\<close>

lemma rbind_apply [wire_simps]:
  "m ar = (Inr x, ar') \<Longrightarrow> rbind m k ar = k x ar'"
  by (simp add: rbind_def)

lemma rreturn_apply [wire_simps]: "rreturn x ar = (Inr x, ar)"
  by (simp add: rreturn_def)

lemma deserialize_serialize_int [wire_simps]:
  assumes "octet_sized TYPE('a word)"
  shows "deserialize_int \<lparr>stream = serialize_int (w :: 'a::len word) @ rest, error_code = e\<rparr>
           = (Inr w, \<lparr>stream = rest, error_code = e\<rparr>)"
  using assms
  by (simp add: deserialize_int_def rbind_def load_binary_def rreturn_def Let_def serialize_int_def
      be_word_be_bytes_sizeof)

section \<open>The contract of a fixed-width codec\<close>

text \<open>
  What a \<^verbatim>\<open>serialize\<close>/\<^verbatim>\<open>deserialize\<close> pair of a fixed-width structure promises:
  every value is written to \<open>n\<close> octets, a canonical value (\<open>wf\<close>) is read back, and the reader
  accepts every \<open>n\<close> octets, returning a canonical value that serializes to them again.
\<close>

locale wire_codec =
  fixes wf :: "'a \<Rightarrow> bool"
    and ser :: "'a \<Rightarrow> byte list"
    and de :: "'a reader"
    and n :: nat
  assumes ser_length: "length (ser x) = n"
    and roundtrip: "wf x \<Longrightarrow>
      de \<lparr>stream = ser x @ rest, error_code = e\<rparr> = (Inr x, \<lparr>stream = rest, error_code = e\<rparr>)"
    and reads: "decodes de n (\<lambda>x bs. wf x \<and> ser x = bs)"
begin

lemma ser_inject: "wf x \<Longrightarrow> wf y \<Longrightarrow> ser x = ser y \<longleftrightarrow> x = y"
  by (metis Pair_inject roundtrip sum.inject(2))

lemma prefix_free: "wf x \<Longrightarrow> wf y \<Longrightarrow> ser x @ r = ser y @ s \<longleftrightarrow> x = y \<and> r = s"
  using ser_inject by (auto simp: ser_length)

lemma short_input:
  "length (stream ar) < n \<Longrightarrow>
     de ar = (Inl Incomplete_read, archive_fail IncompleteData (ar\<lparr>stream := []\<rparr>))"
  using reads by (rule decodes_short)

lemma accepts_iff: "(\<exists>x ar'. de ar = (Inr x, ar')) \<longleftrightarrow> n \<le> length (stream ar)"
  using decodes_okE [OF reads, of ar] short_input [of ar] by (metis Inl_Inr_False fst_conv not_le)

lemma accepted:
  assumes "de ar = (Inr x, ar')"
  shows "wf x" and "stream ar = ser x @ stream ar'" and "error_code ar' = error_code ar"
proof -
  from assms accepts_iff have le: "n \<le> length (stream ar)" by blast
  obtain y where y: "de ar = (Inr y, ar\<lparr>stream := drop n (stream ar)\<rparr>)"
    "wf y \<and> ser y = take n (stream ar)"
    by (rule decodes_okE [OF reads le])
  with assms have "y = x" and "ar' = ar\<lparr>stream := drop n (stream ar)\<rparr>" by auto
  with y(2) show "wf x" and "stream ar = ser x @ stream ar'" and "error_code ar' = error_code ar"
    by auto
qed

lemma de_eq:
  assumes "wf x"
  shows "de ar = (Inr x, ar') \<longleftrightarrow> ar = \<lparr>stream = ser x @ stream ar', error_code = error_code ar'\<rparr>"
proof
  assume "de ar = (Inr x, ar')"
  from accepted(2,3) [OF this] show "ar = \<lparr>stream = ser x @ stream ar', error_code = error_code ar'\<rparr>"
    by (metis InputArchive.surjective old.unit.exhaust)
next
  assume "ar = \<lparr>stream = ser x @ stream ar', error_code = error_code ar'\<rparr>"
  with roundtrip [OF assms, of "stream ar'" "error_code ar'"] show "de ar = (Inr x, ar')"
    by (cases ar') simp
qed

lemma de_iff:
  "de ar = (Inr x, ar') \<longleftrightarrow>
     wf x \<and> ar = \<lparr>stream = ser x @ stream ar', error_code = error_code ar'\<rparr>"
  using accepted(1) de_eq by blast

end

text \<open>Octet-sized integers satisfy the contract; every value is canonical.\<close>

lemma int_codec:
  "octet_sized TYPE('a word) \<Longrightarrow>
     wire_codec (\<lambda>_ :: 'a::len word. True) serialize_int deserialize_int (sizeof TYPE('a word))"
  by (unfold_locales) (simp_all add: deserialize_serialize_int decodes_int)

interpretation u8c: wire_codec "\<lambda>_ :: u8. True" serialize_int deserialize_int 1
  using int_codec [where 'a = 8] by simp

interpretation u16c: wire_codec "\<lambda>_ :: u16. True" serialize_int deserialize_int 2
  using int_codec [where 'a = 16] by simp

interpretation u32c: wire_codec "\<lambda>_ :: u32. True" serialize_int deserialize_int 4
  using int_codec [where 'a = 32] by simp

interpretation u64c: wire_codec "\<lambda>_ :: u64. True" serialize_int deserialize_int 8
  using int_codec [where 'a = 64] by simp

lemmas int_reads [wire_reads] = u8c.reads u16c.reads u32c.reads u64c.reads

end
