(* ===== verification/Geonet_Fields.thy ===== *)
theory Geonet_Fields
  imports Prelude
begin

text \<open>
  The value types GeoNetworking headers are made of: bounded numbers
  (\<^verbatim>\<open>common/bit_number.hpp\<close>), link-layer addresses (\<^verbatim>\<open>net/mac_address.*\<close>),
  GeoNetworking addresses, time stamps, packet lifetimes, traffic classes and sequence numbers
  (\<^verbatim>\<open>geonet/address.*, timestamp.*, lifetime.*, traffic_class.*,
  sequence_number.*\<close>). The lemmas give the comparison operators their meaning modulo
  wrap-around, the accuracy of the lifetime encoding and the codec contract of every type.
\<close>

section \<open>Bounded numbers (bit\_number.hpp)\<close>

text \<open>
  \<^verbatim>\<open>BitNumber<T, WIDTH>\<close> holds a \<open>T\<close> masked to \<open>WIDTH\<close> bits at every construction and
  assignment, i.e. a word of that width; \<open>bit_number\<close> is the masking constructor and \<open>bit_raw\<close>
  the accessor \<^verbatim>\<open>raw()\<close>.
\<close>

definition bit_number :: "'t::len word \<Rightarrow> 'w::len word" where
  "bit_number value = ucast value"

definition bit_raw :: "'w::len word \<Rightarrow> 't::len word" where
  "bit_raw n = ucast n"

lemma bit_raw_bit_number:
  "bit_raw (bit_number v :: 'w::len word) = (v :: 't::len word) AND mask LENGTH('w)"
  by (rule bit_word_eqI) (auto simp: bit_raw_def bit_number_def bit_simps)

lemma bit_number_bit_raw:
  "LENGTH('w) \<le> LENGTH('t) \<Longrightarrow> bit_number (bit_raw n :: 't::len word) = (n :: 'w::len word)"
  by (rule bit_word_eqI) (auto simp: bit_raw_def bit_number_def bit_simps)

section \<open>Serial number comparison\<close>

text \<open>
  Time stamps and sequence numbers compare modulo wrap-around by the same rule; the generic rule
  is stated once over any word type.
\<close>

definition serial_greater :: "'a::len word \<Rightarrow> 'a word \<Rightarrow> 'a word \<Rightarrow> bool" where
  "serial_greater half l r \<longleftrightarrow> (r < l \<and> l - r \<le> half) \<or> (l < r \<and> half < r - l)"

lemma serial_greater_irrefl [simp]: "\<not> serial_greater h x x"
  by (simp add: serial_greater_def)

lemma serial_greater_total: "x \<noteq> y \<Longrightarrow> serial_greater h x y \<longleftrightarrow> \<not> serial_greater h y x"
  by (auto simp: serial_greater_def)

lemma serial_greater_advance:
  assumes "d \<noteq> 0" and "d \<le> h" and "h < - d"
  shows "serial_greater h (x + d) x"
proof (cases "x < x + d")
  case True then show ?thesis using assms by (simp add: serial_greater_def)
next
  case False
  then have "x + d < x" using assms by (metis add.right_neutral add_left_cancel linorder_neqE)
  then show ?thesis using assms(3) by (simp add: serial_greater_def)
qed

lemma half_range_32: "d \<noteq> 0 \<Longrightarrow> d \<le> 0x7fffffff \<Longrightarrow> (0x7fffffff :: u32) < - d"
  by (auto simp: word_less_def word_le_def uint_word_ariths zmod_zminus1_eq_if word_uint_eq_iff)

lemma half_range_16: "d \<noteq> 0 \<Longrightarrow> d \<le> 0x7fff \<Longrightarrow> (0x7fff :: u16) < - d"
  by (auto simp: word_less_def word_le_def uint_word_ariths zmod_zminus1_eq_if word_uint_eq_iff)

section \<open>Link-layer addresses (mac\_address.hpp, mac\_address.cpp)\<close>

datatype MacAddress = MacAddress u8 u8 u8 u8 u8 u8

fun octets :: "MacAddress \<Rightarrow> u8 list" where
  "octets (MacAddress a b c d e f) = [a, b, c, d, e, f]"

definition cBroadcastMacAddress :: MacAddress where
  "cBroadcastMacAddress = MacAddress 0xff 0xff 0xff 0xff 0xff 0xff"

definition mac_zero :: MacAddress where
  "mac_zero = MacAddress 0 0 0 0 0 0"

text \<open>\<^verbatim>\<open>operator<\<close>: a loop that returns true at the first index where the left octet is
  smaller.\<close>

definition mac_less :: "MacAddress \<Rightarrow> MacAddress \<Rightarrow> bool" where
  "mac_less lhs rhs \<longleftrightarrow> list_ex (\<lambda>(l, r). l < r) (zip (octets lhs) (octets rhs))"

definition serialize_mac :: "MacAddress \<Rightarrow> byte list" where
  "serialize_mac addr = concat (map serialize_int (octets addr))"

definition deserialize_mac :: "MacAddress reader" where
  "deserialize_mac =
     rbind deserialize_int (\<lambda>a. rbind deserialize_int (\<lambda>b. rbind deserialize_int (\<lambda>c.
     rbind deserialize_int (\<lambda>d. rbind deserialize_int (\<lambda>e. rbind deserialize_int (\<lambda>f.
     rreturn (MacAddress a b c d e f)))))))"

text \<open>\<^verbatim>\<open>create_mac_address(T value)\<close> for a 32 bit and a 64 bit value.\<close>

definition create_mac_address :: "'a::len word \<Rightarrow> u8 list" where
  "create_mac_address value =
     (let octets = min 6 (sizeof TYPE('a word))
      in map (\<lambda>i. ucast (drop_bit (8 * (octets - i - 1)) value)) [0..<octets]
         @ replicate (6 - octets) 0)"

subsection \<open>Textual form\<close>

definition isxdigit :: "char \<Rightarrow> bool" where
  "isxdigit c \<longleftrightarrow> c \<in> set ''0123456789abcdefABCDEF''"

text \<open>\<^verbatim>\<open>std::strtol\<close> in base 16 on one digit and on a string of digits.\<close>

definition xdigit_value :: "char \<Rightarrow> nat" where
  "xdigit_value c =
     (let n = of_char c in
      if n \<le> 57 then n - 48 else if n \<le> 70 then n - 55 else n - 87)"

definition strtol16 :: "string \<Rightarrow> nat" where
  "strtol16 s = foldl (\<lambda>acc c. 16 * acc + xdigit_value c) 0 s"

text \<open>\<^verbatim>\<open>boost::algorithm::split(_, str, is_any_of(":"))\<close>: never returns an empty list.\<close>

fun split_colon :: "string \<Rightarrow> string list" where
  "split_colon [] = [[]]"
| "split_colon (c # cs) =
     (if c = CHR '':'' then [] # split_colon cs
      else (case split_colon cs of [] \<Rightarrow> [[c]] | w # ws \<Rightarrow> (c # w) # ws))"

definition octet_checker :: "string \<Rightarrow> bool" where
  "octet_checker s \<longleftrightarrow> length s = 2 \<and> isxdigit (s ! 0) \<and> isxdigit (s ! 1)"

definition parse_mac_address :: "string \<Rightarrow> MacAddress option" where
  "parse_mac_address str =
     (case split_colon str of
        [a, b, c, d, e, f] \<Rightarrow>
          (if list_all octet_checker [a, b, c, d, e, f]
           then Some (MacAddress (of_nat (strtol16 a)) (of_nat (strtol16 b)) (of_nat (strtol16 c))
                        (of_nat (strtol16 d)) (of_nat (strtol16 e)) (of_nat (strtol16 f)))
           else None)
      | _ \<Rightarrow> None)"

text \<open>\<^verbatim>\<open>operator<<\<close>: lower case hexadecimal octets of width 2, joined by colons.\<close>

definition hex_digit :: "nat \<Rightarrow> char" where
  "hex_digit n = ''0123456789abcdef'' ! (n mod 16)"

definition print_octet :: "u8 \<Rightarrow> string" where
  "print_octet o8 = [hex_digit (unat o8 div 16), hex_digit (unat o8 mod 16)]"

fun print_mac_address :: "MacAddress \<Rightarrow> string" where
  "print_mac_address (MacAddress a b c d e f) =
     print_octet a @ concat (map (\<lambda>x. CHR '':'' # print_octet x) [b, c, d, e, f])"

section \<open>GeoNetworking addresses (address.hpp, address.cpp, station\_type.hpp)\<close>

text \<open>
  A C++ enumeration holds any value of its underlying type; the last constructor carries the
  values that have no enumerator.
\<close>

datatype StationType =
    Unknown | Pedestrian | Cyclist | Moped | Motorcycle | Passenger_Car | Bus | Light_Truck
  | Heavy_Truck | Trailer | Special_Vehicle | Tram | RSU | StationType_unnamed u32

fun station_type_raw :: "StationType \<Rightarrow> u32" where
  "station_type_raw Unknown = 0"
| "station_type_raw Pedestrian = 1"
| "station_type_raw Cyclist = 2"
| "station_type_raw Moped = 3"
| "station_type_raw Motorcycle = 4"
| "station_type_raw Passenger_Car = 5"
| "station_type_raw Bus = 6"
| "station_type_raw Light_Truck = 7"
| "station_type_raw Heavy_Truck = 8"
| "station_type_raw Trailer = 9"
| "station_type_raw Special_Vehicle = 10"
| "station_type_raw Tram = 11"
| "station_type_raw RSU = 15"
| "station_type_raw (StationType_unnamed v) = v"

definition station_type_cast :: "u32 \<Rightarrow> StationType" where
  "station_type_cast v =
     (if v = 0 then Unknown else if v = 1 then Pedestrian else if v = 2 then Cyclist
      else if v = 3 then Moped else if v = 4 then Motorcycle else if v = 5 then Passenger_Car
      else if v = 6 then Bus else if v = 7 then Light_Truck else if v = 8 then Heavy_Truck
      else if v = 9 then Trailer else if v = 10 then Special_Vehicle else if v = 11 then Tram
      else if v = 15 then RSU else StationType_unnamed v)"

record Address =
  is_manually_configured :: bool
  station_type :: StationType
  country_code :: "10 word"
  mid :: MacAddress

definition address_of_mac :: "MacAddress \<Rightarrow> Address" where
  "address_of_mac addr = \<lparr>is_manually_configured = False, station_type = Unknown,
     country_code = 0, mid = addr\<rparr>"

definition address_word :: "Address \<Rightarrow> u16" where
  "address_word addr =
     (let w = bit_raw (country_code addr);
          w = w OR (push_bit 10 (ucast (station_type_raw (station_type addr))) AND 0x7c00)
      in w OR (if is_manually_configured addr then 0x8000 else 0x0000))"

definition serialize_address :: "Address \<Rightarrow> byte list" where
  "serialize_address addr = serialize_int (address_word addr) @ serialize_mac (mid addr)"

definition deserialize_address :: "Address reader" where
  "deserialize_address =
     rbind deserialize_int (\<lambda>tmp :: u16. rbind deserialize_mac (\<lambda>m.
       rreturn \<lparr>is_manually_configured = (tmp AND 0x8000) \<noteq> 0,
                station_type = station_type_cast (ucast (drop_bit 10 (tmp AND 0x7c00))),
                country_code = bit_number (tmp AND 0x03ff),
                mid = m\<rparr>))"

text \<open>Canonical addresses: the station type is one that five bits can carry.\<close>

definition wf_station_type :: "StationType \<Rightarrow> bool" where
  "wf_station_type st \<longleftrightarrow> station_type_raw st < 32 \<and> station_type_cast (station_type_raw st) = st"

definition wf_address :: "Address \<Rightarrow> bool" where
  "wf_address addr \<longleftrightarrow> wf_station_type (station_type addr)"

section \<open>Time stamps (timestamp.hpp, timestamp.cpp)\<close>

type_synonym Timestamp = u32

text \<open>\<^verbatim>\<open>duration_cast<milliseconds>\<close> truncates towards zero; the count is stored in 32 bits.\<close>

definition timestamp_of_clock :: "time_point \<Rightarrow> Timestamp" where
  "timestamp_of_clock t = word_of_int (sgn t * (\<bar>t\<bar> div 1000))"

definition is_greater :: "Timestamp \<Rightarrow> Timestamp \<Rightarrow> bool" where
  "is_greater lhs rhs \<longleftrightarrow>
     (rhs < lhs \<and> lhs - rhs \<le> 0xffffffff div 2) \<or> (lhs < rhs \<and> 0xffffffff div 2 < rhs - lhs)"

definition timestamp_less :: "Timestamp \<Rightarrow> Timestamp \<Rightarrow> bool" where
  "timestamp_less lhs rhs \<longleftrightarrow> \<not> is_greater lhs rhs \<and> lhs \<noteq> rhs"

definition timestamp_plus :: "Timestamp \<Rightarrow> u32 \<Rightarrow> Timestamp" where
  "timestamp_plus lhs rhs = lhs + rhs"

definition timestamp_minus :: "Timestamp \<Rightarrow> u32 \<Rightarrow> Timestamp" where
  "timestamp_minus lhs rhs = lhs - rhs"

definition timestamp_diff :: "Timestamp \<Rightarrow> Timestamp \<Rightarrow> u32" where
  "timestamp_diff lhs rhs = lhs - rhs"

definition serialize_timestamp :: "Timestamp \<Rightarrow> byte list" where
  "serialize_timestamp ts = serialize_int ts"

definition deserialize_timestamp :: "Timestamp reader" where
  "deserialize_timestamp = deserialize_int"

definition before :: "Timestamp \<Rightarrow> Timestamp \<Rightarrow> bool" where
  "before ts other \<longleftrightarrow> timestamp_less ts other"

text \<open>\<^verbatim>\<open>operator>\<close> comes from \<^verbatim>\<open>boost::totally_ordered\<close>: \<open>x > y\<close> is \<open>y < x\<close>.\<close>

definition after :: "Timestamp \<Rightarrow> Timestamp \<Rightarrow> bool" where
  "after ts other \<longleftrightarrow> timestamp_less other ts"

section \<open>Sequence numbers (sequence\_number.hpp, sequence\_number.cpp)\<close>

type_synonym SequenceNumber = u16

definition sequence_number_less :: "SequenceNumber \<Rightarrow> SequenceNumber \<Rightarrow> bool" where
  "sequence_number_less sn other \<longleftrightarrow>
     (sn < other \<and> other - sn \<le> 0xffff div 2) \<or> (other < sn \<and> 0xffff div 2 < sn - other)"

text \<open>\<^verbatim>\<open>operator++(int)\<close> returns the old value and the incremented number.\<close>

definition sequence_number_post_increment :: "SequenceNumber \<Rightarrow> SequenceNumber \<times> SequenceNumber" where
  "sequence_number_post_increment sn = (sn, sn + 1)"

definition serialize_sequence_number :: "SequenceNumber \<Rightarrow> byte list" where
  "serialize_sequence_number sn = serialize_int sn"

definition deserialize_sequence_number :: "SequenceNumber reader" where
  "deserialize_sequence_number = deserialize_int"

section \<open>Packet lifetimes (lifetime.hpp, lifetime.cpp)\<close>

type_synonym Lifetime = u8

datatype LifetimeBase = Fifty_Milliseconds | One_Second | Ten_Seconds | Hundred_Seconds

fun lifetime_base_raw :: "LifetimeBase \<Rightarrow> u8" where
  "lifetime_base_raw Fifty_Milliseconds = 0"
| "lifetime_base_raw One_Second = 1"
| "lifetime_base_raw Ten_Seconds = 2"
| "lifetime_base_raw Hundred_Seconds = 3"

definition lifetime_set :: "LifetimeBase \<Rightarrow> 6 word \<Rightarrow> Lifetime" where
  "lifetime_set base multiplier =
     push_bit 2 (bit_raw multiplier) OR (lifetime_base_raw base AND 0x03)"

definition lifetime_zero :: Lifetime where
  "lifetime_zero = lifetime_set Fifty_Milliseconds 0"

text \<open>
  \<^verbatim>\<open>decode()\<close>, in seconds. The base field has two bits, so the source's
  \<^verbatim>\<open>default\<close> branch, which throws, cannot be reached; the last branch is base 3.
\<close>

definition lifetime_decode :: "Lifetime \<Rightarrow> real" where
  "lifetime_decode l =
     (let base = l AND 0x03;
          multiplier = real (unat (drop_bit 2 (l AND 0xFC)));
          unit = (if base = 0 then 0.050 else if base = 1 then 1.0
                  else if base = 2 then 10.0 else 100.0)
      in multiplier * unit)"

text \<open>\<^verbatim>\<open>std::lround\<close>: nearest integer, halfway cases away from zero.\<close>

definition lround :: "real \<Rightarrow> int" where
  "lround x = (if 0 \<le> x then \<lfloor>x + 1 / 2\<rfloor> else - \<lfloor>- x + 1 / 2\<rfloor>)"

text \<open>
  \<^verbatim>\<open>BitNumber<uint8_t, 6>\<close> from the \<^verbatim>\<open>long\<close> that \<^verbatim>\<open>lround\<close> returns: converted
  to eight bits first, masked to six afterwards.
\<close>

definition lifetime_multiplier :: "int \<Rightarrow> 6 word" where
  "lifetime_multiplier v = bit_number (word_of_int v :: u8)"

definition lifetime_encode :: "real \<Rightarrow> Lifetime" where
  "lifetime_encode seconds =
     (if seconds \<ge> 630.0 then
        lifetime_set Hundred_Seconds (lifetime_multiplier (lround (seconds / 100.0)))
      else if seconds \<ge> 63.0 then
        lifetime_set Ten_Seconds (lifetime_multiplier (lround (seconds / 10.0)))
      else if seconds \<ge> 3.15 then
        lifetime_set One_Second (lifetime_multiplier (lround seconds))
      else
        lifetime_set Fifty_Milliseconds (lifetime_multiplier (lround (seconds / 0.050))))"

definition lifetime_less :: "Lifetime \<Rightarrow> Lifetime \<Rightarrow> bool" where
  "lifetime_less l other \<longleftrightarrow> lifetime_decode l < lifetime_decode other"

definition lifetime_eq :: "Lifetime \<Rightarrow> Lifetime \<Rightarrow> bool" where
  "lifetime_eq l other \<longleftrightarrow> \<bar>lifetime_decode l - lifetime_decode other\<bar> < 0.050"

definition serialize_lifetime :: "Lifetime \<Rightarrow> byte list" where
  "serialize_lifetime lifetime = serialize_int lifetime"

definition deserialize_lifetime :: "Lifetime reader" where
  "deserialize_lifetime = deserialize_int"

text \<open>The length of one step of each base, in seconds.\<close>

fun lifetime_unit :: "LifetimeBase \<Rightarrow> real" where
  "lifetime_unit Fifty_Milliseconds = 0.050"
| "lifetime_unit One_Second = 1"
| "lifetime_unit Ten_Seconds = 10"
| "lifetime_unit Hundred_Seconds = 100"

section \<open>Traffic classes (traffic\_class.hpp, traffic\_class.cpp, dcc/profile.hpp)\<close>

type_synonym TrafficClass = u8

datatype Profile = DP0 | DP1 | DP2 | DP3

definition store_carry_forward :: "TrafficClass \<Rightarrow> bool" where
  "store_carry_forward tc \<longleftrightarrow> (tc AND 0x80) \<noteq> 0"

definition set_store_carry_forward :: "bool \<Rightarrow> TrafficClass \<Rightarrow> TrafficClass" where
  "set_store_carry_forward flag tc = (if flag then tc OR 0x80 else tc AND NOT 0x80)"

definition channel_offload :: "TrafficClass \<Rightarrow> bool" where
  "channel_offload tc \<longleftrightarrow> (tc AND 0x40) \<noteq> 0"

definition set_channel_offload :: "bool \<Rightarrow> TrafficClass \<Rightarrow> TrafficClass" where
  "set_channel_offload flag tc = (if flag then tc OR 0x40 else tc AND NOT 0x40)"

definition tc_id :: "TrafficClass \<Rightarrow> 6 word" where
  "tc_id tc = bit_number (tc AND 0x3f)"

definition set_tc_id :: "6 word \<Rightarrow> TrafficClass \<Rightarrow> TrafficClass" where
  "set_tc_id n tc = (tc AND NOT 0x3f) OR (bit_raw n AND 0x3f)"

definition traffic_class :: "bool \<Rightarrow> bool \<Rightarrow> 6 word \<Rightarrow> TrafficClass" where
  "traffic_class scf ch_offload tc =
     set_tc_id tc (set_channel_offload ch_offload (set_store_carry_forward scf 0))"

definition map_tc_onto_profile :: "TrafficClass \<Rightarrow> Profile" where
  "map_tc_onto_profile tc =
     (if tc_id tc = 0 then DP0 else if tc_id tc = 1 then DP1
      else if tc_id tc = 2 then DP2 else DP3)"

definition serialize_traffic_class :: "TrafficClass \<Rightarrow> byte list" where
  "serialize_traffic_class tc = serialize_int tc"

definition deserialize_traffic_class :: "TrafficClass reader" where
  "deserialize_traffic_class = deserialize_int"

section \<open>Addresses: codec and textual form\<close>

interpretation mac_codec: wire_codec "\<lambda>_. True" serialize_mac deserialize_mac 6
proof
  fix x rest e
  show "length (serialize_mac x) = 6" by (cases x) (simp add: serialize_mac_def)
  show "deserialize_mac \<lparr>stream = serialize_mac x @ rest, error_code = e\<rparr>
          = (Inr x, \<lparr>stream = rest, error_code = e\<rparr>)"
    by (cases x) (simp add: serialize_mac_def deserialize_mac_def wire_simps)
  show "decodes deserialize_mac 6 (\<lambda>x bs. True \<and> serialize_mac x = bs)"
    unfolding deserialize_mac_def
    by ((rule decodes_bind, rule wire_reads, simp)+, rule decodes_returnI)
      (auto simp: serialize_mac_def)
qed

lemma station_type_raw_cast [simp]: "station_type_raw (station_type_cast v) = v"
  by (simp add: station_type_cast_def)

lemma address_masks:
  "(0x7c00 :: u16) = push_bit 10 (mask 5)" "(0x8000 :: u16) = NOT (mask 15)"
  "(0x3ff :: u16) = mask 10"
  by (simp_all add: mask_eq_exp_minus_1)

lemma bit_address_word:
  "bit (address_word addr) n \<longleftrightarrow>
     (n < 10 \<and> bit (country_code addr) n)
     \<or> (10 \<le> n \<and> n < 15 \<and> bit (station_type_raw (station_type addr)) (n - 10))
     \<or> (n = 15 \<and> is_manually_configured addr)"
  unfolding address_word_def address_masks
  by (auto simp: bit_raw_def bit_simps Let_def dest: bit_imp_le_length)

lemma address_word_fields:
  "bit_number (address_word addr AND 0x03ff) = country_code addr"
  "station_type_raw (station_type addr) < 32 \<Longrightarrow>
     ucast (drop_bit 10 (address_word addr AND 0x7c00)) = station_type_raw (station_type addr)"
  "address_word addr AND 0x8000 \<noteq> 0 \<longleftrightarrow> is_manually_configured addr"
proof -
  show "bit_number (address_word addr AND 0x03ff) = country_code addr"
    unfolding address_masks by (rule bit_word_eqI) (auto simp: bit_simps bit_number_def bit_address_word not_less)
  show "ucast (drop_bit 10 (address_word addr AND 0x7c00)) = station_type_raw (station_type addr)"
    if "station_type_raw (station_type addr) < 32"
    using bit_word_less [of "station_type_raw (station_type addr)" 5] that unfolding address_masks
    by (intro bit_word_eqI) (force simp: bit_simps bit_address_word not_less)
  have "address_word addr AND 0x8000 = (if is_manually_configured addr then 0x8000 else 0)"
    unfolding address_masks by (rule bit_word_eqI) (auto simp: bit_simps bit_address_word not_less)
  then show "address_word addr AND 0x8000 \<noteq> 0 \<longleftrightarrow> is_manually_configured addr" by simp
qed

lemma address_word_deserialized:
  "address_word \<lparr>is_manually_configured = (tmp AND 0x8000) \<noteq> 0,
     station_type = station_type_cast (ucast (drop_bit 10 (tmp AND 0x7c00))),
     country_code = bit_number (tmp AND 0x03ff), mid = m\<rparr> = tmp"
  (is "address_word ?a = tmp")
proof -
  have "tmp AND 0x8000 = (if bit tmp 15 then 0x8000 else 0)"
    unfolding address_masks
  proof (rule bit_word_eqI)
    fix n assume "n < LENGTH(16)"
    then show "bit (tmp AND NOT (mask 15) :: u16) n = bit (if bit tmp 15 then NOT (mask 15) else 0 :: u16) n"
      by (cases "n = 15") (auto simp: bit_simps)
  qed
  then have "(tmp AND 0x8000) \<noteq> 0 \<longleftrightarrow> bit tmp 15" by simp
  then have "bit (address_word ?a) n = bit tmp n" if "n < 16" for n
    using that unfolding address_masks
    by (cases "n = 15") (auto simp: bit_simps bit_address_word bit_number_def)
  then show ?thesis by (intro bit_word_eqI) simp
qed

lemma wf_station_type_cast: "wf_station_type (station_type_cast (ucast (drop_bit 10 (tmp AND 0x7c00) :: u16)))"
proof -
  have "ucast (drop_bit 10 (tmp AND 0x7c00) :: u16) = take_bit 5 (ucast (drop_bit 10 tmp) :: u32)"
    unfolding address_masks by (rule bit_word_eqI) (auto simp: bit_simps not_less)
  then show ?thesis
    by (simp add: wf_station_type_def take_bit_eq_mod word_mod_less_divisor)
qed

interpretation address_codec: wire_codec wf_address serialize_address deserialize_address 8
proof
  fix x rest e
  show "length (serialize_address x) = 8"
    by (simp add: serialize_address_def mac_codec.ser_length)
  assume "wf_address x"
  then show "deserialize_address \<lparr>stream = serialize_address x @ rest, error_code = e\<rparr>
          = (Inr x, \<lparr>stream = rest, error_code = e\<rparr>)"
    by (simp add: wf_address_def wf_station_type_def serialize_address_def deserialize_address_def
        wire_simps mac_codec.roundtrip address_word_fields del: drop_bit_and)
next
  show "decodes deserialize_address 8 (\<lambda>x bs. wf_address x \<and> serialize_address x = bs)"
    unfolding deserialize_address_def
    by ((rule decodes_bind, rule wire_reads mac_codec.reads, simp)+, rule decodes_returnI)
      (auto simp: serialize_address_def address_word_deserialized wf_address_def wf_station_type_cast
        simp del: drop_bit_and)
qed

lemma split_colon_nocolon: "CHR '':'' \<notin> set s \<Longrightarrow> split_colon s = [s]"
  by (induction s) auto

lemma split_colon_append: "CHR '':'' \<notin> set s \<Longrightarrow> split_colon (s @ CHR '':'' # t) = s # split_colon t"
  by (induction s) auto

lemma hex_digit_props: "n < 16 \<Longrightarrow> isxdigit (hex_digit n) \<and> hex_digit n \<noteq> CHR '':'' \<and> xdigit_value (hex_digit n) = n"
proof -
  have "\<forall>n \<in> set [0..<16]. isxdigit (hex_digit n) \<and> hex_digit n \<noteq> CHR '':'' \<and> xdigit_value (hex_digit n) = n"
    by code_simp
  then show "n < 16 \<Longrightarrow> ?thesis" by (simp del: upt_rec_numeral)
qed

lemma print_octet_props:
  "octet_checker (print_octet w)" "CHR '':'' \<notin> set (print_octet w)" "strtol16 (print_octet w) = unat w"
proof -
  have lt: "unat w div 16 < 16" "unat w mod 16 < 16" using unsigned_less [of w, where ?'a = nat] by auto
  note h = hex_digit_props [OF lt(1)] hex_digit_props [OF lt(2)]
  from h show "octet_checker (print_octet w)" "CHR '':'' \<notin> set (print_octet w)" "strtol16 (print_octet w) = unat w"
   by (auto simp: print_octet_def octet_checker_def strtol16_def)
qed

text \<open>
   parsing the printed form of a link-layer address gives that address back.
\<close>

theorem parse_print_mac: "parse_mac_address (print_mac_address a) = Some a"
proof (cases a)
  case (MacAddress a b c d e f)
  then show ?thesis
    by (simp add: parse_mac_address_def split_colon_append split_colon_nocolon print_octet_props)
qed

lemma parse_mac_address_format:
  "parse_mac_address s = Some a \<Longrightarrow> length (split_colon s) = 6 \<and> list_all octet_checker (split_colon s)"
  unfolding parse_mac_address_def
  by (cases "split_colon s"; simp split: list.splits if_splits)

text \<open>
   the link-layer address \<^verbatim>\<open>operator<\<close> is not an order: two addresses can each be less
  than the other, because any smaller octet decides the comparison, whatever the octets before it.
\<close>

theorem mac_less_not_asym:
  "mac_less (MacAddress 0 1 0 0 0 0) (MacAddress 1 0 0 0 0 0)
   \<and> mac_less (MacAddress 1 0 0 0 0 0) (MacAddress 0 1 0 0 0 0)"
  by (simp add: mac_less_def)

section \<open>Time stamps and sequence numbers: comparison\<close>

lemma is_greater_serial: "is_greater = serial_greater 0x7fffffff"
  by (intro ext) (simp add: is_greater_def serial_greater_def)

lemma sequence_number_less_serial: "sequence_number_less x y = serial_greater 0x7fff y x"
  by (simp add: sequence_number_less_def serial_greater_def)

lemma timestamp_less_serial: "timestamp_less x y = serial_greater 0x7fffffff y x"
  unfolding timestamp_less_def is_greater_serial
  by (metis serial_greater_irrefl serial_greater_total)

lemma after_is_greater: "after = is_greater"
  by (intro ext) (simp add: after_def timestamp_less_serial is_greater_serial)

text \<open>
   time stamps and sequence numbers are ordered modulo wrap-around. Advancing by any amount up
  to half the range gives a later value, whether or not the addition overflows, and of two
  different values exactly one is the later.
\<close>

theorem wrap_around_order:
  "d \<noteq> 0 \<Longrightarrow> d \<le> 0x7fffffff \<Longrightarrow> e \<noteq> 0 \<Longrightarrow> e \<le> 0x7fff \<Longrightarrow>
     after (timestamp_plus ts d) ts \<and> before ts (timestamp_plus ts d)
     \<and> \<not> after ts (timestamp_plus ts d)
     \<and> sequence_number_less sn (sn + e) \<and> \<not> sequence_number_less (sn + e) sn"
  using serial_greater_advance [of d "0x7fffffff" ts] serial_greater_advance [of e "0x7fff" sn]
    serial_greater_total [of "ts + d" ts "0x7fffffff"] serial_greater_total [of "sn + e" sn "0x7fff"]
  by (simp add: before_def after_def timestamp_less_serial sequence_number_less_serial
      timestamp_plus_def half_range_32 half_range_16)

theorem wrap_around_order_witness:
  "after (timestamp_plus 0xfffffff0 0x20) 0xfffffff0 \<and> sequence_number_less 0xfff0 (0xfff0 + 0x20)"
  using wrap_around_order [of 32 32 "0xfffffff0" "0xfff0"] by simp

section \<open>Lifetimes: accuracy\<close>

lemma lround_of_int [simp]: "lround (of_int k) = k"
  by (auto simp: lround_def floor_add2 floor_of_int)

lemma lround_of_nat [simp]: "lround (real k) = int k"
  using lround_of_int [of "int k"] by simp

lemma lround_error: "\<bar>of_int (lround x) - x\<bar> \<le> 1 / 2"
proof -
  have "\<bar>of_int \<lfloor>y + 1 / 2\<rfloor> - y\<bar> \<le> 1 / 2" for y :: real
    using of_int_floor_le [of "y + 1 / 2"] real_of_int_floor_add_one_gt [of "y + 1 / 2"] by linarith
  from this [of x] this [of "- x"] show ?thesis by (auto simp: lround_def abs_if split: if_splits)
qed

lemma lifetime_masks: "(0x03 :: u8) = mask 2" "(0xFC :: u8) = push_bit 2 (mask 6)"
  by (simp_all add: mask_eq_exp_minus_1)

lemma lifetime_base_field: "lifetime_set b m AND 0x03 = lifetime_base_raw b"
proof -
  have "lifetime_base_raw b AND mask 2 = lifetime_base_raw b"
    by (cases b) (simp_all add: mask_eq_exp_minus_1)
  moreover have "push_bit 2 (bit_raw m) AND (mask 2 :: u8) = 0"
    by (rule bit_word_eqI) (auto simp: bit_simps)
  ultimately show ?thesis
    unfolding lifetime_set_def lifetime_masks by (simp add: bit.conj_disj_distribs ac_simps)
qed

lemma lifetime_multiplier_field: "drop_bit 2 (lifetime_set b m AND 0xFC) = (bit_raw m :: u8)"
  unfolding lifetime_set_def lifetime_masks
  by (rule bit_word_eqI) (auto simp: bit_simps bit_raw_def dest: bit_imp_le_length)

lemma lifetime_decode_set: "lifetime_decode (lifetime_set b m) = real (unat m) * lifetime_unit b"
proof -
  have "unat (bit_raw m :: u8) = unat m"
    using unsigned_less [of m, where ?'a = nat]
    by (simp add: bit_raw_def unsigned_ucast_eq take_bit_nat_eq_self)
  then show ?thesis
    unfolding lifetime_decode_def Let_def lifetime_base_field lifetime_multiplier_field
    by (cases b) simp_all
qed

lemma lifetime_exhaust: obtains b m where "l = lifetime_set b m"
proof -
  have "\<exists>b. lifetime_base_raw b = l AND 0x03"
  proof -
    have "unat (l AND 0x03) = unat l mod 4"
      unfolding lifetime_masks by (simp flip: take_bit_eq_mask add: take_bit_eq_mod unat_mod_distrib)
    moreover have "unat l mod 4 \<in> {0, 1, 2, 3}" by auto
    ultimately have "l AND 0x03 \<in> {0, 1, 2, 3}" by (auto simp: word_unat_eq_iff)
    then show ?thesis using lifetime_base_raw.simps by (metis empty_iff insert_iff)
  qed
  then obtain b where b: "lifetime_base_raw b = l AND 0x03" by blast
  have "l = lifetime_set b (bit_number (drop_bit 2 l))"
    unfolding lifetime_set_def b lifetime_masks
    by (rule bit_word_eqI) (auto simp: bit_simps bit_raw_def bit_number_def Suc_Suc_diff)
  then show ?thesis by (rule that)
qed

lemma unat_lifetime_multiplier: "0 \<le> v \<Longrightarrow> v < 64 \<Longrightarrow> unat (lifetime_multiplier v) = nat v"
  by (simp add: lifetime_multiplier_def bit_number_def unsigned_ucast_eq unsigned_take_bit_eq
      take_bit_eq_mod unsigned_of_int)

lemma lifetime_decode_exact:
  assumes "j < 64" and "d = real j * lifetime_unit b"
  shows "lifetime_decode (lifetime_set b (lifetime_multiplier (lround (d / lifetime_unit b)))) = d"
proof -
  have "d / lifetime_unit b = real j" using assms(2) by (cases b) simp_all
  with assms show ?thesis by (simp add: lifetime_decode_set unat_lifetime_multiplier)
qed

lemma lifetime_encode_exact:
  assumes "j < 64" and "d = real j * lifetime_unit b"
    and "b = (if d \<ge> 630 then Hundred_Seconds else if d \<ge> 63 then Ten_Seconds
              else if d \<ge> 3.15 then One_Second else Fifty_Milliseconds)"
  shows "lifetime_decode (lifetime_encode d) = d"
proof -
  have "lifetime_encode d = lifetime_set b (lifetime_multiplier (lround (d / lifetime_unit b)))"
    unfolding lifetime_encode_def assms(3) by simp
  then show ?thesis using lifetime_decode_exact [OF assms(1,2)] by simp
qed

text \<open>
   a lifetime that was decoded and is encoded again denotes the same duration, except at the
  three durations 3.15 s, 63 s and 630 s, the upper ends of the ranges, where the comparison with
  \<^verbatim>\<open>>=\<close> selects the next coarser base.
\<close>

theorem lifetime_roundtrip:
  assumes "lifetime_decode l \<notin> {3.15, 63, 630}"
  shows "lifetime_decode (lifetime_encode (lifetime_decode l)) = lifetime_decode l"
proof -
  obtain b m where l: "l = lifetime_set b m" by (rule lifetime_exhaust)
  define k d where "k = unat m" and "d = lifetime_decode l"
  have k: "k < 64" using unsigned_less [of m, where ?'a = nat] by (simp add: k_def)
  have d: "d = real k * lifetime_unit b" by (simp add: k_def d_def l lifetime_decode_set)
  have n: "d \<noteq> 3.15" "d \<noteq> 63" "d \<noteq> 630" using assms by (simp_all add: d_def)
  have z: "k = 0 \<Longrightarrow> lifetime_decode (lifetime_encode d) = d"
    using lifetime_encode_exact [of 0 d Fifty_Milliseconds] d by simp
  show ?thesis
    unfolding d_def [symmetric]
  proof (cases b)
    case Fifty_Milliseconds
    with d k n show "lifetime_decode (lifetime_encode d) = d"
      by (intro lifetime_encode_exact [of k]) auto
  next
    case One_Second
    show "lifetime_decode (lifetime_encode d) = d"
    proof (cases "k \<ge> 4")
      case True with One_Second d k n show ?thesis by (intro lifetime_encode_exact [of k]) auto
    next
      case False with One_Second d show ?thesis
        by (intro lifetime_encode_exact [of "20 * k" d Fifty_Milliseconds]) auto
    qed
  next
    case Ten_Seconds
    consider "k = 0" | "1 \<le> k" "k < 7" | "7 \<le> k" by linarith
    then show "lifetime_decode (lifetime_encode d) = d"
    proof cases
      case 2 with Ten_Seconds d show ?thesis
        by (intro lifetime_encode_exact [of "10 * k" d One_Second]) auto
    next
      case 3 with Ten_Seconds d k n show ?thesis by (intro lifetime_encode_exact [of k]) auto
    qed (rule z)
  next
    case Hundred_Seconds
    consider "k = 0" | "1 \<le> k" "k < 7" | "7 \<le> k" by linarith
    then show "lifetime_decode (lifetime_encode d) = d"
    proof cases
      case 2 with Hundred_Seconds d show ?thesis
        by (intro lifetime_encode_exact [of "10 * k" d Ten_Seconds]) auto
    next
      case 3 with Hundred_Seconds d k n show ?thesis by (intro lifetime_encode_exact [of k]) auto
    qed (rule z)
  qed
qed

theorem lifetime_roundtrip_witness:
  "lifetime_decode 9 \<notin> {3.15, 63, 630}
   \<and> lifetime_decode (lifetime_encode (lifetime_decode 9)) = lifetime_decode 9"
proof -
  have "lifetime_decode 9 = 2"
    by (simp add: lifetime_decode_def)
  then show ?thesis using lifetime_roundtrip [of 9] by simp
qed

text \<open>
   encoding a duration below 6350 s loses at most half a step of the base that
  \<^verbatim>\<open>encode\<close> selects: 25 ms below 3.15 s, 0.5 s below 63 s, 5 s below 630 s
  and 50 s above.
\<close>

theorem lifetime_encode_error:
  assumes "0 \<le> s" and "s < 6350"
  shows "\<bar>lifetime_decode (lifetime_encode s) - s\<bar> \<le>
    (if s \<ge> 630 then 50 else if s \<ge> 63 then 5 else if s \<ge> 3.15 then 0.5 else 0.025)"
proof -
  have step: "\<bar>real (unat (lifetime_multiplier (lround (s / u)))) * u - s\<bar> \<le> u / 2"
    if "0 < u" and "s / u < 63 + 1 / 2" for u
  proof -
    have "0 \<le> lround (s / u)" using assms(1) that(1) by (simp add: lround_def)
    moreover have "lround (s / u) < 64" using assms(1) that lround_error [of "s / u"] by linarith
    ultimately have "real (unat (lifetime_multiplier (lround (s / u)))) = of_int (lround (s / u))"
      by (simp add: unat_lifetime_multiplier)
    moreover have "\<bar>of_int (lround (s / u)) * u - s\<bar> = \<bar>of_int (lround (s / u)) - s / u\<bar> * u"
      using that(1) by (simp add: abs_mult_pos field_simps)
    ultimately show ?thesis
      using lround_error [of "s / u"] that(1) by (simp add: mult_right_mono)
  qed
  show ?thesis
    using step [of 100] step [of 10] step [of 1] step [of "0.05"] assms
    by (auto simp: lifetime_encode_def lifetime_decode_set)
qed

theorem lifetime_encode_error_witness:
  "0 \<le> (100 :: real) \<and> (100 :: real) < 6350 \<and> \<bar>lifetime_decode (lifetime_encode 100) - 100\<bar> \<le> 5"
  using lifetime_encode_error [of 100] by simp

text \<open>
   the boundary durations that the four bases represent exactly are rounded down to 3 s, 60 s
  and 600 s, and 6400 s, one step above the largest representable duration, wraps to zero.
\<close>

theorem lifetime_boundary:
  "lifetime_decode (lifetime_encode 3.15) = 3 \<and> lifetime_decode (lifetime_encode 63) = 60
   \<and> lifetime_decode (lifetime_encode 630) = 600 \<and> lifetime_decode (lifetime_encode 6400) = 0"
proof -
  have r: "lround (63 / 10) = 6" "lround (630 / 100) = 6" "lround 64 = 64" "lround (63 / 20) = 3"
    by (simp_all add: lround_def)
  show ?thesis
    by (simp add: lifetime_encode_def lifetime_decode_set r lifetime_multiplier_def bit_number_def)
qed

lemma tc_masks: "(0x80 :: u8) = NOT (mask 7)" "(0x3f :: u8) = mask 6"
  by (simp_all add: mask_eq_exp_minus_1)

lemma tc_bits: "store_carry_forward tc \<longleftrightarrow> bit tc 7" "channel_offload tc \<longleftrightarrow> bit tc 6"
  by (simp_all add: store_carry_forward_def channel_offload_def bit_iff_and_push_bit_not_eq_0)

lemma set_flag_eq:
  "set_store_carry_forward flag tc = (if flag then set_bit 7 tc else unset_bit 7 tc)"
  "set_channel_offload flag tc = (if flag then set_bit 6 tc else unset_bit 6 tc)"
  by (simp_all add: set_store_carry_forward_def set_channel_offload_def set_bit_eq_or
      unset_bit_eq_and_not)

lemma traffic_class_fields:
  "store_carry_forward (traffic_class scf co tc) = scf"
  "channel_offload (traffic_class scf co tc) = co"
  "tc_id (traffic_class scf co tc) = tc"
proof -
  have b: "bit (traffic_class scf co tc) n \<longleftrightarrow> (n = 7 \<and> scf) \<or> (n = 6 \<and> co) \<or> (n < 6 \<and> bit tc n)" for n
    unfolding traffic_class_def set_tc_id_def set_flag_eq tc_masks
    by (auto simp: bit_simps bit_raw_def dest: bit_imp_le_length)
  show "store_carry_forward (traffic_class scf co tc) = scf"
    "channel_offload (traffic_class scf co tc) = co" by (simp_all add: tc_bits b)
  show "tc_id (traffic_class scf co tc) = tc"
    unfolding tc_id_def tc_masks by (rule bit_word_eqI) (auto simp: bit_simps bit_number_def b)
qed

section \<open>Codecs of the one-word types\<close>

interpretation timestamp_codec: wire_codec "\<lambda>_. True" serialize_timestamp deserialize_timestamp 4
  unfolding serialize_timestamp_def deserialize_timestamp_def by (rule u32c.wire_codec_axioms)

interpretation sequence_number_codec:
  wire_codec "\<lambda>_. True" serialize_sequence_number deserialize_sequence_number 2
  unfolding serialize_sequence_number_def deserialize_sequence_number_def
  by (rule u16c.wire_codec_axioms)

interpretation lifetime_codec: wire_codec "\<lambda>_. True" serialize_lifetime deserialize_lifetime 1
  unfolding serialize_lifetime_def deserialize_lifetime_def by (rule u8c.wire_codec_axioms)

interpretation traffic_class_codec:
  wire_codec "\<lambda>_. True" serialize_traffic_class deserialize_traffic_class 1
  unfolding serialize_traffic_class_def deserialize_traffic_class_def
  by (rule u8c.wire_codec_axioms)

lemmas field_lengths [simp] =
  mac_codec.ser_length address_codec.ser_length timestamp_codec.ser_length
  sequence_number_codec.ser_length lifetime_codec.ser_length traffic_class_codec.ser_length

lemmas field_reads [wire_reads] =
  mac_codec.reads address_codec.reads timestamp_codec.reads sequence_number_codec.reads
  lifetime_codec.reads traffic_class_codec.reads

lemmas field_roundtrips [wire_simps] =
  mac_codec.roundtrip [OF TrueI] address_codec.roundtrip timestamp_codec.roundtrip [OF TrueI]
  sequence_number_codec.roundtrip [OF TrueI] lifetime_codec.roundtrip [OF TrueI]
  traffic_class_codec.roundtrip [OF TrueI]

end
