(* ===== verification/Unit_Interval.thy ===== *)
theory Unit_Interval
  imports Prelude
begin

text \<open>
  Numbers clamped to the unit interval (\<^verbatim>\<open>common/unit_interval.*\<close>) and the channel load
  built on them (\<^verbatim>\<open>dcc/channel_load.*\<close>). Doubles are modelled by reals; a quotient that
  IEEE arithmetic makes NaN is \<^const>\<open>None\<close>.
\<close>

type_synonym UnitInterval = real

type_synonym ChannelLoad = UnitInterval

definition clamp :: "real \<Rightarrow> UnitInterval" where
  "clamp v = (if v > 1 then 1 else if v < 0 then 0 else v)"

definition unit_interval_add :: "UnitInterval \<Rightarrow> real \<Rightarrow> UnitInterval" where
  "unit_interval_add u v = clamp (u + v)"

definition unit_interval_subtract :: "UnitInterval \<Rightarrow> real \<Rightarrow> UnitInterval" where
  "unit_interval_subtract u v = clamp (u - v)"

text \<open>Multiplication by another unit interval does not clamp; by a double it does.\<close>

definition unit_interval_times :: "UnitInterval \<Rightarrow> UnitInterval \<Rightarrow> UnitInterval" where
  "unit_interval_times u v = u * v"

definition unit_interval_scale :: "UnitInterval \<Rightarrow> real \<Rightarrow> UnitInterval" where
  "unit_interval_scale u v = clamp (u * v)"

text \<open>Division enforces the upper limit only; a positive number over zero is infinite.\<close>

definition unit_interval_divide :: "UnitInterval \<Rightarrow> UnitInterval \<Rightarrow> UnitInterval option" where
  "unit_interval_divide u v =
     (if v = 0 then (if u = 0 then None else Some 1) else Some (min (u / v) 1))"

definition complement :: "UnitInterval \<Rightarrow> UnitInterval" where
  "complement u = 1 - u"

definition unit_interval_mean2 :: "UnitInterval \<Rightarrow> UnitInterval \<Rightarrow> UnitInterval" where
  "unit_interval_mean2 lhs rhs = clamp (0.5 * (lhs + rhs))"

definition unit_interval_mean :: "UnitInterval list \<Rightarrow> UnitInterval" where
  "unit_interval_mean xs =
     (let (count, accu) = foldl (\<lambda>(count, accu) x. (count + 1, accu + x)) (0 :: nat, 0) xs
      in clamp (if count > 1 then accu / real count else accu))"

definition create_from_probes :: "u32 \<Rightarrow> u32 \<Rightarrow> UnitInterval" where
  "create_from_probes probes_busy probes_total =
     clamp (if probes_total \<noteq> 0 then real (unat probes_busy) / real (unat probes_total) else 0)"

text \<open>The class invariant: the value lies in the closed unit interval.\<close>

definition unit_interval :: "UnitInterval \<Rightarrow> bool" where
  "unit_interval u \<longleftrightarrow> 0 \<le> u \<and> u \<le> 1"

lemma unit_interval_clamp [simp]: "unit_interval (clamp v)"
  by (simp add: unit_interval_def clamp_def)

lemma clamp_id [simp]: "unit_interval v \<Longrightarrow> clamp v = v"
  by (simp add: unit_interval_def clamp_def)

lemma unit_interval_mult: "unit_interval u \<Longrightarrow> unit_interval v \<Longrightarrow> unit_interval (u * v)"
  by (auto simp: unit_interval_def mult_le_one)

lemma mean_fold:
  "foldl (\<lambda>(count, accu) x. (count + 1, accu + x)) (n, a) xs = (n + length xs, a + sum_list xs)"
  for n :: nat and a :: real
  by (induction xs arbitrary: n a) auto

lemma unit_interval_mean_eq:
  "list_all unit_interval xs \<Longrightarrow> xs \<noteq> [] \<Longrightarrow> unit_interval_mean xs = sum_list xs / real (length xs)"
proof -
  assume xs: "list_all unit_interval xs" "xs \<noteq> []"
  have "0 \<le> sum_list ys \<and> sum_list ys \<le> real (length ys)" if "list_all unit_interval ys" for ys
    using that by (induction ys) (auto simp: unit_interval_def)
  with xs have "unit_interval (sum_list xs / real (length xs))"
    by (simp add: unit_interval_def divide_le_eq)
  moreover have "(if length xs > 1 then sum_list xs / real (length xs) else sum_list xs)
      = sum_list xs / real (length xs)"
    using xs(2) by (cases xs) auto
  ultimately show ?thesis unfolding unit_interval_mean_def mean_fold by simp
qed

lemma unit_interval_mean2_eq:
  "unit_interval u \<Longrightarrow> unit_interval v \<Longrightarrow> unit_interval_mean2 u v = (u + v) / 2"
  unfolding unit_interval_mean2_def by (subst clamp_id) (auto simp: unit_interval_def)

lemma unit_interval_divide_closed:
  "unit_interval u \<Longrightarrow> unit_interval v \<Longrightarrow>
     (case unit_interval_divide u v of Some q \<Rightarrow> unit_interval q | None \<Rightarrow> u = 0 \<and> v = 0)"
  by (auto simp: unit_interval_divide_def unit_interval_def min_def)

lemma create_from_probes_eq:
  "create_from_probes busy probes
     = min 1 (if probes = 0 then 0 else real (unat busy) / real (unat probes))"
proof -
  have "0 \<le> real (unat busy) / real (unat probes)"
    by (rule divide_nonneg_nonneg; rule of_nat_0_le_iff)
  then show ?thesis unfolding create_from_probes_def clamp_def by (auto simp: min_def)
qed

text \<open>
   the class invariant of \<^verbatim>\<open>UnitInterval\<close> holds after every operation, the unclamped
  product, quotient and complement included; the mean of a non-empty range is the arithmetic
  mean, and a channel load is the ratio of its probes, capped at one.
\<close>

theorem unit_interval_invariant:
  assumes "unit_interval u" and "unit_interval v" and "list_all unit_interval xs" and "xs \<noteq> []"
  shows "unit_interval (unit_interval_add u r) \<and> unit_interval (unit_interval_subtract u r)
    \<and> unit_interval (unit_interval_scale u r) \<and> unit_interval (unit_interval_times u v)
    \<and> (case unit_interval_divide u v of Some q \<Rightarrow> unit_interval q | None \<Rightarrow> u = 0 \<and> v = 0)
    \<and> unit_interval (complement u) \<and> unit_interval_mean2 u v = (u + v) / 2
    \<and> unit_interval_mean xs = sum_list xs / real (length xs)
    \<and> create_from_probes busy probes
        = min 1 (if probes = 0 then 0 else real (unat busy) / real (unat probes))"
  using assms unit_interval_divide_closed [of u v] unit_interval_mult [of u v]
  by (simp add: unit_interval_add_def unit_interval_subtract_def unit_interval_scale_def
      unit_interval_times_def unit_interval_mean_eq unit_interval_mean2_eq create_from_probes_eq)
    (simp add: complement_def unit_interval_def)

theorem unit_interval_invariant_witness:
  "unit_interval_mean [1 / 2, 1 / 4] = 3 / 8 \<and> unit_interval (unit_interval_times (1 / 2) (1 / 4))"
  using unit_interval_invariant [of "1 / 2" "1 / 4" "[1 / 2, 1 / 4]" 0 0 0]
  by (simp add: unit_interval_def)

end
