(* ===== verification/Geonet_Headers.thy ===== *)
theory Geonet_Headers
  imports Geonet_Fields Unit_Interval
begin

text \<open>
  The GeoNetworking headers and their wire format: basic and common header, position vectors, the
  DCC field, and the extended headers of single-hop broadcast, topologically-scoped broadcast,
  beacon and geo-broadcast packets (\<^verbatim>\<open>geonet/*_header.*, position_vector.*, dcc_field.*,
  dcc_mco_field.*, header_variant.*, header_type.hpp\<close>). Every header instantiates the codec
  contract, so round trip, injectivity and rejection of truncated input come from the prelude.
\<close>

section \<open>Basic header\<close>

datatype NextHeaderBasic = Basic_Any | Basic_Common | Basic_Secured | NextHeaderBasic_unnamed u8

fun next_header_basic_raw :: "NextHeaderBasic \<Rightarrow> u8" where
  "next_header_basic_raw Basic_Any = 0"
| "next_header_basic_raw Basic_Common = 1"
| "next_header_basic_raw Basic_Secured = 2"
| "next_header_basic_raw (NextHeaderBasic_unnamed v) = v"

definition next_header_basic_cast :: "u8 \<Rightarrow> NextHeaderBasic" where
  "next_header_basic_cast v =
     (if v = 0 then Basic_Any else if v = 1 then Basic_Common else if v = 2 then Basic_Secured
      else NextHeaderBasic_unnamed v)"

record BasicHeader =
  version :: "4 word"
  basic_next_header :: NextHeaderBasic
  basic_reserved :: u8
  lifetime :: Lifetime
  hop_limit :: u8

definition BasicHeader_length_bytes :: nat where
  "BasicHeader_length_bytes = 3 + sizeof TYPE(u8)"

definition version_and_next_header :: "BasicHeader \<Rightarrow> u8" where
  "version_and_next_header hdr =
     push_bit 4 (bit_raw (version hdr)) OR (next_header_basic_raw (basic_next_header hdr) AND 0x0f)"

definition serialize_basic :: "BasicHeader \<Rightarrow> byte list" where
  "serialize_basic hdr =
     serialize_int (version_and_next_header hdr) @ serialize_int (basic_reserved hdr)
     @ serialize_lifetime (lifetime hdr) @ serialize_int (hop_limit hdr)"

definition deserialize_basic :: "BasicHeader reader" where
  "deserialize_basic =
     rbind deserialize_int (\<lambda>w :: u8. rbind deserialize_int (\<lambda>r. rbind deserialize_lifetime (\<lambda>l.
     rbind deserialize_int (\<lambda>h.
       rreturn \<lparr>version = bit_number (drop_bit 4 w),
                basic_next_header = next_header_basic_cast (w AND 0x0f),
                basic_reserved = r, lifetime = l, hop_limit = h\<rparr>))))"

definition wf_basic :: "BasicHeader \<Rightarrow> bool" where
  "wf_basic hdr \<longleftrightarrow>
     (let nh = basic_next_header hdr in
      next_header_basic_raw nh < 16 \<and> next_header_basic_cast (next_header_basic_raw nh) = nh)"

section \<open>Common header\<close>

datatype NextHeaderCommon =
  Common_Any | Common_BTP_A | Common_BTP_B | Common_IPv6 | NextHeaderCommon_unnamed u32

fun next_header_common_raw :: "NextHeaderCommon \<Rightarrow> u32" where
  "next_header_common_raw Common_Any = 0"
| "next_header_common_raw Common_BTP_A = 1"
| "next_header_common_raw Common_BTP_B = 2"
| "next_header_common_raw Common_IPv6 = 3"
| "next_header_common_raw (NextHeaderCommon_unnamed v) = v"

definition next_header_common_cast :: "u32 \<Rightarrow> NextHeaderCommon" where
  "next_header_common_cast v =
     (if v = 0 then Common_Any else if v = 1 then Common_BTP_A else if v = 2 then Common_BTP_B
      else if v = 3 then Common_IPv6 else NextHeaderCommon_unnamed v)"

datatype HeaderType =
    HeaderType_Any | Beacon | GeoUnicast
  | GeoAnycast_Circle | GeoAnycast_Rect | GeoAnycast_Elip
  | GeoBroadcast_Circle | GeoBroadcast_Rect | GeoBroadcast_Elip
  | TSB_Single_Hop | TSB_Multi_Hop | LS_Request | LS_Reply
  | HeaderType_unnamed u8

fun header_type_raw :: "HeaderType \<Rightarrow> u8" where
  "header_type_raw HeaderType_Any = 0x00"
| "header_type_raw Beacon = 0x10"
| "header_type_raw GeoUnicast = 0x20"
| "header_type_raw GeoAnycast_Circle = 0x30"
| "header_type_raw GeoAnycast_Rect = 0x31"
| "header_type_raw GeoAnycast_Elip = 0x32"
| "header_type_raw GeoBroadcast_Circle = 0x40"
| "header_type_raw GeoBroadcast_Rect = 0x41"
| "header_type_raw GeoBroadcast_Elip = 0x42"
| "header_type_raw TSB_Single_Hop = 0x50"
| "header_type_raw TSB_Multi_Hop = 0x51"
| "header_type_raw LS_Request = 0x60"
| "header_type_raw LS_Reply = 0x61"
| "header_type_raw (HeaderType_unnamed v) = v"

definition header_type_cast :: "u8 \<Rightarrow> HeaderType" where
  "header_type_cast v =
     (if v = 0x00 then HeaderType_Any else if v = 0x10 then Beacon else if v = 0x20 then GeoUnicast
      else if v = 0x30 then GeoAnycast_Circle else if v = 0x31 then GeoAnycast_Rect
      else if v = 0x32 then GeoAnycast_Elip else if v = 0x40 then GeoBroadcast_Circle
      else if v = 0x41 then GeoBroadcast_Rect else if v = 0x42 then GeoBroadcast_Elip
      else if v = 0x50 then TSB_Single_Hop else if v = 0x51 then TSB_Multi_Hop
      else if v = 0x60 then LS_Request else if v = 0x61 then LS_Reply
      else HeaderType_unnamed v)"

record CommonHeader =
  next_header :: NextHeaderCommon
  reserved1 :: "4 word"
  header_type :: HeaderType
  ch_traffic_class :: TrafficClass
  flags :: u8
  payload :: u16
  maximum_hop_limit :: u8
  reserved2 :: u8

definition CommonHeader_length_bytes :: nat where
  "CommonHeader_length_bytes = 8"

text \<open>The enumerator is cast to eight bits before the shift drops its upper half.\<close>

definition next_header_and_reserved :: "CommonHeader \<Rightarrow> u8" where
  "next_header_and_reserved hdr =
     push_bit 4 (ucast (next_header_common_raw (next_header hdr))) OR bit_raw (reserved1 hdr)"

definition serialize_common :: "CommonHeader \<Rightarrow> byte list" where
  "serialize_common hdr =
     serialize_int (next_header_and_reserved hdr)
     @ serialize_int (header_type_raw (header_type hdr))
     @ serialize_traffic_class (ch_traffic_class hdr) @ serialize_int (flags hdr)
     @ serialize_int (payload hdr) @ serialize_int (maximum_hop_limit hdr)
     @ serialize_int (reserved2 hdr)"

definition deserialize_common :: "CommonHeader reader" where
  "deserialize_common =
     rbind deserialize_int (\<lambda>w :: u8. rbind deserialize_int (\<lambda>ht.
     rbind deserialize_traffic_class (\<lambda>tc. rbind deserialize_int (\<lambda>f.
     rbind deserialize_int (\<lambda>p. rbind deserialize_int (\<lambda>mhl. rbind deserialize_int (\<lambda>r2.
       rreturn \<lparr>next_header = next_header_common_cast (ucast (drop_bit 4 w)),
                reserved1 = bit_number (w AND 0x0f),
                header_type = header_type_cast ht, ch_traffic_class = tc, flags = f, payload = p,
                maximum_hop_limit = mhl, reserved2 = r2\<rparr>)))))))"

definition wf_common :: "CommonHeader \<Rightarrow> bool" where
  "wf_common hdr \<longleftrightarrow>
     next_header_common_raw (next_header hdr) < 16
     \<and> next_header_common_cast (next_header_common_raw (next_header hdr)) = next_header hdr
     \<and> header_type_cast (header_type_raw (header_type hdr)) = header_type hdr"

section \<open>Position vectors\<close>

text \<open>
  Angles and the heading are scaled integers: latitude and longitude two's complement in units of
  a tenth of a micro degree, the heading in tenths of a degree, the speed in cm/s.
\<close>

record LongPositionVector =
  gn_addr :: Address
  timestamp :: Timestamp
  latitude :: u32
  longitude :: u32
  position_accuracy_indicator :: bool
  speed :: "15 word"
  heading :: u16

record ShortPositionVector =
  spv_gn_addr :: Address
  spv_timestamp :: Timestamp
  spv_latitude :: u32
  spv_longitude :: u32

definition LongPositionVector_length_bytes :: nat where
  "LongPositionVector_length_bytes = 24"

definition zero_position_vector :: LongPositionVector where
  "zero_position_vector = \<lparr>gn_addr = address_of_mac mac_zero, timestamp = 0, latitude = 0,
     longitude = 0, position_accuracy_indicator = False, speed = 0, heading = 0\<rparr>"

definition spv_of_lpv :: "LongPositionVector \<Rightarrow> ShortPositionVector" where
  "spv_of_lpv lpv = \<lparr>spv_gn_addr = gn_addr lpv, spv_timestamp = timestamp lpv,
     spv_latitude = latitude lpv, spv_longitude = longitude lpv\<rparr>"

text \<open>\<^verbatim>\<open>operator==\<close>, field by field, and the tests built on it.\<close>

definition lpv_eq :: "LongPositionVector \<Rightarrow> LongPositionVector \<Rightarrow> bool" where
  "lpv_eq lhs rhs \<longleftrightarrow>
     gn_addr lhs = gn_addr rhs \<and> timestamp lhs = timestamp rhs \<and> latitude lhs = latitude rhs
     \<and> longitude lhs = longitude rhs \<and> speed lhs = speed rhs \<and> heading lhs = heading rhs
     \<and> position_accuracy_indicator lhs = position_accuracy_indicator rhs"

definition is_empty :: "LongPositionVector \<Rightarrow> bool" where
  "is_empty pv \<longleftrightarrow> lpv_eq pv zero_position_vector"

definition is_valid :: "LongPositionVector \<Rightarrow> bool" where
  "is_valid pv =
     (if is_empty pv then False
      else if sint (latitude pv) < - 900000000 \<or> sint (latitude pv) > 900000000 then False
      else if sint (longitude pv) < - 1800000000 \<or> sint (longitude pv) > 1800000000 then False
      else if heading pv > 3600 then False
      else True)"

definition pai_and_speed :: "LongPositionVector \<Rightarrow> u16" where
  "pai_and_speed lpv =
     bit_raw (speed lpv) OR (if position_accuracy_indicator lpv then 0x8000 else 0x0000)"

definition serialize_lpv :: "LongPositionVector \<Rightarrow> byte list" where
  "serialize_lpv lpv =
     serialize_address (gn_addr lpv) @ serialize_timestamp (timestamp lpv)
     @ serialize_int (latitude lpv) @ serialize_int (longitude lpv)
     @ serialize_int (pai_and_speed lpv) @ serialize_int (heading lpv)"

definition deserialize_lpv :: "LongPositionVector reader" where
  "deserialize_lpv =
     rbind deserialize_address (\<lambda>a. rbind deserialize_timestamp (\<lambda>t.
     rbind deserialize_int (\<lambda>lat. rbind deserialize_int (\<lambda>lon.
     rbind deserialize_int (\<lambda>ps :: u16. rbind deserialize_int (\<lambda>h.
       rreturn \<lparr>gn_addr = a, timestamp = t, latitude = lat, longitude = lon,
                position_accuracy_indicator = (ps AND 0x8000) \<noteq> 0,
                speed = bit_number ps, heading = h\<rparr>))))))"

definition wf_lpv :: "LongPositionVector \<Rightarrow> bool" where
  "wf_lpv lpv \<longleftrightarrow> wf_address (gn_addr lpv)"

section \<open>DCC field of single-hop broadcast headers\<close>

record DccMcoField =
  m_cbr_l0_hop :: u8
  m_cbr_l1_hop :: u8
  m_output_power :: "5 word"

definition dcc_mco_of_raw :: "u32 \<Rightarrow> DccMcoField" where
  "dcc_mco_of_raw field = \<lparr>m_cbr_l0_hop = ucast (drop_bit 24 field),
     m_cbr_l1_hop = ucast (drop_bit 16 field), m_output_power = bit_number (drop_bit 11 field)\<rparr>"

definition dcc_mco_raw :: "DccMcoField \<Rightarrow> u32" where
  "dcc_mco_raw mco =
     (let field = ucast (m_cbr_l0_hop mco);
          field = push_bit 8 field OR ucast (m_cbr_l1_hop mco);
          field = push_bit 5 field OR bit_raw (m_output_power mco)
      in push_bit 11 field)"

definition set_local_cbr :: "ChannelLoad \<Rightarrow> DccMcoField \<Rightarrow> DccMcoField" where
  "set_local_cbr cbr mco = mco\<lparr>m_cbr_l0_hop := word_of_int \<lfloor>cbr * 255\<rfloor>\<rparr>"

definition local_cbr :: "DccMcoField \<Rightarrow> ChannelLoad" where
  "local_cbr mco = clamp (real (unat (m_cbr_l0_hop mco)) / 255)"

definition set_neighbour_cbr :: "ChannelLoad \<Rightarrow> DccMcoField \<Rightarrow> DccMcoField" where
  "set_neighbour_cbr cbr mco = mco\<lparr>m_cbr_l1_hop := word_of_int \<lfloor>cbr * 255\<rfloor>\<rparr>"

definition neighbour_cbr :: "DccMcoField \<Rightarrow> ChannelLoad" where
  "neighbour_cbr mco = clamp (real (unat (m_cbr_l1_hop mco)) / 255)"

definition set_output_power :: "u32 \<Rightarrow> DccMcoField \<Rightarrow> DccMcoField" where
  "set_output_power dbm mco = mco\<lparr>m_output_power := bit_number (min dbm 31)\<rparr>"

definition output_power :: "DccMcoField \<Rightarrow> u32" where
  "output_power mco = bit_raw (m_output_power mco)"

datatype DccField = Dcc_Mco DccMcoField | Dcc_Raw u32

fun get_dcc_mco :: "DccField \<Rightarrow> DccMcoField option" where
  "get_dcc_mco (Dcc_Mco mco) = Some mco"
| "get_dcc_mco (Dcc_Raw raw) = Some (dcc_mco_of_raw raw)"

fun dcc_field_raw :: "DccField \<Rightarrow> u32" where
  "dcc_field_raw (Dcc_Mco mco) = dcc_mco_raw mco"
| "dcc_field_raw (Dcc_Raw raw) = raw"

definition serialize_dcc_field :: "DccField \<Rightarrow> byte list" where
  "serialize_dcc_field field = serialize_int (dcc_field_raw field)"

definition deserialize_dcc_field :: "DccField reader" where
  "deserialize_dcc_field = rbind deserialize_int (\<lambda>raw. rreturn (Dcc_Raw raw))"

section \<open>Extended headers\<close>

record ShbHeader =
  shb_source_position :: LongPositionVector
  shb_dcc :: DccField

record TsbHeader =
  tsb_sequence_number :: SequenceNumber
  tsb_reserved :: u16
  tsb_source_position :: LongPositionVector

record BeaconHeader =
  beacon_source_position :: LongPositionVector

record GeoBroadcastHeader =
  gbc_sequence_number :: SequenceNumber
  gbc_reserved1 :: u16
  gbc_source_position :: LongPositionVector
  geo_area_pos_latitude :: u32
  geo_area_pos_longitude :: u32
  distance_a :: u16
  distance_b :: u16
  gbc_angle :: u16
  gbc_reserved2 :: u16

definition serialize_shb :: "ShbHeader \<Rightarrow> byte list" where
  "serialize_shb hdr = serialize_lpv (shb_source_position hdr) @ serialize_dcc_field (shb_dcc hdr)"

definition deserialize_shb :: "ShbHeader reader" where
  "deserialize_shb = rbind deserialize_lpv (\<lambda>p. rbind deserialize_dcc_field (\<lambda>d.
     rreturn \<lparr>shb_source_position = p, shb_dcc = d\<rparr>))"

definition serialize_tsb :: "TsbHeader \<Rightarrow> byte list" where
  "serialize_tsb hdr = serialize_sequence_number (tsb_sequence_number hdr)
     @ serialize_int (tsb_reserved hdr) @ serialize_lpv (tsb_source_position hdr)"

definition deserialize_tsb :: "TsbHeader reader" where
  "deserialize_tsb = rbind deserialize_sequence_number (\<lambda>sn. rbind deserialize_int (\<lambda>r.
     rbind deserialize_lpv (\<lambda>p.
       rreturn \<lparr>tsb_sequence_number = sn, tsb_reserved = r, tsb_source_position = p\<rparr>)))"

definition serialize_beacon :: "BeaconHeader \<Rightarrow> byte list" where
  "serialize_beacon hdr = serialize_lpv (beacon_source_position hdr)"

definition deserialize_beacon :: "BeaconHeader reader" where
  "deserialize_beacon =
     rbind deserialize_lpv (\<lambda>p. rreturn \<lparr>beacon_source_position = p\<rparr>)"

definition serialize_gbc :: "GeoBroadcastHeader \<Rightarrow> byte list" where
  "serialize_gbc header =
     serialize_sequence_number (gbc_sequence_number header) @ serialize_int (gbc_reserved1 header)
     @ serialize_lpv (gbc_source_position header)
     @ serialize_int (geo_area_pos_latitude header) @ serialize_int (geo_area_pos_longitude header)
     @ serialize_int (distance_a header) @ serialize_int (distance_b header)
     @ serialize_int (gbc_angle header) @ serialize_int (gbc_reserved2 header)"

definition deserialize_gbc :: "GeoBroadcastHeader reader" where
  "deserialize_gbc =
     rbind deserialize_sequence_number (\<lambda>sn. rbind deserialize_int (\<lambda>r1.
     rbind deserialize_lpv (\<lambda>p. rbind deserialize_int (\<lambda>lat. rbind deserialize_int (\<lambda>lon.
     rbind deserialize_int (\<lambda>a. rbind deserialize_int (\<lambda>b. rbind deserialize_int (\<lambda>ang.
     rbind deserialize_int (\<lambda>r2.
       rreturn \<lparr>gbc_sequence_number = sn, gbc_reserved1 = r1, gbc_source_position = p,
                geo_area_pos_latitude = lat, geo_area_pos_longitude = lon, distance_a = a,
                distance_b = b, gbc_angle = ang, gbc_reserved2 = r2\<rparr>)))))))))"

definition wf_shb :: "ShbHeader \<Rightarrow> bool" where
  "wf_shb hdr \<longleftrightarrow> wf_lpv (shb_source_position hdr) 
     \<and> (case shb_dcc hdr of Dcc_Raw _ \<Rightarrow> True | Dcc_Mco _ \<Rightarrow> False)"

definition wf_tsb :: "TsbHeader \<Rightarrow> bool" where
  "wf_tsb hdr \<longleftrightarrow> wf_lpv (tsb_source_position hdr)"

definition wf_beacon :: "BeaconHeader \<Rightarrow> bool" where
  "wf_beacon hdr \<longleftrightarrow> wf_lpv (beacon_source_position hdr)"

definition wf_gbc :: "GeoBroadcastHeader \<Rightarrow> bool" where
  "wf_gbc hdr \<longleftrightarrow> wf_lpv (gbc_source_position hdr)"

section \<open>Header variant\<close>

datatype HeaderVariant =
    Beacon_Header BeaconHeader | Gbc_Header GeoBroadcastHeader
  | Shb_Header ShbHeader | Tsb_Header TsbHeader

fun serialize_header :: "HeaderVariant \<Rightarrow> byte list" where
  "serialize_header (Beacon_Header h) = serialize_beacon h"
| "serialize_header (Gbc_Header h) = serialize_gbc h"
| "serialize_header (Shb_Header h) = serialize_shb h"
| "serialize_header (Tsb_Header h) = serialize_tsb h"

fun get_length :: "HeaderVariant \<Rightarrow> nat" where
  "get_length (Beacon_Header _) = LongPositionVector_length_bytes"
| "get_length (Gbc_Header _) = 20 + LongPositionVector_length_bytes"
| "get_length (Shb_Header _) = 4 + LongPositionVector_length_bytes"
| "get_length (Tsb_Header _) = 4 + LongPositionVector_length_bytes"

fun wf_header :: "HeaderVariant \<Rightarrow> bool" where
  "wf_header (Beacon_Header h) = wf_beacon h"
| "wf_header (Gbc_Header h) = wf_gbc h"
| "wf_header (Shb_Header h) = wf_shb h"
| "wf_header (Tsb_Header h) = wf_tsb h"

section \<open>Codecs\<close>

lemma next_header_basic_raw_cast [simp]: "next_header_basic_raw (next_header_basic_cast v) = v"
  by (simp add: next_header_basic_cast_def)

lemma next_header_common_raw_cast [simp]: "next_header_common_raw (next_header_common_cast v) = v"
  by (simp add: next_header_common_cast_def)

lemma header_type_raw_cast [simp]: "header_type_raw (header_type_cast v) = v"
  by (simp add: header_type_cast_def)

lemma nibble_mask: "(0x0f :: u8) = mask 4"
  by (simp add: mask_eq_exp_minus_1)

lemma low_nibble_less: "(w AND 0x0f :: u8) < 16"
proof -
  have "uint (w AND mask 4) < 2 ^ 4" by (rule and_mask_lt_2p)
  then show ?thesis by (simp add: nibble_mask word_less_def)
qed

lemma version_and_next_header_fields:
  "bit_number (drop_bit 4 (version_and_next_header hdr)) = version hdr"
  "next_header_basic_raw (basic_next_header hdr) < 16 \<Longrightarrow>
     version_and_next_header hdr AND 0x0f = next_header_basic_raw (basic_next_header hdr)"
proof -
  show "bit_number (drop_bit 4 (version_and_next_header hdr)) = version hdr"
    unfolding version_and_next_header_def nibble_mask
    by (rule bit_word_eqI) (auto simp: bit_simps bit_number_def bit_raw_def)
  show "version_and_next_header hdr AND 0x0f = next_header_basic_raw (basic_next_header hdr)"
    if "next_header_basic_raw (basic_next_header hdr) < 16"
    using bit_word_less [of "next_header_basic_raw (basic_next_header hdr)" 4] that
    unfolding version_and_next_header_def nibble_mask
    by (intro bit_word_eqI) (auto simp: bit_simps bit_raw_def)
qed

lemma version_and_next_header_deserialized:
  "version_and_next_header \<lparr>version = bit_number (drop_bit 4 w),
     basic_next_header = next_header_basic_cast (w AND 0x0f), basic_reserved = r, lifetime = l,
     hop_limit = h\<rparr> = w"
  unfolding version_and_next_header_def nibble_mask
  by (rule bit_word_eqI) (auto simp: bit_simps bit_number_def bit_raw_def)

lemma next_header_and_reserved_fields:
  "bit_number (next_header_and_reserved hdr AND 0x0f) = reserved1 hdr"
  "next_header_common_raw (next_header hdr) < 16 \<Longrightarrow>
     ucast (drop_bit 4 (next_header_and_reserved hdr)) = next_header_common_raw (next_header hdr)"
proof -
  show "bit_number (next_header_and_reserved hdr AND 0x0f) = reserved1 hdr"
    unfolding next_header_and_reserved_def nibble_mask
    by (rule bit_word_eqI) (auto simp: bit_simps bit_number_def bit_raw_def)
  show "ucast (drop_bit 4 (next_header_and_reserved hdr)) = next_header_common_raw (next_header hdr)"
    if "next_header_common_raw (next_header hdr) < 16"
    using bit_word_less [of "next_header_common_raw (next_header hdr)" 4] that
    unfolding next_header_and_reserved_def
    by (intro bit_word_eqI) (force simp: bit_simps bit_raw_def dest: bit_imp_le_length)
qed

lemma next_header_and_reserved_deserialized:
  "next_header_and_reserved \<lparr>next_header = next_header_common_cast (ucast (drop_bit 4 w)),
     reserved1 = bit_number (w AND 0x0f), header_type = ht, ch_traffic_class = tc, flags = f,
     payload = p, maximum_hop_limit = mhl, reserved2 = r2\<rparr> = w"
  unfolding next_header_and_reserved_def nibble_mask
  by (rule bit_word_eqI) (auto simp: bit_simps bit_number_def bit_raw_def)

lemma high_nibble_less: "ucast (drop_bit 4 (w :: u8)) < (16 :: u32)"
proof -
  have "ucast (drop_bit 4 w) = (ucast (drop_bit 4 w) AND mask 4 :: u32)"
    by (rule bit_word_eqI) (auto simp: bit_simps dest: bit_imp_le_length)
  then show ?thesis using and_mask_lt_2p [of "ucast (drop_bit 4 w) :: u32" 4]
    by (simp add: word_less_def)
qed

interpretation basic_codec: wire_codec wf_basic serialize_basic deserialize_basic 4
proof
  fix x rest e
  show "length (serialize_basic x) = 4"
    by (simp add: serialize_basic_def)
  assume "wf_basic x"
  then show "deserialize_basic \<lparr>stream = serialize_basic x @ rest, error_code = e\<rparr>
          = (Inr x, \<lparr>stream = rest, error_code = e\<rparr>)"
    by (simp add: wf_basic_def Let_def serialize_basic_def deserialize_basic_def wire_simps
        version_and_next_header_fields)
next
  show "decodes deserialize_basic 4 (\<lambda>x bs. wf_basic x \<and> serialize_basic x = bs)"
    unfolding deserialize_basic_def
    by ((rule decodes_bind, rule wire_reads, simp)+, rule decodes_returnI)
      (auto simp: serialize_basic_def version_and_next_header_deserialized wf_basic_def
        low_nibble_less)
qed

interpretation common_codec: wire_codec wf_common serialize_common deserialize_common 8
proof
  fix x rest e
  show "length (serialize_common x) = 8"
    by (simp add: serialize_common_def)
  assume "wf_common x"
  then show "deserialize_common \<lparr>stream = serialize_common x @ rest, error_code = e\<rparr>
          = (Inr x, \<lparr>stream = rest, error_code = e\<rparr>)"
    by (simp add: wf_common_def serialize_common_def deserialize_common_def wire_simps
        next_header_and_reserved_fields)
next
  show "decodes deserialize_common 8 (\<lambda>x bs. wf_common x \<and> serialize_common x = bs)"
    unfolding deserialize_common_def
    by ((rule decodes_bind, rule wire_reads, simp)+, rule decodes_returnI)
      (auto simp: serialize_common_def next_header_and_reserved_deserialized wf_common_def
        high_nibble_less)
qed

lemma pai_mask: "(0x8000 :: u16) = NOT (mask 15)"
  by (simp add: mask_eq_exp_minus_1)

lemma bit_pai_and_speed:
  "bit (pai_and_speed lpv) n \<longleftrightarrow>
     (n < 15 \<and> bit (speed lpv) n) \<or> (n = 15 \<and> position_accuracy_indicator lpv)"
  unfolding pai_and_speed_def pai_mask
  by (auto simp: bit_simps bit_raw_def dest: bit_imp_le_length)

lemma and_top_bit: "(w AND 0x8000 :: u16) = (if bit w 15 then 0x8000 else 0)"
proof (rule bit_word_eqI)
  fix n assume "n < LENGTH(16)"
  then show "bit (w AND 0x8000) n = bit (if bit w 15 then 0x8000 else 0 :: u16) n"
    unfolding pai_mask by (cases "n = 15") (auto simp: bit_simps)
qed

lemma pai_and_speed_fields:
  "(pai_and_speed lpv AND 0x8000) \<noteq> 0 \<longleftrightarrow> position_accuracy_indicator lpv"
  "bit_number (pai_and_speed lpv) = speed lpv"
proof -
  show "(pai_and_speed lpv AND 0x8000) \<noteq> 0 \<longleftrightarrow> position_accuracy_indicator lpv"
    by (simp add: and_top_bit bit_pai_and_speed)
  show "bit_number (pai_and_speed lpv) = speed lpv"
    by (rule bit_word_eqI) (auto simp: bit_simps bit_number_def bit_pai_and_speed)
qed

lemma pai_and_speed_deserialized:
  "pai_and_speed \<lparr>gn_addr = a, timestamp = t, latitude = lat, longitude = lon,
     position_accuracy_indicator = (ps AND 0x8000) \<noteq> 0, speed = bit_number ps, heading = h\<rparr> = ps"
proof (rule bit_word_eqI)
  fix n assume "n < LENGTH(16)"
  then show "bit (pai_and_speed \<lparr>gn_addr = a, timestamp = t, latitude = lat, longitude = lon,
     position_accuracy_indicator = (ps AND 0x8000) \<noteq> 0, speed = bit_number ps, heading = h\<rparr>) n
     = bit ps n"
    by (cases "n = 15") (auto simp: bit_pai_and_speed and_top_bit bit_number_def bit_simps)
qed

interpretation lpv_codec: wire_codec wf_lpv serialize_lpv deserialize_lpv 24
proof
  fix x rest e
  show "length (serialize_lpv x) = 24"
    by (simp add: serialize_lpv_def)
  assume "wf_lpv x"
  then show "deserialize_lpv \<lparr>stream = serialize_lpv x @ rest, error_code = e\<rparr>
          = (Inr x, \<lparr>stream = rest, error_code = e\<rparr>)"
    by (simp add: wf_lpv_def serialize_lpv_def deserialize_lpv_def wire_simps pai_and_speed_fields)
next
  show "decodes deserialize_lpv 24 (\<lambda>x bs. wf_lpv x \<and> serialize_lpv x = bs)"
    unfolding deserialize_lpv_def
    by ((rule decodes_bind, rule wire_reads, simp)+, rule decodes_returnI)
      (auto simp: serialize_lpv_def pai_and_speed_deserialized wf_lpv_def)
qed

declare lpv_codec.ser_length [simp] lpv_codec.roundtrip [wire_simps] lpv_codec.reads [wire_reads]

lemma dcc_mco_of_raw_raw: "dcc_mco_of_raw (dcc_mco_raw mco) = mco"
proof -
  have b: "bit (dcc_mco_raw mco) n \<longleftrightarrow>
      (24 \<le> n \<and> bit (m_cbr_l0_hop mco) (n - 24)) \<or> (16 \<le> n \<and> n < 24 \<and> bit (m_cbr_l1_hop mco) (n - 16))
      \<or> (11 \<le> n \<and> n < 16 \<and> bit (m_output_power mco) (n - 11))" for n
    by (auto simp: dcc_mco_raw_def Let_def bit_simps bit_raw_def dest: bit_imp_le_length)
  have "ucast (drop_bit 24 (dcc_mco_raw mco)) = m_cbr_l0_hop mco"
    by (rule bit_word_eqI) (auto simp: bit_simps b)
  moreover have "ucast (drop_bit 16 (dcc_mco_raw mco)) = m_cbr_l1_hop mco"
    by (rule bit_word_eqI) (auto simp: bit_simps b)
  moreover have "bit_number (drop_bit 11 (dcc_mco_raw mco)) = m_output_power mco"
    by (rule bit_word_eqI) (auto simp: bit_simps bit_number_def b)
  ultimately show ?thesis by (simp add: dcc_mco_of_raw_def)
qed

interpretation dcc_codec: wire_codec "\<lambda>d. case d of Dcc_Raw _ \<Rightarrow> True | Dcc_Mco _ \<Rightarrow> False"
  serialize_dcc_field deserialize_dcc_field 4
proof
  fix x rest e
  show "length (serialize_dcc_field x) = 4" by (simp add: serialize_dcc_field_def)
  assume "case x of Dcc_Raw _ \<Rightarrow> True | Dcc_Mco _ \<Rightarrow> False"
  then show "deserialize_dcc_field \<lparr>stream = serialize_dcc_field x @ rest, error_code = e\<rparr>
          = (Inr x, \<lparr>stream = rest, error_code = e\<rparr>)"
    by (cases x) (simp_all add: serialize_dcc_field_def deserialize_dcc_field_def wire_simps)
next
  show "decodes deserialize_dcc_field 4
    (\<lambda>x bs. (case x of Dcc_Raw _ \<Rightarrow> True | Dcc_Mco _ \<Rightarrow> False) \<and> serialize_dcc_field x = bs)"
    unfolding deserialize_dcc_field_def
    by ((rule decodes_bind, rule wire_reads, simp)+, rule decodes_returnI)
      (auto simp: serialize_dcc_field_def)
qed

declare dcc_codec.ser_length [simp] dcc_codec.roundtrip [wire_simps] dcc_codec.reads [wire_reads]

interpretation shb_codec: wire_codec wf_shb serialize_shb deserialize_shb 28
proof
  fix x rest e
  show "length (serialize_shb x) = 28" by (simp add: serialize_shb_def)
  assume "wf_shb x"
  then show "deserialize_shb \<lparr>stream = serialize_shb x @ rest, error_code = e\<rparr>
          = (Inr x, \<lparr>stream = rest, error_code = e\<rparr>)"
    by (simp add: wf_shb_def serialize_shb_def deserialize_shb_def wire_simps)
next
  show "decodes deserialize_shb 28 (\<lambda>x bs. wf_shb x \<and> serialize_shb x = bs)"
    unfolding deserialize_shb_def
    by ((rule decodes_bind, rule wire_reads, simp)+, rule decodes_returnI)
      (auto simp: serialize_shb_def wf_shb_def)
qed

interpretation tsb_codec: wire_codec wf_tsb serialize_tsb deserialize_tsb 28
proof
  fix x rest e
  show "length (serialize_tsb x) = 28" by (simp add: serialize_tsb_def)
  assume "wf_tsb x"
  then show "deserialize_tsb \<lparr>stream = serialize_tsb x @ rest, error_code = e\<rparr>
          = (Inr x, \<lparr>stream = rest, error_code = e\<rparr>)"
    by (simp add: wf_tsb_def serialize_tsb_def deserialize_tsb_def wire_simps)
next
  show "decodes deserialize_tsb 28 (\<lambda>x bs. wf_tsb x \<and> serialize_tsb x = bs)"
    unfolding deserialize_tsb_def
    by ((rule decodes_bind, rule wire_reads, simp)+, rule decodes_returnI)
      (auto simp: serialize_tsb_def wf_tsb_def)
qed

interpretation beacon_codec: wire_codec wf_beacon serialize_beacon deserialize_beacon 24
proof
  fix x rest e
  show "length (serialize_beacon x) = 24" by (simp add: serialize_beacon_def)
  assume "wf_beacon x"
  then show "deserialize_beacon \<lparr>stream = serialize_beacon x @ rest, error_code = e\<rparr>
          = (Inr x, \<lparr>stream = rest, error_code = e\<rparr>)"
    by (simp add: wf_beacon_def serialize_beacon_def deserialize_beacon_def wire_simps)
next
  show "decodes deserialize_beacon 24 (\<lambda>x bs. wf_beacon x \<and> serialize_beacon x = bs)"
    unfolding deserialize_beacon_def
    by ((rule decodes_bind, rule wire_reads, simp)+, rule decodes_returnI)
      (auto simp: serialize_beacon_def wf_beacon_def)
qed

interpretation gbc_codec: wire_codec wf_gbc serialize_gbc deserialize_gbc 44
proof
  fix x rest e
  show "length (serialize_gbc x) = 44" by (simp add: serialize_gbc_def)
  assume "wf_gbc x"
  then show "deserialize_gbc \<lparr>stream = serialize_gbc x @ rest, error_code = e\<rparr>
          = (Inr x, \<lparr>stream = rest, error_code = e\<rparr>)"
    by (simp add: wf_gbc_def serialize_gbc_def deserialize_gbc_def wire_simps)
next
  show "decodes deserialize_gbc 44 (\<lambda>x bs. wf_gbc x \<and> serialize_gbc x = bs)"
    unfolding deserialize_gbc_def
    by ((rule decodes_bind, rule wire_reads, simp)+, rule decodes_returnI)
      (auto simp: serialize_gbc_def wf_gbc_def)
qed

lemma length_serialize_header: "length (serialize_header h) = get_length h"
  by (cases h) (simp_all add: beacon_codec.ser_length gbc_codec.ser_length shb_codec.ser_length
      tsb_codec.ser_length LongPositionVector_length_bytes_def)

lemma lpv_eq_iff: "lpv_eq x y \<longleftrightarrow> x = y"
  by (cases x; cases y) (auto simp: lpv_eq_def)

lemma output_power_set: "output_power (set_output_power dbm mco) = min dbm 31"
proof -
  have "min dbm 31 AND mask 5 = min dbm 31"
  proof -
    have "uint (min dbm 31) < 2 ^ 5" by (simp add: min_def word_le_def)
    then show ?thesis by (simp add: mask_eq_iff)
  qed
  then show ?thesis
    by (simp add: output_power_def set_output_power_def bit_raw_bit_number)
qed

lemma local_cbr_error:
  assumes "unit_interval cbr"
  shows "0 \<le> cbr - local_cbr (set_local_cbr cbr mco)"
    and "cbr - local_cbr (set_local_cbr cbr mco) < 1 / 255"
proof -
  let ?k = "\<lfloor>cbr * 255\<rfloor>"
  have k: "0 \<le> ?k" "?k \<le> 255" using assms by (auto simp: unit_interval_def) 
  then have u: "real (unat (word_of_int ?k :: u8)) = of_int ?k"
    by (simp add: unsigned_of_int take_bit_eq_mod)
  have "unit_interval (of_int ?k / 255)" using k by (auto simp: unit_interval_def)
  then have "local_cbr (set_local_cbr cbr mco) = of_int ?k / 255"
    using u by (simp add: local_cbr_def set_local_cbr_def)
  then show "0 \<le> cbr - local_cbr (set_local_cbr cbr mco)"
    and "cbr - local_cbr (set_local_cbr cbr mco) < 1 / 255"
    using of_int_floor_le [of "cbr * 255"] real_of_int_floor_add_one_gt [of "cbr * 255"]
    by linarith+
qed

text \<open>
  C32: the geo-broadcast header codec is exact. Deserializing succeeds with a header and a rest of
  the stream if and only if the header is canonical and the stream is its serialization followed
  by that rest; and every stream of at least 44 octets is accepted.
\<close>

theorem gbc_header_wire:
  "(deserialize_gbc ar = (Inr hdr, ar') \<longleftrightarrow>
      wf_gbc hdr \<and> ar = \<lparr>stream = serialize_gbc hdr @ stream ar', error_code = error_code ar'\<rparr>)
   \<and> ((\<exists>h r. deserialize_gbc ar = (Inr h, r)) \<longleftrightarrow> 44 \<le> length (stream ar))"
  using gbc_codec.de_iff gbc_codec.accepts_iff by blast

text \<open>
   the DCC information a station puts into a single-hop broadcast header is what the receiver
  reads from the deserialized field: the multi-channel field survives the wire, the channel busy
  ratio loses less than 1/255, and the output power is capped at 31 dBm.
\<close>

theorem dcc_mco_over_the_air:
  assumes "unit_interval cbr"
    and "mco = set_output_power dbm (set_local_cbr cbr mco0)"
    and "deserialize_dcc_field \<lparr>stream = serialize_dcc_field (Dcc_Mco mco) @ rest, error_code = e\<rparr>
         = (Inr field, ar)"
  shows "get_dcc_mco field = Some mco \<and> output_power mco = min dbm 31
    \<and> 0 \<le> cbr - local_cbr mco \<and> cbr - local_cbr mco < 1 / 255"
proof -
  from assms(3) have "field = Dcc_Raw (dcc_mco_raw mco)"
    by (simp add: serialize_dcc_field_def deserialize_dcc_field_def wire_simps)
  moreover have "local_cbr mco = local_cbr (set_local_cbr cbr mco0)"
    by (simp add: assms(2) local_cbr_def set_output_power_def)
  ultimately show ?thesis
    using local_cbr_error [OF assms(1)] output_power_set
    by (simp add: assms(2) dcc_mco_of_raw_raw)
qed

theorem dcc_mco_over_the_air_witness:
  "let mco0 = \<lparr>m_cbr_l0_hop = 0, m_cbr_l1_hop = 0, m_output_power = 0\<rparr>;
       mco = set_output_power 40 (set_local_cbr (1 / 2) mco0)
   in get_dcc_mco (Dcc_Raw (dcc_mco_raw mco)) = Some mco \<and> output_power mco = 31"
proof -
  define mco where "mco = set_output_power 40
    (set_local_cbr (1 / 2) \<lparr>m_cbr_l0_hop = 0, m_cbr_l1_hop = 0, m_output_power = 0\<rparr>)"
  have "deserialize_dcc_field \<lparr>stream = serialize_dcc_field (Dcc_Mco mco) @ [0], error_code = Ok\<rparr>
      = (Inr (Dcc_Raw (dcc_mco_raw mco)), \<lparr>stream = [0], error_code = Ok\<rparr>)"
    by (simp add: serialize_dcc_field_def deserialize_dcc_field_def wire_simps)
  from dcc_mco_over_the_air [OF _ mco_def this] show ?thesis
    by (simp add: unit_interval_def mco_def [symmetric])
qed

end
