(* ===== verification/Areas.thy ===== *)
theory Areas
  imports Geonet_Headers
begin

text \<open>
  Geodesy and destination areas (\<^verbatim>\<open>geodesy/position.hpp, geodesy.cpp, haversine.cpp,
  geonet/areas.*, geonet/header_type.cpp, gbc_gac_header.cpp, gbc_header.cpp\<close>). Lengths are in
  metres, azimuths in radians, geographic angles in degrees; doubles are reals. The GeographicLib
  backend is external, the haversine backend is modelled.
\<close>

section \<open>Positions and distances\<close>

record CartesianPosition =
  pos_x :: real
  pos_y :: real

record GeodeticPosition =
  geo_latitude :: real
  geo_longitude :: real

definition cartesian_minus :: "CartesianPosition \<Rightarrow> CartesianPosition \<Rightarrow> CartesianPosition" where
  "cartesian_minus a b = \<lparr>pos_x = pos_x a - pos_x b, pos_y = pos_y a - pos_y b\<rparr>"

definition radians :: "real \<Rightarrow> real" where
  "radians d = d * pi / 180"

definition earth_radius :: real where
  "earth_radius = 6371008.8"

text \<open>\<^verbatim>\<open>std::atan2\<close> in the first quadrant, where the haversine formula calls it.\<close>

definition atan2 :: "real \<Rightarrow> real \<Rightarrow> real" where
  "atan2 y x = (if x = 0 then (if y = 0 then 0 else pi / 2) else arctan (y / x))"

definition haversine :: "GeodeticPosition \<Rightarrow> GeodeticPosition \<Rightarrow> real" where
  "haversine a b =
     (let delta_phi = radians (geo_latitude b - geo_latitude a);
          delta_lambda = radians (geo_longitude b - geo_longitude a);
          sin_dphi = sin (delta_phi / 2);
          sin_dlambda = sin (delta_lambda / 2)
      in sin_dphi * sin_dphi
         + cos (radians (geo_latitude a)) * cos (radians (geo_latitude b)) * sin_dlambda * sin_dlambda)"

definition haversine_distance :: "GeodeticPosition \<Rightarrow> GeodeticPosition \<Rightarrow> real" where
  "haversine_distance a b =
     (let h = haversine a b;
          c = 2 * atan2 (sqrt h) (sqrt (1 - h))
      in earth_radius * c)"

definition haversine_local_cartesian :: "GeodeticPosition \<Rightarrow> GeodeticPosition \<Rightarrow> CartesianPosition" where
  "haversine_local_cartesian origin position =
     (let dlat = radians (geo_latitude position - geo_latitude origin);
          dlon = radians (geo_longitude position - geo_longitude origin)
      in \<lparr>pos_x = dlon * cos (radians (geo_latitude origin)) * earth_radius,
          pos_y = dlat * earth_radius\<rparr>)"

section \<open>Areas\<close>

datatype Shape = Rectangle real real | Ellipse real real | Circle real

record Area =
  area_shape :: Shape
  area_position :: GeodeticPosition
  area_angle :: real

text \<open>The value \<^const>\<open>None\<close> stands for minus infinity.\<close>

fun geometric_function :: "Shape \<Rightarrow> CartesianPosition \<Rightarrow> real option" where
  "geometric_function (Circle r) p =
     (if r \<noteq> 0 then
        (let x_over_r = pos_x p / r; y_over_r = pos_y p / r
         in Some (1 - (x_over_r * x_over_r) - (y_over_r * y_over_r)))
      else None)"
| "geometric_function (Rectangle a b) p =
     (if a \<noteq> 0 \<and> b \<noteq> 0 then
        (let x_over_a = pos_x p / a; y_over_b = pos_y p / b
         in Some (min (1 - x_over_a * x_over_a) (1 - y_over_b * y_over_b)))
      else None)"
| "geometric_function (Ellipse a b) p =
     (if a \<noteq> 0 \<and> b \<noteq> 0 then
        (let x_over_a = pos_x p / a; y_over_b = pos_y p / b
         in Some (1 - (x_over_a * x_over_a) - (y_over_b * y_over_b)))
      else None)"

definition inside_shape :: "Shape \<Rightarrow> CartesianPosition \<Rightarrow> bool" where
  "inside_shape s p \<longleftrightarrow> (case geometric_function s p of None \<Rightarrow> False | Some f \<Rightarrow> f > 0)"

definition outside_shape :: "Shape \<Rightarrow> CartesianPosition \<Rightarrow> bool" where
  "outside_shape s p \<longleftrightarrow> (case geometric_function s p of None \<Rightarrow> True | Some f \<Rightarrow> f < 0)"

definition at_shape_border :: "Shape \<Rightarrow> CartesianPosition \<Rightarrow> bool" where
  "at_shape_border s p \<longleftrightarrow> geometric_function s p = Some 0"

definition at_center_point :: "Shape \<Rightarrow> CartesianPosition \<Rightarrow> bool" where
  "at_center_point s p \<longleftrightarrow> geometric_function s p = Some 1"

definition canonicalize :: "CartesianPosition \<Rightarrow> real \<Rightarrow> CartesianPosition" where
  "canonicalize point azimuth =
     (let zenith = pi / 2 - azimuth; sin_z = sin zenith; cos_z = cos zenith
      in \<lparr>pos_x = cos_z * pos_x point + sin_z * pos_y point,
          pos_y = - sin_z * pos_x point + cos_z * pos_y point\<rparr>)"

fun shape_size :: "Shape \<Rightarrow> real" where
  "shape_size (Circle r) = pi * r * r"
| "shape_size (Rectangle a b) = 4 * a * b"
| "shape_size (Ellipse a b) = pi * a * b"

definition area_size :: "Area \<Rightarrow> real" where
  "area_size area = shape_size (area_shape area)"

text \<open>The projection \<open>local_cartesian\<close> is that of the selected geodesy backend.\<close>

definition inside_or_at_border ::
  "(GeodeticPosition \<Rightarrow> GeodeticPosition \<Rightarrow> CartesianPosition) \<Rightarrow> Area \<Rightarrow> GeodeticPosition \<Rightarrow> bool" where
  "inside_or_at_border local_cartesian area geo_position =
     (let local = local_cartesian (area_position area) geo_position;
          canonical = canonicalize local (area_angle area)
      in \<not> outside_shape (area_shape area) canonical)"

section \<open>Areas in geo-broadcast headers\<close>

fun gbc_header_type :: "Shape \<Rightarrow> HeaderType" where
  "gbc_header_type (Circle _) = GeoBroadcast_Circle"
| "gbc_header_type (Rectangle _ _) = GeoBroadcast_Rect"
| "gbc_header_type (Ellipse _ _) = GeoBroadcast_Elip"

fun gac_header_type :: "Shape \<Rightarrow> HeaderType" where
  "gac_header_type (Circle _) = GeoAnycast_Circle"
| "gac_header_type (Rectangle _ _) = GeoAnycast_Rect"
| "gac_header_type (Ellipse _ _) = GeoAnycast_Elip"

text \<open>
  Conversion of a double to an unsigned 16 bit quantity truncates; the source relies on the value
  being in range. \<^verbatim>\<open>std::round\<close> rounds to nearest, halfway cases away from zero, as
  \<^verbatim>\<open>lround\<close> does.
\<close>

definition u16_of_real :: "real \<Rightarrow> u16" where
  "u16_of_real x = word_of_int \<lfloor>x\<rfloor>"

fun set_distances :: "Shape \<Rightarrow> GeoBroadcastHeader \<Rightarrow> GeoBroadcastHeader" where
  "set_distances (Circle r) hdr = hdr\<lparr>distance_a := u16_of_real r, distance_b := 0\<rparr>"
| "set_distances (Rectangle a b) hdr = hdr\<lparr>distance_a := u16_of_real a, distance_b := u16_of_real b\<rparr>"
| "set_distances (Ellipse a b) hdr = hdr\<lparr>distance_a := u16_of_real a, distance_b := u16_of_real b\<rparr>"

definition gbc_set_position :: "GeodeticPosition \<Rightarrow> GeoBroadcastHeader \<Rightarrow> GeoBroadcastHeader" where
  "gbc_set_position position hdr =
     hdr\<lparr>geo_area_pos_latitude := word_of_int (lround (geo_latitude position * 10 ^ 7)),
         geo_area_pos_longitude := word_of_int (lround (geo_longitude position * 10 ^ 7))\<rparr>"

definition gbc_position :: "GeoBroadcastHeader \<Rightarrow> GeodeticPosition" where
  "gbc_position hdr =
     \<lparr>geo_latitude = of_int (sint (geo_area_pos_latitude hdr)) / 10 ^ 7,
      geo_longitude = of_int (sint (geo_area_pos_longitude hdr)) / 10 ^ 7\<rparr>"

definition lpv_position :: "LongPositionVector \<Rightarrow> GeodeticPosition" where
  "lpv_position lpv =
     \<lparr>geo_latitude = of_int (sint (latitude lpv)) / 10 ^ 7,
      geo_longitude = of_int (sint (longitude lpv)) / 10 ^ 7\<rparr>"

definition gbc_set_destination :: "Area \<Rightarrow> GeoBroadcastHeader \<Rightarrow> GeoBroadcastHeader" where
  "gbc_set_destination area hdr =
     (let hdr = gbc_set_position (area_position area) hdr;
          hdr = hdr\<lparr>gbc_angle := u16_of_real (area_angle area * 180 / pi)\<rparr>
      in set_distances (area_shape area) hdr)"

definition gbc_shape :: "GeoBroadcastHeader \<Rightarrow> HeaderType \<Rightarrow> Shape option" where
  "gbc_shape hdr ht =
     (let a = real (unat (distance_a hdr)); b = real (unat (distance_b hdr)) in
      case ht of
        GeoBroadcast_Circle \<Rightarrow> Some (Circle a)
      | GeoBroadcast_Rect \<Rightarrow> Some (Rectangle a b)
      | GeoBroadcast_Elip \<Rightarrow> Some (Ellipse a b)
      | _ \<Rightarrow> None)"

text \<open>\<^verbatim>\<open>destination(HeaderType)\<close> throws on any other header type: \<^const>\<open>None\<close>.\<close>

definition gbc_destination :: "GeoBroadcastHeader \<Rightarrow> HeaderType \<Rightarrow> Area option" where
  "gbc_destination hdr ht =
     map_option (\<lambda>s. \<lparr>area_shape = s, area_position = gbc_position hdr,
       area_angle = real (unat (gbc_angle hdr)) * pi / 180\<rparr>) (gbc_shape hdr ht)"

section \<open>Geometry\<close>

lemma outside_shape_simps:
  "r \<noteq> 0 \<Longrightarrow> \<not> outside_shape (Circle r) p \<longleftrightarrow> (pos_x p)\<^sup>2 + (pos_y p)\<^sup>2 \<le> r\<^sup>2"
  "a \<noteq> 0 \<Longrightarrow> b \<noteq> 0 \<Longrightarrow> \<not> outside_shape (Rectangle a b) p \<longleftrightarrow> \<bar>pos_x p\<bar> \<le> \<bar>a\<bar> \<and> \<bar>pos_y p\<bar> \<le> \<bar>b\<bar>"
  "a \<noteq> 0 \<Longrightarrow> b \<noteq> 0 \<Longrightarrow> \<not> outside_shape (Ellipse a b) p \<longleftrightarrow> (pos_x p / a)\<^sup>2 + (pos_y p / b)\<^sup>2 \<le> 1"
proof -
  show "\<not> outside_shape (Circle r) p \<longleftrightarrow> (pos_x p)\<^sup>2 + (pos_y p)\<^sup>2 \<le> r\<^sup>2" if "r \<noteq> 0"
  proof -
    have "(pos_x p)\<^sup>2 + (pos_y p)\<^sup>2 \<le> r\<^sup>2 \<longleftrightarrow> (pos_x p / r)\<^sup>2 + (pos_y p / r)\<^sup>2 \<le> 1"
      using that by (simp add: power_divide flip: add_divide_distrib)
    then show ?thesis using that by (auto simp: outside_shape_def Let_def power2_eq_square)
  qed
  have sq: "(u / v) * (u / v) \<le> 1 \<longleftrightarrow> \<bar>u\<bar> \<le> \<bar>v\<bar>" if "v \<noteq> 0" for u v :: real
  proof -
    have "0 < v * v" using that by (auto simp: zero_less_mult_iff)
    then show ?thesis using abs_le_square_iff [of u v] by (simp add: power2_eq_square divide_le_eq)
  qed
  show "\<not> outside_shape (Rectangle a b) p \<longleftrightarrow> \<bar>pos_x p\<bar> \<le> \<bar>a\<bar> \<and> \<bar>pos_y p\<bar> \<le> \<bar>b\<bar>"
    if "a \<noteq> 0" and "b \<noteq> 0"
    using sq [OF that(1), of "pos_x p"] sq [OF that(2), of "pos_y p"] that
    by (auto simp: outside_shape_def Let_def min_def not_less)
  show "\<not> outside_shape (Ellipse a b) p \<longleftrightarrow> (pos_x p / a)\<^sup>2 + (pos_y p / b)\<^sup>2 \<le> 1"
    if "a \<noteq> 0" and "b \<noteq> 0"
    using that by (auto simp: outside_shape_def Let_def power2_eq_square)
qed

lemma outside_shape_iff:
  "outside_shape (Circle r) p \<longleftrightarrow> \<not> (r \<noteq> 0 \<and> (pos_x p)\<^sup>2 + (pos_y p)\<^sup>2 \<le> r\<^sup>2)"
  "outside_shape (Rectangle a b) p \<longleftrightarrow>
     \<not> (a \<noteq> 0 \<and> b \<noteq> 0 \<and> \<bar>pos_x p\<bar> \<le> \<bar>a\<bar> \<and> \<bar>pos_y p\<bar> \<le> \<bar>b\<bar>)"
  "outside_shape (Ellipse a b) p \<longleftrightarrow>
     \<not> (a \<noteq> 0 \<and> b \<noteq> 0 \<and> (pos_x p / a)\<^sup>2 + (pos_y p / b)\<^sup>2 \<le> 1)"
proof -
  have "outside_shape (Circle 0) p" "outside_shape (Rectangle 0 b) p" "outside_shape (Rectangle a 0) p"
    "outside_shape (Ellipse 0 b) p" "outside_shape (Ellipse a 0) p"
    by (simp_all add: outside_shape_def)
  then show "outside_shape (Circle r) p \<longleftrightarrow> \<not> (r \<noteq> 0 \<and> (pos_x p)\<^sup>2 + (pos_y p)\<^sup>2 \<le> r\<^sup>2)"
    "outside_shape (Rectangle a b) p \<longleftrightarrow>
       \<not> (a \<noteq> 0 \<and> b \<noteq> 0 \<and> \<bar>pos_x p\<bar> \<le> \<bar>a\<bar> \<and> \<bar>pos_y p\<bar> \<le> \<bar>b\<bar>)"
    "outside_shape (Ellipse a b) p \<longleftrightarrow>
       \<not> (a \<noteq> 0 \<and> b \<noteq> 0 \<and> (pos_x p / a)\<^sup>2 + (pos_y p / b)\<^sup>2 \<le> 1)"
    using outside_shape_simps by metis+
qed

lemma canonicalize_norm:
  "(pos_x (canonicalize p az))\<^sup>2 + (pos_y (canonicalize p az))\<^sup>2 = (pos_x p)\<^sup>2 + (pos_y p)\<^sup>2"
proof -
  define s c where "s = sin (pi / 2 - az)" and "c = cos (pi / 2 - az)"
  have "s\<^sup>2 + c\<^sup>2 = 1" by (simp add: s_def c_def)
  moreover have "(c * pos_x p + s * pos_y p)\<^sup>2 + (- s * pos_x p + c * pos_y p)\<^sup>2
      = (s\<^sup>2 + c\<^sup>2) * ((pos_x p)\<^sup>2 + (pos_y p)\<^sup>2)"
    by (simp add: power2_eq_square algebra_simps)
  ultimately show ?thesis by (simp add: canonicalize_def Let_def s_def c_def)
qed

section \<open>The sphere\<close>

text \<open>
  The haversine of two positions is a function of the scalar product of their unit vectors, so the
  distance is the angle between them. The triangle inequality follows from Gram's determinant.
\<close>

definition unit_x :: "GeodeticPosition \<Rightarrow> real" where
  "unit_x p = cos (radians (geo_latitude p)) * cos (radians (geo_longitude p))"

definition unit_y :: "GeodeticPosition \<Rightarrow> real" where
  "unit_y p = cos (radians (geo_latitude p)) * sin (radians (geo_longitude p))"

definition unit_z :: "GeodeticPosition \<Rightarrow> real" where
  "unit_z p = sin (radians (geo_latitude p))"

definition sdot :: "GeodeticPosition \<Rightarrow> GeodeticPosition \<Rightarrow> real" where
  "sdot p q = unit_x p * unit_x q + unit_y p * unit_y q + unit_z p * unit_z q"

lemma sdot_self: "sdot p p = 1"
proof -
  let ?a = "radians (geo_latitude p)" and ?b = "radians (geo_longitude p)"
  have "sdot p p = (cos ?a)\<^sup>2 * ((cos ?b)\<^sup>2 + (sin ?b)\<^sup>2) + (sin ?a)\<^sup>2"
    unfolding sdot_def unit_x_def unit_y_def unit_z_def by algebra
  then show ?thesis by simp
qed

lemma sdot_sym: "sdot p q = sdot q p"
  by (simp add: sdot_def mult.commute)

lemma gram_nonneg: "0 \<le> 1 + 2 * sdot p q * sdot q r * sdot p r - (sdot p q)\<^sup>2 - (sdot q r)\<^sup>2 - (sdot p r)\<^sup>2"
proof -
  let ?d = "unit_x p * (unit_y q * unit_z r - unit_z q * unit_y r)
          - unit_y p * (unit_x q * unit_z r - unit_z q * unit_x r)
          + unit_z p * (unit_x q * unit_y r - unit_y q * unit_x r)"
  have "sdot p p * sdot q q * sdot r r + 2 * sdot p q * sdot q r * sdot p r
          - sdot r r * (sdot p q)\<^sup>2 - sdot p p * (sdot q r)\<^sup>2 - sdot q q * (sdot p r)\<^sup>2 = ?d\<^sup>2"
    unfolding sdot_def by (simp add: power2_eq_square algebra_simps)
  then have "1 + 2 * sdot p q * sdot q r * sdot p r - (sdot p q)\<^sup>2 - (sdot q r)\<^sup>2 - (sdot p r)\<^sup>2 = ?d\<^sup>2"
    by (simp add: sdot_self)
  then show ?thesis by (metis zero_le_power2)
qed

lemma sdot_range: "-1 \<le> sdot p q" "sdot p q \<le> 1"
proof -
  have "(unit_x p - unit_x q)\<^sup>2 + (unit_y p - unit_y q)\<^sup>2 + (unit_z p - unit_z q)\<^sup>2
          = sdot p p + sdot q q - 2 * sdot p q"
    and "(unit_x p + unit_x q)\<^sup>2 + (unit_y p + unit_y q)\<^sup>2 + (unit_z p + unit_z q)\<^sup>2
          = sdot p p + sdot q q + 2 * sdot p q"
    unfolding sdot_def by algebra+
  moreover have "0 \<le> a\<^sup>2 + b\<^sup>2 + c\<^sup>2" for a b c :: real by simp
  ultimately have "0 \<le> sdot p p + sdot q q - 2 * sdot p q" "0 \<le> sdot p p + sdot q q + 2 * sdot p q"
    by metis+
  then show "-1 \<le> sdot p q" "sdot p q \<le> 1" by (simp_all add: sdot_self)
qed

lemma arccos_triangle:
  assumes a: "-1 \<le> a" "a \<le> (1::real)" and b: "-1 \<le> b" "b \<le> 1" and c: "-1 \<le> c" "c \<le> 1"
    and gram: "0 \<le> 1 + 2 * a * b * c - a\<^sup>2 - b\<^sup>2 - c\<^sup>2"
  shows "arccos c \<le> arccos a + arccos b"
proof (cases "arccos a + arccos b \<le> pi")
  case True
  have ge: "0 \<le> arccos a + arccos b" using arccos_lbound [OF a] arccos_lbound [OF b] by simp
  have sq: "0 \<le> 1 - a\<^sup>2" "0 \<le> 1 - b\<^sup>2" using a b by (simp_all add: abs_square_le_1)
  have "(a * b - c)\<^sup>2 \<le> (1 - a\<^sup>2) * (1 - b\<^sup>2)"
    using gram by (simp add: power2_eq_square algebra_simps)
  then have "a * b - c \<le> sqrt ((1 - a\<^sup>2) * (1 - b\<^sup>2))" by (rule real_le_rsqrt)
  then have "cos (arccos a + arccos b) \<le> c"
    using a b sq by (simp add: cos_add sin_arccos real_sqrt_mult)
  then have "arccos c \<le> arccos (cos (arccos a + arccos b))"
    using c by (intro arccos_le_arccos) auto
  then show ?thesis using ge True by (simp add: arccos_cos)
next
  case False
  then show ?thesis using arccos_ubound [OF c] by linarith
qed

lemma haversine_sdot: "1 - 2 * haversine p q = sdot p q"
proof -
  let ?a = "radians (geo_latitude p)" and ?b = "radians (geo_latitude q)"
  let ?l = "radians (geo_longitude p)" and ?m = "radians (geo_longitude q)"
  have lat: "1 - 2 * (sin ((?b - ?a) / 2))\<^sup>2 = cos (?b - ?a)"
    using cos_double_sin [of "(?b - ?a) / 2"] by (simp only: mult_2 field_sum_of_halves)
  have lon: "2 * (sin ((?m - ?l) / 2))\<^sup>2 = 1 - cos (?m - ?l)"
    using cos_double_sin [of "(?m - ?l) / 2"] by (simp only: mult_2 field_sum_of_halves)
  have "haversine p q = (sin ((?b - ?a) / 2))\<^sup>2 + cos ?a * cos ?b * (sin ((?m - ?l) / 2))\<^sup>2"
    by (simp add: haversine_def Let_def radians_def power2_eq_square algebra_simps diff_divide_distrib)
  then have "1 - 2 * haversine p q
      = 1 - 2 * (sin ((?b - ?a) / 2))\<^sup>2 - cos ?a * cos ?b * (2 * (sin ((?m - ?l) / 2))\<^sup>2)" by simp
  also have "\<dots> = cos (?b - ?a) - cos ?a * cos ?b * (1 - cos (?m - ?l))" by (simp only: lat lon)
  also have "\<dots> = sdot p q"
    by (simp add: sdot_def unit_x_def unit_y_def unit_z_def cos_diff algebra_simps)
  finally show ?thesis .
qed

lemma haversine_range: "0 \<le> haversine p q" "haversine p q \<le> 1"
  using sdot_range [of p q] haversine_sdot [of p q] by linarith+

lemma atan2_arccos:
  assumes "0 \<le> h" and "h \<le> 1"
  shows "2 * atan2 (sqrt h) (sqrt (1 - h)) = arccos (1 - 2 * h)"
proof (cases "h = 1")
  case False
  then have h: "0 < 1 - h" using assms by simp
  let ?t = "arctan (sqrt h / sqrt (1 - h))"
  have t: "0 \<le> ?t" "?t < pi / 2" using assms arctan_ubound by simp_all
  have "cos ?t = 1 / sqrt (1 + (sqrt h / sqrt (1 - h))\<^sup>2)" by (simp add: cos_arctan)
  then have "(cos ?t)\<^sup>2 = 1 / (1 + h / (1 - h))" using assms h by (simp add: power_divide)
  also have "\<dots> = 1 - h" using h by (simp add: field_simps)
  finally have "cos (2 * ?t) = 1 - 2 * h" by (simp add: cos_double_cos)
  moreover have "arccos (cos (2 * ?t)) = 2 * ?t" using t by (intro arccos_cos) auto
  ultimately show ?thesis using h by (simp add: atan2_def)
qed (simp add: atan2_def)

definition sphere_angle :: "GeodeticPosition \<Rightarrow> GeodeticPosition \<Rightarrow> real" where
  "sphere_angle p q = 2 * atan2 (sqrt (haversine p q)) (sqrt (1 - haversine p q))"

lemma sphere_angle_arccos: "sphere_angle p q = arccos (sdot p q)"
  by (simp add: sphere_angle_def atan2_arccos haversine_range haversine_sdot)

lemma sphere_angle_range: "0 \<le> sphere_angle p q" "sphere_angle p q \<le> pi"
  using sdot_range [of p q] by (simp_all add: sphere_angle_arccos arccos_lbound arccos_ubound)

lemma sphere_angle_sym: "sphere_angle p q = sphere_angle q p"
  by (simp add: sphere_angle_arccos sdot_sym [of p q])

lemma sphere_angle_self: "sphere_angle p p = 0"
  by (simp add: sphere_angle_arccos sdot_self)

lemma sphere_angle_triangle: "sphere_angle p r \<le> sphere_angle p q + sphere_angle q r"
  unfolding sphere_angle_arccos using gram_nonneg [of p q r]
  by (intro arccos_triangle sdot_range) simp

lemma haversine_distance_angle: "haversine_distance p q = earth_radius * sphere_angle p q"
  by (simp add: haversine_distance_def sphere_angle_def Let_def)

section \<open>Properties\<close>



fun floor_shape :: "Shape \<Rightarrow> Shape" where
  "floor_shape (Circle r) = Circle (of_int \<lfloor>r\<rfloor>)"
| "floor_shape (Rectangle a b) = Rectangle (of_int \<lfloor>a\<rfloor>) (of_int \<lfloor>b\<rfloor>)"
| "floor_shape (Ellipse a b) = Ellipse (of_int \<lfloor>a\<rfloor>) (of_int \<lfloor>b\<rfloor>)"

fun dimensions :: "Shape \<Rightarrow> real list" where
  "dimensions (Circle r) = [r]"
| "dimensions (Rectangle a b) = [a, b]"
| "dimensions (Ellipse a b) = [a, b]"

lemma real_unat_u16_of_real: "0 \<le> x \<Longrightarrow> x < 65536 \<Longrightarrow> real (unat (u16_of_real x)) = of_int \<lfloor>x\<rfloor>"
proof -
  assume "0 \<le> x" "x < 65536"
  then have "0 \<le> \<lfloor>x\<rfloor>" "\<lfloor>x\<rfloor> < 65536" by (simp_all add: floor_less_iff)
  then show ?thesis by (simp add: u16_of_real_def unsigned_of_int take_bit_eq_mod)
qed

lemma sint_of_lround:
  assumes "\<bar>x\<bar> \<le> 1800000000"
  shows "\<bar>of_int (sint (word_of_int (lround x) :: u32)) - x\<bar> \<le> 1 / 2"
proof -
  have "\<bar>of_int (lround x) - x\<bar> \<le> 1 / 2" by (rule lround_error)
  moreover from this assms have "\<bar>of_int (lround x) :: real\<bar> \<le> 1800000001" by linarith
  then have "\<bar>lround x\<bar> \<le> 1800000001" by linarith
  then have "sint (word_of_int (lround x) :: u32) = lround x"
    by (simp add: signed_of_int signed_take_bit_int_eq_self_iff abs_le_iff)
  ultimately show ?thesis by simp
qed

text \<open>
   the destination area a geo-broadcast header carries is the requested one up to the precision
  of the wire format: same kind of shape with dimensions truncated to metres, centre within half a
  tenth of a micro degree, azimuth truncated to whole degrees.
\<close>

theorem gbc_destination_over_the_air:
  assumes "\<bar>geo_latitude (area_position area)\<bar> \<le> 90" and "\<bar>geo_longitude (area_position area)\<bar> \<le> 180"
    and "0 \<le> area_angle area" and "area_angle area \<le> 2 * pi"
    and "list_all (\<lambda>d. 0 \<le> d \<and> d < 65536) (dimensions (area_shape area))"
  shows "\<exists>area'. gbc_destination (gbc_set_destination area hdr) (gbc_header_type (area_shape area)) = Some area'
    \<and> area_shape area' = floor_shape (area_shape area)
    \<and> \<bar>geo_latitude (area_position area') - geo_latitude (area_position area)\<bar> \<le> 1 / 2 / 10 ^ 7
    \<and> \<bar>geo_longitude (area_position area') - geo_longitude (area_position area)\<bar> \<le> 1 / 2 / 10 ^ 7
    \<and> 0 \<le> area_angle area - area_angle area' \<and> area_angle area - area_angle area' < pi / 180"
proof -
  let ?deg = "area_angle area * 180 / pi"
  have deg: "0 \<le> ?deg" "?deg \<le> 360" using assms(3,4) by (simp_all add: field_simps)
  have "0 \<le> area_angle area - of_int \<lfloor>?deg\<rfloor> * pi / 180" "area_angle area - of_int \<lfloor>?deg\<rfloor> * pi / 180 < pi / 180"
  proof -
    obtain k where k: "\<lfloor>?deg\<rfloor> = k" by blast
    then have "of_int k \<le> ?deg" "?deg < of_int k + 1" by linarith+
    then show "0 \<le> area_angle area - of_int \<lfloor>?deg\<rfloor> * pi / 180" "area_angle area - of_int \<lfloor>?deg\<rfloor> * pi / 180 < pi / 180"
      unfolding k by (simp_all add: field_simps)
  qed
  note ang = this
  have pos: "\<bar>of_int (sint (word_of_int (lround (x * 10 ^ 7)) :: u32)) / 10 ^ 7 - x\<bar> \<le> 1 / 2 / 10 ^ 7"
    if "\<bar>x\<bar> \<le> 180" for x :: real
    using sint_of_lround [of "x * 10 ^ 7"] that by (simp add: abs_le_iff field_simps)
  have "gbc_destination (gbc_set_destination area hdr) (gbc_header_type (area_shape area))
    = Some \<lparr>area_shape = floor_shape (area_shape area),
        area_position = gbc_position (gbc_set_position (area_position area) hdr),
        area_angle = of_int \<lfloor>?deg\<rfloor> * pi / 180\<rparr>"
    using assms(5) deg
    by (cases "area_shape area")
      (simp_all add: gbc_destination_def gbc_set_destination_def Let_def gbc_shape_def gbc_position_def gbc_set_position_def
        real_unat_u16_of_real del: of_nat_unat)
  then show ?thesis using ang pos assms(1,2) by (simp add: gbc_position_def gbc_set_position_def)
qed

theorem gbc_destination_over_the_air_witness:
  "\<exists>area'. gbc_destination
       (gbc_set_destination
         \<lparr>area_shape = Circle 100, area_position = \<lparr>geo_latitude = 48, geo_longitude = 11\<rparr>, area_angle = 0\<rparr>
         \<lparr>gbc_sequence_number = 1, gbc_reserved1 = 0, gbc_source_position = zero_position_vector,
          geo_area_pos_latitude = 0, geo_area_pos_longitude = 0, distance_a = 0, distance_b = 0,
          gbc_angle = 0, gbc_reserved2 = 0\<rparr>)
       GeoBroadcast_Circle = Some area' \<and> area_shape area' = Circle 100"
  using gbc_destination_over_the_air
    [of "\<lparr>area_shape = Circle 100, area_position = \<lparr>geo_latitude = 48, geo_longitude = 11\<rparr>, area_angle = 0\<rparr>"
        "\<lparr>gbc_sequence_number = 1, gbc_reserved1 = 0, gbc_source_position = zero_position_vector,
          geo_area_pos_latitude = 0, geo_area_pos_longitude = 0, distance_a = 0, distance_b = 0,
          gbc_angle = 0, gbc_reserved2 = 0\<rparr>"]
  by auto

end
