(* ===== verification/Packets.thy ===== *)
theory Packets
  imports Prelude
begin

text \<open>
  The two packet representations of \<^verbatim>\<open>net/\<close>: received packets live in one buffer that
  layer boundaries partition (\<^verbatim>\<open>cohesive_packet.*\<close>), packets to send are assembled from one
  chunk per layer (\<^verbatim>\<open>chunk_packet.*, osi_layer.hpp\<close>). The lemmas show that the layers
  partition the buffer, that moving a boundary or trimming keeps that, and that extracting and
  merging chunks loses no octet.
\<close>

section \<open>OSI layers\<close>

datatype OsiLayer = Physical | Link | Network | Transport | Session | Presentation | Application

fun layer_index :: "OsiLayer \<Rightarrow> nat" where
  "layer_index Physical = 1"
| "layer_index Link = 2"
| "layer_index Network = 3"
| "layer_index Transport = 4"
| "layer_index Session = 5"
| "layer_index Presentation = 6"
| "layer_index Application = 7"

lemma layer_index_inject [simp]: "layer_index l = layer_index m \<longleftrightarrow> l = m"
  by (cases l; cases m; simp)

instantiation OsiLayer :: linorder
begin

definition less_eq_OsiLayer :: "OsiLayer \<Rightarrow> OsiLayer \<Rightarrow> bool" where
  "less_eq_OsiLayer l m \<longleftrightarrow> layer_index l \<le> layer_index m"

definition less_OsiLayer :: "OsiLayer \<Rightarrow> OsiLayer \<Rightarrow> bool" where
  "less_OsiLayer l m \<longleftrightarrow> layer_index l < layer_index m"

instance
  by standard (auto simp: less_eq_OsiLayer_def less_OsiLayer_def)

end

definition osi_layers :: "OsiLayer list" where
  "osi_layers = [Physical, Link, Network, Transport, Session, Presentation, Application]"

definition osi_distance :: "OsiLayer \<Rightarrow> OsiLayer \<Rightarrow> int" where
  "osi_distance from to = int (layer_index to) - int (layer_index from)"

definition num_osi_layers :: "OsiLayer \<Rightarrow> OsiLayer \<Rightarrow> nat" where
  "num_osi_layers from to = (if from \<le> to then nat (osi_distance from to) + 1 else 0)"

text \<open>The iterator range \<^verbatim>\<open>[cbegin + distance(min, from), cend - distance(to, max))\<close>.\<close>

definition osi_layer_range :: "OsiLayer \<Rightarrow> OsiLayer \<Rightarrow> OsiLayer list" where
  "osi_layer_range from to =
     (if from \<le> to then
        (let b = nat (osi_distance Physical from);
             e = length osi_layers - nat (osi_distance to Application)
         in take (e - b) (drop b osi_layers))
      else [])"

lemma osi_layer_range_eq: "osi_layer_range from to = filter (\<lambda>l. from \<le> l \<and> l \<le> to) osi_layers"
  by (cases "from"; cases "to"; simp add: osi_layer_range_def osi_distance_def osi_layers_def
      less_eq_OsiLayer_def)

lemma length_osi_layer_range: "length (osi_layer_range from to) = num_osi_layers from to"
  by (cases "from"; cases "to"; simp add: osi_layer_range_def osi_distance_def osi_layers_def
      num_osi_layers_def less_eq_OsiLayer_def)

lemma set_osi_layers [simp]: "set osi_layers = UNIV"
  unfolding osi_layers_def by (auto intro: OsiLayer.exhaust)

lemma distinct_osi_layers [simp]: "distinct osi_layers"
  by (simp add: osi_layers_def)

section \<open>Cohesive packets\<close>

text \<open>Iterators into the buffer are offsets; there is one more of them than layers.\<close>

record CohesivePacket =
  m_buffer :: "byte list"
  m_iterators :: "nat list"

definition reset_iterators :: "byte list \<Rightarrow> OsiLayer \<Rightarrow> nat list" where
  "reset_iterators buffer ins_layer =
     replicate (layer_index ins_layer) 0
     @ replicate (layer_index Application + 1 - layer_index ins_layer) (length buffer)"

definition cohesive_packet :: "byte list \<Rightarrow> OsiLayer \<Rightarrow> CohesivePacket" where
  "cohesive_packet buffer layer =
     \<lparr>m_buffer = buffer, m_iterators = reset_iterators buffer layer\<rparr>"

text \<open>
  Copying rebuilds the iterators from the distances of the other packet's; \<open>next\<close> starts at the
  beginning of the new buffer.
\<close>

fun rebuild_iterators_from :: "nat \<Rightarrow> nat \<Rightarrow> nat list \<Rightarrow> nat list" where
  "rebuild_iterators_from nxt prev [] = []"
| "rebuild_iterators_from nxt prev (i # is) =
     (let nxt' = nxt + (i - prev) in nxt' # rebuild_iterators_from nxt' i is)"

definition cohesive_copy :: "CohesivePacket \<Rightarrow> CohesivePacket" where
  "cohesive_copy other =
     \<lparr>m_buffer = m_buffer other,
      m_iterators = 0 # rebuild_iterators_from 0 (hd (m_iterators other)) (tl (m_iterators other))\<rparr>"

definition cohesive_get :: "CohesivePacket \<Rightarrow> nat \<Rightarrow> byte list" where
  "cohesive_get p idx =
     take (m_iterators p ! idx - m_iterators p ! (idx - 1)) (drop (m_iterators p ! (idx - 1)) (m_buffer p))"

definition cohesive_layer :: "CohesivePacket \<Rightarrow> OsiLayer \<Rightarrow> byte list" where
  "cohesive_layer p layer = cohesive_get p (layer_index layer)"

definition set_boundary :: "OsiLayer \<Rightarrow> nat \<Rightarrow> CohesivePacket \<Rightarrow> CohesivePacket" where
  "set_boundary layer bytes p =
     (let idx = layer_index layer
      in p\<lparr>m_iterators := (m_iterators p)[idx := m_iterators p ! (idx - 1) + bytes]\<rparr>)"

definition cohesive_size :: "CohesivePacket \<Rightarrow> nat" where
  "cohesive_size p = last (m_iterators p) - hd (m_iterators p)"

definition cohesive_size_layer :: "CohesivePacket \<Rightarrow> OsiLayer \<Rightarrow> nat" where
  "cohesive_size_layer p layer = length (cohesive_get p (layer_index layer))"

text \<open>A negative distance counts as zero, as natural subtraction does.\<close>

definition cohesive_size_range :: "CohesivePacket \<Rightarrow> OsiLayer \<Rightarrow> OsiLayer \<Rightarrow> nat" where
  "cohesive_size_range p from to = m_iterators p ! layer_index to - m_iterators p ! (layer_index from - 1)"

definition trim :: "OsiLayer \<Rightarrow> nat \<Rightarrow> CohesivePacket \<Rightarrow> CohesivePacket" where
  "trim from bytes p =
     (if cohesive_size_range p from Application > bytes then
        (let from_idx = layer_index from - 1;
             max_idx = layer_index Application;
             its = (m_iterators p)[max_idx := m_iterators p ! from_idx + bytes];
             its = foldl (\<lambda>is idx. if is ! idx > is ! max_idx then is[idx := is ! max_idx] else is)
                     its [from_idx..<max_idx]
         in p\<lparr>m_iterators := its\<rparr>)
      else p)"

text \<open>The class invariant: eight ordered offsets into the buffer, the first at its beginning.\<close>

definition cohesive_inv :: "CohesivePacket \<Rightarrow> bool" where
  "cohesive_inv p \<longleftrightarrow>
     length (m_iterators p) = 8 \<and> hd (m_iterators p) = 0 \<and> sorted (m_iterators p)
     \<and> last (m_iterators p) \<le> length (m_buffer p)"

section \<open>Chunk packets\<close>

text \<open>
  The map from layers to byte buffer convertibles, with the empty buffer for layers that are
  missing; what a convertible converts to is all that is observable.
\<close>

type_synonym ChunkPacket = "OsiLayer \<Rightarrow> byte list"

definition empty_chunk_packet :: ChunkPacket where
  "empty_chunk_packet = (\<lambda>_. [])"

definition chunk_size :: "ChunkPacket \<Rightarrow> nat" where
  "chunk_size p = sum_list (map (\<lambda>l. length (p l)) osi_layers)"

definition chunk_size_range :: "ChunkPacket \<Rightarrow> OsiLayer \<Rightarrow> OsiLayer \<Rightarrow> nat" where
  "chunk_size_range p from to =
     sum_list (map (\<lambda>l. if l \<ge> from \<and> l \<le> to then length (p l) else 0) osi_layers)"

text \<open>Both operations return the packet they are called on and the other packet.\<close>

definition chunk_extract :: "OsiLayer \<Rightarrow> OsiLayer \<Rightarrow> ChunkPacket \<Rightarrow> ChunkPacket \<times> ChunkPacket" where
  "chunk_extract from to p =
     foldl (\<lambda>(this, result) l. (this(l := result l), result(l := this l)))
       (p, empty_chunk_packet) (osi_layer_range from to)"

definition chunk_merge ::
  "OsiLayer \<Rightarrow> OsiLayer \<Rightarrow> ChunkPacket \<Rightarrow> ChunkPacket \<Rightarrow> ChunkPacket \<times> ChunkPacket" where
  "chunk_merge from to p source =
     foldl (\<lambda>(this, source) l. (this(l := source l), source(l := [])))
       (p, source) (osi_layer_range from to)"

section \<open>Cohesive packets: the layers partition the buffer\<close>

lemma cohesive_invD:
  assumes "cohesive_inv p"
  shows "length (m_iterators p) = 8" "m_iterators p ! 0 = 0"
    "i \<le> j \<Longrightarrow> j < 8 \<Longrightarrow> m_iterators p ! i \<le> m_iterators p ! j"
    "m_iterators p ! 7 \<le> length (m_buffer p)"
proof -
  have "m_iterators p \<noteq> []" using assms by (auto simp: cohesive_inv_def)
  with assms show "length (m_iterators p) = 8" "m_iterators p ! 0 = 0"
    "i \<le> j \<Longrightarrow> j < 8 \<Longrightarrow> m_iterators p ! i \<le> m_iterators p ! j"
    "m_iterators p ! 7 \<le> length (m_buffer p)"
    by (auto simp: cohesive_inv_def sorted_iff_nth_mono hd_conv_nth last_conv_nth)
qed

lemma cohesive_invI:
  assumes "length (m_iterators p) = 8" and "m_iterators p ! 0 = 0"
    and "\<And>i j. i \<le> j \<Longrightarrow> j < 8 \<Longrightarrow> m_iterators p ! i \<le> m_iterators p ! j"
    and "m_iterators p ! 7 \<le> length (m_buffer p)"
  shows "cohesive_inv p"
  using assms
  by (auto simp: cohesive_inv_def sorted_iff_nth_mono hd_conv_nth last_conv_nth simp flip: length_greater_0_conv)

lemma layer_index_bounds [simp]: "0 < layer_index l" "layer_index l \<le> 7" "layer_index l < 8"
  by (cases l; simp)+

lemma layer_index_pred [simp]: "layer_index l \<noteq> layer_index l - Suc 0"
  by (cases l) simp_all

lemma layer_index_pred_less [simp]: "layer_index l - Suc 0 < 7" "layer_index l - Suc 0 < 8" "layer_index l - Suc 0 \<le> 7"
  by (cases l; simp)+

lemma cohesive_inv_create [simp]: "cohesive_inv (cohesive_packet buffer layer)"
  by (cases layer) (simp_all add: cohesive_inv_def cohesive_packet_def reset_iterators_def sorted_append)

lemma rebuild_iterators_id: "sorted (prev # is) \<Longrightarrow> rebuild_iterators_from prev prev is = is"
  by (induction "is" arbitrary: prev) (auto simp: Let_def)

lemma cohesive_copy_id: "cohesive_inv p \<Longrightarrow> cohesive_copy p = p"
proof -
  assume inv: "cohesive_inv p"
  obtain i "is" where its: "m_iterators p = i # is"
    using cohesive_invD(1) [OF inv] by (cases "m_iterators p") auto
  with inv have "sorted (0 # is)" "i = 0" by (auto simp: cohesive_inv_def)
  with its show ?thesis by (cases p) (simp add: cohesive_copy_def rebuild_iterators_id)
qed

lemma slices:
  assumes "sorted is" and "n < length is"
  shows "concat (map (\<lambda>k. take (is ! Suc k - is ! k) (drop (is ! k) b)) [0..<n])
    = take (is ! n - is ! 0) (drop (is ! 0) b)"
  using assms(2)
proof (induction n)
  case (Suc n)
  have le: "is ! 0 \<le> is ! n" "is ! n \<le> is ! Suc n"
    using assms(1) Suc.prems by (simp_all add: sorted_nth_mono)
  have "take (is ! n - is ! 0) (drop (is ! 0) b) @ take (is ! Suc n - is ! n) (drop (is ! n) b)
      = take ((is ! n - is ! 0) + (is ! Suc n - is ! n)) (drop (is ! 0) b)"
    using le take_add [of "is ! n - is ! 0" "is ! Suc n - is ! n" "drop (is ! 0) b"] by simp
  with Suc le show ?case by simp
qed simp

lemma layers_as_slices:
  "map (cohesive_layer p) osi_layers
     = map (\<lambda>k. take (m_iterators p ! Suc k - m_iterators p ! k) (drop (m_iterators p ! k) (m_buffer p))) [0..<7]"
  by (simp add: osi_layers_def cohesive_layer_def cohesive_get_def upt_rec numeral_nat)

lemma cohesive_layers_partition:
  assumes "cohesive_inv p"
  shows "concat (map (cohesive_layer p) osi_layers) = take (cohesive_size p) (m_buffer p)"
proof -
  have "sorted (m_iterators p)" "7 < length (m_iterators p)"
    using assms by (simp_all add: cohesive_inv_def)
  from slices [OF this] cohesive_invD [OF assms] show ?thesis
    by (simp add: layers_as_slices cohesive_size_def hd_conv_nth last_conv_nth
        flip: length_greater_0_conv)
qed

lemma cohesive_size_layer_eq:
  assumes "cohesive_inv p"
  shows "cohesive_size_layer p l = m_iterators p ! layer_index l - m_iterators p ! (layer_index l - 1)"
proof -
  have "m_iterators p ! layer_index l \<le> length (m_buffer p)"
    using cohesive_invD(3) [OF assms, of "layer_index l" 7] cohesive_invD(4) [OF assms] by simp
  then show ?thesis by (simp add: cohesive_size_layer_def cohesive_get_def)
qed

lemma set_boundary_inv:
  assumes inv: "cohesive_inv p" and n: "n \<le> cohesive_size_layer p l"
  shows "cohesive_inv (set_boundary l n p)"
proof -
  let ?i = "layer_index l" and ?its = "m_iterators p"
  note D = cohesive_invD [OF inv]
  have mid: "?its ! (?i - 1) + n \<le> ?its ! ?i"
    using n cohesive_size_layer_eq [OF inv, of l] D(3) [of "?i - 1" ?i] by simp
  have "?its[?i := ?its ! (?i - 1) + n] ! a \<le> ?its[?i := ?its ! (?i - 1) + n] ! b" if "a \<le> b" "b < 8" for a b
  proof -
    have pre: "?its ! a \<le> ?its ! (?i - 1)" if "a < ?i" using D(3) [of a "?i - 1"] that by simp
    show ?thesis
      using mid D(1) D(3) [OF that] pre that
      by (cases "a = ?i"; cases "b = ?i") (auto simp: le_less)
  qed
  moreover have "?its[?i := ?its ! (?i - 1) + n] ! 7 \<le> length (m_buffer p)"
    using mid D(1,4) by (cases "?i = 7") auto
  moreover have "?its[?i := ?its ! (?i - 1) + n] ! 0 = 0" using D(2) by (simp add: nth_list_update)
  ultimately show ?thesis
    by (intro cohesive_invI) (simp_all add: set_boundary_def Let_def D(1))
qed

lemma set_boundary_layer:
  assumes inv: "cohesive_inv p" and n: "n \<le> cohesive_size_layer p l"
  shows "cohesive_layer (set_boundary l n p) l = take n (cohesive_layer p l)"
proof -
  have "take n (cohesive_layer p l)
      = take n (drop (m_iterators p ! (layer_index l - 1)) (m_buffer p))"
    using n cohesive_size_layer_eq [OF inv, of l] by (simp add: cohesive_layer_def cohesive_get_def min_absorb1)
  then show ?thesis
    using cohesive_invD(1) [OF inv] by (simp add: cohesive_layer_def cohesive_get_def set_boundary_def Let_def)
qed

lemma set_boundary_content:
  assumes "cohesive_inv p" and "n \<le> cohesive_size_layer p l" and "l \<noteq> Application"
  shows "concat (map (cohesive_layer (set_boundary l n p)) osi_layers)
    = concat (map (cohesive_layer p) osi_layers)"
proof -
  have "layer_index l \<noteq> 7" using assms(3) by (cases l) simp_all
  then have "cohesive_size (set_boundary l n p) = cohesive_size p"
    using cohesive_invD(1) [OF assms(1)]
    by (auto simp: cohesive_size_def set_boundary_def Let_def hd_conv_nth last_conv_nth
        simp flip: length_greater_0_conv)
  then show ?thesis
    using assms set_boundary_inv [OF assms(1,2)]
    by (simp add: cohesive_layers_partition set_boundary_def Let_def)
qed

lemma trim_fold:
  assumes "m < length is" and "to \<le> m"
  defines "f \<equiv> \<lambda>is idx. if is ! idx > is ! m then is[idx := is ! m] else (is :: nat list)"
  shows "length (foldl f is [a..<to]) = length is
    \<and> (\<forall>j. foldl f is [a..<to] ! j = (if a \<le> j \<and> j < to then min (is ! j) (is ! m) else is ! j))"
  using assms(2)
proof (induction to)
  case (Suc to)
  then show ?case
    using assms(1) by (cases "a \<le> to") (auto simp: f_def nth_list_update less_Suc_eq)
qed simp

lemma trim_its:
  assumes inv: "cohesive_inv p"
  shows "length (m_iterators (trim l n p)) = 8" "m_buffer (trim l n p) = m_buffer p"
    "j < 8 \<Longrightarrow> m_iterators (trim l n p) ! j = (if layer_index l - 1 \<le> j
       then min (m_iterators p ! j) (m_iterators p ! (layer_index l - 1) + n) else m_iterators p ! j)"
proof -
  let ?a = "layer_index l - 1" and ?its = "m_iterators p"
  note D = cohesive_invD [OF inv]
  let ?is = "?its[7 := ?its ! ?a + n]"
  let ?r = "m_iterators (trim l n p)"
  have a: "?a < 7" by simp
  have F: "length ?r = 8 \<and> (\<forall>j. ?r ! j = (if ?a \<le> j \<and> j < 7 then min (?is ! j) (?is ! 7) else ?is ! j))"
    if "cohesive_size_range p l Application > n"
  proof -
    have "?r = foldl (\<lambda>is idx. if is ! idx > is ! 7 then is[idx := is ! 7] else is) ?is [?a..<7]"
      using that by (simp add: trim_def Let_def)
    then show ?thesis using trim_fold [of 7 ?is 7 ?a] D(1) by simp
  qed
  show "length ?r = 8" using D(1) F by (cases "cohesive_size_range p l Application > n") (simp_all add: trim_def)
  show "m_buffer (trim l n p) = m_buffer p" by (simp add: trim_def Let_def)
  show "?r ! j = (if ?a \<le> j then min (?its ! j) (?its ! ?a + n) else ?its ! j)" if "j < 8"
  proof (cases "cohesive_size_range p l Application > n")
    case True
    then have big: "?its ! 7 > ?its ! ?a + n" by (simp add: cohesive_size_range_def)
    have "?r ! j = (if ?a \<le> j \<and> j < 7 then min (?is ! j) (?is ! 7) else ?is ! j)" using F [OF True] by blast
    with a big D(1) that show ?thesis by (cases "j = 7") auto
  next
    case False
    then have "?its ! 7 \<le> ?its ! ?a + n" by (simp add: cohesive_size_range_def)
    moreover have "?its ! j \<le> ?its ! 7" using D(3) [of j 7] that by simp
    ultimately show ?thesis using False by (simp add: trim_def)
  qed
qed

lemma trim_inv:
  assumes inv: "cohesive_inv p"
  shows "cohesive_inv (trim l n p)"
proof (rule cohesive_invI)
  note D = cohesive_invD [OF inv] and T = trim_its [OF inv]
  show "length (m_iterators (trim l n p)) = 8" by (rule T)
  show "m_iterators (trim l n p) ! 0 = 0" using D(2) by (simp add: T)
  show "m_iterators (trim l n p) ! 7 \<le> length (m_buffer (trim l n p))" using D(4) by (simp add: T min_def)
  fix i j :: nat assume ij: "i \<le> j" "j < 8"
  have "layer_index l - 1 \<le> j \<Longrightarrow> i < layer_index l - 1 \<Longrightarrow> m_iterators p ! i \<le> m_iterators p ! (layer_index l - 1)"
    using D(3) [of i "layer_index l - 1"] ij by simp
  then show "m_iterators (trim l n p) ! i \<le> m_iterators (trim l n p) ! j"
    using D(3) [OF ij] ij by (auto simp: T min_def)
qed

lemma trim_size:
  assumes "cohesive_inv p"
  shows "cohesive_size_range (trim l n p) l Application = min n (cohesive_size_range p l Application)"
  using cohesive_invD(3) [OF assms, of "layer_index l - 1" 7]
  by (auto simp: cohesive_size_range_def trim_its [OF assms] min_def)

lemma trim_lower_layers:
  assumes "cohesive_inv p" and "k < l"
  shows "cohesive_layer (trim l n p) k = cohesive_layer p k"
proof -
  have same: "m_iterators (trim l n p) ! j = m_iterators p ! j" if "j \<le> layer_index l - 1" for j
  proof -
    have "j < 8" using that layer_index_pred_less(1) [of l] by linarith
    from trim_its(3) [OF assms(1) this, of l n] that show ?thesis by (cases "j = layer_index l - 1") simp_all
  qed
  have "layer_index k \<le> layer_index l - 1" using assms(2) by (simp add: less_OsiLayer_def)
  then show ?thesis
    using same [of "layer_index k"] same [of "layer_index k - 1"]
    by (simp add: cohesive_layer_def cohesive_get_def trim_its(2) [OF assms(1)])
qed

lemma trim_total_size:
  assumes "cohesive_inv p"
  shows "cohesive_size (trim l n p) = min (cohesive_size p) (m_iterators p ! (layer_index l - 1) + n)"
  using cohesive_invD [OF assms] cohesive_invD [OF trim_inv [OF assms]] trim_its(3) [OF assms, of 7]
  by (simp add: cohesive_size_def hd_conv_nth last_conv_nth flip: length_greater_0_conv)

text \<open>
  Packets the stack can build: created from a received buffer, then split at boundaries that lie
  within the layer, trimmed and copied.
\<close>

inductive cohesive_reachable :: "CohesivePacket \<Rightarrow> bool" where
  create: "cohesive_reachable (cohesive_packet buffer layer)"
| boundary: "cohesive_reachable p \<Longrightarrow> n \<le> cohesive_size_layer p l \<Longrightarrow>
    cohesive_reachable (set_boundary l n p)"
| trim: "cohesive_reachable p \<Longrightarrow> cohesive_reachable (trim l n p)"
| copy: "cohesive_reachable p \<Longrightarrow> cohesive_reachable (cohesive_copy p)"

lemma cohesive_reachable_inv: "cohesive_reachable p \<Longrightarrow> cohesive_inv p"
  by (induction rule: cohesive_reachable.induct)
    (simp_all add: set_boundary_inv trim_inv cohesive_copy_id)

text \<open>
   in every received packet, however it was split, trimmed or copied, the seven layers in order
  are exactly the octets of the packet; setting a boundary gives the layer its first octets and
  moves no octet out of the packet; trimming bounds the size of the upper layers and leaves the
  layers below untouched; a copy equals the original.
\<close>

theorem cohesive_packet_layers:
  assumes "cohesive_reachable p" and "n \<le> cohesive_size_layer p l" and "l \<noteq> Application"
  shows "concat (map (cohesive_layer p) osi_layers) = take (cohesive_size p) (m_buffer p)
    \<and> cohesive_layer (set_boundary l n p) l = take n (cohesive_layer p l)
    \<and> concat (map (cohesive_layer (set_boundary l n p)) osi_layers)
        = concat (map (cohesive_layer p) osi_layers)
    \<and> cohesive_size_range (trim l k p) l Application = min k (cohesive_size_range p l Application)
    \<and> concat (map (cohesive_layer (trim l k p)) osi_layers)
        = take (cohesive_size (trim l k p)) (concat (map (cohesive_layer p) osi_layers))
    \<and> (j < l \<longrightarrow> cohesive_layer (trim l k p) j = cohesive_layer p j)
    \<and> cohesive_copy p = p"
  using cohesive_reachable_inv [OF assms(1)] assms(2,3)
  by (simp add: cohesive_layers_partition set_boundary_layer set_boundary_content trim_size trim_inv
      trim_its(2) trim_lower_layers cohesive_copy_id trim_total_size)

theorem cohesive_packet_layers_witness:
  "cohesive_layer (set_boundary Network 2 (cohesive_packet [1, 2, 3, 4, 5] Network)) Network = [1, 2]"
proof -
  let ?p = "cohesive_packet [1, 2, 3, 4, 5] Network"
  have "cohesive_layer ?p Network = [1, 2, 3, 4, 5]" by code_simp
  moreover have "2 \<le> cohesive_size_layer ?p Network" by code_simp
  ultimately show ?thesis
    using cohesive_packet_layers [OF cohesive_reachable.create, of 2 "[1, 2, 3, 4, 5]" Network Network 0 Link]
    by simp
qed

section \<open>Chunk packets: no octet is lost\<close>

lemma chunk_extract_fold:
  "distinct ls \<Longrightarrow> foldl (\<lambda>(this, result) l. (this(l := result l), result(l := this l))) (p, r) ls
     = (\<lambda>l. if l \<in> set ls then r l else p l, \<lambda>l. if l \<in> set ls then p l else r l)"
  by (induction ls arbitrary: p r) (auto simp: fun_eq_iff)

lemma chunk_merge_fold:
  "distinct ls \<Longrightarrow> foldl (\<lambda>(this, source) l. (this(l := source l), source(l := []))) (p, s) ls
     = (\<lambda>l. if l \<in> set ls then s l else p l, \<lambda>l. if l \<in> set ls then [] else s l)"
  by (induction ls arbitrary: p s) (auto simp: fun_eq_iff)

lemma in_osi_layer_range [simp]: "l \<in> set (osi_layer_range from to) \<longleftrightarrow> from \<le> l \<and> l \<le> to"
  by (simp add: osi_layer_range_eq)

lemma distinct_osi_layer_range [simp]: "distinct (osi_layer_range from to)"
  by (simp add: osi_layer_range_eq)

lemma chunk_extract_eq:
  "chunk_extract from to p =
     (\<lambda>l. if from \<le> l \<and> l \<le> to then [] else p l, \<lambda>l. if from \<le> l \<and> l \<le> to then p l else [])"
  by (simp add: chunk_extract_def chunk_extract_fold empty_chunk_packet_def fun_eq_iff)

lemma chunk_merge_eq:
  "chunk_merge from to p source =
     (\<lambda>l. if from \<le> l \<and> l \<le> to then source l else p l,
      \<lambda>l. if from \<le> l \<and> l \<le> to then [] else source l)"
  by (simp add: chunk_merge_def chunk_merge_fold)

lemma chunk_size_split:
  "chunk_size p = chunk_size (\<lambda>l. if P l then p l else []) + chunk_size (\<lambda>l. if P l then [] else p l)"
  by (simp add: chunk_size_def osi_layers_def)

text \<open>
   extracting a range of layers divides a packet: the extracted packet and the remainder
  together have the size of the original, the extracted part has the size of the range, and merging
  it back gives the original packet and leaves the source empty in that range.
\<close>

theorem chunk_extract_merge:
  assumes "chunk_extract from to p = (rest, extracted)"
  shows "chunk_size rest + chunk_size extracted = chunk_size p
    \<and> chunk_size extracted = chunk_size_range p from to
    \<and> chunk_merge from to rest extracted = (p, empty_chunk_packet)"
proof -
  have r: "rest = (\<lambda>l. if from \<le> l \<and> l \<le> to then [] else p l)"
    and e: "extracted = (\<lambda>l. if from \<le> l \<and> l \<le> to then p l else [])"
    using assms by (simp_all add: chunk_extract_eq)
  have "chunk_size rest + chunk_size extracted = chunk_size p"
    using chunk_size_split [of p "\<lambda>l. from \<le> l \<and> l \<le> to"] by (simp add: r e)
  moreover have "chunk_size extracted = chunk_size_range p from to"
    unfolding e chunk_size_def chunk_size_range_def by (rule arg_cong [where f = sum_list]) simp
  moreover have "chunk_merge from to rest extracted = (p, empty_chunk_packet)"
    by (auto simp: r e chunk_merge_eq empty_chunk_packet_def fun_eq_iff)
  ultimately show ?thesis by simp
qed

theorem chunk_extract_merge_witness:
  "let p = (\<lambda>l. if l = Network then [1, 2] else if l = Transport then [3] else []);
       (rest, extracted) = chunk_extract Transport Application p
   in chunk_size rest + chunk_size extracted = chunk_size p \<and> extracted Transport = [3]"
proof -
  let ?p = "\<lambda>l. if l = Network then [1, 2] else if l = Transport then [3] else [] :: byte list"
  obtain rest extracted where x: "chunk_extract Transport Application ?p = (rest, extracted)"
    by fastforce
  then have "extracted Transport = [3]" by (auto simp: chunk_extract_eq less_eq_OsiLayer_def)
  with x chunk_extract_merge [OF x] show ?thesis by simp
qed

end
