(* ===== verification/Geonet_Requests.thy ===== *)
theory Geonet_Requests
  imports Areas Packets
begin

text \<open>
  The management information base, data requests, their validation and repetition, and the
  headers built from a request (\<^verbatim>\<open>geonet/mib.*, interface.hpp, data_request.*, data_confirm.*,
  repeater.*\<close>, the constructors of \<^verbatim>\<open>basic_header.cpp\<close> and
  \<^verbatim>\<open>common_header.cpp\<close>). Durations of type \<^verbatim>\<open>units::Duration\<close> are reals in
  seconds, \<^verbatim>\<open>Clock::duration\<close> counts microseconds.
\<close>

section \<open>Management information base\<close>

datatype UnicastForwarding = Unicast_Unspecified | Unicast_Greedy | Unicast_CBF

datatype BroadcastForwarding =
  Broadcast_Unspecified | Broadcast_SIMPLE | Broadcast_CBF | Broadcast_Advanced

datatype AddrConfMethod = Auto | Managed | Anonymous

datatype InterfaceType = Interface_Unspecified | ITS_G5 | LTE_V2X

datatype SecurityDecapHandling = Strict | Non_Strict

record MIB =
  itsGnLocalGnAddr :: Address
  itsGnLocalAddrConfMethod :: AddrConfMethod
  itsGnProtocolVersion :: u32
  itsGnIsMobile :: bool
  itsGnIfType :: InterfaceType
  itsGnMinimumUpdateFrequencyEPV :: real
  itsGnPaiInterval :: real
  itsGnMaxSduSize :: u32
  itsGnMaxGeoNetworkingHeaderSize :: u32
  itsGnLifetimeLocTE :: real
  itsGnSecurity :: bool
  itsGnSnDecapResultHandling :: SecurityDecapHandling
  itsGnLocationServiceMaxRetrans :: u32
  itsGnLocationServiceRetransmitTimer :: real
  itsGnLocationServicePacketBufferSize :: u32
  itsGnBeaconServiceRetransmitTimer :: real
  itsGnBeaconServiceMaxJitter :: real
  itsGnDefaultHopLimit :: u32
  itsGnDPLLength :: u32
  itsGnMaxPacketLifetime :: Lifetime
  itsGnDefaultPacketLifetime :: Lifetime
  itsGnMaxPacketDataRate :: u32
  itsGnMaxPacketDataRateEmaBeta :: real
  itsGnMaxGeoAreaSize :: real
  itsGnMinPacketRepetitionInterval :: real
  itsGnNonAreaForwardingAlgorithm :: UnicastForwarding
  itsGnAreaForwardingAlgorithm :: BroadcastForwarding
  itsGnCbfMinTime :: real
  itsGnCbfMaxTime :: real
  itsGnDefaultMaxCommunicationRange :: real
  itsGnBroadcastCBFDefSectorAngle :: real
  itsGnUcForwardingPacketBufferSize :: u32
  itsGnBcForwardingPacketBufferSize :: u32
  itsGnCbfPacketBufferSize :: u32
  itsGnDefaultTrafficClass :: TrafficClass
  vanetzaDefaultSeed :: u32
  vanetzaCbfMaxCounter :: nat
  vanetzaDeferInitialBeacon :: duration
  vanetzaDisableBeaconing :: bool
  vanetzaMultiHopDuplicateAddressDetection :: bool
  vanetzaFadingCbfCounter :: bool
  vanetzaFadingCbfCounterLifetime :: real
  vanetzaNeighbourFlagExpiry :: duration
  vanetzaGbcMemoryCapacity :: nat
  vanetzaGbcPassUpOutsideDestination :: bool

definition default_mib :: MIB where
  "default_mib = \<lparr>
     itsGnLocalGnAddr = address_of_mac mac_zero,
     itsGnLocalAddrConfMethod = Managed,
     itsGnProtocolVersion = 1,
     itsGnIsMobile = True,
     itsGnIfType = ITS_G5,
     itsGnMinimumUpdateFrequencyEPV = 1,
     itsGnPaiInterval = 80,
     itsGnMaxSduSize = 1398,
     itsGnMaxGeoNetworkingHeaderSize = 88,
     itsGnLifetimeLocTE = 20,
     itsGnSecurity = False,
     itsGnSnDecapResultHandling = Strict,
     itsGnLocationServiceMaxRetrans = 10,
     itsGnLocationServiceRetransmitTimer = 1,
     itsGnLocationServicePacketBufferSize = 1024,
     itsGnBeaconServiceRetransmitTimer = 3,
     itsGnBeaconServiceMaxJitter = 3 / 4,
     itsGnDefaultHopLimit = 10,
     itsGnDPLLength = 8,
     itsGnMaxPacketLifetime = lifetime_set Hundred_Seconds 6,
     itsGnDefaultPacketLifetime = lifetime_set Ten_Seconds 6,
     itsGnMaxPacketDataRate = 100,
     itsGnMaxPacketDataRateEmaBeta = 0.9,
     itsGnMaxGeoAreaSize = 10 * 1000 * 1000,
     itsGnMinPacketRepetitionInterval = 0.1,
     itsGnNonAreaForwardingAlgorithm = Unicast_Greedy,
     itsGnAreaForwardingAlgorithm = Broadcast_CBF,
     itsGnCbfMinTime = 0.001,
     itsGnCbfMaxTime = 0.1,
     itsGnDefaultMaxCommunicationRange = 1000,
     itsGnBroadcastCBFDefSectorAngle = pi / 6,
     itsGnUcForwardingPacketBufferSize = 256,
     itsGnBcForwardingPacketBufferSize = 1024,
     itsGnCbfPacketBufferSize = 256,
     itsGnDefaultTrafficClass = traffic_class False False 0,
     vanetzaDefaultSeed = 0xc0114c2c,
     vanetzaCbfMaxCounter = 1,
     vanetzaDeferInitialBeacon = 0,
     vanetzaDisableBeaconing = False,
     vanetzaMultiHopDuplicateAddressDetection = False,
     vanetzaFadingCbfCounter = False,
     vanetzaFadingCbfCounterLifetime = 0.4,
     vanetzaNeighbourFlagExpiry = 0,
     vanetzaGbcMemoryCapacity = 0,
     vanetzaGbcPassUpOutsideDestination = False\<rparr>"

section \<open>Data requests\<close>

datatype UpperProtocol = Upper_Unknown | BTP_A | BTP_B | IPv6

datatype TransportType = GUC | GAC | GBC | TSB | SHB

type_synonym CommunicationProfile = InterfaceType

type_synonym ItsAid = u32

record Repetition =
  rep_interval :: real
  rep_maximum :: real

record DataRequest =
  upper_protocol :: UpperProtocol
  communication_profile :: CommunicationProfile
  req_its_aid :: ItsAid
  req_permissions :: "byte list"
  maximum_lifetime :: Lifetime
  repetition :: "Repetition option"
  max_hop_limit :: u32
  req_traffic_class :: TrafficClass

definition data_request :: "MIB \<Rightarrow> ItsAid \<Rightarrow> DataRequest" where
  "data_request mib aid = \<lparr>upper_protocol = BTP_A, communication_profile = Interface_Unspecified,
     req_its_aid = aid, req_permissions = [],
     maximum_lifetime = itsGnDefaultPacketLifetime mib, repetition = None,
     max_hop_limit = itsGnDefaultHopLimit mib, req_traffic_class = itsGnDefaultTrafficClass mib\<rparr>"

datatype DataRequestVariant =
    Guc_Request DataRequest Address | Gbc_Request DataRequest Area | Gac_Request DataRequest Area
  | Shb_Request DataRequest | Tsb_Request DataRequest

fun access_request :: "DataRequestVariant \<Rightarrow> DataRequest" where
  "access_request (Guc_Request r _) = r"
| "access_request (Gbc_Request r _) = r"
| "access_request (Gac_Request r _) = r"
| "access_request (Shb_Request r) = r"
| "access_request (Tsb_Request r) = r"

text \<open>The reference \<^verbatim>\<open>access_request\<close> returns is written through.\<close>

fun update_request :: "(DataRequest \<Rightarrow> DataRequest) \<Rightarrow> DataRequestVariant \<Rightarrow> DataRequestVariant" where
  "update_request f (Guc_Request r a) = Guc_Request (f r) a"
| "update_request f (Gbc_Request r a) = Gbc_Request (f r) a"
| "update_request f (Gac_Request r a) = Gac_Request (f r) a"
| "update_request f (Shb_Request r) = Shb_Request (f r)"
| "update_request f (Tsb_Request r) = Tsb_Request (f r)"

definition decrement_by_one :: "Repetition \<Rightarrow> Repetition" where
  "decrement_by_one rep =
     (if rep_maximum rep > 0 \<and> rep_interval rep > 0 \<and> rep_maximum rep > rep_interval rep
      then rep\<lparr>rep_maximum := rep_maximum rep - rep_interval rep\<rparr>
      else rep\<lparr>rep_maximum := 0\<rparr>)"

definition repetition_left :: "Repetition \<Rightarrow> bool" where
  "repetition_left rep \<longleftrightarrow>
     rep_maximum rep > 0 \<and> rep_interval rep > 0 \<and> rep_maximum rep \<ge> rep_interval rep"

definition has_further_repetition :: "DataRequest \<Rightarrow> bool" where
  "has_further_repetition request =
     (case repetition request of Some rep \<Rightarrow> repetition_left rep | None \<Rightarrow> False)"

section \<open>Validation\<close>

datatype ResultCode =
    Accepted | Rejected_Max_SDU_Size | Rejected_Max_Lifetime | Rejected_Min_Repetition_Interval
  | Rejected_Unsupported_Traffic_Class | Rejected_Max_Geo_Area_Size | Rejected_Unspecified

definition confirm_xor :: "ResultCode \<Rightarrow> ResultCode \<Rightarrow> ResultCode" where
  "confirm_xor lhs rhs = (if rhs \<noteq> Accepted then rhs else lhs)"

definition validate_data_request :: "DataRequest \<Rightarrow> MIB \<Rightarrow> ResultCode" where
  "validate_data_request req mib =
     (if lifetime_less (itsGnMaxPacketLifetime mib) (maximum_lifetime req) then Rejected_Max_Lifetime
      else if (case repetition req of
                 Some rep \<Rightarrow> rep_interval rep < itsGnMinPacketRepetitionInterval mib
               | None \<Rightarrow> False) then Rejected_Min_Repetition_Interval
      else Accepted)"

definition validate_area_request :: "DataRequest \<Rightarrow> Area \<Rightarrow> MIB \<Rightarrow> ResultCode" where
  "validate_area_request req area mib =
     (if area_size area > itsGnMaxGeoAreaSize mib then Rejected_Max_Geo_Area_Size
      else validate_data_request req mib)"

definition validate_payload :: "ChunkPacket option \<Rightarrow> MIB \<Rightarrow> ResultCode" where
  "validate_payload pl mib =
     (case pl of
        None \<Rightarrow> Rejected_Unspecified
      | Some p \<Rightarrow> if chunk_size p > unat (itsGnMaxSduSize mib) then Rejected_Max_SDU_Size else Accepted)"

section \<open>Headers of a request\<close>

definition basic_header_mib :: "MIB \<Rightarrow> BasicHeader" where
  "basic_header_mib mib = \<lparr>version = bit_number (itsGnProtocolVersion mib),
     basic_next_header = Basic_Any, basic_reserved = 0,
     lifetime = itsGnDefaultPacketLifetime mib, hop_limit = ucast (itsGnDefaultHopLimit mib)\<rparr>"

definition basic_header_request :: "DataRequest \<Rightarrow> MIB \<Rightarrow> BasicHeader" where
  "basic_header_request request mib = (basic_header_mib mib)\<lparr>
     basic_next_header := (if itsGnSecurity mib then Basic_Secured else Basic_Common),
     lifetime := maximum_lifetime request,
     hop_limit := ucast (max_hop_limit request)\<rparr>"

definition basic_header_shb :: "DataRequest \<Rightarrow> MIB \<Rightarrow> BasicHeader" where
  "basic_header_shb request mib = (basic_header_request request mib)\<lparr>hop_limit := 1\<rparr>"

definition common_header_mib :: "MIB \<Rightarrow> CommonHeader" where
  "common_header_mib mib = \<lparr>next_header = Common_Any, reserved1 = 0, header_type = HeaderType_Any,
     ch_traffic_class = itsGnDefaultTrafficClass mib,
     flags = (if itsGnIsMobile mib then 0x80 else 0x00), payload = 0,
     maximum_hop_limit = ucast (itsGnDefaultHopLimit mib), reserved2 = 0\<rparr>"

text \<open>An upper protocol without a header value makes the constructor throw: \<^const>\<open>None\<close>.\<close>

definition common_header_request :: "DataRequest \<Rightarrow> MIB \<Rightarrow> CommonHeader option" where
  "common_header_request request mib =
     map_option (\<lambda>nh. (common_header_mib mib)\<lparr>next_header := nh,
         ch_traffic_class := req_traffic_class request,
         maximum_hop_limit := ucast (max_hop_limit request)\<rparr>)
       (case upper_protocol request of
          BTP_A \<Rightarrow> Some Common_BTP_A | BTP_B \<Rightarrow> Some Common_BTP_B | IPv6 \<Rightarrow> Some Common_IPv6
        | Upper_Unknown \<Rightarrow> None)"

definition common_header_shb :: "DataRequest \<Rightarrow> MIB \<Rightarrow> CommonHeader option" where
  "common_header_shb request mib =
     map_option (\<lambda>h. h\<lparr>header_type := TSB_Single_Hop, maximum_hop_limit := 1\<rparr>)
       (common_header_request request mib)"

section \<open>Repeater\<close>

text \<open>
  A repetition is a stored request with its payload and the time at which the runtime triggers it;
  repetitions are added at the front. \<^verbatim>\<open>units::clock_cast\<close> converts seconds to whole
  microseconds, truncating towards zero.
\<close>

definition truncate_real :: "real \<Rightarrow> int" where
  "truncate_real x = (if 0 \<le> x then \<lfloor>x\<rfloor> else - \<lfloor>- x\<rfloor>)"

definition clock_cast :: "real \<Rightarrow> duration" where
  "clock_cast seconds = truncate_real (seconds * 1000000)"

definition clock_cast_seconds :: "duration \<Rightarrow> real" where
  "clock_cast_seconds d = real_of_int d / 1000000"

record PendingRepetition =
  rp_request :: DataRequestVariant
  rp_payload :: ChunkPacket
  rp_deadline :: time_point

type_synonym Repeater = "PendingRepetition list"

definition repeater_add :: "time_point \<Rightarrow> DataRequestVariant \<Rightarrow> ChunkPacket \<Rightarrow> Repeater \<Rightarrow> Repeater" where
  "repeater_add now request pl repetitions =
     (case repetition (access_request request) of
        None \<Rightarrow> repetitions
      | Some rep \<Rightarrow>
          if repetition_left rep
          then \<lparr>rp_request = request, rp_payload = pl,
                rp_deadline = now + clock_cast (rep_interval rep)\<rparr> # repetitions
          else repetitions)"

definition repeated_request :: "duration \<Rightarrow> DataRequestVariant \<Rightarrow> DataRequestVariant" where
  "repeated_request delayed request =
     (let request = update_request (\<lambda>r. r\<lparr>repetition := map_option (\<lambda>rep.
            let rep = decrement_by_one rep
            in rep\<lparr>rep_maximum := rep_maximum rep - clock_cast_seconds delayed\<rparr>) (repetition r)\<rparr>) request
      in if \<not> has_further_repetition (access_request request)
         then update_request (\<lambda>r. r\<lparr>repetition := None\<rparr>) request
         else request)"

text \<open>
  The triggered repetition is handed to the callback and removed; what the callback adds (a router
  repeats the request and registers it again) comes in front of the others.
\<close>

definition repeater_trigger ::
  "time_point \<Rightarrow> PendingRepetition \<Rightarrow> Repeater \<Rightarrow> (DataRequestVariant \<times> ChunkPacket) \<times> Repeater" where
  "repeater_trigger now rep repetitions =
     ((repeated_request (now - rp_deadline rep) (rp_request rep), rp_payload rep),
      remove1 rep repetitions)"

section \<open>Headers of a request are canonical\<close>

lemma wf_basic_header_request: "wf_basic (basic_header_request r mib)" "wf_basic (basic_header_shb r mib)" "wf_basic (basic_header_mib mib)"
  by (simp_all add: wf_basic_def basic_header_request_def basic_header_shb_def basic_header_mib_def next_header_basic_cast_def)

lemma wf_common_header_request:
  "common_header_request r mib = Some h \<Longrightarrow> wf_common h"
  "common_header_shb r mib = Some h \<Longrightarrow> wf_common h"
proof -
  have "pred_option wf_common (common_header_request r mib)" "pred_option wf_common (common_header_shb r mib)"
    by (cases "upper_protocol r"; simp add: wf_common_def common_header_request_def common_header_shb_def
        common_header_mib_def next_header_common_cast_def header_type_cast_def)+
  then show "common_header_request r mib = Some h \<Longrightarrow> wf_common h"
    "common_header_shb r mib = Some h \<Longrightarrow> wf_common h" by auto
qed

lemma access_update_request [simp]: "access_request (update_request f r) = f (access_request r)"
  by (cases r) simp_all

definition repetition_measure :: "Repetition option \<Rightarrow> nat" where
  "repetition_measure rep = (case rep of None \<Rightarrow> 0 | Some r \<Rightarrow>
     if repetition_left r then nat \<lfloor>rep_maximum r / rep_interval r\<rfloor> else 0)"

lemma repetition_left_iff:
  "repetition_left r \<longleftrightarrow> rep_interval r > 0 \<and> 1 \<le> \<lfloor>rep_maximum r / rep_interval r\<rfloor>"
  by (auto simp: repetition_left_def le_floor_iff le_divide_eq)

lemma repetition_measure_eq: "rep_interval r > 0 \<Longrightarrow> 0 \<le> rep_maximum r \<Longrightarrow> repetition_measure (Some r) = nat \<lfloor>rep_maximum r / rep_interval r\<rfloor>"
  by (auto simp: repetition_measure_def repetition_left_iff)

lemma repeated_request_repetition:
  assumes "repetition (access_request req) = Some r" and "repetition_left r"
  shows "repetition (access_request (repeated_request 0 req)) =
    (if repetition_left (decrement_by_one r) then Some (decrement_by_one r) else None)"
  using assms by (auto simp: repeated_request_def Let_def has_further_repetition_def clock_cast_seconds_def)

lemma decrement_floor:
  assumes "repetition_left r"
  shows "\<lfloor>rep_maximum (decrement_by_one r) / rep_interval r\<rfloor> = \<lfloor>rep_maximum r / rep_interval r\<rfloor> - 1"
proof -
  have "rep_maximum (decrement_by_one r) = rep_maximum r - rep_interval r"
    using assms by (auto simp: decrement_by_one_def repetition_left_def)
  moreover have "rep_interval r > 0" using assms by (simp add: repetition_left_def)
  ultimately show ?thesis by (simp add: diff_divide_distrib)
qed

lemma rep_interval_decrement [simp]: "rep_interval (decrement_by_one r) = rep_interval r"
  by (simp add: decrement_by_one_def)

lemma repetition_measure_step:
  assumes "repetition (access_request req) = Some r" and "repetition_left r"
  shows "Suc (repetition_measure (repetition (access_request (repeated_request 0 req)))) = repetition_measure (Some r)"
proof -
  obtain k where k: "\<lfloor>rep_maximum r / rep_interval r\<rfloor> = k" by blast
  have pos: "rep_interval r > 0" "1 \<le> k" using assms(2) by (simp_all only: repetition_left_iff k)
  have left: "repetition_left (decrement_by_one r) \<longleftrightarrow> 2 \<le> k"
    using pos by (simp only: repetition_left_iff rep_interval_decrement decrement_floor [OF assms(2)] k) auto
  show ?thesis
    using assms(2) pos left decrement_floor [OF assms(2)]
    by (simp add: repeated_request_repetition [OF assms] repetition_measure_def k) arith
qed


lemma repeater_add_trigger:
  assumes "repeater_add now request pl [] = rep # reps"
  obtains r where "repetition (access_request request) = Some r" and "repetition_left r"
    and "rp_deadline rep = now + clock_cast (rep_interval r)"
    and "repeater_trigger (rp_deadline rep) rep [rep] = ((repeated_request 0 request, pl), [])"
  using assms
  by (auto simp: repeater_add_def repeater_trigger_def split: option.splits if_splits)

text \<open>
  The life of a repeated request when every repetition is triggered on time: the router repeats
  the request, and the repeater stores what is left of it. The list holds the times and requests
  the callback is invoked with.
\<close>

function repetition_run :: "time_point \<Rightarrow> DataRequestVariant \<Rightarrow> ChunkPacket \<Rightarrow> (time_point \<times> DataRequestVariant) list" where
  "repetition_run now request pl =
     (case repeater_add now request pl [] of
        [] \<Rightarrow> []
      | rep # _ \<Rightarrow>
          (let ((request', pl'), _) = repeater_trigger (rp_deadline rep) rep [rep]
           in (rp_deadline rep, request') # repetition_run (rp_deadline rep) request' pl'))"
  by pat_completeness auto

termination
proof (relation "measure (\<lambda>(now, request, pl). repetition_measure (repetition (access_request request)))")
  fix now request pl rep reps x y q request' pl'
  assume "repeater_add now request pl [] = rep # reps"
  then obtain r where r: "repetition (access_request request) = Some r" "repetition_left r"
    and "repeater_trigger (rp_deadline rep) rep [rep] = ((repeated_request 0 request, pl), [])"
    by (rule repeater_add_trigger)
  moreover assume "x = repeater_trigger (rp_deadline rep) rep [rep]" "(y, q) = x" "(request', pl') = y"
  ultimately have "request' = repeated_request 0 request" by simp
  then show "((rp_deadline rep, request', pl'), now, request, pl)
    \<in> measure (\<lambda>(now, request, pl). repetition_measure (repetition (access_request request)))"
    using repetition_measure_step [OF r] r(1) by simp
qed simp

declare repetition_run.simps [simp del]

lemma repetition_run_unfold:
  "repetition_run now request pl =
     (case repetition (access_request request) of
        Some r \<Rightarrow> if repetition_left r
          then (now + clock_cast (rep_interval r), repeated_request 0 request)
             # repetition_run (now + clock_cast (rep_interval r)) (repeated_request 0 request) pl
          else []
      | None \<Rightarrow> [])"
  by (subst repetition_run.simps)
    (simp add: repeater_add_def repeater_trigger_def split: option.split)

lemma repetition_run_times:
  assumes "\<forall>r. repetition (access_request request) = Some r \<longrightarrow> rep_interval r = i"
  shows "map fst (repetition_run now request pl)
    = map (\<lambda>k. now + int k * clock_cast i) [1..<Suc (repetition_measure (repetition (access_request request)))]"
  using assms
proof (induction "repetition_measure (repetition (access_request request))" arbitrary: now request)
  case 0
  then have "\<forall>r. repetition (access_request request) = Some r \<longrightarrow> \<not> repetition_left r"
    using repetition_measure_step by (metis Zero_not_Suc)
  with 0(1) [symmetric] show ?case
    by (subst repetition_run_unfold) (auto split: option.split)
next
  case (Suc n)
  then obtain r where r: "repetition (access_request request) = Some r" "repetition_left r"
    by (auto simp: repetition_measure_def split: option.splits if_splits)
  let ?req = "repeated_request 0 request"
  have n: "repetition_measure (repetition (access_request ?req)) = n"
    using repetition_measure_step [OF r] Suc(2) r(1) by simp
  have i: "rep_interval r = i" using Suc(3) r by simp
  have "\<forall>r'. repetition (access_request ?req) = Some r' \<longrightarrow> rep_interval r' = i"
    using i by (simp add: repeated_request_repetition [OF r])
  from Suc(1) [OF n [symmetric] this, of "now + clock_cast i"] n
  have "map fst (repetition_run (now + clock_cast i) ?req pl) = map (\<lambda>k. now + clock_cast i + int k * clock_cast i) [1..<Suc n]"
    by simp
  also have "\<dots> = map (\<lambda>k. now + int k * clock_cast i) (map Suc [1..<Suc n])"
    by (simp add: algebra_simps)
  also have "\<dots> = map (\<lambda>k. now + int k * clock_cast i) [2..<Suc (Suc n)]"
    by (simp only: map_Suc_upt numeral_2_eq_2 One_nat_def)
  finally have "map fst (repetition_run now request pl)
    = (now + clock_cast i) # map (\<lambda>k. now + int k * clock_cast i) [2..<Suc (Suc n)]"
    using r i by (subst repetition_run_unfold) (simp del: upt_Suc)
  also have "\<dots> = map (\<lambda>k. now + int k * clock_cast i) [1..<Suc (Suc n)]"
    by (simp add: upt_conv_Cons numeral_2_eq_2 del: upt_Suc)
  finally show ?case using Suc(2) by simp
qed

text \<open>
   a request with repetition interval \<open>i\<close> and maximum duration \<open>m\<close> is repeated exactly
  \<open>\<lfloor>m / i\<rfloor>\<close> times, at multiples of the interval after the first transmission, and then no more.
\<close>

theorem repetition_schedule:
  assumes "repetition (access_request request) = Some r"
    and "rep_interval r > 0" and "0 \<le> rep_maximum r"
  shows "map fst (repetition_run now request pl)
    = map (\<lambda>k. now + int k * clock_cast (rep_interval r))
        [1..<Suc (nat \<lfloor>rep_maximum r / rep_interval r\<rfloor>)]"
  using repetition_run_times [of request "rep_interval r" now pl] assms
  by (simp add: repetition_measure_eq)

theorem repetition_schedule_witness:
  "map fst (repetition_run 0
     (Shb_Request ((data_request default_mib 36)\<lparr>repetition := Some \<lparr>rep_interval = 1, rep_maximum = 3\<rparr>\<rparr>))
     empty_chunk_packet) = [1000000, 2000000, 3000000]"
proof -
  have "clock_cast 1 = 1000000" by (simp add: clock_cast_def truncate_real_def)
  moreover have "[1..<Suc (nat \<lfloor>3 / 1 :: real\<rfloor>)] = [1, 2, 3]" by (simp add: upt_rec)
  ultimately show ?thesis
    using repetition_schedule
      [of "Shb_Request ((data_request default_mib 36)\<lparr>repetition := Some \<lparr>rep_interval = 1, rep_maximum = 3\<rparr>\<rparr>)"
          "\<lparr>rep_interval = 1, rep_maximum = 3\<rparr>" 0 empty_chunk_packet]
    by simp
qed

end
