(* ===== verification/Btp.thy ===== *)
theory Btp
  imports Geonet_Requests
begin

text \<open>
  The basic transport protocol (\<^verbatim>\<open>btp/header.*, data_request.hpp, data_indication.*,
  port_dispatcher.*\<close>): headers and their parsing from either packet representation,
  indications, the dispatcher of incoming packets to registered ports, and the translation of a
  BTP-B request into a GeoNetworking one (\<^verbatim>\<open>geonet/data_request.cpp\<close>). Port numbers are
  host values; the archive writes them in network byte order.
\<close>

section \<open>Headers\<close>

record HeaderA =
  a_destination_port :: u16
  a_source_port :: u16

record HeaderB =
  b_destination_port :: u16
  b_destination_port_info :: u16

definition serialize_btp_a :: "HeaderA \<Rightarrow> byte list" where
  "serialize_btp_a hdr = serialize_int (a_destination_port hdr) @ serialize_int (a_source_port hdr)"

definition deserialize_btp_a :: "HeaderA reader" where
  "deserialize_btp_a = rbind deserialize_int (\<lambda>d. rbind deserialize_int (\<lambda>s.
     rreturn \<lparr>a_destination_port = d, a_source_port = s\<rparr>))"

definition serialize_btp_b :: "HeaderB \<Rightarrow> byte list" where
  "serialize_btp_b hdr =
     serialize_int (b_destination_port hdr) @ serialize_int (b_destination_port_info hdr)"

definition deserialize_btp_b :: "HeaderB reader" where
  "deserialize_btp_b = rbind deserialize_int (\<lambda>d. rbind deserialize_int (\<lambda>i.
     rreturn \<lparr>b_destination_port = d, b_destination_port_info = i\<rparr>))"

interpretation btp_a_codec: wire_codec "\<lambda>_. True" serialize_btp_a deserialize_btp_a 4
proof
  fix x rest e
  show "length (serialize_btp_a x) = 4" by (simp add: serialize_btp_a_def)
  show "deserialize_btp_a \<lparr>stream = serialize_btp_a x @ rest, error_code = e\<rparr>
      = (Inr x, \<lparr>stream = rest, error_code = e\<rparr>)"
    by (simp add: serialize_btp_a_def deserialize_btp_a_def wire_simps)
  show "decodes deserialize_btp_a 4 (\<lambda>x bs. True \<and> serialize_btp_a x = bs)"
    unfolding deserialize_btp_a_def
    by ((rule decodes_bind, rule wire_reads, simp)+, rule decodes_returnI)
      (auto simp: serialize_btp_a_def)
qed

interpretation btp_b_codec: wire_codec "\<lambda>_. True" serialize_btp_b deserialize_btp_b 4
proof
  fix x rest e
  show "length (serialize_btp_b x) = 4" by (simp add: serialize_btp_b_def)
  show "deserialize_btp_b \<lparr>stream = serialize_btp_b x @ rest, error_code = e\<rparr>
      = (Inr x, \<lparr>stream = rest, error_code = e\<rparr>)"
    by (simp add: serialize_btp_b_def deserialize_btp_b_def wire_simps)
  show "decodes deserialize_btp_b 4 (\<lambda>x bs. True \<and> serialize_btp_b x = bs)"
    unfolding deserialize_btp_b_def
    by ((rule decodes_bind, rule wire_reads, simp)+, rule decodes_returnI)
      (auto simp: serialize_btp_b_def)
qed

section \<open>Parsing from packets\<close>

datatype PacketVariant = Cohesive CohesivePacket | Chunk ChunkPacket

definition deserialize_from_buffer :: "'h reader \<Rightarrow> byte list \<Rightarrow> archive_exception + 'h" where
  "deserialize_from_buffer de buf = fst (de \<lparr>stream = buf, error_code = Ok\<rparr>)"

text \<open>
  Parsing moves the transport boundary behind the header of a cohesive packet; a short transport
  layer makes it throw.
\<close>

fun parse_btp :: "'h reader \<Rightarrow> PacketVariant \<Rightarrow> archive_exception + ('h \<times> PacketVariant)" where
  "parse_btp de (Cohesive p) =
     map_sum id (\<lambda>hdr. (hdr, Cohesive (set_boundary Transport 4 p)))
       (deserialize_from_buffer de (cohesive_layer p Transport))"
| "parse_btp de (Chunk p) =
     map_sum id (\<lambda>hdr. (hdr, Chunk p)) (deserialize_from_buffer de (p Transport))"

definition parse_btp_a :: "PacketVariant \<Rightarrow> archive_exception + (HeaderA \<times> PacketVariant)" where
  "parse_btp_a = parse_btp deserialize_btp_a"

definition parse_btp_b :: "PacketVariant \<Rightarrow> archive_exception + (HeaderB \<times> PacketVariant)" where
  "parse_btp_b = parse_btp deserialize_btp_b"

section \<open>Indications\<close>

datatype DestinationVariant = Dest_Address Address | Dest_Area Area | Dest_None

record 'report GnDataIndication =
  gn_upper_protocol :: UpperProtocol
  gn_transport_type :: TransportType
  gn_destination :: DestinationVariant
  gn_source_position :: ShortPositionVector
  gn_security_report :: 'report
  gn_its_aid :: "ItsAid option"
  gn_permissions :: "byte list option"
  gn_traffic_class :: TrafficClass
  gn_remaining_packet_lifetime :: "Lifetime option"
  gn_remaining_hop_limit :: "u32 option"

record BtpDataIndication =
  btp_source_port :: "u16 option"
  btp_destination_port :: u16
  btp_destination_port_info :: "u16 option"
  btp_destination :: DestinationVariant
  btp_its_aid :: "ItsAid option"
  btp_permissions :: "byte list option"
  btp_source_position :: ShortPositionVector
  btp_traffic_class :: TrafficClass
  btp_remaining_packet_lifetime :: "Lifetime option"

definition btp_indication_a :: "'report GnDataIndication \<Rightarrow> HeaderA \<Rightarrow> BtpDataIndication" where
  "btp_indication_a ind btp = \<lparr>btp_source_port = Some (a_source_port btp),
     btp_destination_port = a_destination_port btp, btp_destination_port_info = None,
     btp_destination = gn_destination ind, btp_its_aid = gn_its_aid ind,
     btp_permissions = gn_permissions ind, btp_source_position = gn_source_position ind,
     btp_traffic_class = gn_traffic_class ind,
     btp_remaining_packet_lifetime = gn_remaining_packet_lifetime ind\<rparr>"

definition btp_indication_b :: "'report GnDataIndication \<Rightarrow> HeaderB \<Rightarrow> BtpDataIndication" where
  "btp_indication_b ind btp = \<lparr>btp_source_port = None,
     btp_destination_port = b_destination_port btp,
     btp_destination_port_info = Some (b_destination_port_info btp),
     btp_destination = gn_destination ind, btp_its_aid = gn_its_aid ind,
     btp_permissions = gn_permissions ind, btp_source_position = gn_source_position ind,
     btp_traffic_class = gn_traffic_class ind,
     btp_remaining_packet_lifetime = gn_remaining_packet_lifetime ind\<rparr>"

definition parse_btp_header ::
  "'report GnDataIndication \<Rightarrow> PacketVariant \<Rightarrow> archive_exception + (BtpDataIndication option \<times> PacketVariant)" where
  "parse_btp_header gn_ind packet =
     (case gn_upper_protocol gn_ind of
        BTP_A \<Rightarrow> map_sum id (map_prod (\<lambda>hdr. Some (btp_indication_a gn_ind hdr)) id) (parse_btp_a packet)
      | BTP_B \<Rightarrow> map_sum id (map_prod (\<lambda>hdr. Some (btp_indication_b gn_ind hdr)) id) (parse_btp_b packet)
      | _ \<Rightarrow> Inr (None, packet))"

section \<open>Port dispatcher\<close>

text \<open>
  Handlers and hooks are the objects registered by the application, \<^const>\<open>None\<close> the null handler;
  what the dispatcher does to them is the list of calls it makes.
\<close>

record ('handler, 'hook) PortDispatcher =
  m_interactive_handlers :: "u16 \<rightharpoonup> 'handler option"
  m_non_interactive_handlers :: "u16 \<rightharpoonup> 'handler option"
  m_promiscuous_hooks :: "'hook list"

datatype ('handler, 'hook) dispatch_call =
    Tap_packet 'hook BtpDataIndication PacketVariant
  | Indicate 'handler BtpDataIndication PacketVariant
  | Undispatched "BtpDataIndication option"

definition add_promiscuous_hook ::
  "'hook option \<Rightarrow> ('handler, 'hook) PortDispatcher \<Rightarrow> ('handler, 'hook) PortDispatcher" where
  "add_promiscuous_hook hook d =
     (case hook of
        None \<Rightarrow> d
      | Some h \<Rightarrow>
          if h \<in> set (m_promiscuous_hooks d) then d
          else d\<lparr>m_promiscuous_hooks := m_promiscuous_hooks d @ [h]\<rparr>)"

definition remove_promiscuous_hook ::
  "'hook \<Rightarrow> ('handler, 'hook) PortDispatcher \<Rightarrow> ('handler, 'hook) PortDispatcher" where
  "remove_promiscuous_hook hook d =
     d\<lparr>m_promiscuous_hooks := filter (\<lambda>h. h \<noteq> hook) (m_promiscuous_hooks d)\<rparr>"

definition set_interactive_handler ::
  "u16 \<Rightarrow> 'handler option \<Rightarrow> ('handler, 'hook) PortDispatcher \<Rightarrow> ('handler, 'hook) PortDispatcher" where
  "set_interactive_handler port handler d =
     d\<lparr>m_interactive_handlers := (m_interactive_handlers d)(port \<mapsto> handler)\<rparr>"

definition set_non_interactive_handler ::
  "u16 \<Rightarrow> 'handler option \<Rightarrow> ('handler, 'hook) PortDispatcher \<Rightarrow> ('handler, 'hook) PortDispatcher" where
  "set_non_interactive_handler port handler d =
     d\<lparr>m_non_interactive_handlers := (m_non_interactive_handlers d)(port \<mapsto> handler)\<rparr>"

text \<open>\<^verbatim>\<open>operator[]\<close> of the map inserts a null handler for a port without an entry.\<close>

definition lookup_handler :: "u16 \<Rightarrow> (u16 \<rightharpoonup> 'handler option) \<Rightarrow> 'handler option \<times> (u16 \<rightharpoonup> 'handler option)" where
  "lookup_handler port handlers =
     (case handlers port of Some h \<Rightarrow> (h, handlers) | None \<Rightarrow> (None, handlers(port \<mapsto> None)))"

definition dispatcher_indicate ::
  "'report GnDataIndication \<Rightarrow> PacketVariant \<Rightarrow> ('handler, 'hook) PortDispatcher \<Rightarrow>
   archive_exception + (('handler, 'hook) dispatch_call list \<times> ('handler, 'hook) PortDispatcher)" where
  "dispatcher_indicate gn_ind packet d =
     (case parse_btp_header gn_ind packet of
        Inl e \<Rightarrow> Inl e
      | Inr (None, packet) \<Rightarrow> Inr ([Undispatched None], d)
      | Inr (Some ind, packet) \<Rightarrow>
          (let (handler, d) =
             (case btp_source_port ind of
                Some _ \<Rightarrow>
                  (let (h, m) = lookup_handler (btp_destination_port ind) (m_interactive_handlers d)
                   in (h, d\<lparr>m_interactive_handlers := m\<rparr>))
              | None \<Rightarrow>
                  (let (h, m) = lookup_handler (btp_destination_port ind) (m_non_interactive_handlers d)
                   in (h, d\<lparr>m_non_interactive_handlers := m\<rparr>)))
           in Inr (map (\<lambda>hook. Tap_packet hook ind packet) (m_promiscuous_hooks d)
                   @ [case handler of Some h \<Rightarrow> Indicate h ind packet | None \<Rightarrow> Undispatched (Some ind)],
                   d)))"

section \<open>Requests\<close>

record DataRequestGeoNetParams =
  p_transport_type :: TransportType
  p_destination :: DestinationVariant
  p_communication_profile :: CommunicationProfile
  p_its_aid :: ItsAid
  p_maximum_lifetime :: "Lifetime option"
  p_maximum_hop_limit :: "u32 option"
  p_repetition :: "Repetition option"
  p_traffic_class :: TrafficClass

record DataRequestB =
  rb_destination_port :: u16
  rb_destination_port_info :: u16
  rb_gn :: DataRequestGeoNetParams

definition copy_request_parameters :: "DataRequestB \<Rightarrow> DataRequest \<Rightarrow> DataRequest" where
  "copy_request_parameters btp gn =
     (let p = rb_gn btp in
      gn\<lparr>upper_protocol := BTP_B,
         communication_profile := p_communication_profile p,
         req_its_aid := p_its_aid p,
         maximum_lifetime := (case p_maximum_lifetime p of Some l \<Rightarrow> l | None \<Rightarrow> maximum_lifetime gn),
         repetition := p_repetition p,
         max_hop_limit := (case p_maximum_hop_limit p of Some h \<Rightarrow> h | None \<Rightarrow> max_hop_limit gn),
         req_traffic_class := p_traffic_class p\<rparr>)"

text \<open>A missing destination of the right kind makes the two other overloads throw.\<close>

definition copy_request_with_address :: "DataRequestB \<Rightarrow> DataRequest \<Rightarrow> (DataRequest \<times> Address) option" where
  "copy_request_with_address btp gn =
     (case p_destination (rb_gn btp) of
        Dest_Address a \<Rightarrow> Some (copy_request_parameters btp gn, a) | _ \<Rightarrow> None)"

definition copy_request_with_area :: "DataRequestB \<Rightarrow> DataRequest \<Rightarrow> (DataRequest \<times> Area) option" where
  "copy_request_with_area btp gn =
     (case p_destination (rb_gn btp) of
        Dest_Area a \<Rightarrow> Some (copy_request_parameters btp gn, a) | _ \<Rightarrow> None)"

section \<open>Delivery\<close>

lemma deserialize_from_buffer_eq:
  "deserialize_from_buffer deserialize_btp_a (serialize_btp_a hdr @ rest) = Inr hdr"
  "deserialize_from_buffer deserialize_btp_b (serialize_btp_b hdrb @ rest) = Inr hdrb"
  by (simp_all add: deserialize_from_buffer_def btp_a_codec.roundtrip btp_b_codec.roundtrip)

lemma deserialize_from_buffer_short:
  assumes "length buf < 4"
  shows "deserialize_from_buffer deserialize_btp_a buf = Inl Incomplete_read"
    and "deserialize_from_buffer deserialize_btp_b buf = Inl Incomplete_read"
  using btp_a_codec.short_input [of "\<lparr>stream = buf, error_code = Ok\<rparr>"]
    btp_b_codec.short_input [of "\<lparr>stream = buf, error_code = Ok\<rparr>"] assms
  by (simp_all add: deserialize_from_buffer_def)

lemma deserialize_from_buffer_ok:
  assumes "4 \<le> length buf"
  shows "\<exists>hdr. deserialize_from_buffer deserialize_btp_a buf = Inr hdr"
    and "\<exists>hdr. deserialize_from_buffer deserialize_btp_b buf = Inr hdr"
  using btp_a_codec.accepts_iff [of "\<lparr>stream = buf, error_code = Ok\<rparr>"]
    btp_b_codec.accepts_iff [of "\<lparr>stream = buf, error_code = Ok\<rparr>"] assms
  by (auto simp: deserialize_from_buffer_def)

fun transport_octets :: "PacketVariant \<Rightarrow> byte list" where
  "transport_octets (Cohesive p) = cohesive_layer p Transport"
| "transport_octets (Chunk p) = p Transport"

fun is_delivery :: "('handler, 'hook) dispatch_call \<Rightarrow> bool" where
  "is_delivery (Tap_packet _ _ _) = False"
| "is_delivery _ = True"

lemma parse_btp_total:
  "(\<exists>x. parse_btp deserialize_btp_a packet = Inr x) \<longleftrightarrow> 4 \<le> length (transport_octets packet)"
  "(\<exists>x. parse_btp deserialize_btp_b packet = Inr x) \<longleftrightarrow> 4 \<le> length (transport_octets packet)"
  using deserialize_from_buffer_short [of "transport_octets packet"]
    deserialize_from_buffer_ok [of "transport_octets packet"]
  by (cases packet; cases "4 \<le> length (transport_octets packet)"; auto)+


text \<open>
   a BTP-B packet whose transport layer starts with a header is handed to the handler
  registered for the header's destination port, with an indication carrying the port, the port info
  and the GeoNetworking parameters, whatever handlers and hooks were registered before.
\<close>

theorem dispatch_to_registered_port:
  assumes "gn_upper_protocol gn_ind = BTP_B"
    and "transport_octets packet = serialize_btp_b hdr @ data"
  shows "\<exists>calls d' packet'.
    dispatcher_indicate gn_ind packet
      (set_non_interactive_handler (b_destination_port hdr) (Some handler) d) = Inr (calls, d')
    \<and> last calls = Indicate handler (btp_indication_b gn_ind hdr) packet'
    \<and> (case packet of Cohesive p \<Rightarrow> packet' = Cohesive (set_boundary Transport 4 p)
        | Chunk p \<Rightarrow> packet' = packet)"
proof -
  have "parse_btp_b packet = Inr (hdr, case packet of Cohesive p \<Rightarrow> Cohesive (set_boundary Transport 4 p)
      | Chunk p \<Rightarrow> packet)"
    using assms(2) deserialize_from_buffer_eq(2) [of hdr data]
    by (cases packet) (simp_all add: parse_btp_b_def)
  with assms(1) show ?thesis
    by (auto simp: dispatcher_indicate_def parse_btp_header_def btp_indication_b_def Let_def
        lookup_handler_def set_non_interactive_handler_def split: PacketVariant.split)
qed

theorem dispatch_to_registered_port_witness:
  "let hdr = \<lparr>b_destination_port = 2001, b_destination_port_info = 0\<rparr>;
       packet = Chunk ((\<lambda>_. [])(Transport := serialize_btp_b hdr @ [1, 2]));
       gn_ind = \<lparr>gn_upper_protocol = BTP_B, gn_transport_type = SHB, gn_destination = Dest_None,
         gn_source_position = spv_of_lpv zero_position_vector, gn_security_report = (),
         gn_its_aid = Some 36, gn_permissions = None, gn_traffic_class = 0,
         gn_remaining_packet_lifetime = None, gn_remaining_hop_limit = None\<rparr>;
       d = \<lparr>m_interactive_handlers = Map.empty, m_non_interactive_handlers = Map.empty,
         m_promiscuous_hooks = [True]\<rparr>
   in \<exists>calls d'. dispatcher_indicate gn_ind packet (set_non_interactive_handler 2001 (Some (7 :: nat)) d)
        = Inr (calls, d') \<and> last calls = Indicate 7 (btp_indication_b gn_ind hdr) packet"
proof -
  define hdr where "hdr = \<lparr>b_destination_port = 2001, b_destination_port_info = 0\<rparr>"
  define packet where "packet = Chunk ((\<lambda>_. [])(Transport := serialize_btp_b hdr @ [1, 2]))"
  define gn_ind where "gn_ind = \<lparr>gn_upper_protocol = BTP_B, gn_transport_type = SHB,
    gn_destination = Dest_None, gn_source_position = spv_of_lpv zero_position_vector,
    gn_security_report = (), gn_its_aid = Some 36, gn_permissions = None, gn_traffic_class = 0,
    gn_remaining_packet_lifetime = None, gn_remaining_hop_limit = None\<rparr>"
  define d :: "(nat, bool) PortDispatcher" where "d = \<lparr>m_interactive_handlers = Map.empty,
    m_non_interactive_handlers = Map.empty, m_promiscuous_hooks = [True]\<rparr>"
  have "gn_upper_protocol gn_ind = BTP_B" "transport_octets packet = serialize_btp_b hdr @ [1, 2]"
    by (simp_all add: packet_def gn_ind_def)
  from dispatch_to_registered_port [OF this, of 7 d] show ?thesis
    unfolding Let_def gn_ind_def [symmetric] d_def [symmetric] hdr_def [symmetric] packet_def [symmetric]
    by (auto simp: packet_def) (simp add: hdr_def)
qed

end
