(* ===== verification/Geonet_Parser.thy ===== *)
theory Geonet_Parser
  imports Geonet_Headers
begin

text \<open>
  Protocol data units and the parser for received ones (\<^verbatim>\<open>geonet/pdu.*, parser.*\<close>). The
  codecs of secured messages belong to other components and are parameters: a serializer with its
  size, and for each version a reader that returns the number of octets it consumed and the
  message, or \<^const>\<open>None\<close> when it throws.
\<close>

section \<open>Protocol data units\<close>

record 'sec Pdu =
  pdu_basic :: BasicHeader
  pdu_common :: CommonHeader
  pdu_secured :: "'sec option"
  pdu_extended :: HeaderVariant

definition serialize_pdu :: "('sec \<Rightarrow> byte list) \<Rightarrow> 'sec Pdu \<Rightarrow> byte list" where
  "serialize_pdu serialize_secured pdu =
     serialize_basic (pdu_basic pdu)
     @ (case pdu_secured pdu of
          Some sec \<Rightarrow> serialize_secured sec
        | None \<Rightarrow> serialize_common (pdu_common pdu) @ serialize_header (pdu_extended pdu))"

definition pdu_length :: "('sec \<Rightarrow> nat) \<Rightarrow> 'sec Pdu \<Rightarrow> nat" where
  "pdu_length get_size pdu =
     BasicHeader_length_bytes
     + (case pdu_secured pdu of
          Some sec \<Rightarrow> get_size sec
        | None \<Rightarrow> CommonHeader_length_bytes + get_length (pdu_extended pdu))"

section \<open>Parser\<close>

record Parser =
  m_archive :: InputArchive
  m_read_bytes :: nat

definition make_parser :: "byte list \<Rightarrow> Parser" where
  "make_parser bytes = \<lparr>m_archive = \<lparr>stream = bytes, error_code = Ok\<rparr>, m_read_bytes = 0\<rparr>"

text \<open>
  Each operation returns the number of octets it parsed and, unless the archive threw, the header;
  the header the caller passed in is not used after a failure.
\<close>

definition parse_basic :: "Parser \<Rightarrow> (nat \<times> BasicHeader option) \<times> Parser" where
  "parse_basic p =
     (let (result, ar) = deserialize_basic (m_archive p);
          (bytes, hdr) = (case result of
             Inr basic \<Rightarrow> (BasicHeader_length_bytes, Some basic)
           | Inl _ \<Rightarrow> (0, None))
      in ((bytes, hdr), p\<lparr>m_archive := ar, m_read_bytes := m_read_bytes p + bytes\<rparr>))"

definition parse_common :: "Parser \<Rightarrow> (nat \<times> CommonHeader option) \<times> Parser" where
  "parse_common p =
     (let (result, ar) = deserialize_common (m_archive p);
          (bytes, hdr) = (case result of
             Inr common \<Rightarrow> (CommonHeader_length_bytes, Some common)
           | Inl _ \<Rightarrow> (0, None))
      in ((bytes, hdr), p\<lparr>m_archive := ar, m_read_bytes := m_read_bytes p + bytes\<rparr>))"

type_synonym 'sec secured_reader = "InputArchive \<Rightarrow> (nat \<times> 'sec) option \<times> InputArchive"

definition parse_secured ::
  "'sec secured_reader \<Rightarrow> 'sec secured_reader \<Rightarrow> Parser \<Rightarrow> (nat \<times> 'sec option) \<times> Parser" where
  "parse_secured v2_deserialize v3_deserialize p =
     (if is_good (m_archive p) then
        (let (result, ar) =
           (case peek_byte (m_archive p) of
              (Inl _, ar) \<Rightarrow> (None, ar)
            | (Inr sec_first_byte, ar) \<Rightarrow>
                if sec_first_byte < 3 then v2_deserialize ar
                else if sec_first_byte = 3 then v3_deserialize ar
                else (None, ar));
             (bytes, msg) = (case result of Some (n, m) \<Rightarrow> (n, Some m) | None \<Rightarrow> (0, None))
         in ((bytes, msg), p\<lparr>m_archive := ar, m_read_bytes := m_read_bytes p + bytes\<rparr>))
      else ((0, None), p))"

text \<open>\<^verbatim>\<open>deserialize_extended<EXTENDED>\<close>: the header as a variant and its length.\<close>

definition deserialize_extended :: "('h \<Rightarrow> HeaderVariant) \<Rightarrow> 'h reader \<Rightarrow> (nat \<times> HeaderVariant) reader" where
  "deserialize_extended wrap de =
     rbind de (\<lambda>header. rreturn (get_length (wrap header), wrap header))"

definition parse_extended :: "HeaderType \<Rightarrow> Parser \<Rightarrow> (nat \<times> HeaderVariant option) \<times> Parser" where
  "parse_extended ht p =
     (let (result, ar) =
        (case ht of
           TSB_Single_Hop \<Rightarrow> map_prod Some id (deserialize_extended Shb_Header deserialize_shb (m_archive p))
         | TSB_Multi_Hop \<Rightarrow> map_prod Some id (deserialize_extended Tsb_Header deserialize_tsb (m_archive p))
         | GeoBroadcast_Circle \<Rightarrow> map_prod Some id (deserialize_extended Gbc_Header deserialize_gbc (m_archive p))
         | GeoBroadcast_Rect \<Rightarrow> map_prod Some id (deserialize_extended Gbc_Header deserialize_gbc (m_archive p))
         | GeoBroadcast_Elip \<Rightarrow> map_prod Some id (deserialize_extended Gbc_Header deserialize_gbc (m_archive p))
         | Beacon \<Rightarrow> map_prod Some id (deserialize_extended Beacon_Header deserialize_beacon (m_archive p))
         | _ \<Rightarrow> (None, m_archive p));
          (bytes, hdr) = (case result of
             Some (Inr (n, h)) \<Rightarrow> (n, Some h)
           | _ \<Rightarrow> (0, None))
      in ((bytes, hdr), p\<lparr>m_archive := ar, m_read_bytes := m_read_bytes p + bytes\<rparr>))"

definition parsed_bytes :: "Parser \<Rightarrow> nat" where
  "parsed_bytes p = m_read_bytes p"

text \<open>Which extended header a header type announces.\<close>

fun extended_matches :: "HeaderType \<Rightarrow> HeaderVariant \<Rightarrow> bool" where
  "extended_matches ht (Shb_Header _) \<longleftrightarrow> ht = TSB_Single_Hop"
| "extended_matches ht (Tsb_Header _) \<longleftrightarrow> ht = TSB_Multi_Hop"
| "extended_matches ht (Beacon_Header _) \<longleftrightarrow> ht = Beacon"
| "extended_matches ht (Gbc_Header _) \<longleftrightarrow>
     ht = GeoBroadcast_Circle \<or> ht = GeoBroadcast_Rect \<or> ht = GeoBroadcast_Elip"

section \<open>Parsing what was serialized\<close>

lemmas header_lengths =
  BasicHeader_length_bytes_def CommonHeader_length_bytes_def LongPositionVector_length_bytes_def

lemma deserialize_extended_eq:
  "deserialize_extended wrap de ar =
     (case de ar of (Inl e, ar') \<Rightarrow> (Inl e, ar')
      | (Inr h, ar') \<Rightarrow> (Inr (get_length (wrap h), wrap h), ar'))"
  by (simp add: deserialize_extended_def rbind_def rreturn_def split: prod.split sum.split)

lemma parse_basic_serialized:
  "wf_basic hdr \<Longrightarrow>
     parse_basic \<lparr>m_archive = \<lparr>stream = serialize_basic hdr @ rest, error_code = e\<rparr>, m_read_bytes = n\<rparr>
       = ((4, Some hdr), \<lparr>m_archive = \<lparr>stream = rest, error_code = e\<rparr>, m_read_bytes = n + 4\<rparr>)"
  by (simp add: parse_basic_def basic_codec.roundtrip header_lengths)

lemma parse_common_serialized:
  "wf_common hdr \<Longrightarrow>
     parse_common \<lparr>m_archive = \<lparr>stream = serialize_common hdr @ rest, error_code = e\<rparr>, m_read_bytes = n\<rparr>
       = ((8, Some hdr), \<lparr>m_archive = \<lparr>stream = rest, error_code = e\<rparr>, m_read_bytes = n + 8\<rparr>)"
  by (simp add: parse_common_def common_codec.roundtrip header_lengths)

lemma parse_extended_serialized:
  "wf_header hdr \<Longrightarrow> extended_matches ht hdr \<Longrightarrow>
     parse_extended ht \<lparr>m_archive = \<lparr>stream = serialize_header hdr @ rest, error_code = e\<rparr>, m_read_bytes = n\<rparr>
       = ((get_length hdr, Some hdr),
          \<lparr>m_archive = \<lparr>stream = rest, error_code = e\<rparr>, m_read_bytes = n + get_length hdr\<rparr>)"
  by (cases hdr)
    (auto simp: parse_extended_def deserialize_extended_eq beacon_codec.roundtrip gbc_codec.roundtrip
      shb_codec.roundtrip tsb_codec.roundtrip)

section \<open>What parsing returns\<close>

text \<open>
  A parser operation that reports \<open>n\<close> octets has consumed exactly \<open>n\<close> octets, and they are the
  serialization of the header it returns.
\<close>

lemma parse_basic_sound:
  assumes "parse_basic p = ((n, hdr), q)"
  shows "m_read_bytes q = m_read_bytes p + n"
    and "hdr = Some h \<Longrightarrow> n = 4 \<and> wf_basic h \<and> stream (m_archive p) = serialize_basic h @ stream (m_archive q)"
    and "hdr = None \<longleftrightarrow> n = 0" and "hdr = None \<longleftrightarrow> length (stream (m_archive p)) < 4"
proof -
  obtain r ar where d: "deserialize_basic (m_archive p) = (r, ar)" by fastforce
  have acc: "length (stream (m_archive p)) < 4 \<longleftrightarrow> isl r"
    using basic_codec.accepts_iff [of "m_archive p"] d by (cases r) auto
  show "m_read_bytes q = m_read_bytes p + n"
    and "hdr = None \<longleftrightarrow> n = 0" and "hdr = None \<longleftrightarrow> length (stream (m_archive p)) < 4"
    using assms d acc by (auto simp: parse_basic_def header_lengths split: sum.splits)
  show "n = 4 \<and> wf_basic h \<and> stream (m_archive p) = serialize_basic h @ stream (m_archive q)"
    if "hdr = Some h"
    using assms d basic_codec.accepted [of "m_archive p" h ar] that
    by (auto simp: parse_basic_def header_lengths split: sum.splits)
qed

lemma parse_common_sound:
  assumes "parse_common p = ((n, hdr), q)"
  shows "m_read_bytes q = m_read_bytes p + n"
    and "hdr = Some h \<Longrightarrow> n = 8 \<and> wf_common h \<and> stream (m_archive p) = serialize_common h @ stream (m_archive q)"
    and "hdr = None \<longleftrightarrow> n = 0" and "hdr = None \<longleftrightarrow> length (stream (m_archive p)) < 8"
proof -
  obtain r ar where d: "deserialize_common (m_archive p) = (r, ar)" by fastforce
  have acc: "length (stream (m_archive p)) < 8 \<longleftrightarrow> isl r"
    using common_codec.accepts_iff [of "m_archive p"] d by (cases r) auto
  show "m_read_bytes q = m_read_bytes p + n"
    and "hdr = None \<longleftrightarrow> n = 0" and "hdr = None \<longleftrightarrow> length (stream (m_archive p)) < 8"
    using assms d acc by (auto simp: parse_common_def header_lengths split: sum.splits)
  show "n = 8 \<and> wf_common h \<and> stream (m_archive p) = serialize_common h @ stream (m_archive q)"
    if "hdr = Some h"
    using assms d common_codec.accepted [of "m_archive p" h ar] that
    by (auto simp: parse_common_def header_lengths split: sum.splits)
qed

lemma parse_extended_sound:
  assumes "parse_extended ht p = ((n, hdr), q)"
  shows "m_read_bytes q = m_read_bytes p + n" and "hdr = None \<longleftrightarrow> n = 0"
    and "hdr = Some h \<Longrightarrow> n = get_length h \<and> wf_header h \<and> extended_matches ht h
           \<and> stream (m_archive p) = serialize_header h @ stream (m_archive q)"
proof -
  show "m_read_bytes q = m_read_bytes p + n" "hdr = None \<longleftrightarrow> n = 0"
    using assms
    by (auto simp: parse_extended_def deserialize_extended_eq header_lengths
        split: prod.splits sum.splits HeaderType.splits)
  assume "hdr = Some h"
  with assms show "n = get_length h \<and> wf_header h \<and> extended_matches ht h
      \<and> stream (m_archive p) = serialize_header h @ stream (m_archive q)"
    by (auto simp: parse_extended_def deserialize_extended_eq beacon_codec.de_iff gbc_codec.de_iff
        shb_codec.de_iff tsb_codec.de_iff split: prod.splits sum.splits HeaderType.splits)
qed

text \<open>
  C17: parsing is the exact inverse of serialization for unsecured protocol data units. The three
  parser steps succeed with a basic, a common and an extended header and leave some rest if and
  only if the received octets are the serialization of a unit with these (canonical, mutually
  consistent) headers followed by that rest; the parser then has counted the octets of the headers.
\<close>

theorem parse_pdu_iff:
  "(\<exists>p1 p2 p3. parse_basic (make_parser bytes) = ((4, Some b), p1)
      \<and> parse_common p1 = ((8, Some c), p2)
      \<and> parse_extended (header_type c) p2 = ((get_length e, Some e), p3)
      \<and> stream (m_archive p3) = rest \<and> parsed_bytes p3 = 12 + get_length e)
   \<longleftrightarrow> wf_basic b \<and> wf_common c \<and> wf_header e \<and> extended_matches (header_type c) e
     \<and> bytes = serialize_pdu ser
         \<lparr>pdu_basic = b, pdu_common = c, pdu_secured = None, pdu_extended = e\<rparr> @ rest"
  (is "?parses \<longleftrightarrow> ?serialized")
proof
  assume ?parses
  then show ?serialized
    by (auto simp: make_parser_def serialize_pdu_def dest!: parse_basic_sound(2) [OF _ refl]
        parse_common_sound(2) [OF _ refl] parse_extended_sound(3) [OF _ refl])
next
  assume ?serialized
  then show ?parses
    by (auto simp: make_parser_def serialize_pdu_def parse_basic_serialized parse_common_serialized
        parse_extended_serialized parsed_bytes_def)
qed

text \<open>
   the length the stack computes for a protocol data unit is the number of octets it
  serializes, whenever the size it uses for secured messages is that of their serialization.
\<close>

theorem pdu_length_serialized:
  assumes "\<And>sec. length (serialize_secured sec) = get_size sec"
  shows "length (serialize_pdu serialize_secured pdu) = pdu_length get_size pdu"
  using assms
  by (simp add: serialize_pdu_def pdu_length_def basic_codec.ser_length common_codec.ser_length
      length_serialize_header BasicHeader_length_bytes_def CommonHeader_length_bytes_def
      split: option.split)

theorem pdu_length_serialized_witness:
  "length (serialize_pdu (\<lambda>sec. [3, sec])
     \<lparr>pdu_basic = \<lparr>version = 1, basic_next_header = Basic_Secured, basic_reserved = 0, lifetime = 0, hop_limit = 1\<rparr>,
      pdu_common = \<lparr>next_header = Common_Any, reserved1 = 0, header_type = Beacon, ch_traffic_class = 0,
        flags = 0, payload = 0, maximum_hop_limit = 1, reserved2 = 0\<rparr>,
      pdu_secured = Some 7,
      pdu_extended = Beacon_Header \<lparr>beacon_source_position = zero_position_vector\<rparr>\<rparr>) = 6"
  using pdu_length_serialized [where serialize_secured = "\<lambda>sec. [3, sec]" and get_size = "\<lambda>_. 2"]
  by (simp add: pdu_length_def BasicHeader_length_bytes_def)

end
