(* ===== verification/Soft_State.thy ===== *)
theory Soft_State
  imports Prelude
begin

text \<open>
  The map with expiring entries (\<^verbatim>\<open>geonet/soft_state_map.hpp\<close>): values in a hash map, expiry
  times in a priority queue whose nodes carry the key. The interface its clients rely on is the
  locale \<open>expiring_map\<close>: what is visible at a time after each operation.
\<close>

section \<open>Data\<close>

text \<open>
  The hash map and the heap are association lists; a heap node is found by the key it carries,
  which is what the handle stored with a value does. The order of either list is immaterial.
\<close>

record ('k, 'v) SoftStateMap =
  m_lifetime :: duration
  m_heap :: "('k \<times> time_point) list"
  m_map :: "('k \<times> 'v) list"

definition soft_state_map :: "duration \<Rightarrow> ('k, 'v) SoftStateMap" where
  "soft_state_map l = \<lparr>m_lifetime = l, m_heap = [], m_map = []\<rparr>"

definition set_lifetime :: "duration \<Rightarrow> ('k, 'v) SoftStateMap \<Rightarrow> ('k, 'v) SoftStateMap" where
  "set_lifetime l s = s\<lparr>m_lifetime := l\<rparr>"

definition ss_is_expired :: "time_point \<Rightarrow> time_point \<Rightarrow> bool" where
  "ss_is_expired now expiry \<longleftrightarrow> now > expiry"

text \<open>The expiry a value's handle points to.\<close>

definition handle_expiry :: "'k \<Rightarrow> ('k, 'v) SoftStateMap \<Rightarrow> time_point option" where
  "handle_expiry key s = map_of (m_heap s) key"

definition get_data_ptr :: "'k \<Rightarrow> ('k, 'v) SoftStateMap \<Rightarrow> 'v option" where
  "get_data_ptr key s = map_of (m_map s) key"

text \<open>Writing through the reference to a stored value.\<close>

definition ss_write :: "'k \<Rightarrow> 'v \<Rightarrow> ('k, 'v) SoftStateMap \<Rightarrow> ('k, 'v) SoftStateMap" where
  "ss_write key v s = s\<lparr>m_map := map (\<lambda>(k, w). if k = key then (k, v) else (k, w)) (m_map s)\<rparr>"

definition refresh_handle :: "time_point \<Rightarrow> 'k \<Rightarrow> ('k, 'v) SoftStateMap \<Rightarrow> ('k, 'v) SoftStateMap" where
  "refresh_handle now key s =
     s\<lparr>m_heap := map (\<lambda>(k, t). if k = key then (k, now + m_lifetime s) else (k, t)) (m_heap s)\<rparr>"

section \<open>Operations\<close>

text \<open>The value creator is the argument \<open>create\<close>.\<close>

definition get_data :: "time_point \<Rightarrow> 'v \<Rightarrow> 'k \<Rightarrow> ('k, 'v) SoftStateMap \<Rightarrow> 'v \<times> ('k, 'v) SoftStateMap" where
  "get_data now create key s =
     (case get_data_ptr key s of
        None \<Rightarrow> (create, s\<lparr>m_map := (key, create) # m_map s,
                          m_heap := (key, now + m_lifetime s) # m_heap s\<rparr>)
      | Some v \<Rightarrow>
          (case handle_expiry key s of
             Some expiry \<Rightarrow> if ss_is_expired now expiry then (v, refresh_handle now key s) else (v, s)
           | None \<Rightarrow> (v, s)))"

definition get_value :: "time_point \<Rightarrow> 'v \<Rightarrow> 'k \<Rightarrow> ('k, 'v) SoftStateMap \<Rightarrow> 'v \<times> ('k, 'v) SoftStateMap" where
  "get_value now create key s = get_data now create key s"

definition get_value_ptr :: "time_point \<Rightarrow> 'k \<Rightarrow> ('k, 'v) SoftStateMap \<Rightarrow> 'v option" where
  "get_value_ptr now key s =
     (case (get_data_ptr key s, handle_expiry key s) of
        (Some v, Some expiry) \<Rightarrow> if \<not> ss_is_expired now expiry then Some v else None
      | _ \<Rightarrow> None)"

definition has_value :: "time_point \<Rightarrow> 'k \<Rightarrow> ('k, 'v) SoftStateMap \<Rightarrow> bool" where
  "has_value now key s \<longleftrightarrow> get_value_ptr now key s \<noteq> None"

definition ss_refresh :: "time_point \<Rightarrow> 'v \<Rightarrow> 'k \<Rightarrow> ('k, 'v) SoftStateMap \<Rightarrow> 'v \<times> ('k, 'v) SoftStateMap" where
  "ss_refresh now create key s =
     (case get_data_ptr key s of
        Some v \<Rightarrow> (v, refresh_handle now key s)
      | None \<Rightarrow> get_data now create key s)"

text \<open>The node with the earliest expiry.\<close>

fun heap_top :: "('k \<times> time_point) list \<Rightarrow> 'k \<times> time_point" where
  "heap_top [x] = x"
| "heap_top (x # xs) = (let m = heap_top xs in if snd x \<le> snd m then x else m)"
| "heap_top [] = undefined"

lemma heap_top_in: "h \<noteq> [] \<Longrightarrow> heap_top h \<in> set h"
  by (induction h rule: heap_top.induct) (auto simp: Let_def)

lemma heap_top_le: "x \<in> set h \<Longrightarrow> snd (heap_top h) \<le> snd x"
  by (induction h rule: heap_top.induct) (auto simp: Let_def)

function drop_expired :: "time_point \<Rightarrow> ('k, 'v) SoftStateMap \<Rightarrow> ('k, 'v) SoftStateMap" where
  "drop_expired now s =
     (if m_heap s \<noteq> [] \<and> ss_is_expired now (snd (heap_top (m_heap s))) then
        drop_expired now (s\<lparr>m_map := filter (\<lambda>(k, _). k \<noteq> fst (heap_top (m_heap s))) (m_map s),
                            m_heap := remove1 (heap_top (m_heap s)) (m_heap s)\<rparr>)
      else s)"
  by pat_completeness auto
termination
  by (relation "measure (\<lambda>(_, s). length (m_heap s))")
    (auto simp: length_remove1 heap_top_in simp flip: length_greater_0_conv)

declare drop_expired.simps [simp del]

text \<open>The range of all non-expired entries.\<close>

definition ss_entries :: "time_point \<Rightarrow> ('k, 'v) SoftStateMap \<Rightarrow> ('k \<times> 'v) list" where
  "ss_entries now s =
     filter (\<lambda>(k, _). case handle_expiry k s of Some e \<Rightarrow> \<not> ss_is_expired now e | None \<Rightarrow> False) (m_map s)"

section \<open>Invariant\<close>

text \<open>Keys are unique and every value has its heap node and vice versa.\<close>

definition ss_inv :: "('k, 'v) SoftStateMap \<Rightarrow> bool" where
  "ss_inv s \<longleftrightarrow> distinct (map fst (m_map s)) \<and> distinct (map fst (m_heap s))
     \<and> fst ` set (m_map s) = fst ` set (m_heap s)"

lemma map_of_map_update:
  "map_of (map (\<lambda>(k, w). if k = key then (k, v) else (k, w)) xs) k
     = (if k = key then map_option (\<lambda>_. v) (map_of xs k) else map_of xs k)"
  by (induction xs) auto

lemma keys_map_update [simp]:
  "map fst (map (\<lambda>(k, w). if k = key then (k, v) else (k, w)) xs) = map fst xs"
  "fst ` (\<lambda>(k, w). if k = key then (k, v) else (k, w)) ` A = fst ` A"
  by (induction xs) (auto simp: image_iff split: if_splits intro!: rev_bexI)

lemma ss_inv_dom: "ss_inv s \<Longrightarrow> get_data_ptr k s = None \<longleftrightarrow> handle_expiry k s = None"
  by (auto simp: ss_inv_def get_data_ptr_def handle_expiry_def map_of_eq_None_iff)

lemma ss_inv_create [simp]: "ss_inv (soft_state_map l)"
  by (simp add: ss_inv_def soft_state_map_def)

section \<open>Lookups after each operation\<close>

lemma fst_key_update [simp]: "fst \<circ> (\<lambda>(k, w). if k = key then (k, v) else (k, w)) = fst"
  by auto

lemma map_of_remove1:
  "distinct (map fst h) \<Longrightarrow> x \<in> set h \<Longrightarrow> map_of (remove1 x h) k = (if k = fst x then None else map_of h k)"
proof (induction h)
  case (Cons a h)
  show ?case
  proof (cases "x = a")
    case True with Cons.prems show ?thesis by (cases a) (auto simp: map_of_eq_None_iff)
  next
    case False
    with Cons.prems have "x \<in> set h" by simp
    then have "fst x \<in> set (map fst h)" by simp
    with Cons.prems(1) have "fst x \<noteq> fst a" by (metis distinct.simps(2) list.simps(9))
    with Cons False \<open>x \<in> set h\<close> show ?thesis by (cases a) auto
  qed
qed simp

lemma map_of_filter_key: "map_of (filter (\<lambda>(k, _). k \<noteq> k0) m) k = (if k = k0 then None else map_of m k)"
  by (induction m) auto

lemma distinct_keys_remove1: "distinct (map fst h) \<Longrightarrow> distinct (map fst (remove1 x h))"
  by (induction h) (force dest: set_remove1_subset [THEN subsetD])+

lemma keys_remove1:
  "distinct (map fst h) \<Longrightarrow> x \<in> set h \<Longrightarrow> fst ` set (remove1 x h) = fst ` set h - {fst x}"
  by (induction h) (auto simp: image_iff)

lemma ss_inv_drop_step:
  assumes "ss_inv s" and "m_heap s \<noteq> []"
  shows "ss_inv (s\<lparr>m_map := filter (\<lambda>(k, _). k \<noteq> fst (heap_top (m_heap s))) (m_map s),
                   m_heap := remove1 (heap_top (m_heap s)) (m_heap s)\<rparr>)"
proof -
  note top = heap_top_in [OF assms(2)]
  have "fst ` set (filter (\<lambda>(k, _). k \<noteq> k0) xs) = fst ` set xs - {k0}" for k0 and xs :: "('a \<times> 'b) list"
    by auto
  moreover have "distinct (map fst (filter P xs))" if "distinct (map fst xs)" for P and xs :: "('a \<times> 'b) list"
    using that by (induction xs) auto
  ultimately show ?thesis
    using assms top by (simp add: ss_inv_def distinct_keys_remove1 keys_remove1)
qed

lemma drop_expired_lookup:
  assumes "ss_inv s"
  shows "ss_inv (drop_expired now s) \<and> m_lifetime (drop_expired now s) = m_lifetime s
    \<and> handle_expiry k (drop_expired now s) =
       (case handle_expiry k s of Some e \<Rightarrow> if ss_is_expired now e then None else Some e | None \<Rightarrow> None)
    \<and> get_data_ptr k (drop_expired now s) =
       (case handle_expiry k s of Some e \<Rightarrow> if ss_is_expired now e then None else get_data_ptr k s | None \<Rightarrow> None)"
  using assms
proof (induction now s rule: drop_expired.induct)
  case (1 now s)
  let ?top = "heap_top (m_heap s)"
  let ?s = "s\<lparr>m_map := filter (\<lambda>(k, _). k \<noteq> fst ?top) (m_map s), m_heap := remove1 ?top (m_heap s)\<rparr>"
  show ?case
  proof (cases "m_heap s \<noteq> [] \<and> ss_is_expired now (snd ?top)")
    case True
    then have top: "?top \<in> set (m_heap s)" using heap_top_in by blast
    have d: "distinct (map fst (m_heap s))" using 1(2) by (simp add: ss_inv_def)
    define t where "t = ?s"
    have inv: "ss_inv t" using ss_inv_drop_step 1(2) True unfolding t_def by blast
    have E: "handle_expiry k t = (if k = fst ?top then None else handle_expiry k s)"
      using map_of_remove1 [OF d top] by (simp add: handle_expiry_def t_def)
    have Et: "handle_expiry (fst ?top) s = Some (snd ?top)"
      using d top by (simp add: handle_expiry_def)
    have D: "get_data_ptr k t = (if k = fst ?top then None else get_data_ptr k s)"
      by (simp add: get_data_ptr_def map_of_filter_key t_def)
    have eq: "drop_expired now s = drop_expired now t"
      using True unfolding t_def by (subst drop_expired.simps) simp
    have L: "m_lifetime t = m_lifetime s" by (simp add: t_def)
    note IH = 1(1) [OF True inv [unfolded t_def], folded t_def]
    show ?thesis
      using IH E D Et L True unfolding eq by (cases "k = fst ?top") (auto split: option.split)
  next
    case False
    then have eq: "drop_expired now s = s" by (subst drop_expired.simps) auto
    have "\<not> ss_is_expired now e" if "handle_expiry k s = Some e" for e
    proof -
      have "(k, e) \<in> set (m_heap s)" using that by (auto simp: handle_expiry_def dest: map_of_SomeD)
      with False heap_top_le [OF this] show ?thesis by (auto simp: ss_is_expired_def)
    qed
    moreover have "handle_expiry k s = None \<Longrightarrow> get_data_ptr k s = None" using ss_inv_dom [OF 1(2)] by blast
    ultimately show ?thesis using eq 1(2) by (auto split: option.split)
  qed
qed

lemma refresh_handle_simps:
  "get_data_ptr k (refresh_handle now key s) = get_data_ptr k s"
  "handle_expiry k (refresh_handle now key s)
     = (if k = key then map_option (\<lambda>_. now + m_lifetime s) (handle_expiry k s) else handle_expiry k s)"
  "ss_inv s \<Longrightarrow> ss_inv (refresh_handle now key s)" "m_lifetime (refresh_handle now key s) = m_lifetime s"
  by (simp_all add: refresh_handle_def get_data_ptr_def handle_expiry_def map_of_map_update ss_inv_def)

lemma ss_write_simps:
  "get_data_ptr k (ss_write key v s) = (if k = key then map_option (\<lambda>_. v) (get_data_ptr k s) else get_data_ptr k s)"
  "handle_expiry k (ss_write key v s) = handle_expiry k s"
  "ss_inv s \<Longrightarrow> ss_inv (ss_write key v s)" "m_lifetime (ss_write key v s) = m_lifetime s"
  by (simp_all add: ss_write_def get_data_ptr_def handle_expiry_def map_of_map_update ss_inv_def)

lemma get_data_inv: "ss_inv s \<Longrightarrow> ss_inv (snd (get_data now create key s))"
proof (cases "get_data_ptr key s")
  case None
  assume "ss_inv s"
  then have "ss_inv (s\<lparr>m_map := (key, create) # m_map s, m_heap := (key, now + m_lifetime s) # m_heap s\<rparr>)"
    using None by (auto simp: ss_inv_def get_data_ptr_def map_of_eq_None_iff)
  with None show ?thesis by (simp add: get_data_def)
qed (auto simp: get_data_def refresh_handle_simps split: option.split)

text \<open>Contents as seen through the lookups, for every operation.\<close>

lemma get_data_lookup:
  assumes "ss_inv s" and "get_data now create key s = (v, s')"
  shows "v = (case get_data_ptr key s of Some w \<Rightarrow> w | None \<Rightarrow> create)"
    and "get_data_ptr k s' = (if k = key then Some v else get_data_ptr k s)"
    and "handle_expiry k s' = (if k = key then
           (case handle_expiry k s of
              Some e \<Rightarrow> if ss_is_expired now e then Some (now + m_lifetime s) else Some e
            | None \<Rightarrow> Some (now + m_lifetime s)) else handle_expiry k s)"
    and "m_lifetime s' = m_lifetime s"
proof -
  have dom: "get_data_ptr key s = None \<longleftrightarrow> handle_expiry key s = None" by (rule ss_inv_dom [OF assms(1)])
  have r: "get_data_ptr k (refresh_handle now key s) = get_data_ptr k s" for k
    by (simp add: refresh_handle_simps)
  show "v = (case get_data_ptr key s of Some w \<Rightarrow> w | None \<Rightarrow> create)"
    and "get_data_ptr k s' = (if k = key then Some v else get_data_ptr k s)"
    and "handle_expiry k s' = (if k = key then
           (case handle_expiry k s of
              Some e \<Rightarrow> if ss_is_expired now e then Some (now + m_lifetime s) else Some e
            | None \<Rightarrow> Some (now + m_lifetime s)) else handle_expiry k s)"
    and "m_lifetime s' = m_lifetime s"
    using assms(2) dom
    by (auto simp: get_data_def r refresh_handle_simps split: option.splits if_splits)
      (auto simp: get_data_ptr_def handle_expiry_def split: option.splits)
qed

lemma ss_refresh_inv: "ss_inv s \<Longrightarrow> ss_inv (snd (ss_refresh now create key s))"
  by (auto simp: ss_refresh_def refresh_handle_simps get_data_inv split: option.split)

lemma ss_refresh_lookup:
  assumes "ss_inv s" and "ss_refresh now create key s = (v, s')"
  shows "v = (case get_data_ptr key s of Some w \<Rightarrow> w | None \<Rightarrow> create)"
    and "get_data_ptr k s' = (if k = key then Some v else get_data_ptr k s)"
    and "handle_expiry k s' = (if k = key then Some (now + m_lifetime s) else handle_expiry k s)"
    and "m_lifetime s' = m_lifetime s"
proof -
  have dom: "get_data_ptr key s = None \<longleftrightarrow> handle_expiry key s = None" by (rule ss_inv_dom [OF assms(1)])
  show "v = (case get_data_ptr key s of Some w \<Rightarrow> w | None \<Rightarrow> create)"
    and "get_data_ptr k s' = (if k = key then Some v else get_data_ptr k s)"
    and "handle_expiry k s' = (if k = key then Some (now + m_lifetime s) else handle_expiry k s)"
    and "m_lifetime s' = m_lifetime s"
    using assms(2) dom get_data_lookup [OF assms(1), of now create key v s']
    by (auto simp: ss_refresh_def refresh_handle_simps split: option.splits)
qed

section \<open>Interface\<close>

text \<open>
  What a client of the map relies on: \<open>lookup t k s\<close> is the value visible at time \<open>t\<close>. A refresh
  makes a value visible until one lifetime later, writing changes the visible value only, and
  dropping expired entries is invisible from then on.
\<close>

locale expiring_map =
  fixes inv :: "'s \<Rightarrow> bool"
    and span :: "'s \<Rightarrow> duration"
    and lookup :: "time_point \<Rightarrow> 'k \<Rightarrow> 's \<Rightarrow> 'v option"
    and get :: "time_point \<Rightarrow> 'v \<Rightarrow> 'k \<Rightarrow> 's \<Rightarrow> 'v \<times> 's"
    and renew :: "time_point \<Rightarrow> 'v \<Rightarrow> 'k \<Rightarrow> 's \<Rightarrow> 'v \<times> 's"
    and wr :: "'k \<Rightarrow> 'v \<Rightarrow> 's \<Rightarrow> 's"
    and drop :: "time_point \<Rightarrow> 's \<Rightarrow> 's"
  assumes inv_get: "inv s \<Longrightarrow> inv (snd (get now c k s))"
    and inv_renew: "inv s \<Longrightarrow> inv (snd (renew now c k s))"
    and inv_wr: "inv s \<Longrightarrow> inv (wr k v s)"
    and inv_drop: "inv s \<Longrightarrow> inv (drop now s)"
    and span_get: "inv s \<Longrightarrow> span (snd (get now c k s)) = span s"
    and span_renew: "inv s \<Longrightarrow> span (snd (renew now c k s)) = span s"
    and span_wr: "span (wr k v s) = span s"
    and span_drop: "inv s \<Longrightarrow> span (drop now s) = span s"
    and lookup_get: "inv s \<Longrightarrow> 0 \<le> span s \<Longrightarrow> lookup now k (snd (get now c k s)) = Some (fst (get now c k s))"
    and lookup_get_same: "inv s \<Longrightarrow> lookup now k s = Some v \<Longrightarrow> get now c k s = (v, s)"
    and lookup_get_other: "inv s \<Longrightarrow> j \<noteq> k \<Longrightarrow> lookup t j (snd (get now c k s)) = lookup t j s"
    and lookup_renew: "inv s \<Longrightarrow> lookup t k (snd (renew now c k s))
          = (if t \<le> now + span s then Some (fst (renew now c k s)) else None)"
    and renew_value: "inv s \<Longrightarrow> lookup now k s = Some v \<Longrightarrow> fst (renew now c k s) = v"
    and lookup_renew_other: "inv s \<Longrightarrow> j \<noteq> k \<Longrightarrow> lookup t j (snd (renew now c k s)) = lookup t j s"
    and lookup_wr: "lookup t j (wr k v s) = (if j = k then map_option (\<lambda>_. v) (lookup t j s) else lookup t j s)"
    and lookup_drop: "inv s \<Longrightarrow> now \<le> t \<Longrightarrow> lookup t k (drop now s) = lookup t k s"
begin

lemma lookup_renew_wr:
  "inv s \<Longrightarrow> lookup t k (wr k w (snd (renew now c k s))) = (if t \<le> now + span s then Some w else None)"
  by (simp add: lookup_wr lookup_renew)

lemma lookup_get_wr:
  "inv s \<Longrightarrow> 0 \<le> span s \<Longrightarrow> lookup now k (wr k w (snd (get now c k s))) = Some w"
  by (simp add: lookup_wr lookup_get)

lemma lookup_renew_wr_other:
  "inv s \<Longrightarrow> j \<noteq> k \<Longrightarrow> lookup t j (wr k w (snd (renew now c k s))) = lookup t j s"
  by (simp add: lookup_wr lookup_renew_other)

lemma lookup_renew_drop:
  "inv s \<Longrightarrow> d \<le> t \<Longrightarrow> lookup t k (drop d (snd (renew now c k s)))
     = (if t \<le> now + span s then Some (fst (renew now c k s)) else None)"
  by (simp add: lookup_drop inv_renew lookup_renew)

end

lemma get_value_ptr_eq:
  "get_value_ptr now k s = (case handle_expiry k s of
     Some e \<Rightarrow> if now \<le> e then get_data_ptr k s else None | None \<Rightarrow> None)"
  by (auto simp: get_value_ptr_def ss_is_expired_def split: option.split)

interpretation ss: expiring_map ss_inv m_lifetime get_value_ptr get_value ss_refresh ss_write drop_expired
proof
  fix s :: "('k, 'v) SoftStateMap" and now t :: time_point and c v :: 'v and j k :: 'k
  obtain gv gs where g: "get_data now c k s = (gv, gs)" by fastforce
  obtain rv rs where r: "ss_refresh now c k s = (rv, rs)" by fastforce
  have G: "get_value now c k s = (gv, gs)" by (simp add: get_value_def g)
  show "m_lifetime (ss_write k v s) = m_lifetime s" by (simp add: ss_write_simps)
  show "get_value_ptr t j (ss_write k v s)
      = (if j = k then map_option (\<lambda>_. v) (get_value_ptr t j s) else get_value_ptr t j s)"
    by (auto simp: get_value_ptr_eq ss_write_simps split: option.split)
  assume inv: "ss_inv s"
  note GL = get_data_lookup [OF inv g] and RL = ss_refresh_lookup [OF inv r]
  note DL = drop_expired_lookup [OF inv]
  have dom: "get_data_ptr k s = None \<longleftrightarrow> handle_expiry k s = None" for k by (rule ss_inv_dom [OF inv])
  show "ss_inv (snd (get_value now c k s))" using get_data_inv [OF inv] by (simp add: get_value_def)
  show "ss_inv (snd (ss_refresh now c k s))" by (rule ss_refresh_inv [OF inv])
  show "ss_inv (ss_write k v s)" by (simp add: ss_write_simps inv)
  show "ss_inv (drop_expired now s)" "m_lifetime (drop_expired now s) = m_lifetime s" using DL by blast+
  show "m_lifetime (snd (get_value now c k s)) = m_lifetime s" by (simp add: G GL)
  show "m_lifetime (snd (ss_refresh now c k s)) = m_lifetime s" by (simp add: r RL)
  show "get_value_ptr now k (snd (get_value now c k s)) = Some (fst (get_value now c k s))" if "0 \<le> m_lifetime s"
    using that by (auto simp: G get_value_ptr_eq GL(2,3) ss_is_expired_def split: option.split)
  show "get_value now c k s = (v, s)" if "get_value_ptr now k s = Some v"
    using that by (auto simp: get_value_def get_data_def get_value_ptr_eq ss_is_expired_def split: option.splits if_splits)
  show "get_value_ptr t j (snd (get_value now c k s)) = get_value_ptr t j s" if "j \<noteq> k"
    using that by (auto simp: G get_value_ptr_eq GL(2,3) split: option.split)
  show "get_value_ptr t k (snd (ss_refresh now c k s))
      = (if t \<le> now + m_lifetime s then Some (fst (ss_refresh now c k s)) else None)"
    by (simp add: r get_value_ptr_eq RL(2,3))
  show "fst (ss_refresh now c k s) = v" if "get_value_ptr now k s = Some v"
    using that RL(1) by (auto simp: r get_value_ptr_eq split: option.splits if_splits)
  show "get_value_ptr t j (snd (ss_refresh now c k s)) = get_value_ptr t j s" if "j \<noteq> k"
    using that by (auto simp: r get_value_ptr_eq RL(2,3) split: option.split)
  show "get_value_ptr t k (drop_expired now s) = get_value_ptr t k s" if "now \<le> t"
    using that DL [of now k] by (auto simp: get_value_ptr_eq ss_is_expired_def split: option.split)
qed

section \<open>Properties\<close>

text \<open>
  C31: a refreshed value is visible for exactly one lifetime: at any later time, whether or not
  expired entries were dropped in between, the lookup returns it up to and including the expiry
  and nothing afterwards; other keys are not affected.
\<close>

theorem soft_state_visible_for_lifetime:
  assumes "ss_inv s" and "ss_refresh now create key s = (v, s')" and "d \<le> t"
  shows "get_value_ptr t key (drop_expired d s') = (if t \<le> now + m_lifetime s then Some v else None)
    \<and> (k \<noteq> key \<longrightarrow> get_value_ptr t k (drop_expired d s') = get_value_ptr t k s)
    \<and> ss_inv (drop_expired d s')"
  using ss.lookup_renew_drop [OF assms(1,3), of key now create] ss.inv_renew [OF assms(1), of now create key]
    ss.lookup_renew_other [OF assms(1), of k key t now create] ss.lookup_drop [of s' d t k] ss.inv_drop [of s' d]
    assms by simp

theorem soft_state_visible_for_lifetime_witness:
  "let (v, s) = ss_refresh 10 (7 :: nat) ''a'' (soft_state_map 20)
   in get_value_ptr 30 ''a'' (drop_expired 15 s) = Some 7 \<and> get_value_ptr 31 ''a'' (drop_expired 15 s) = None"
proof -
  have r: "ss_refresh 10 (7 :: nat) ''a'' (soft_state_map 20)
      = (7, \<lparr>m_lifetime = 20, m_heap = [(''a'', 30)], m_map = [(''a'', 7)]\<rparr>)"
    by (simp add: ss_refresh_def get_data_def get_data_ptr_def soft_state_map_def)
  from soft_state_visible_for_lifetime [OF ss_inv_create r, of 15 30 "''b''"]
    soft_state_visible_for_lifetime [OF ss_inv_create r, of 15 31 "''b''"]
  show ?thesis unfolding r by (simp add: soft_state_map_def)
qed

text \<open>
   an expired value that was not dropped is resurrected with its old contents: it is invisible
  before, but accessing or refreshing the key returns the old value, not a newly created one.
\<close>

theorem expired_value_resurrected:
  assumes "ss_inv s" and "get_data_ptr key s = Some w" and "handle_expiry key s = Some e" and "e < now"
  shows "get_value_ptr now key s = None
    \<and> fst (get_value now create key s) = w \<and> fst (ss_refresh now create key s) = w"
  using assms(2-4)
  by (simp add: get_value_ptr_eq get_value_def get_data_def ss_refresh_def ss_is_expired_def)

theorem expired_value_resurrected_witness:
  "let s = \<lparr>m_lifetime = 20, m_heap = [(''a'', 30)], m_map = [(''a'', 7 :: nat)]\<rparr>
   in get_value_ptr 31 ''a'' s = None \<and> fst (get_value 31 0 ''a'' s) = 7"
  using expired_value_resurrected
    [of "\<lparr>m_lifetime = 20, m_heap = [(''a'', 30)], m_map = [(''a'', 7 :: nat)]\<rparr>" "''a''" 7 30 31 0]
  by (simp add: ss_inv_def get_data_ptr_def handle_expiry_def)

end
