(* ===== verification/Location_Table.thy ===== *)
theory Location_Table
  imports Soft_State Geonet_Requests "HOL-Library.Multiset"
begin

text \<open>
  The location table of the GeoNetworking router and what is built on it: duplicate packet lists
  (\<^verbatim>\<open>geonet/duplicate_packet_list.*\<close>), the table of neighbouring stations with expiring
  entries (\<^verbatim>\<open>geonet/location_table.*\<close>, \<^verbatim>\<open>geonet/loctex_g5.hpp\<close>), the aggregation of
  received channel loads (\<^verbatim>\<open>geonet/cbr_aggregator.*\<close>) and their periodic dissemination
  (\<^verbatim>\<open>geonet/dcc_information_sharing.*\<close>).
\<close>

section \<open>Duplicate packet list\<close>

text \<open>
  \<^verbatim>\<open>boost::circular_buffer::push_back\<close> is the parameter \<open>push_back\<close>, taking the capacity,
  the contents and the new element.
\<close>

record ListElement =
  sequence_number :: SequenceNumber
  counter :: u32

type_synonym 'a circular_push = "nat \<Rightarrow> 'a list \<Rightarrow> 'a \<Rightarrow> 'a list"

record DuplicatePacketList =
  dpl_capacity :: nat
  m_elements :: "ListElement list"

definition duplicate_packet_list :: "nat \<Rightarrow> DuplicatePacketList" where
  "duplicate_packet_list elements = \<lparr>dpl_capacity = elements, m_elements = []\<rparr>"

definition list_element :: "SequenceNumber \<Rightarrow> ListElement" where
  "list_element sn = \<lparr>sequence_number = sn, counter = 1\<rparr>"

text \<open>\<open>dpl_find\<close> yields the index of the element the returned pointer refers to.\<close>

fun find_index :: "SequenceNumber \<Rightarrow> ListElement list \<Rightarrow> nat option" where
  "find_index sn [] = None"
| "find_index sn (e # es) = (if sequence_number e = sn then Some 0 else map_option Suc (find_index sn es))"

definition dpl_find :: "SequenceNumber \<Rightarrow> DuplicatePacketList \<Rightarrow> nat option" where
  "dpl_find sn dpl = find_index sn (m_elements dpl)"

definition dpl_check ::
  "ListElement circular_push \<Rightarrow> SequenceNumber \<Rightarrow> DuplicatePacketList \<Rightarrow> bool \<times> DuplicatePacketList" where
  "dpl_check push_back sn dpl =
     (case dpl_find sn dpl of
        Some i \<Rightarrow> (True, dpl\<lparr>m_elements := (m_elements dpl)
                      [i := (m_elements dpl ! i)\<lparr>counter := counter (m_elements dpl ! i) + 1\<rparr>]\<rparr>)
      | None \<Rightarrow> (False, dpl\<lparr>m_elements := push_back (dpl_capacity dpl) (m_elements dpl) (list_element sn)\<rparr>))"

fun dpl_counter_in :: "SequenceNumber \<Rightarrow> ListElement list \<Rightarrow> u32" where
  "dpl_counter_in sn [] = 0"
| "dpl_counter_in sn (e # es) = (if sequence_number e = sn then counter e else dpl_counter_in sn es)"

definition dpl_counter :: "SequenceNumber \<Rightarrow> DuplicatePacketList \<Rightarrow> u32" where
  "dpl_counter sn dpl = dpl_counter_in sn (m_elements dpl)"

text \<open>
  The documented behaviour of the circular buffer: a full one drops its first element, one of
  capacity zero stays empty.
\<close>

definition circular :: "'a circular_push \<Rightarrow> bool" where
  "circular push_back \<longleftrightarrow> (\<forall>n xs x. length xs \<le> n \<longrightarrow> push_back n xs x =
     (if n = 0 then [] else if length xs < n then xs @ [x] else tl xs @ [x]))"

section \<open>Location table entries\<close>

text \<open>
  The media-dependent extension and the duplicate packet list of a source are objects of two types
  in the entry's \<^verbatim>\<open>ObjectContainer\<close>, each present at most once. A packet data rate that is not a
  number is \<^const>\<open>None\<close>. The entry's runtime is the argument \<open>now\<close> of its operations.
\<close>

record LocTEX_G5 =
  local_update :: Timestamp
  source_update :: Timestamp
  dcc_mco :: DccMcoField

record LocationTableEntry =
  m_is_neighbour :: time_point
  m_has_position_vector :: bool
  m_position_vector :: LongPositionVector
  m_pdr :: "real option"
  m_pdr_updated :: time_point
  ext_loctex :: "LocTEX_G5 option"
  ext_dpl :: "DuplicatePacketList option"

definition clock_min :: time_point where
  "clock_min = - (2 ^ 63)"

definition clock_max :: time_point where
  "clock_max = 2 ^ 63 - 1"

definition location_table_entry :: "time_point \<Rightarrow> LocationTableEntry" where
  "location_table_entry now = \<lparr>m_is_neighbour = clock_min, m_has_position_vector = False,
     m_position_vector = zero_position_vector, m_pdr = None, m_pdr_updated = now,
     ext_loctex = None, ext_dpl = None\<rparr>"

definition geonet_address :: "LocationTableEntry \<Rightarrow> Address" where
  "geonet_address entry = gn_addr (m_position_vector entry)"

definition link_layer_address :: "LocationTableEntry \<Rightarrow> MacAddress" where
  "link_layer_address entry = mid (geonet_address entry)"

definition entry_station_type :: "LocationTableEntry \<Rightarrow> StationType" where
  "entry_station_type entry = station_type (geonet_address entry)"

definition is_neighbour :: "time_point \<Rightarrow> LocationTableEntry \<Rightarrow> bool" where
  "is_neighbour now entry \<longleftrightarrow> m_is_neighbour entry > now"

definition update_pdr :: "time_point \<Rightarrow> nat \<Rightarrow> real \<Rightarrow> LocationTableEntry \<Rightarrow> LocationTableEntry" where
  "update_pdr now packet_size beta entry =
     (case m_pdr entry of
        None \<Rightarrow> entry\<lparr>m_pdr := Some 0, m_pdr_updated := now\<rparr>
      | Some pdr \<Rightarrow>
          if beta > 0 \<and> beta < 1 then
            let time_period = real_of_int (now - m_pdr_updated entry) / 1000000 in
            if time_period > 0 then
              let instant_pdr = real packet_size / time_period
              in entry\<lparr>m_pdr := Some (pdr * beta + (1 - beta) * instant_pdr), m_pdr_updated := now\<rparr>
            else entry
          else entry)"

definition set_position_vector :: "LongPositionVector \<Rightarrow> LocationTableEntry \<Rightarrow> bool \<times> LocationTableEntry" where
  "set_position_vector pv entry =
     (if is_valid pv then (True, entry\<lparr>m_has_position_vector := True, m_position_vector := pv\<rparr>)
      else (False, entry))"

definition update_position_vector :: "LongPositionVector \<Rightarrow> LocationTableEntry \<Rightarrow> bool \<times> LocationTableEntry" where
  "update_position_vector lpv entry =
     (if m_has_position_vector entry then
        if timestamp_less (timestamp (m_position_vector entry)) (timestamp lpv)
        then set_position_vector lpv entry
        else (False, entry)
      else set_position_vector lpv entry)"

definition set_neighbour :: "bool \<Rightarrow> LocationTableEntry \<Rightarrow> LocationTableEntry" where
  "set_neighbour flag entry = entry\<lparr>m_is_neighbour := if flag then clock_max else clock_min\<rparr>"

definition set_neighbour_expiry ::
  "time_point \<Rightarrow> bool \<Rightarrow> duration \<Rightarrow> LocationTableEntry \<Rightarrow> LocationTableEntry" where
  "set_neighbour_expiry now flag expiry entry =
     (if flag \<and> expiry > 0 then entry\<lparr>m_is_neighbour := now + expiry\<rparr> else set_neighbour flag entry)"

section \<open>Location table\<close>

text \<open>An operation that returns a reference to an entry returns the entry's key.\<close>

type_synonym LocationTable = "(MacAddress, LocationTableEntry) SoftStateMap"

definition location_table :: "MIB \<Rightarrow> LocationTable" where
  "location_table mib = set_lifetime (truncate_real (itsGnLifetimeLocTE mib) * 1000000) (soft_state_map 0)"

definition has_entry :: "time_point \<Rightarrow> Address \<Rightarrow> LocationTable \<Rightarrow> bool" where
  "has_entry now addr lt = has_value now (mid addr) lt"

fun any_neighbour :: "time_point \<Rightarrow> (MacAddress \<times> LocationTableEntry) list \<Rightarrow> bool" where
  "any_neighbour now [] = False"
| "any_neighbour now ((_, entry) # rest) = (if is_neighbour now entry then True else any_neighbour now rest)"

definition has_neighbours :: "time_point \<Rightarrow> LocationTable \<Rightarrow> bool" where
  "has_neighbours now lt = any_neighbour now (ss_entries now lt)"

definition lt_filter ::
  "time_point \<Rightarrow> (MacAddress \<Rightarrow> LocationTableEntry \<Rightarrow> bool) \<Rightarrow> LocationTable \<Rightarrow> LocationTableEntry list" where
  "lt_filter now predicate lt = map snd (filter (\<lambda>v. predicate (fst v) (snd v)) (ss_entries now lt))"

definition neighbours :: "time_point \<Rightarrow> LocationTable \<Rightarrow> LocationTableEntry list" where
  "neighbours now lt = lt_filter now (\<lambda>_ entry. is_neighbour now entry) lt"

text \<open>A visitor is a function on the state it captures.\<close>

definition visit :: "time_point \<Rightarrow> (MacAddress \<Rightarrow> LocationTableEntry \<Rightarrow> 's \<Rightarrow> 's) \<Rightarrow> LocationTable \<Rightarrow> 's \<Rightarrow> 's" where
  "visit now visitor lt s = foldl (\<lambda>s entry. visitor (fst entry) (snd entry) s) s (ss_entries now lt)"

definition lt_update :: "time_point \<Rightarrow> LongPositionVector \<Rightarrow> LocationTable \<Rightarrow> LocationTable" where
  "lt_update now lpv lt =
     (let key = mid (gn_addr lpv);
          fresh = (let (entry, lt') = ss_refresh now (location_table_entry now) key lt
                   in ss_write key (snd (update_position_vector lpv entry)) lt')
      in case get_value_ptr now key lt of
           Some entry \<Rightarrow>
             if m_has_position_vector entry then
               let (updated, entry') = update_position_vector lpv entry;
                   lt' = ss_write key entry' lt
               in if updated then snd (ss_refresh now (location_table_entry now) key lt') else lt'
             else fresh
         | None \<Rightarrow> fresh)"

definition get_or_create_entry :: "time_point \<Rightarrow> MacAddress \<Rightarrow> LocationTable \<Rightarrow> LocationTableEntry \<times> LocationTable" where
  "get_or_create_entry now mac lt = get_value now (location_table_entry now) mac lt"

definition get_entry :: "time_point \<Rightarrow> MacAddress \<Rightarrow> LocationTable \<Rightarrow> LocationTableEntry option" where
  "get_entry now mac lt = get_value_ptr now mac lt"

definition get_position :: "time_point \<Rightarrow> MacAddress \<Rightarrow> LocationTable \<Rightarrow> LongPositionVector option" where
  "get_position now mac lt =
     (case get_value_ptr now mac lt of
        Some entry \<Rightarrow> if m_has_position_vector entry then Some (m_position_vector entry) else None
      | None \<Rightarrow> None)"

text \<open>Writing through the reference an operation returned.\<close>

definition modify_entry :: "MacAddress \<Rightarrow> (LocationTableEntry \<Rightarrow> LocationTableEntry) \<Rightarrow> LocationTable \<Rightarrow> LocationTable" where
  "modify_entry mac f lt =
     (case get_data_ptr mac lt of Some entry \<Rightarrow> ss_write mac (f entry) lt | None \<Rightarrow> lt)"

section \<open>Aggregation of channel loads\<close>

record CbrAggregatorUnit =
  unit_n :: nat
  unit_average :: ChannelLoad
  unit_max0 :: ChannelLoad
  unit_max1 :: ChannelLoad

definition cbr_aggregator_unit :: CbrAggregatorUnit where
  "cbr_aggregator_unit = \<lparr>unit_n = 0, unit_average = 0, unit_max0 = 0, unit_max1 = 0\<rparr>"

definition unit_add :: "CbrAggregatorUnit \<Rightarrow> ChannelLoad \<Rightarrow> CbrAggregatorUnit" where
  "unit_add u cbr =
     (let u = u\<lparr>unit_average := clamp ((unit_average u * real (unit_n u) + cbr) / real (unit_n u + 1)),
                unit_n := unit_n u + 1\<rparr>
      in if cbr \<ge> unit_max0 u then u\<lparr>unit_max1 := unit_max0 u, unit_max0 := cbr\<rparr>
         else if cbr > unit_max1 u then u\<lparr>unit_max1 := cbr\<rparr>
         else u)"

definition unit_result :: "CbrAggregatorUnit \<Rightarrow> ChannelLoad \<Rightarrow> ChannelLoad" where
  "unit_result u target = (if unit_average u > target then unit_max0 u else unit_max1 u)"

record CbrAggregator =
  m_local_cbr0 :: ChannelLoad
  m_local_cbr1 :: ChannelLoad
  m_one_hop_cbr :: ChannelLoad
  m_two_hop_cbr :: ChannelLoad
  m_global_cbr :: ChannelLoad

definition cbr_aggregator :: CbrAggregator where
  "cbr_aggregator = \<lparr>m_local_cbr0 = 0, m_local_cbr1 = 0, m_one_hop_cbr = 0, m_two_hop_cbr = 0,
     m_global_cbr = 0\<rparr>"

text \<open>\<^verbatim>\<open>operator>=\<close> of time stamps comes from \<^verbatim>\<open>boost::totally_ordered\<close>: the negation of \<open><\<close>.\<close>

definition aggregate_visitor ::
  "Timestamp \<Rightarrow> MacAddress \<Rightarrow> LocationTableEntry
     \<Rightarrow> CbrAggregatorUnit \<times> CbrAggregatorUnit \<Rightarrow> CbrAggregatorUnit \<times> CbrAggregatorUnit" where
  "aggregate_visitor cbr_lifetime mac entry hops =
     (case ext_loctex entry of
        Some loctex \<Rightarrow>
          if \<not> timestamp_less (local_update loctex) cbr_lifetime then
            (unit_add (fst hops) (local_cbr (dcc_mco loctex)), unit_add (snd hops) (neighbour_cbr (dcc_mco loctex)))
          else hops
      | None \<Rightarrow> hops)"

definition aggregate ::
  "time_point \<Rightarrow> ChannelLoad \<Rightarrow> LocationTable \<Rightarrow> Timestamp \<Rightarrow> ChannelLoad \<Rightarrow> CbrAggregator \<Rightarrow> CbrAggregator" where
  "aggregate now local_load lt cbr_lifetime target agg =
     (let agg = agg\<lparr>m_local_cbr1 := m_local_cbr0 agg, m_local_cbr0 := local_load\<rparr>;
          hops = visit now (aggregate_visitor cbr_lifetime) lt (cbr_aggregator_unit, cbr_aggregator_unit);
          agg = agg\<lparr>m_one_hop_cbr := unit_result (fst hops) target, m_two_hop_cbr := unit_result (snd hops) target\<rparr>
      in agg\<lparr>m_global_cbr := max (m_local_cbr1 agg) (max (m_one_hop_cbr agg) (m_two_hop_cbr agg))\<rparr>)"

section \<open>Dissemination of channel loads\<close>

record DccInformationSharing =
  m_cbr_target :: ChannelLoad
  m_cbr_local :: ChannelLoad
  m_tx_power :: u32
  m_aggregator :: CbrAggregator
  m_trigger_interval :: duration
  m_last_aggregation :: Timestamp

text \<open>The constructor returns the delay of the first trigger it schedules.\<close>

definition dcc_information_sharing ::
  "time_point \<Rightarrow> ChannelLoad \<Rightarrow> UnitInterval \<Rightarrow> DccInformationSharing \<times> duration" where
  "dcc_information_sharing now target delay =
     (let interval = 100000
      in (\<lparr>m_cbr_target = target, m_cbr_local = 0, m_tx_power = 0, m_aggregator = cbr_aggregator,
           m_trigger_interval = interval, m_last_aggregation = timestamp_of_clock now\<rparr>,
          truncate_real (real_of_int interval * delay)))"

definition generate_dcc_field :: "DccInformationSharing \<Rightarrow> DccField" where
  "generate_dcc_field d = Dcc_Mco
     (set_output_power (m_tx_power d)
       (set_neighbour_cbr (m_one_hop_cbr (m_aggregator d))
         (set_local_cbr (m_local_cbr0 (m_aggregator d))
           \<lparr>m_cbr_l0_hop = 0, m_cbr_l1_hop = 0, m_output_power = 0\<rparr>)))"

definition update_local_cbr :: "ChannelLoad \<Rightarrow> DccInformationSharing \<Rightarrow> DccInformationSharing" where
  "update_local_cbr cbr d = d\<lparr>m_cbr_local := cbr\<rparr>"

definition set_tx_power :: "u32 \<Rightarrow> DccInformationSharing \<Rightarrow> DccInformationSharing" where
  "set_tx_power tx_power d = d\<lparr>m_tx_power := tx_power\<rparr>"

text \<open>A trigger returns the value given to the update hook and the delay of the next trigger.\<close>

definition sharing_trigger ::
  "time_point \<Rightarrow> LocationTable \<Rightarrow> DccInformationSharing \<Rightarrow> DccInformationSharing \<times> CbrAggregator \<times> duration" where
  "sharing_trigger now lt d =
     (let d = d\<lparr>m_aggregator := aggregate now (m_cbr_local d) lt (m_last_aggregation d) (m_cbr_target d) (m_aggregator d)\<rparr>;
          d = d\<lparr>m_last_aggregation := timestamp_of_clock now\<rparr>
      in (d, m_aggregator d, m_trigger_interval d))"

section \<open>Duplicate detection\<close>

abbreviation stored :: "DuplicatePacketList \<Rightarrow> SequenceNumber list" where
  "stored dpl \<equiv> map sequence_number (m_elements dpl)"

lemma find_index_None: "find_index sn es = None \<longleftrightarrow> sn \<notin> sequence_number ` set es"
  by (induction es) auto

lemma find_index_Some:
  "find_index sn es = Some i \<Longrightarrow> i < length es \<and> sequence_number (es ! i) = sn
     \<and> map sequence_number (es[i := (es ! i)\<lparr>counter := c\<rparr>]) = map sequence_number es"
  by (induction es arbitrary: i) (auto split: if_splits)

lemma counter_find:
  "find_index sn es = Some i \<Longrightarrow> dpl_counter_in sn' (es[i := (es ! i)\<lparr>counter := c\<rparr>])
     = (if sn' = sn then c else dpl_counter_in sn' es)"
  by (induction es arbitrary: i) (auto split: if_splits)

lemma counter_of_find: "find_index sn es = Some i \<Longrightarrow> counter (es ! i) = dpl_counter_in sn es"
  by (induction es arbitrary: i) (auto split: if_splits)

lemma counter_append:
  "dpl_counter_in sn (xs @ ys) = (if sn \<in> sequence_number ` set xs then dpl_counter_in sn xs else dpl_counter_in sn ys)"
  by (induction xs) auto

lemma dpl_check_result:
  assumes "dpl_check push sn dpl = (dup, dpl')"
  shows "dup \<longleftrightarrow> sn \<in> set (stored dpl)" and "dpl_capacity dpl' = dpl_capacity dpl"
    and "dup \<Longrightarrow> stored dpl' = stored dpl"
    and "\<not> dup \<Longrightarrow> m_elements dpl' = push (dpl_capacity dpl) (m_elements dpl) (list_element sn)"
    and "dup \<Longrightarrow> dpl_counter s dpl' = dpl_counter s dpl + (if s = sn then 1 else 0)"
proof -
  have dup: "dup \<longleftrightarrow> sn \<in> set (stored dpl)"
    using assms find_index_None [of sn "m_elements dpl"]
    by (auto simp: dpl_check_def dpl_find_def split: option.splits)
  then show "dup \<longleftrightarrow> sn \<in> set (stored dpl)" .
  show "dpl_capacity dpl' = dpl_capacity dpl"
    and "\<not> dup \<Longrightarrow> m_elements dpl' = push (dpl_capacity dpl) (m_elements dpl) (list_element sn)"
    using assms by (auto simp: dpl_check_def split: option.splits)
  assume dup
  then obtain i where i: "find_index sn (m_elements dpl) = Some i"
    using assms by (auto simp: dpl_check_def dpl_find_def split: option.splits)
  then have dpl': "m_elements dpl' = (m_elements dpl)[i := (m_elements dpl ! i)\<lparr>counter := dpl_counter sn dpl + 1\<rparr>]"
    using assms counter_of_find [OF i] by (auto simp: dpl_check_def dpl_find_def dpl_counter_def)
  show "stored dpl' = stored dpl" using find_index_Some [OF i] unfolding dpl' by blast
  show "dpl_counter s dpl' = dpl_counter s dpl + (if s = sn then 1 else 0)"
    unfolding dpl_counter_def dpl' by (simp add: counter_find [OF i] dpl_counter_def)
qed

fun dpl_run :: "ListElement circular_push \<Rightarrow> SequenceNumber list \<Rightarrow> DuplicatePacketList \<Rightarrow> DuplicatePacketList" where
  "dpl_run push [] dpl = dpl"
| "dpl_run push (sn # sns) dpl = dpl_run push sns (snd (dpl_check push sn dpl))"

definition dpl_inv :: "DuplicatePacketList \<Rightarrow> bool" where
  "dpl_inv dpl \<longleftrightarrow> distinct (stored dpl) \<and> length (m_elements dpl) \<le> dpl_capacity dpl"

lemma dpl_check_inv: "circular push \<Longrightarrow> dpl_inv dpl \<Longrightarrow> dpl_inv (snd (dpl_check push sn dpl))"
proof -
  assume c: "circular push" and inv: "dpl_inv dpl"
  obtain dup dpl' where r: "dpl_check push sn dpl = (dup, dpl')" by fastforce
  note R = dpl_check_result [OF r]
  show ?thesis
  proof (cases dup)
    case True
    with R(3) have "length (m_elements dpl') = length (m_elements dpl)" by (metis length_map)
    with True R(2,3) inv r show ?thesis by (simp add: dpl_inv_def)
  next
    case False
    with R(1,4) c inv have "m_elements dpl' = (if dpl_capacity dpl = 0 then []
        else if length (m_elements dpl) < dpl_capacity dpl then m_elements dpl @ [list_element sn]
        else tl (m_elements dpl) @ [list_element sn])"
      by (simp add: circular_def dpl_inv_def)
    with False R(1,2) inv r show ?thesis
      by (cases "m_elements dpl") (auto simp: dpl_inv_def list_element_def)
  qed
qed

lemma dpl_run_inv: "circular push \<Longrightarrow> dpl_inv dpl \<Longrightarrow> dpl_inv (dpl_run push sns dpl)"
  by (induction sns arbitrary: dpl) (simp_all add: dpl_check_inv)

lemma dpl_run_capacity [simp]: "dpl_capacity (dpl_run push sns dpl) = dpl_capacity dpl"
proof (induction sns arbitrary: dpl)
  case (Cons sn sns)
  obtain dup dpl' where r: "dpl_check push sn dpl = (dup, dpl')" by fastforce
  show ?case using Cons.IH [of dpl'] by (simp add: r dpl_check_result(2) [OF r])
qed simp

lemma dpl_run_stored:
  "circular push \<Longrightarrow> dpl_inv dpl \<Longrightarrow> set (stored (dpl_run push sns dpl)) \<subseteq> set (stored dpl) \<union> set sns"
proof (induction sns arbitrary: dpl)
  case (Cons sn sns)
  obtain dup dpl' where r: "dpl_check push sn dpl = (dup, dpl')" by fastforce
  note R = dpl_check_result [OF r]
  have "set (stored dpl') \<subseteq> insert sn (set (stored dpl))"
  proof (cases dup)
    case False
    with R(4) Cons.prems have "set (m_elements dpl') \<subseteq> insert (list_element sn) (set (m_elements dpl))"
      by (cases "m_elements dpl") (auto simp: circular_def dpl_inv_def split: if_splits)
    then show ?thesis by (fastforce simp: list_element_def)
  qed (use R(3) in auto)
  with Cons.IH [of dpl'] Cons.prems dpl_check_inv [of push dpl sn] r show ?case by auto
qed simp

text \<open>While at most \<open>capacity\<close> distinct numbers follow its insertion, an element stays.\<close>

lemma dpl_retains:
  assumes "circular push" and "dpl_inv dpl" and "stored dpl = pre @ sn # post"
    and "card (set post \<union> set zs - {sn}) < dpl_capacity dpl"
  shows "sn \<in> set (stored (dpl_run push zs dpl))
    \<and> dpl_counter sn (dpl_run push zs dpl) = dpl_counter sn dpl + of_nat (count_list zs sn)"
  using assms
proof (induction zs arbitrary: dpl pre post)
  case (Cons z zs)
  obtain dup dpl' where r: "dpl_check push z dpl = (dup, dpl')" by fastforce
  note R = dpl_check_result [OF r]
  have inv: "dpl_inv dpl'" using dpl_check_inv [OF Cons.prems(1,2), of z] r by simp
  have fin: "finite (set post \<union> set (z # zs) - {sn})" by simp
  show ?case
  proof (cases dup)
    case True
    have "card (set post \<union> set zs - {sn}) < dpl_capacity dpl'"
      using Cons.prems(4) card_mono [OF fin, of "set post \<union> set zs - {sn}"] R(2) by fastforce
    with Cons.IH [OF Cons.prems(1) inv, of pre post] True R(3,5) Cons.prems(3) r show ?thesis
      by (simp add: ac_simps)
  next
    case False
    then have z: "z \<notin> set (stored dpl)" using R(1) by blast
    have len: "length (m_elements dpl) = length pre + 1 + length post"
      using arg_cong [OF Cons.prems(3), of length] by simp
    have d: "distinct post" "sn \<notin> set post" using Cons.prems(2,3) by (auto simp: dpl_inv_def)
    have le: "Suc (length post) < dpl_capacity dpl"
    proof -
      have "card (insert z (set post)) \<le> card (set post \<union> set (z # zs) - {sn})"
        using z d Cons.prems(3) by (intro card_mono) auto
      moreover have "card (insert z (set post)) = Suc (length post)"
        using z d Cons.prems(3) by (simp add: distinct_card)
      ultimately show ?thesis using Cons.prems(4) by simp
    qed
    have m: "m_elements dpl' = (if length (m_elements dpl) < dpl_capacity dpl
        then m_elements dpl @ [list_element z] else tl (m_elements dpl) @ [list_element z])"
      using R(4) False Cons.prems(1,2) le by (simp add: circular_def dpl_inv_def)
    obtain pre' where pre': "stored dpl' = pre' @ sn # (post @ [z])"
    proof (cases "length (m_elements dpl) < dpl_capacity dpl")
      case True with m Cons.prems(3) that [of pre] show ?thesis by (simp add: list_element_def)
    next
      case False
      with len le have "pre \<noteq> []" by auto
      then have "map sequence_number (tl (m_elements dpl)) = tl pre @ sn # post"
        using Cons.prems(3) by (simp add: map_tl)
      with m False that [of "tl pre"] show ?thesis by (simp add: list_element_def)
    qed
    have sn: "sn \<noteq> z" using z Cons.prems(3) by auto
    have cnt: "dpl_counter sn dpl' = dpl_counter sn dpl"
    proof -
      have "dpl_counter_in sn (tl (m_elements dpl)) = dpl_counter_in sn (m_elements dpl)"
        if "\<not> length (m_elements dpl) < dpl_capacity dpl"
        using that len le Cons.prems(3) Cons.prems(2) by (cases "m_elements dpl"; cases pre) (auto simp: dpl_inv_def)
      moreover have "sn \<in> sequence_number ` set (tl (m_elements dpl))"
        if "\<not> length (m_elements dpl) < dpl_capacity dpl"
        using that len le Cons.prems(3) by (cases "m_elements dpl"; cases pre) (auto simp flip: set_map)
      moreover have "sn \<in> sequence_number ` set (m_elements dpl)"
        using Cons.prems(3) by (metis in_set_conv_decomp list.set_map)
      ultimately show ?thesis using m by (simp add: dpl_counter_def counter_append)
    qed
    have "set (post @ [z]) \<union> set zs - {sn} = set post \<union> set (z # zs) - {sn}" by auto
    with Cons.IH [OF Cons.prems(1) inv pre'] Cons.prems(4) R(2) r sn cnt show ?thesis by simp
  qed
qed simp

section \<open>Location table\<close>

definition lt_entry_ok :: "MacAddress \<Rightarrow> LocationTableEntry \<Rightarrow> bool" where
  "lt_entry_ok key entry \<longleftrightarrow> (m_has_position_vector entry \<longrightarrow>
     is_valid (m_position_vector entry) \<and> mid (gn_addr (m_position_vector entry)) = key)"

definition lt_inv :: "LocationTable \<Rightarrow> bool" where
  "lt_inv lt \<longleftrightarrow> ss_inv lt \<and> 0 \<le> m_lifetime lt \<and> list_all (\<lambda>(k, e). lt_entry_ok k e) (m_map lt)"

lemma lt_inv_data: "lt_inv lt \<Longrightarrow> get_data_ptr k lt = Some e \<Longrightarrow> lt_entry_ok k e"
  by (auto simp: lt_inv_def list_all_iff get_data_ptr_def dest!: map_of_SomeD)

lemma lt_invI:
  assumes "ss_inv lt" and "0 \<le> m_lifetime lt" and "\<And>k e. get_data_ptr k lt = Some e \<Longrightarrow> lt_entry_ok k e"
  shows "lt_inv lt"
  using assms by (auto simp: lt_inv_def list_all_iff get_data_ptr_def ss_inv_def)

lemma lt_invD [simp]: "lt_inv lt \<Longrightarrow> ss_inv lt" "lt_inv lt \<Longrightarrow> 0 \<le> m_lifetime lt"
  by (simp_all add: lt_inv_def)

lemma entry_ok_fresh [simp]: "lt_entry_ok key (location_table_entry now)"
  by (simp add: lt_entry_ok_def location_table_entry_def)

lemma update_position_vector_spec:
  "update_position_vector lpv entry =
     (if is_valid lpv \<and> (m_has_position_vector entry \<longrightarrow>
            timestamp_less (timestamp (m_position_vector entry)) (timestamp lpv))
      then (True, entry\<lparr>m_has_position_vector := True, m_position_vector := lpv\<rparr>) else (False, entry))"
  by (simp add: update_position_vector_def set_position_vector_def)

lemma entry_ok_update:
  "lt_entry_ok key entry \<Longrightarrow> mid (gn_addr lpv) = key \<Longrightarrow> lt_entry_ok key (snd (update_position_vector lpv entry))"
  by (simp add: update_position_vector_spec lt_entry_ok_def)

lemma lt_inv_refresh:
  assumes "lt_inv lt"
  shows "lt_inv (snd (ss_refresh now (location_table_entry now) key lt))"
    and "lt_entry_ok key (fst (ss_refresh now (location_table_entry now) key lt))"
proof -
  obtain v lt' where r: "ss_refresh now (location_table_entry now) key lt = (v, lt')" by fastforce
  note R = ss_refresh_lookup [OF lt_invD(1) [OF assms] r]
  have v: "lt_entry_ok key v" using R(1) lt_inv_data [OF assms, of key] by (cases "get_data_ptr key lt") auto
  then show "lt_entry_ok key (fst (ss_refresh now (location_table_entry now) key lt))" by (simp add: r)
  show "lt_inv (snd (ss_refresh now (location_table_entry now) key lt))"
    using ss_refresh_inv [OF lt_invD(1) [OF assms], of now "location_table_entry now" key] assms v R
    by (auto intro!: lt_invI dest: lt_inv_data simp: r split: if_splits)
qed

lemma lt_inv_write: "lt_inv lt \<Longrightarrow> lt_entry_ok key e \<Longrightarrow> lt_inv (ss_write key e lt)"
  by (rule lt_invI) (auto simp: ss_write_simps dest: lt_inv_data split: if_splits)

lemma lt_inv_get: "lt_inv lt \<Longrightarrow> lt_inv (snd (get_or_create_entry now key lt))"
proof -
  assume inv: "lt_inv lt"
  obtain v lt' where r: "get_data now (location_table_entry now) key lt = (v, lt')" by fastforce
  note R = get_data_lookup [OF lt_invD(1) [OF inv] r]
  have v: "lt_entry_ok key v" using R(1) lt_inv_data [OF inv, of key] by (cases "get_data_ptr key lt") auto
  have "ss_inv lt'" using get_data_inv [OF lt_invD(1) [OF inv], of now "location_table_entry now" key] r by simp
  then show ?thesis using inv v R
    by (auto intro!: lt_invI dest: lt_inv_data simp: get_or_create_entry_def get_value_def r split: if_splits)
qed

lemma lt_inv_drop: "lt_inv lt \<Longrightarrow> lt_inv (drop_expired now lt)"
  using drop_expired_lookup [OF lt_invD(1)]
  by (intro lt_invI) (auto dest: lt_inv_data split: option.splits if_splits)

lemma lt_inv_create: "0 \<le> itsGnLifetimeLocTE mib \<Longrightarrow> lt_inv (location_table mib)"
  by (auto simp: lt_inv_def location_table_def soft_state_map_def set_lifetime_def ss_inv_def truncate_real_def)

lemma get_value_ptr_data: "get_value_ptr now k s = Some v \<Longrightarrow> get_data_ptr k s = Some v"
  by (auto simp: get_value_ptr_eq split: option.splits if_splits)

lemma lt_inv_update: "lt_inv lt \<Longrightarrow> lt_inv (lt_update now lpv lt)"
proof -
  assume inv: "lt_inv lt"
  let ?key = "mid (gn_addr lpv)"
  obtain e lt' where r: "ss_refresh now (location_table_entry now) ?key lt = (e, lt')" by fastforce
  have "lt_inv lt'" "lt_entry_ok ?key e"
    using lt_inv_refresh [OF inv, where now = now and key = ?key] by (simp_all add: r)
  then have fresh: "lt_inv (ss_write ?key (snd (update_position_vector lpv e)) lt')"
    by (simp add: lt_inv_write entry_ok_update)
  show ?thesis
  proof (cases "get_value_ptr now ?key lt")
    case (Some e0)
    have "lt_inv (ss_write ?key (snd (update_position_vector lpv e0)) lt)"
      using inv Some by (simp add: lt_inv_write entry_ok_update lt_inv_data get_value_ptr_data)
    then show ?thesis using Some fresh lt_inv_refresh(1)
      by (auto simp: lt_update_def Let_def r split: prod.split)
  qed (use fresh in \<open>simp add: lt_update_def r\<close>)
qed

lemma get_position_eq: "get_position now k lt = Option.bind (get_entry now k lt)
    (\<lambda>e. if m_has_position_vector e then Some (m_position_vector e) else None)"
  by (auto simp: get_position_def get_entry_def split: option.split)

lemma lt_update_other:
  assumes "ss_inv lt" and "k \<noteq> mid (gn_addr lpv)"
  shows "get_entry t k (lt_update now lpv lt) = get_entry t k lt"
proof -
  obtain e lt' where r: "ss_refresh now (location_table_entry now) (mid (gn_addr lpv)) lt = (e, lt')" by fastforce
  have "get_value_ptr t k lt' = get_value_ptr t k lt"
    using ss.lookup_renew_other [OF assms, of t now "location_table_entry now"] by (simp add: r)
  then show ?thesis using assms
    by (auto simp: lt_update_def get_entry_def Let_def ss.lookup_wr ss.lookup_renew_other ss.inv_wr r
        split: prod.split option.split)
qed

lemma lt_update_known:
  assumes "ss_inv lt" and "get_position now (mid (gn_addr lpv)) lt = Some pv"
  shows "get_position t (mid (gn_addr lpv)) (lt_update now lpv lt) =
    (if is_valid lpv \<and> timestamp_less (timestamp pv) (timestamp lpv)
     then if t \<le> now + m_lifetime lt then Some lpv else None
     else get_position t (mid (gn_addr lpv)) lt)"
proof -
  let ?key = "mid (gn_addr lpv)"
  obtain e where e: "get_value_ptr now ?key lt = Some e" "m_has_position_vector e" "m_position_vector e = pv"
    using assms(2) by (auto simp: get_position_def split: option.splits if_splits)
  show ?thesis
  proof (cases "is_valid lpv \<and> timestamp_less (timestamp pv) (timestamp lpv)")
    case True
    define e' where "e' = e\<lparr>m_has_position_vector := True, m_position_vector := lpv\<rparr>"
    have "lt_update now lpv lt = snd (ss_refresh now (location_table_entry now) ?key (ss_write ?key e' lt))"
      using True e by (simp add: lt_update_def update_position_vector_spec Let_def e'_def)
    moreover have "get_value_ptr now ?key (ss_write ?key e' lt) = Some e'" using e by (simp add: ss.lookup_wr)
    ultimately show ?thesis using True assms(1)
      by (simp add: get_position_def ss.lookup_renew ss.renew_value ss.inv_wr ss.span_wr e'_def)
  next
    case False
    then have "lt_update now lpv lt = ss_write ?key e lt"
      using e by (auto simp: lt_update_def update_position_vector_spec Let_def)
    moreover have "get_value_ptr t ?key (ss_write ?key e lt) = get_value_ptr t ?key lt"
      using get_value_ptr_data [OF e(1)] by (auto simp: ss_write_simps get_value_ptr_eq split: option.split)
    ultimately show ?thesis using False by (auto simp: get_position_def)
  qed
qed

text \<open>With no visible position the stored entry, if any, is refreshed and updated.\<close>

lemma lt_update_unknown:
  assumes "ss_inv lt" and "get_position now (mid (gn_addr lpv)) lt = None"
  shows "get_position t (mid (gn_addr lpv)) (lt_update now lpv lt) =
    (let e = snd (update_position_vector lpv (case get_data_ptr (mid (gn_addr lpv)) lt of Some e \<Rightarrow> e
                                              | None \<Rightarrow> location_table_entry now))
     in if t \<le> now + m_lifetime lt \<and> m_has_position_vector e then Some (m_position_vector e) else None)"
proof -
  let ?key = "mid (gn_addr lpv)"
  obtain e lt' where r: "ss_refresh now (location_table_entry now) ?key lt = (e, lt')" by fastforce
  have "lt_update now lpv lt = ss_write ?key (snd (update_position_vector lpv e)) lt'"
    using assms(2) by (auto simp: lt_update_def get_position_def r split: option.splits if_splits)
  moreover have "get_value_ptr t ?key (ss_write ?key (snd (update_position_vector lpv e)) lt') =
      (if t \<le> now + m_lifetime lt then Some (snd (update_position_vector lpv e)) else None)"
    using ss.lookup_renew_wr [OF assms(1), of t ?key _ now "location_table_entry now"] by (simp add: r)
  ultimately show ?thesis using ss_refresh_lookup(1) [OF assms(1) r] by (simp add: get_position_def)
qed

lemma lt_update_lifetime: "ss_inv lt \<Longrightarrow> m_lifetime (lt_update now lpv lt) = m_lifetime lt"
proof -
  assume inv: "ss_inv lt"
  obtain e lt' where r: "ss_refresh now (location_table_entry now) (mid (gn_addr lpv)) lt = (e, lt')" by fastforce
  have "m_lifetime lt' = m_lifetime lt" using ss.span_renew [OF inv, of now _ "mid (gn_addr lpv)"] by (metis r snd_conv)
  then show ?thesis using inv
    by (auto simp: lt_update_def Let_def ss.span_wr ss.span_renew ss.inv_wr r split: prod.split option.split)
qed

section \<open>Channel load statistics\<close>

lemma unit_interval_avg:
  assumes "unit_interval a" and "unit_interval c"
  shows "unit_interval ((a * real n + c) / real (n + 1))"
proof -
  have "a * real n \<le> real n" using assms(1) mult_right_mono [of a 1 "real n"] by (simp add: unit_interval_def)
  then have "a * real n + c \<le> real (n + 1)" using assms(2) by (simp add: unit_interval_def)
  then show ?thesis using assms by (simp add: unit_interval_def divide_le_eq)
qed

definition unit_ok :: "CbrAggregatorUnit \<Rightarrow> ChannelLoad list \<Rightarrow> bool" where
  "unit_ok u xs \<longleftrightarrow> unit_n u = length xs \<and> unit_interval (unit_average u)
     \<and> unit_average u * real (length xs) = sum_list xs
     \<and> (\<exists>r. mset (0 # 0 # xs) = {#unit_max0 u, unit_max1 u#} + r
         \<and> (\<forall>x \<in># r. x \<le> unit_max1 u)) \<and> unit_max1 u \<le> unit_max0 u \<and> 0 \<le> unit_max1 u"

lemma unit_ok_create: "unit_ok cbr_aggregator_unit []"
  by (simp add: unit_ok_def cbr_aggregator_unit_def unit_interval_def)

lemma unit_ok_add:
  assumes "unit_ok u xs" and "unit_interval c"
  shows "unit_ok (unit_add u c) (xs @ [c])"
proof -
  let ?u = "unit_add u c"
  obtain r where r: "mset (0 # 0 # xs) = {#unit_max0 u, unit_max1 u#} + r" "\<forall>x \<in># r. x \<le> unit_max1 u"
    using assms(1) unfolding unit_ok_def by blast
  have n: "unit_n u = length xs" and o: "unit_max1 u \<le> unit_max0 u" "0 \<le> unit_max1 u"
    using assms(1) by (simp_all add: unit_ok_def)
  have avg: "unit_average ?u = (unit_average u * real (length xs) + c) / real (length xs + 1)"
    using assms unit_interval_avg [of "unit_average u" c "length xs"] by (simp add: unit_add_def Let_def unit_ok_def)
  have max: "unit_max0 ?u = max c (unit_max0 u)"
    "unit_max1 ?u = (if c \<ge> unit_max0 u then unit_max0 u else max c (unit_max1 u))"
    by (auto simp: unit_add_def Let_def)
  define r' where "r' = (if c \<ge> unit_max0 u then add_mset (unit_max1 u) r
    else if c > unit_max1 u then add_mset (unit_max1 u) r else add_mset c r)"
  have "mset (0 # 0 # xs @ [c]) = {#unit_max0 ?u, unit_max1 ?u#} + r'"
    using r(1) by (auto simp: max r'_def max_def)
  moreover have "\<forall>x \<in># r'. x \<le> unit_max1 ?u" using r(2) o by (auto simp: max r'_def max_def)
  ultimately show ?thesis using assms o avg unit_interval_avg [of "unit_average u" c "length xs"]
    by (auto simp: unit_ok_def max unit_add_def Let_def)
qed


text \<open>
  What a unit computes: the largest report when the mean exceeds the target, the second largest
  otherwise, two zeros included.
\<close>

definition cbr_spec :: "ChannelLoad \<Rightarrow> ChannelLoad list \<Rightarrow> ChannelLoad" where
  "cbr_spec target xs = (let ys = rev (sort (0 # 0 # xs))
     in if (if xs = [] then 0 else sum_list xs / real (length xs)) > target then ys ! 0 else ys ! 1)"

lemma unit_ok_fold:
  "unit_ok u ys \<Longrightarrow> list_all unit_interval xs \<Longrightarrow> unit_ok (foldl unit_add u xs) (ys @ xs)"
proof (induction xs arbitrary: u ys)
  case (Cons c xs)
  then show ?case using Cons.IH [of "unit_add u c" "ys @ [c]"] unit_ok_add by simp
qed simp

lemma unit_ok_result: "unit_ok u xs \<Longrightarrow> unit_result u target = cbr_spec target xs"
proof -
  assume ok: "unit_ok u xs"
  obtain r where r: "mset (0 # 0 # xs) = {#unit_max0 u, unit_max1 u#} + r" "\<forall>x \<in># r. x \<le> unit_max1 u"
    using ok unfolding unit_ok_def by blast
  obtain zs where zs: "mset zs = r" "sorted zs" by (metis mset_sort sorted_sort ex_mset)
  have le: "unit_max1 u \<le> unit_max0 u" using ok by (simp add: unit_ok_def)
  have "sorted (zs @ [unit_max1 u, unit_max0 u])"
    using zs r(2) le by (auto simp: sorted_append intro: order_trans [OF _ le])
  moreover have "mset (zs @ [unit_max1 u, unit_max0 u]) = mset (0 # 0 # xs)" using zs(1) r(1) by simp
  ultimately have "sort (0 # 0 # xs) = zs @ [unit_max1 u, unit_max0 u]" by (metis properties_for_sort)
  moreover have "unit_average u = (if xs = [] then 0 else sum_list xs / real (length xs))" if "xs \<noteq> []"
    using ok that by (auto simp: unit_ok_def field_simps)
  moreover have "unit_max0 u = 0 \<and> unit_max1 u = 0" if "xs = []"
  proof -
    have "{#0, 0 :: real#} = {#unit_max0 u, unit_max1 u#} + r" using r(1) that by simp
    then have "unit_max0 u \<in># {#0, 0#}" "unit_max1 u \<in># {#0, 0#}" by simp_all
    then show ?thesis by simp
  qed
  ultimately show ?thesis by (cases "xs = []") (auto simp: cbr_spec_def unit_result_def Let_def)
qed

definition fresh_reports :: "time_point \<Rightarrow> Timestamp \<Rightarrow> LocationTable \<Rightarrow> LocTEX_G5 list" where
  "fresh_reports now since lt = List.map_filter (\<lambda>(_, entry). case ext_loctex entry of
     Some loctex \<Rightarrow> if \<not> timestamp_less (local_update loctex) since then Some loctex else None
   | None \<Rightarrow> None) (ss_entries now lt)"

lemma visit_reports:
  "visit now (aggregate_visitor since) lt (u, v) =
     (foldl unit_add u (map (local_cbr \<circ> dcc_mco) (fresh_reports now since lt)),
      foldl unit_add v (map (neighbour_cbr \<circ> dcc_mco) (fresh_reports now since lt)))"
proof -
  have "foldl (\<lambda>s entry. aggregate_visitor since (fst entry) (snd entry) s) (u, v) es =
     (let rs = List.map_filter (\<lambda>(_, entry). case ext_loctex entry of
         Some loctex \<Rightarrow> if \<not> timestamp_less (local_update loctex) since then Some loctex else None
       | None \<Rightarrow> None) es
      in (foldl unit_add u (map (local_cbr \<circ> dcc_mco) rs), foldl unit_add v (map (neighbour_cbr \<circ> dcc_mco) rs)))" for es
    by (induction es arbitrary: u v) (auto simp: map_filter_simps aggregate_visitor_def Let_def split: option.split)
  then show ?thesis by (simp add: visit_def fresh_reports_def Let_def)
qed

section \<open>Properties\<close>

text \<open>
  C27: duplicate detection within the window of the list: a number reported as duplicate was indeed
  received before, and a newly stored number is recognised, with its counter equal to the packets
  seen since (the first included), as long as fewer than \<open>capacity\<close> other numbers arrive in between.
\<close>

theorem duplicate_detection_window:
  assumes "circular push" and "dpl = dpl_run push sns (duplicate_packet_list n)"
  shows "(fst (dpl_check push sn dpl) \<longrightarrow> sn \<in> set sns)
    \<and> (\<not> fst (dpl_check push sn dpl) \<and> card (set later - {sn}) < n \<longrightarrow>
        (let dpl' = dpl_run push later (snd (dpl_check push sn dpl))
         in fst (dpl_check push sn dpl') \<and> dpl_counter sn dpl' = 1 + of_nat (count_list later sn)))"
proof (intro conjI impI)
  have inv: "dpl_inv dpl"
    using dpl_run_inv [OF assms(1), of "duplicate_packet_list n" sns] assms(2)
    by (simp add: dpl_inv_def duplicate_packet_list_def)
  have cap: "dpl_capacity dpl = n" using assms(2) by (simp add: duplicate_packet_list_def)
  obtain dup dpl1 where r: "dpl_check push sn dpl = (dup, dpl1)" by fastforce
  note R = dpl_check_result [OF r]
  have "dpl_inv (duplicate_packet_list n)" by (simp add: dpl_inv_def duplicate_packet_list_def)
  from dpl_run_stored [OF assms(1) this, of sns] show "sn \<in> set sns" if "fst (dpl_check push sn dpl)"
    using that R(1) r assms(2) by (auto simp: duplicate_packet_list_def)
  assume new: "\<not> fst (dpl_check push sn dpl) \<and> card (set later - {sn}) < n"
  have m: "m_elements dpl1 = (if length (m_elements dpl) < n then m_elements dpl @ [list_element sn]
      else tl (m_elements dpl) @ [list_element sn])"
    using new R(4) r inv cap assms(1) by (auto simp: circular_def dpl_inv_def)
  then obtain pre where pre: "stored dpl1 = pre @ sn # []" by (auto simp: list_element_def split: if_splits)
  have "sn \<notin> set (stored dpl)" using new R(1) r by simp
  then have notin: "sn \<notin> sequence_number ` set (tl (m_elements dpl))" "sn \<notin> sequence_number ` set (m_elements dpl)"
    by (cases "m_elements dpl"; simp)+
  then have cnt: "dpl_counter sn dpl1 = 1" unfolding dpl_counter_def m by (simp add: counter_append list_element_def)
  have "dpl_inv dpl1" using dpl_check_inv [OF assms(1) inv, of sn] r by simp
  from dpl_retains [OF assms(1) this pre, of later] new R(2) cap
  have ret: "sn \<in> set (stored (dpl_run push later dpl1))"
      "dpl_counter sn (dpl_run push later dpl1) = 1 + of_nat (count_list later sn)" by (simp_all add: cnt)
  obtain dup2 dpl2 where r2: "dpl_check push sn (dpl_run push later dpl1) = (dup2, dpl2)" by fastforce
  show "let dpl' = dpl_run push later (snd (dpl_check push sn dpl))
       in fst (dpl_check push sn dpl') \<and> dpl_counter sn dpl' = 1 + of_nat (count_list later sn)"
    using ret dpl_check_result(1) [OF r2] r r2 by simp
qed

theorem duplicate_detection_window_witness:
  "let push = (\<lambda>n xs x. if n = 0 then [] else if length xs < n then xs @ [x] else tl xs @ [x]);
       dpl = dpl_run push [31, 30, 31, 29] (duplicate_packet_list 2)
   in \<not> fst (dpl_check push 36 dpl) \<and> fst (dpl_check push 36 (dpl_run push [29, 36] (snd (dpl_check push 36 dpl))))"
proof -
  let ?push = "\<lambda>n xs x. if n = 0 then [] else if length xs < n then xs @ [x] else tl xs @ [x]"
  let ?dpl = "dpl_run ?push [31, 30, 31, 29] (duplicate_packet_list 2)"
  have c: "circular ?push" by (simp add: circular_def)
  have new: "\<not> fst (dpl_check ?push 36 ?dpl)"
    by (simp add: duplicate_packet_list_def dpl_check_def dpl_find_def list_element_def)
  have "set [29, 36] - {36} = {29 :: SequenceNumber}" by auto
  then have "card (set [29, 36] - {36 :: SequenceNumber}) < 2" by (simp only: card.empty card_insert_if finite.emptyI empty_iff) simp
  with duplicate_detection_window [OF c refl, of 36 "[31, 30, 31, 29]" 2 "[29, 36]"] new
  show ?thesis unfolding Let_def by blast
qed

text \<open>
  C13: a position vector received from a station: when expired entries were dropped before, as the
  router does, the table accepts it exactly if it is valid and newer than the visible one, an
  accepted vector is visible for one lifetime, a rejected one changes nothing, other stations keep
  their entries, and every stored vector is valid and filed under its own address.
\<close>

theorem location_table_update:
  assumes "lt_inv lt" and "lt' = lt_update now lpv (drop_expired now lt)" and "now \<le> t"
    and "key = mid (gn_addr lpv)"
  shows "lt_inv lt' \<and> (k \<noteq> key \<longrightarrow> get_entry t k lt' = get_entry t k lt)
    \<and> get_position t key lt' =
        (case get_position now key lt of
           Some pv \<Rightarrow> if is_valid lpv \<and> timestamp_less (timestamp pv) (timestamp lpv)
                      then if t \<le> now + m_lifetime lt then Some lpv else None
                      else get_position t key lt
         | None \<Rightarrow> if is_valid lpv \<and> t \<le> now + m_lifetime lt then Some lpv else None)"
proof -
  let ?lt = "drop_expired now lt"
  have inv: "lt_inv ?lt" using assms(1) by (rule lt_inv_drop)
  have life: "m_lifetime ?lt = m_lifetime lt" using assms(1) by (simp add: ss.span_drop)
  have vis: "get_position u key ?lt = get_position u key lt" if "now \<le> u" for u
    using that assms(1) by (simp add: get_position_def ss.lookup_drop)
  have other: "get_entry t k lt' = get_entry t k lt" if "k \<noteq> key"
    using lt_update_other [of ?lt k lpv t now] that inv assms by (simp add: get_entry_def ss.lookup_drop)
  have unknown: "\<not> m_has_position_vector (case get_data_ptr key ?lt of Some e \<Rightarrow> e | None \<Rightarrow> location_table_entry now)"
    if "get_position now key lt = None"
  proof (cases "get_data_ptr key ?lt")
    case (Some e)
    then have "get_value_ptr now key ?lt = Some e"
      using drop_expired_lookup [OF lt_invD(1) [OF assms(1)], of now key]
      by (auto simp: get_value_ptr_eq ss_is_expired_def split: option.splits if_splits)
    with vis [of now] that Some show ?thesis by (auto simp: get_position_def)
  qed (simp add: location_table_entry_def)
  show ?thesis
  proof (cases "get_position now key lt")
    case None
    then show ?thesis
      using lt_update_unknown [OF lt_invD(1) [OF inv], of now lpv t] unknown inv other vis [of now] life assms
      by (auto simp: lt_inv_update update_position_vector_spec Let_def split: option.splits)
  next
    case (Some pv)
    then show ?thesis
      using lt_update_known [OF lt_invD(1) [OF inv], of now lpv pv t] inv other vis [of now] vis [of t] life assms
      by (simp add: lt_inv_update)
  qed
qed

theorem location_table_update_witness:
  "let mk = (\<lambda>ts. zero_position_vector\<lparr>timestamp := ts\<rparr>);
       lt = lt_update 1000 (mk 5) (location_table default_mib)
   in lt_inv lt \<and> get_position 3000 mac_zero (lt_update 2000 (mk 9) (drop_expired 2000 lt)) = Some (mk 9)
      \<and> get_position 3000 mac_zero (lt_update 2000 (mk 4) (drop_expired 2000 lt)) = Some (mk 5)"
proof -
  define mk where "mk ts = zero_position_vector\<lparr>timestamp := ts\<rparr>" for ts
  define lt where "lt = lt_update 1000 (mk 5) (location_table default_mib)"
  have inv0: "lt_inv (location_table default_mib)" by (rule lt_inv_create) (simp add: default_mib_def)
  have valid: "is_valid (mk 5)" "is_valid (mk 9)" "mid (gn_addr (mk ts)) = mac_zero" "timestamp (mk ts) = ts" for ts
    by (simp_all add: mk_def is_valid_def is_empty_def lpv_eq_def zero_position_vector_def address_of_mac_def)
  have inv: "lt_inv lt" using lt_inv_update [OF inv0] by (simp add: lt_def)
  have life: "m_lifetime (location_table default_mib) = 20000000"
    by (simp add: location_table_def default_mib_def set_lifetime_def truncate_real_def)
  have none: "get_position 1000 mac_zero (location_table default_mib) = None"
    "get_data_ptr mac_zero (location_table default_mib) = None"
    by (simp_all add: get_position_def location_table_def soft_state_map_def set_lifetime_def
        get_value_ptr_def get_data_ptr_def)
  have pos: "get_position u mac_zero lt = (if u \<le> 20001000 then Some (mk 5) else None)" for u
    using lt_update_unknown [OF lt_invD(1) [OF inv0], of 1000 "mk 5" u] none life valid
    by (simp add: lt_def update_position_vector_spec location_table_entry_def)
  have ts: "timestamp_less 5 9" "\<not> timestamp_less 5 4" by (simp_all add: timestamp_less_def is_greater_def)
  show ?thesis
    using location_table_update [OF inv refl, of 2000 3000 mac_zero "mk 9" mac_zero]
      location_table_update [OF inv refl, of 2000 3000 mac_zero "mk 4" mac_zero]
      inv pos ts valid lt_update_lifetime [OF lt_invD(1) [OF inv0], of 1000 "mk 5"]
    by (simp add: Let_def life flip: mk_def lt_def)
qed

text \<open>
   without dropping expired entries first, an update that is rejected as too old makes an expired
  position visible again for a full lifetime.
\<close>

theorem stale_position_revived:
  assumes "lt_inv lt" and "get_data_ptr key lt = Some e" and "m_has_position_vector e"
    and "get_entry now key lt = None" and "key = mid (gn_addr lpv)"
    and "\<not> timestamp_less (timestamp (m_position_vector e)) (timestamp lpv)"
  shows "get_position now key lt = None
    \<and> get_position (now + m_lifetime lt) key (lt_update now lpv lt) = Some (m_position_vector e)"
proof -
  have none: "get_position now key lt = None" using assms(4) by (simp add: get_position_def get_entry_def)
  then show ?thesis
    using lt_update_unknown [OF lt_invD(1) [OF assms(1)], of now lpv "now + m_lifetime lt"] assms
    by (simp add: update_position_vector_spec)
qed

theorem stale_position_revived_witness:
  "let pv = zero_position_vector\<lparr>timestamp := 5\<rparr>;
       e = (location_table_entry 10)\<lparr>m_has_position_vector := True, m_position_vector := pv\<rparr>;
       lt = \<lparr>m_lifetime = 20, m_heap = [(mac_zero, 30)], m_map = [(mac_zero, e)]\<rparr>
   in get_position 31 mac_zero lt = None
      \<and> get_position 51 mac_zero (lt_update 31 (zero_position_vector\<lparr>timestamp := 4\<rparr>) lt) = Some pv"
proof -
  define pv where "pv = zero_position_vector\<lparr>timestamp := 5\<rparr>"
  define e where "e = (location_table_entry 10)\<lparr>m_has_position_vector := True, m_position_vector := pv\<rparr>"
  define lt where "lt = \<lparr>m_lifetime = 20, m_heap = [(mac_zero, 30 :: time_point)], m_map = [(mac_zero, e)]\<rparr>"
  let ?old = "zero_position_vector\<lparr>timestamp := 4\<rparr>"
  have "lt_inv lt"
    by (simp add: lt_inv_def lt_def ss_inv_def lt_entry_ok_def e_def pv_def is_valid_def is_empty_def
        lpv_eq_def zero_position_vector_def address_of_mac_def)
  moreover have "get_data_ptr mac_zero lt = Some e" "m_has_position_vector e" "get_entry 31 mac_zero lt = None"
    "mac_zero = mid (gn_addr ?old)" "m_lifetime lt = 20" "m_position_vector e = pv"
    by (simp_all add: lt_def e_def get_data_ptr_def get_entry_def get_value_ptr_def handle_expiry_def
        ss_is_expired_def zero_position_vector_def address_of_mac_def)
  moreover have "\<not> timestamp_less (timestamp (m_position_vector e)) (timestamp ?old)"
    by (simp add: e_def pv_def timestamp_less_def is_greater_def)
  ultimately show ?thesis
    using stale_position_revived [of lt mac_zero e 31 ?old]
    unfolding Let_def pv_def [symmetric] e_def [symmetric] lt_def [symmetric] by simp
qed

text \<open>
   aggregation of the received channel loads: over the visible entries reported since the last
  cycle, the one-hop and two-hop loads are the largest report if the mean exceeds the target and the
  second largest otherwise, and the global load is the maximum of these and the previous local load.
\<close>

theorem aggregate_refines_spec:
  "aggregate now local_load lt since target agg =
     (let reports = fresh_reports now since lt;
          one = cbr_spec target (map (local_cbr \<circ> dcc_mco) reports);
          two = cbr_spec target (map (neighbour_cbr \<circ> dcc_mco) reports)
      in agg\<lparr>m_local_cbr0 := local_load, m_local_cbr1 := m_local_cbr0 agg, m_one_hop_cbr := one,
             m_two_hop_cbr := two, m_global_cbr := max (m_local_cbr0 agg) (max one two)\<rparr>)"
proof -
  have spec: "unit_result (foldl unit_add cbr_aggregator_unit xs) target = cbr_spec target xs"
    if "list_all unit_interval xs" for xs
    using unit_ok_result [OF unit_ok_fold [OF unit_ok_create that]] by simp
  have "list_all unit_interval (map (local_cbr \<circ> dcc_mco) rs)"
    "list_all unit_interval (map (neighbour_cbr \<circ> dcc_mco) rs)" for rs
    by (simp_all add: list_all_iff local_cbr_def neighbour_cbr_def)
  note loads = this [THEN spec]
  show ?thesis by (cases agg) (simp add: aggregate_def visit_reports Let_def loads)
qed

end
