(* ===== verification/Packet_Buffers.thy ===== *)
theory Packet_Buffers
  imports Geonet_Parser Location_Table
begin

text \<open>
  Packets waiting inside the router: pending packets with the lifetime in their basic header
  (\<^verbatim>\<open>geonet/extended_pdu.hpp\<close>, \<^verbatim>\<open>geonet/pending_packet.hpp\<close>) and the store-carry-forward
  buffers of bounded capacity (\<^verbatim>\<open>geonet/packet_buffer.*\<close>). Byte counts are naturals; the
  buffer invariant shows that no subtraction of the source underflows.
\<close>

section \<open>Pending packets\<close>

record ('sec, 'h) ExtendedPdu =
  ep_basic :: BasicHeader
  ep_common :: CommonHeader
  ep_secured :: "'sec option"
  ep_extended :: 'h

definition pdu_of_extended :: "('h \<Rightarrow> HeaderVariant) \<Rightarrow> ('sec, 'h) ExtendedPdu \<Rightarrow> 'sec Pdu" where
  "pdu_of_extended wrap pdu = \<lparr>pdu_basic = ep_basic pdu, pdu_common = ep_common pdu,
     pdu_secured = ep_secured pdu, pdu_extended = wrap (ep_extended pdu)\<rparr>"

text \<open>
  The action to resume with is an opaque value of type \<open>'a\<close>; an unset pointer is \<^const>\<open>None\<close>.
\<close>

record ('sec, 'h, 'a) PendingPacket =
  pp_pdu :: "('sec, 'h) ExtendedPdu option"
  pp_payload :: "ChunkPacket option"
  pp_function :: 'a

text \<open>Processing yields the action with the packet it is invoked on.\<close>

definition pending_process ::
  "('sec, 'h, 'a) PendingPacket \<Rightarrow> ('a \<times> ('sec, 'h) ExtendedPdu \<times> ChunkPacket) option" where
  "pending_process p =
     (case (pp_pdu p, pp_payload p) of
        (Some pdu, Some payload_packet) \<Rightarrow> Some (pp_function p, pdu, payload_packet)
      | _ \<Rightarrow> None)"

definition pending_length ::
  "('h \<Rightarrow> HeaderVariant) \<Rightarrow> ('sec \<Rightarrow> nat) \<Rightarrow> ('sec, 'h, 'a) PendingPacket \<Rightarrow> nat" where
  "pending_length wrap get_size p =
     (case pp_pdu p of Some pdu \<Rightarrow> pdu_length get_size (pdu_of_extended wrap pdu) | None \<Rightarrow> 0)
     + (case pp_payload p of Some pl \<Rightarrow> chunk_size_range pl Transport Application | None \<Rightarrow> 0)"

definition pending_reduce_lifetime ::
  "duration \<Rightarrow> ('sec, 'h, 'a) PendingPacket \<Rightarrow> duration \<times> ('sec, 'h, 'a) PendingPacket" where
  "pending_reduce_lifetime queuing_time p =
     (case pp_pdu p of
        None \<Rightarrow> (0, p)
      | Some pdu \<Rightarrow>
          let packet_lifetime = clock_cast (lifetime_decode (lifetime (ep_basic pdu))) in
          if queuing_time \<le> 0 then (packet_lifetime, p)
          else if queuing_time < packet_lifetime then
            let remaining = packet_lifetime - queuing_time;
                lt = lifetime_encode (clock_cast_seconds remaining)
            in (remaining, p\<lparr>pp_pdu := Some (pdu\<lparr>ep_basic := (ep_basic pdu)\<lparr>lifetime := lt\<rparr>\<rparr>)\<rparr>)
          else (0, p\<lparr>pp_pdu := Some (pdu\<lparr>ep_basic := (ep_basic pdu)\<lparr>lifetime := lifetime_zero\<rparr>\<rparr>)\<rparr>))"

definition pending_duplicate :: "('sec, 'h, 'a) PendingPacket \<Rightarrow> ('sec, 'h, 'a) PendingPacket" where
  "pending_duplicate p =
     \<lparr>pp_pdu = pp_pdu p,
      pp_payload = (case pp_pdu p of
          None \<Rightarrow> Some empty_chunk_packet
        | Some pdu \<Rightarrow> if ep_secured pdu \<noteq> None then Some empty_chunk_packet else pp_payload p),
      pp_function = pp_function p\<rparr>"

section \<open>Store-carry-forward buffers\<close>

record Expiry =
  m_buffered_since :: time_point
  m_expires_at :: time_point

definition make_expiry :: "time_point \<Rightarrow> duration \<Rightarrow> Expiry" where
  "make_expiry now lt = \<lparr>m_buffered_since = now, m_expires_at = now + lt\<rparr>"

definition expiry_is_expired :: "Expiry \<Rightarrow> time_point \<Rightarrow> bool" where
  "expiry_is_expired e now \<longleftrightarrow> m_expires_at e < now"

record 'd PacketBuffer =
  m_nodes :: "(Expiry \<times> 'd) list"
  m_capacity :: nat
  m_stored :: nat

definition packet_buffer :: "nat \<Rightarrow> 'd PacketBuffer" where
  "packet_buffer capacity = \<lparr>m_nodes = [], m_capacity = capacity, m_stored = 0\<rparr>"

text \<open>
  The virtual methods \<^verbatim>\<open>length\<close> and \<^verbatim>\<open>reduce_lifetime\<close> of \<^verbatim>\<open>packet_buffer::Data\<close>
  are arguments of the operations.
\<close>

definition buffer_free :: "'d PacketBuffer \<Rightarrow> nat" where
  "buffer_free b = m_capacity b - m_stored b"

definition drop_head :: "('d \<Rightarrow> nat) \<Rightarrow> 'd PacketBuffer \<Rightarrow> bool \<times> 'd PacketBuffer" where
  "drop_head len b =
     (case m_nodes b of
        [] \<Rightarrow> (False, b)
      | node # rest \<Rightarrow> (True, b\<lparr>m_stored := m_stored b - len (snd node), m_nodes := rest\<rparr>))"

fun drop_expired_nodes :: "('d \<Rightarrow> nat) \<Rightarrow> time_point \<Rightarrow> (Expiry \<times> 'd) list \<Rightarrow> nat \<Rightarrow> (Expiry \<times> 'd) list \<times> nat" where
  "drop_expired_nodes len now [] n = ([], n)"
| "drop_expired_nodes len now (node # rest) n =
     (if expiry_is_expired (fst node) now then drop_expired_nodes len now rest (n - len (snd node))
      else let (kept, m) = drop_expired_nodes len now rest n in (node # kept, m))"

definition buffer_drop_expired :: "('d \<Rightarrow> nat) \<Rightarrow> time_point \<Rightarrow> 'd PacketBuffer \<Rightarrow> 'd PacketBuffer" where
  "buffer_drop_expired len now b =
     (let (nodes, n) = drop_expired_nodes len now (m_nodes b) (m_stored b)
      in b\<lparr>m_nodes := nodes, m_stored := n\<rparr>)"

function buffer_drop_loop :: "('d \<Rightarrow> nat) \<Rightarrow> nat \<Rightarrow> 'd PacketBuffer \<Rightarrow> 'd PacketBuffer" where
  "buffer_drop_loop len bytes b =
     (if buffer_free b < bytes \<and> fst (drop_head len b)
      then buffer_drop_loop len bytes (snd (drop_head len b)) else b)"
  by pat_completeness auto
termination
  by (relation "measure (\<lambda>(_, _, b). length (m_nodes b))") (auto simp: drop_head_def split: list.splits)

declare buffer_drop_loop.simps [simp del]

definition buffer_drop :: "('d \<Rightarrow> nat) \<Rightarrow> nat \<Rightarrow> 'd PacketBuffer \<Rightarrow> bool \<times> 'd PacketBuffer" where
  "buffer_drop len bytes b = (let b = buffer_drop_loop len bytes b in (buffer_free b \<ge> bytes, b))"

definition buffer_push ::
  "('d \<Rightarrow> nat) \<Rightarrow> (duration \<Rightarrow> 'd \<Rightarrow> duration \<times> 'd) \<Rightarrow> 'd \<Rightarrow> time_point \<Rightarrow> 'd PacketBuffer \<Rightarrow> bool \<times> 'd PacketBuffer" where
  "buffer_push len reduce data now b =
     (let b = buffer_drop_expired len now b;
          (enough, b) = buffer_drop len (len data) b
      in if enough then
           let (lt, data') = reduce 0 data
           in (True, b\<lparr>m_stored := m_stored b + len data, m_nodes := m_nodes b @ [(make_expiry now lt, data')]\<rparr>)
         else (False, b))"

text \<open>Flushing returns the data whose \<^verbatim>\<open>flush\<close> method is called, in order.\<close>

definition buffer_flush ::
  "(duration \<Rightarrow> 'd \<Rightarrow> duration \<times> 'd) \<Rightarrow> time_point \<Rightarrow> 'd PacketBuffer \<Rightarrow> 'd list \<times> 'd PacketBuffer" where
  "buffer_flush reduce now b =
     (map (\<lambda>(expiry, data). snd (reduce (now - m_buffered_since expiry) data))
        (filter (\<lambda>(expiry, _). \<not> expiry_is_expired expiry now) (m_nodes b)),
      b\<lparr>m_nodes := [], m_stored := 0\<rparr>)"

definition stored_bytes :: "('d \<Rightarrow> nat) \<Rightarrow> (Expiry \<times> 'd) list \<Rightarrow> nat" where
  "stored_bytes len nodes = sum_list (map (len \<circ> snd) nodes)"

text \<open>The bytes accounted for are those stored, and they fit.\<close>

definition buffer_inv :: "('d \<Rightarrow> nat) \<Rightarrow> 'd PacketBuffer \<Rightarrow> bool" where
  "buffer_inv len b \<longleftrightarrow> m_stored b = stored_bytes len (m_nodes b) \<and> m_stored b \<le> m_capacity b"

lemma stored_bytes_simps [simp]:
  "stored_bytes len [] = 0" "stored_bytes len (n # ns) = len (snd n) + stored_bytes len ns"
  "stored_bytes len (ns @ ms) = stored_bytes len ns + stored_bytes len ms"
  by (simp_all add: stored_bytes_def)

section \<open>The interface of buffered data\<close>

text \<open>What the buffer relies on: reducing the lifetime changes no length and never returns less than zero.\<close>

locale buffer_data =
  fixes len :: "'d \<Rightarrow> nat"
    and reduce :: "duration \<Rightarrow> 'd \<Rightarrow> duration \<times> 'd"
  assumes len_reduce: "len (snd (reduce d x)) = len x"
    and reduce_nonneg: "0 \<le> fst (reduce d x)"
    and reduce_zero: "snd (reduce 0 x) = x"
begin

lemma drop_expired_nodes_eq:
  "stored_bytes len nodes \<le> n \<Longrightarrow> drop_expired_nodes len now nodes n =
     (filter (\<lambda>(e, _). \<not> expiry_is_expired e now) nodes,
      n - stored_bytes len nodes + stored_bytes len (filter (\<lambda>(e, _). \<not> expiry_is_expired e now) nodes))"
  by (induction nodes arbitrary: n) (auto simp: case_prod_beta)

lemma drop_expired_eq:
  assumes "buffer_inv len b"
  shows "m_nodes (buffer_drop_expired len now b) = filter (\<lambda>(e, _). \<not> expiry_is_expired e now) (m_nodes b)"
    and "buffer_inv len (buffer_drop_expired len now b)"
    and "m_capacity (buffer_drop_expired len now b) = m_capacity b"
proof -
  have "stored_bytes len (filter P ns) \<le> stored_bytes len ns" for P and ns :: "(Expiry \<times> 'd) list"
    by (induction ns) auto
  from order_trans [OF this] show "m_nodes (buffer_drop_expired len now b) = filter (\<lambda>(e, _). \<not> expiry_is_expired e now) (m_nodes b)"
    and "buffer_inv len (buffer_drop_expired len now b)"
    and "m_capacity (buffer_drop_expired len now b) = m_capacity b"
    using assms by (auto simp: buffer_drop_expired_def drop_expired_nodes_eq buffer_inv_def)
qed

text \<open>The head drop removes the shortest prefix that makes room, or everything.\<close>

lemma buffer_drop_loop_eq:
  assumes "buffer_inv len b"
  shows "\<exists>k \<le> length (m_nodes b). buffer_drop_loop len bytes b =
      b\<lparr>m_nodes := drop k (m_nodes b), m_stored := stored_bytes len (drop k (m_nodes b))\<rparr>
    \<and> (\<forall>j < k. m_capacity b < bytes + stored_bytes len (drop j (m_nodes b)))
    \<and> (bytes + stored_bytes len (drop k (m_nodes b)) \<le> m_capacity b \<or> k = length (m_nodes b))"
  using assms
proof (induction "m_nodes b" arbitrary: b)
  case Nil
  then have "b = b\<lparr>m_nodes := [], m_stored := 0\<rparr>" by (cases b) (simp add: buffer_inv_def)
  with Nil show ?case by (intro exI [of _ 0]) (simp add: buffer_drop_loop.simps [of len bytes b] drop_head_def)
next
  case (Cons n ns)
  define b' where "b' = snd (drop_head len b)"
  have b': "m_nodes b' = ns" "m_stored b' = stored_bytes len ns" "m_capacity b' = m_capacity b"
    "b' = b\<lparr>m_nodes := ns, m_stored := stored_bytes len ns\<rparr>"
    using Cons(2,3) by (auto simp: b'_def drop_head_def buffer_inv_def simp flip: Cons(2))
  have inv: "buffer_inv len b'" using Cons(3) b' by (auto simp: buffer_inv_def simp flip: Cons(2))
  show ?case
  proof (cases "buffer_free b < bytes")
    case False
    then have "buffer_drop_loop len bytes b = b" by (subst buffer_drop_loop.simps) simp
    with False Cons(3) show ?thesis by (intro exI [of _ 0]) (auto simp: buffer_inv_def buffer_free_def)
  next
    case True
    then have eq: "buffer_drop_loop len bytes b = buffer_drop_loop len bytes b'"
      using Cons(2) by (subst buffer_drop_loop.simps) (auto simp: b'_def drop_head_def split: list.split)
    obtain k where k: "k \<le> length ns" "buffer_drop_loop len bytes b' =
        b'\<lparr>m_nodes := drop k ns, m_stored := stored_bytes len (drop k ns)\<rparr>"
      "\<forall>j < k. m_capacity b < bytes + stored_bytes len (drop j ns)"
      "bytes + stored_bytes len (drop k ns) \<le> m_capacity b \<or> k = length ns"
      using Cons(1) [OF b'(1) [symmetric] inv] unfolding b' by auto
    have first: "m_capacity b < bytes + stored_bytes len (m_nodes b)"
      using True Cons(3) by (auto simp: buffer_free_def buffer_inv_def)
    have "\<forall>j < Suc k. m_capacity b < bytes + stored_bytes len (drop j (m_nodes b))"
    proof (intro allI impI)
      fix j assume "j < Suc k"
      then show "m_capacity b < bytes + stored_bytes len (drop j (m_nodes b))"
        using k(3) first by (cases j) (auto simp flip: Cons(2))
    qed
    then show ?thesis using k b'(4) unfolding eq
      by (intro exI [of _ "Suc k"]) (auto simp flip: Cons(2))
  qed
qed

lemma buffer_push_spec:
  assumes "buffer_inv len b" and "buffer_push len reduce data now b = (pushed, b')"
  shows "buffer_inv len b' \<and> m_capacity b' = m_capacity b \<and> (pushed \<longleftrightarrow> len data \<le> m_capacity b)
    \<and> (let fresh = filter (\<lambda>(e, _). \<not> expiry_is_expired e now) (m_nodes b) in
        (pushed \<longrightarrow> (\<exists>k. m_nodes b' = drop k fresh @ [(make_expiry now (fst (reduce 0 data)), data)]
          \<and> (\<forall>j < k. m_capacity b < len data + stored_bytes len (drop j fresh))))
        \<and> (\<not> pushed \<longrightarrow> m_nodes b' = []))"
proof -
  define b0 where "b0 = buffer_drop_expired len now b"
  let ?fresh = "filter (\<lambda>(e, _). \<not> expiry_is_expired e now) (m_nodes b)"
  note b0 = drop_expired_eq [OF assms(1), of now, folded b0_def]
  obtain k where k: "k \<le> length ?fresh" "buffer_drop_loop len (len data) b0 =
      b0\<lparr>m_nodes := drop k ?fresh, m_stored := stored_bytes len (drop k ?fresh)\<rparr>"
    "\<forall>j < k. m_capacity b < len data + stored_bytes len (drop j ?fresh)"
    "len data + stored_bytes len (drop k ?fresh) \<le> m_capacity b \<or> k = length ?fresh"
    using buffer_drop_loop_eq [OF b0(2), of "len data"] unfolding b0(1,3) by blast
  have cap: "stored_bytes len (drop k ?fresh) \<le> m_capacity b"
  proof -
    have "stored_bytes len (drop k ns) \<le> stored_bytes len ns" for ns :: "(Expiry \<times> 'd) list"
      by (metis append_take_drop_id le_add2 stored_bytes_simps(3))
    from order_trans [OF this] b0 show ?thesis by (simp add: buffer_inv_def)
  qed
  obtain lt where lt: "reduce 0 data = (lt, data)" using reduce_zero by (metis prod.collapse)
  show ?thesis
  proof (cases "len data + stored_bytes len (drop k ?fresh) \<le> m_capacity b")
    case True
    then have r: "pushed" "b' = b0\<lparr>m_stored := stored_bytes len (drop k ?fresh) + len data,
        m_nodes := drop k ?fresh @ [(make_expiry now lt, data)]\<rparr>"
      using assms(2) lt cap
      by (auto simp: buffer_push_def buffer_drop_def buffer_free_def k(2) b0(3) Let_def le_diff_conv2 simp flip: b0_def)
    then show ?thesis using True k(3) lt b0(3) by (auto simp: buffer_inv_def Let_def intro!: exI [of _ k])
  next
    case False
    then have r: "\<not> pushed" "b' = b0\<lparr>m_nodes := [], m_stored := 0\<rparr>" "m_capacity b < len data"
      using assms(2) k(2,4) lt b0(3)
      by (auto simp: buffer_push_def buffer_drop_def buffer_free_def Let_def simp flip: b0_def)
    then show ?thesis using b0(3) by (auto simp: buffer_inv_def Let_def)
  qed
qed

end

text \<open>Pending packets are buffered data.\<close>

lemma clock_cast_nonneg: "0 \<le> s \<Longrightarrow> 0 \<le> clock_cast s"
  by (simp add: clock_cast_def truncate_real_def)

lemma lifetime_decode_nonneg [simp]: "0 \<le> lifetime_decode l"
proof -
  have "0 \<le> real (unat (drop_bit 2 (l AND 0xFC)))" by (rule of_nat_0_le_iff)
  then show ?thesis unfolding lifetime_decode_def Let_def by (intro mult_nonneg_nonneg) auto
qed

interpretation pending: buffer_data "pending_length wrap get_size"
  "pending_reduce_lifetime :: duration \<Rightarrow> ('sec, 'h, 'a) PendingPacket \<Rightarrow> _" for wrap get_size
proof
  fix d and x :: "('sec, 'h, 'a) PendingPacket"
  show "pending_length wrap get_size (snd (pending_reduce_lifetime d x)) = pending_length wrap get_size x"
    by (auto simp: pending_reduce_lifetime_def pending_length_def Let_def pdu_length_def pdu_of_extended_def
        split: option.splits)
  show "0 \<le> fst (pending_reduce_lifetime d x)"
    by (auto simp: pending_reduce_lifetime_def Let_def clock_cast_nonneg split: option.splits)
  show "snd (pending_reduce_lifetime 0 x) = x"
    by (simp add: pending_reduce_lifetime_def Let_def split: option.splits)
qed

section \<open>Properties\<close>

text \<open>
  C29: pushing a packet into a store-carry-forward buffer: the byte accounting stays exact and within
  capacity, a packet is accepted exactly if it fits an empty buffer, expired packets go first, then
  the shortest prefix of the oldest ones that makes room, and the packet is appended with its
  lifetime; a packet larger than the capacity is refused after everything else was dropped.
\<close>

theorem store_carry_forward_push:
  assumes "buffer_inv (pending_length wrap get_size) b"
    and "buffer_push (pending_length wrap get_size) pending_reduce_lifetime p now b = (pushed, b')"
  shows "buffer_inv (pending_length wrap get_size) b'
    \<and> (pushed \<longleftrightarrow> pending_length wrap get_size p \<le> m_capacity b)
    \<and> (let fresh = filter (\<lambda>(e, _). \<not> expiry_is_expired e now) (m_nodes b) in
        (pushed \<longrightarrow> (\<exists>k. m_nodes b' = drop k fresh @ [(make_expiry now (fst (pending_reduce_lifetime 0 p)), p)]
          \<and> (\<forall>j < k. m_capacity b < pending_length wrap get_size p
                + stored_bytes (pending_length wrap get_size) (drop j fresh))))
        \<and> (\<not> pushed \<longrightarrow> m_nodes b' = []))"
  using pending.buffer_push_spec [OF assms] by blast

theorem store_carry_forward_push_witness:
  "let p = \<lparr>pp_pdu = None, pp_payload = Some (\<lambda>_. [1, 2, 3]), pp_function = ()\<rparr> :: (unit, BeaconHeader, unit) PendingPacket;
       push = buffer_push (pending_length Beacon_Header (\<lambda>_. 0)) pending_reduce_lifetime
   in fst (push p 10 (packet_buffer 12)) \<and> \<not> fst (push p 10 (packet_buffer 11))"
proof -
  define p :: "(unit, BeaconHeader, unit) PendingPacket"
    where "p = \<lparr>pp_pdu = None, pp_payload = Some (\<lambda>_. [1, 2, 3]), pp_function = ()\<rparr>"
  let ?len = "pending_length Beacon_Header (\<lambda>_. 0) :: (unit, BeaconHeader, unit) PendingPacket \<Rightarrow> nat"
  have len: "?len p = 12" unfolding p_def pending_length_def by code_simp
  have spec: "fst (buffer_push ?len pending_reduce_lifetime p 10 (packet_buffer n)) \<longleftrightarrow> 12 \<le> n" for n
  proof -
    obtain ok b where r: "buffer_push ?len pending_reduce_lifetime p 10 (packet_buffer n) = (ok, b)" by fastforce
    have "buffer_inv ?len (packet_buffer n)" by (simp add: buffer_inv_def packet_buffer_def)
    from store_carry_forward_push [OF this r] len r show ?thesis by (simp add: packet_buffer_def)
  qed
  show ?thesis by (simp add: spec flip: p_def)
qed

end
