(* ===== verification/Cbf.thy ===== *)
theory Cbf
  imports Packet_Buffers
begin

text \<open>
  Contention-based forwarding: packet counters (\<^verbatim>\<open>geonet/cbf_counter.*\<close>), buffered packets and
  their identifiers (\<^verbatim>\<open>geonet/cbf_packet_identifier.*\<close>) and the buffer that holds each packet
  until its contention timer expires (\<^verbatim>\<open>geonet/cbf_packet_buffer.*\<close>).
\<close>

section \<open>Identifiers and packets\<close>

type_synonym CbfPacketIdentifier = "Address \<times> SequenceNumber"

type_synonym 'sec GbcPdu = "('sec, GeoBroadcastHeader) ExtendedPdu"

text \<open>A contending packet holds its PDU; the accessors of the source assert that it does.\<close>

record ('sec, 'a) CbfPacket =
  cbf_pdu :: "'sec GbcPdu"
  cbf_payload :: "ChunkPacket option"
  cbf_function :: 'a
  m_sender :: MacAddress

definition cbf_pending :: "('sec, 'a) CbfPacket \<Rightarrow> ('sec, GeoBroadcastHeader, 'a) PendingPacket" where
  "cbf_pending p = \<lparr>pp_pdu = Some (cbf_pdu p), pp_payload = cbf_payload p, pp_function = cbf_function p\<rparr>"

definition cbf_source :: "('sec, 'a) CbfPacket \<Rightarrow> Address" where
  "cbf_source p = gn_addr (gbc_source_position (ep_extended (cbf_pdu p)))"

definition cbf_sequence_number :: "('sec, 'a) CbfPacket \<Rightarrow> SequenceNumber" where
  "cbf_sequence_number p = gbc_sequence_number (ep_extended (cbf_pdu p))"

definition cbf_identifier :: "('sec, 'a) CbfPacket \<Rightarrow> CbfPacketIdentifier" where
  "cbf_identifier p = (cbf_source p, cbf_sequence_number p)"

definition cbf_length :: "('sec \<Rightarrow> nat) \<Rightarrow> ('sec, 'a) CbfPacket \<Rightarrow> nat" where
  "cbf_length get_size p = pending_length Gbc_Header get_size (cbf_pending p)"

definition cbf_reduce_lifetime :: "duration \<Rightarrow> ('sec, 'a) CbfPacket \<Rightarrow> duration \<times> ('sec, 'a) CbfPacket" where
  "cbf_reduce_lifetime d p =
     (let (remaining, q) = pending_reduce_lifetime d (cbf_pending p)
      in (remaining, case pp_pdu q of Some pdu \<Rightarrow> p\<lparr>cbf_pdu := pdu\<rparr> | None \<Rightarrow> p))"

section \<open>Counters\<close>

datatype CbfCounter =
    Immortal "CbfPacketIdentifier \<rightharpoonup> nat"
  | Contending "CbfPacketIdentifier \<rightharpoonup> nat"
  | Fading "(CbfPacketIdentifier, nat) SoftStateMap"

text \<open>\<^verbatim>\<open>++m_counters[id]\<close> creates a missing counter with value zero first.\<close>

definition count_up :: "CbfPacketIdentifier \<Rightarrow> (CbfPacketIdentifier \<rightharpoonup> nat) \<Rightarrow> CbfPacketIdentifier \<rightharpoonup> nat" where
  "count_up pid m = m(pid \<mapsto> Suc (case m pid of Some c \<Rightarrow> c | None \<Rightarrow> 0))"

definition cbf_counter_fading :: "duration \<Rightarrow> CbfCounter" where
  "cbf_counter_fading lt = Fading (set_lifetime lt (soft_state_map 0))"

fun counter_add :: "time_point \<Rightarrow> CbfPacketIdentifier \<Rightarrow> CbfCounter \<Rightarrow> CbfCounter" where
  "counter_add now pid (Immortal m) = Immortal (count_up pid m)"
| "counter_add now pid (Contending m) = Contending (m(pid \<mapsto> 1))"
| "counter_add now pid (Fading s) =
     (let (c, s) = ss_refresh now 0 pid s in Fading (drop_expired now (ss_write pid (Suc c) s)))"

fun counter_remove :: "CbfPacketIdentifier \<Rightarrow> CbfCounter \<Rightarrow> CbfCounter" where
  "counter_remove pid (Immortal m) = Immortal m"
| "counter_remove pid (Contending m) = Contending (m(pid := None))"
| "counter_remove pid (Fading s) = Fading s"

fun counter_increment :: "time_point \<Rightarrow> CbfPacketIdentifier \<Rightarrow> CbfCounter \<Rightarrow> CbfCounter" where
  "counter_increment now pid (Immortal m) = Immortal (count_up pid m)"
| "counter_increment now pid (Contending m) = Contending (count_up pid m)"
| "counter_increment now pid (Fading s) =
     (let (c, s) = get_value now 0 pid s in Fading (ss_write pid (Suc c) s))"

fun counter_value :: "time_point \<Rightarrow> CbfPacketIdentifier \<Rightarrow> CbfCounter \<Rightarrow> nat" where
  "counter_value now pid (Immortal m) = (case m pid of Some c \<Rightarrow> c | None \<Rightarrow> 0)"
| "counter_value now pid (Contending m) = (case m pid of Some c \<Rightarrow> c | None \<Rightarrow> 0)"
| "counter_value now pid (Fading s) = (case get_value_ptr now pid s of Some c \<Rightarrow> c | None \<Rightarrow> 0)"

section \<open>Buffer\<close>

text \<open>
  The bidirectional map of timers is the list of its entries in the order of the left view, by
  expiry, new entries behind equal ones. The packet an entry refers to is the one of its identifier.
  The event the buffer has pending at the runtime is \<open>cbf_scheduled\<close>; scheduling cancels the
  previous one.
\<close>

record CbfTimer =
  tm_expiry :: time_point
  tm_start :: time_point

record ('sec, 'a) CbfPacketBuffer =
  cbf_packets :: "('sec, 'a) CbfPacket list"
  cbf_timers :: "(CbfTimer \<times> CbfPacketIdentifier) list"
  cbf_counter :: CbfCounter
  cbf_capacity :: nat
  cbf_stored :: nat
  cbf_scheduled :: "time_point option"

definition cbf_packet_buffer :: "CbfCounter \<Rightarrow> nat \<Rightarrow> ('sec, 'a) CbfPacketBuffer" where
  "cbf_packet_buffer cnt bytes = \<lparr>cbf_packets = [], cbf_timers = [], cbf_counter = cnt,
     cbf_capacity = bytes, cbf_stored = 0, cbf_scheduled = None\<rparr>"

definition cbf_timer :: "time_point \<Rightarrow> duration \<Rightarrow> CbfTimer" where
  "cbf_timer now timeout = \<lparr>tm_expiry = now + timeout, tm_start = now\<rparr>"

fun insert_timer :: "CbfTimer \<times> CbfPacketIdentifier \<Rightarrow> (CbfTimer \<times> CbfPacketIdentifier) list
    \<Rightarrow> (CbfTimer \<times> CbfPacketIdentifier) list" where
  "insert_timer t [] = [t]"
| "insert_timer t (u # us) = (if tm_expiry (fst t) < tm_expiry (fst u) then t # u # us else u # insert_timer t us)"

definition find_timer :: "CbfPacketIdentifier \<Rightarrow> ('sec, 'a) CbfPacketBuffer \<Rightarrow> CbfTimer option" where
  "find_timer pid b = map_of (map (\<lambda>(t, i). (i, t)) (cbf_timers b)) pid"

definition erase_timer :: "CbfPacketIdentifier \<Rightarrow> (CbfTimer \<times> CbfPacketIdentifier) list
    \<Rightarrow> (CbfTimer \<times> CbfPacketIdentifier) list" where
  "erase_timer pid ts = filter (\<lambda>(_, i). i \<noteq> pid) ts"

definition packet_of :: "CbfPacketIdentifier \<Rightarrow> ('sec, 'a) CbfPacketBuffer \<Rightarrow> ('sec, 'a) CbfPacket option" where
  "packet_of pid b = List.find (\<lambda>p. cbf_identifier p = pid) (cbf_packets b)"

definition erase_packet :: "CbfPacketIdentifier \<Rightarrow> ('sec, 'a) CbfPacket list \<Rightarrow> ('sec, 'a) CbfPacket list" where
  "erase_packet pid ps = filter (\<lambda>p. cbf_identifier p \<noteq> pid) ps"

definition schedule_timer :: "('sec, 'a) CbfPacketBuffer \<Rightarrow> ('sec, 'a) CbfPacketBuffer" where
  "schedule_timer b =
     (case cbf_timers b of
        [] \<Rightarrow> b
      | (t, _) # _ \<Rightarrow> b\<lparr>cbf_scheduled := Some (tm_expiry t)\<rparr>)"

definition remove_timer :: "CbfPacketIdentifier \<Rightarrow> ('sec, 'a) CbfPacketBuffer \<Rightarrow> ('sec, 'a) CbfPacketBuffer" where
  "remove_timer pid b =
     (let first_erased = (case cbf_timers b of [] \<Rightarrow> False | (_, i) # _ \<Rightarrow> i = pid);
          b = b\<lparr>cbf_timers := erase_timer pid (cbf_timers b)\<rparr>
      in if first_erased \<and> cbf_timers b \<noteq> [] then schedule_timer b else b)"

definition timer_reduce_lifetime ::
  "time_point \<Rightarrow> CbfTimer \<Rightarrow> ('sec, 'a) CbfPacket \<Rightarrow> bool \<times> ('sec, 'a) CbfPacket" where
  "timer_reduce_lifetime now timer p =
     (let (remaining, p) = cbf_reduce_lifetime (now - tm_start timer) p in (remaining > 0, p))"

definition cbf_remove ::
  "('sec \<Rightarrow> nat) \<Rightarrow> CbfPacketIdentifier \<Rightarrow> ('sec, 'a) CbfPacketBuffer \<Rightarrow> bool \<times> ('sec, 'a) CbfPacketBuffer" where
  "cbf_remove get_size pid b =
     (case (find_timer pid b, packet_of pid b) of
        (Some _, Some packet) \<Rightarrow>
          (True, remove_timer pid (b\<lparr>cbf_stored := cbf_stored b - cbf_length get_size packet,
             cbf_counter := counter_remove pid (cbf_counter b),
             cbf_packets := erase_packet pid (cbf_packets b)\<rparr>))
      | _ \<Rightarrow> (False, b))"

text \<open>The loop of \<^verbatim>\<open>add\<close> that drops packets at the head.\<close>

function head_drop :: "('sec \<Rightarrow> nat) \<Rightarrow> ('sec, 'a) CbfPacketBuffer \<Rightarrow> ('sec, 'a) CbfPacketBuffer" where
  "head_drop get_size b =
     (if cbf_stored b > cbf_capacity b \<and> cbf_packets b \<noteq> [] then
        let front = hd (cbf_packets b); pid = cbf_identifier front in
        head_drop get_size (b\<lparr>cbf_stored := cbf_stored b - cbf_length get_size front,
          cbf_timers := erase_timer pid (cbf_timers b),
          cbf_counter := counter_remove pid (cbf_counter b),
          cbf_packets := tl (cbf_packets b)\<rparr>)
      else b)"
  by pat_completeness auto
termination
  by (relation "measure (\<lambda>(_, b). length (cbf_packets b))") auto

declare head_drop.simps [simp del]

text \<open>
  Inserting fails when the identifier is already present; the packet appended before is removed
  again. Iterators to the first timer are compared by the entry they point to.
\<close>

definition cbf_add ::
  "('sec \<Rightarrow> nat) \<Rightarrow> time_point \<Rightarrow> ('sec, 'a) CbfPacket \<Rightarrow> duration \<Rightarrow> ('sec, 'a) CbfPacketBuffer
     \<Rightarrow> ('sec, 'a) CbfPacketBuffer" where
  "cbf_add get_size now packet timeout b =
     (if timeout \<le> 0 then b else
      let first_timer = take 1 (cbf_timers b);
          b = head_drop get_size (b\<lparr>cbf_stored := cbf_stored b + cbf_length get_size packet\<rparr>);
          timer = cbf_timer now timeout;
          pid = cbf_identifier packet;
          b = (if find_timer pid b \<noteq> None then b\<lparr>cbf_stored := cbf_stored b - cbf_length get_size packet\<rparr>
               else b\<lparr>cbf_packets := cbf_packets b @ [packet],
                      cbf_timers := insert_timer (timer, pid) (cbf_timers b),
                      cbf_counter := counter_add now pid (cbf_counter b)\<rparr>)
      in if take 1 (cbf_timers b) \<noteq> first_timer then schedule_timer b else b)"

definition cbf_update ::
  "time_point \<Rightarrow> CbfPacketIdentifier \<Rightarrow> duration \<Rightarrow> ('sec, 'a) CbfPacketBuffer \<Rightarrow> ('sec, 'a) CbfPacketBuffer" where
  "cbf_update now pid timeout b =
     (case find_timer pid b of
        Some timer \<Rightarrow>
          b\<lparr>cbf_packets := map (\<lambda>p. if cbf_identifier p = pid then snd (timer_reduce_lifetime now timer p) else p) (cbf_packets b),
            cbf_timers := insert_timer (cbf_timer now timeout, pid) (erase_timer pid (cbf_timers b)),
            cbf_counter := counter_increment now pid (cbf_counter b)\<rparr>
      | None \<Rightarrow> b)"

definition cbf_fetch ::
  "('sec \<Rightarrow> nat) \<Rightarrow> time_point \<Rightarrow> CbfPacketIdentifier \<Rightarrow> ('sec, 'a) CbfPacketBuffer
     \<Rightarrow> ('sec, 'a) CbfPacket option \<times> ('sec, 'a) CbfPacketBuffer" where
  "cbf_fetch get_size now pid b =
     (case (find_timer pid b, packet_of pid b) of
        (Some timer, Some packet) \<Rightarrow>
          let (valid_packet, packet) = timer_reduce_lifetime now timer packet
          in (if valid_packet then Some packet else None,
              remove_timer pid (b\<lparr>cbf_stored := cbf_stored b - cbf_length get_size packet,
                cbf_counter := counter_remove pid (cbf_counter b),
                cbf_packets := erase_packet pid (cbf_packets b)\<rparr>))
      | _ \<Rightarrow> (None, b))"

definition cbf_find :: "CbfPacketIdentifier \<Rightarrow> ('sec, 'a) CbfPacketBuffer \<Rightarrow> ('sec, 'a) CbfPacket option" where
  "cbf_find pid b = (case find_timer pid b of Some _ \<Rightarrow> packet_of pid b | None \<Rightarrow> None)"

definition cbf_count :: "time_point \<Rightarrow> CbfPacketIdentifier \<Rightarrow> ('sec, 'a) CbfPacketBuffer \<Rightarrow> nat" where
  "cbf_count now pid b = counter_value now pid (cbf_counter b)"

text \<open>
  Flushing handles the entries up to the upper bound of the current time; it returns the pending
  packets given to the timer callback, in order.
\<close>

function flush_loop ::
  "('sec \<Rightarrow> nat) \<Rightarrow> time_point \<Rightarrow> ('sec, 'a) CbfPacketBuffer
     \<Rightarrow> ('sec, 'a) CbfPacket list \<times> ('sec, 'a) CbfPacketBuffer" where
  "flush_loop get_size now b =
     (case cbf_timers b of
        [] \<Rightarrow> ([], b)
      | (timer, pid) # rest \<Rightarrow>
          if tm_expiry timer \<le> now then
            let (sent, stored) = (case packet_of pid b of
                  Some packet \<Rightarrow>
                    let (valid_packet, packet) = timer_reduce_lifetime now timer packet
                    in (if valid_packet then [packet] else [], cbf_stored b - cbf_length get_size packet)
                | None \<Rightarrow> ([], cbf_stored b));
                (later, b') = flush_loop get_size now (b\<lparr>cbf_stored := stored,
                   cbf_counter := counter_remove pid (cbf_counter b),
                   cbf_packets := erase_packet pid (cbf_packets b), cbf_timers := rest\<rparr>)
            in (sent @ later, b')
          else ([], b))"
  by pat_completeness auto
termination
  by (relation "measure (\<lambda>(_, _, b). length (cbf_timers b))") auto

declare flush_loop.simps [simp del]

definition cbf_flush ::
  "('sec \<Rightarrow> nat) \<Rightarrow> time_point \<Rightarrow> ('sec, 'a) CbfPacketBuffer
     \<Rightarrow> ('sec, 'a) CbfPacket list \<times> ('sec, 'a) CbfPacketBuffer" where
  "cbf_flush get_size now b =
     (let (sent, b) = flush_loop get_size now b
      in (sent, if cbf_timers b \<noteq> [] then schedule_timer b else b))"

section \<open>Invariant\<close>

definition packets_length :: "('sec \<Rightarrow> nat) \<Rightarrow> ('sec, 'a) CbfPacket list \<Rightarrow> nat" where
  "packets_length get_size ps = sum_list (map (cbf_length get_size) ps)"

text \<open>
  Packets and timers are in bijection by identifier, timers are sorted, the byte count is exact and
  within capacity unless a single packet exceeds it.
\<close>

definition cbf_linked :: "('sec, 'a) CbfPacketBuffer \<Rightarrow> bool" where
  "cbf_linked b \<longleftrightarrow> distinct (map cbf_identifier (cbf_packets b)) \<and> distinct (map snd (cbf_timers b))
     \<and> snd ` set (cbf_timers b) = cbf_identifier ` set (cbf_packets b)
     \<and> sorted (map (tm_expiry \<circ> fst) (cbf_timers b))"

definition cbf_inv :: "('sec \<Rightarrow> nat) \<Rightarrow> ('sec, 'a) CbfPacketBuffer \<Rightarrow> bool" where
  "cbf_inv get_size b \<longleftrightarrow> cbf_linked b \<and> cbf_stored b = packets_length get_size (cbf_packets b)
     \<and> (cbf_stored b \<le> cbf_capacity b \<or> length (cbf_packets b) \<le> 1)"

text \<open>The pending event is not later than the first timer.\<close>

definition cbf_awake :: "('sec, 'a) CbfPacketBuffer \<Rightarrow> bool" where
  "cbf_awake b \<longleftrightarrow> (case cbf_timers b of [] \<Rightarrow> True
     | (t, _) # _ \<Rightarrow> (case cbf_scheduled b of Some s \<Rightarrow> s \<le> tm_expiry t | None \<Rightarrow> False))"

section \<open>Timers and packets as lists\<close>

lemma set_insert_timer [simp]: "set (insert_timer t ts) = insert t (set ts)"
  by (induction ts) auto

lemma distinct_insert_timer:
  "distinct (map snd ts) \<Longrightarrow> snd t \<notin> snd ` set ts \<Longrightarrow> distinct (map snd (insert_timer t ts))"
  by (induction ts) auto

lemma sorted_insert_timer:
  "sorted (map (tm_expiry \<circ> fst) ts) \<Longrightarrow> sorted (map (tm_expiry \<circ> fst) (insert_timer t ts))"
  by (induction ts) (auto simp: comp_def)

lemma erase_timer_facts:
  "snd ` set (erase_timer pid ts) = snd ` set ts - {pid}"
  "distinct (map snd ts) \<Longrightarrow> distinct (map snd (erase_timer pid ts))"
  "sorted (map (tm_expiry \<circ> fst) ts) \<Longrightarrow> sorted (map (tm_expiry \<circ> fst) (erase_timer pid ts))"
  "set (erase_timer pid ts) \<subseteq> set ts"
  by (auto simp: erase_timer_def distinct_map_filter sorted_filter case_prod_beta image_iff)

lemma erase_packet_facts:
  "cbf_identifier ` set (erase_packet pid ps) = cbf_identifier ` set ps - {pid}"
  "distinct (map cbf_identifier ps) \<Longrightarrow> distinct (map cbf_identifier (erase_packet pid ps))"
  "length (erase_packet pid ps) \<le> length ps"
  by (auto simp: erase_packet_def distinct_map_filter)

lemma packet_of_identifier: "packet_of pid b = Some p \<Longrightarrow> cbf_identifier p = pid \<and> p \<in> set (cbf_packets b)"
  unfolding packet_of_def by (auto simp: find_Some_iff)

lemma packets_length_simps [simp]:
  "packets_length gs [] = 0" "packets_length gs (p # ps) = cbf_length gs p + packets_length gs ps"
  "packets_length gs (ps @ qs) = packets_length gs ps + packets_length gs qs"
  by (simp_all add: packets_length_def)

lemma erase_packet_id: "pid \<notin> cbf_identifier ` set ps \<Longrightarrow> erase_packet pid ps = ps"
  by (auto simp: erase_packet_def filter_id_conv)

lemma packets_length_erase:
  "distinct (map cbf_identifier ps) \<Longrightarrow> List.find (\<lambda>p. cbf_identifier p = pid) ps = Some p
     \<Longrightarrow> packets_length gs ps = cbf_length gs p + packets_length gs (erase_packet pid ps)"
proof (induction ps)
  case (Cons q ps)
  then show ?case using erase_packet_id [of "cbf_identifier q" ps]
    by (cases "cbf_identifier q = pid") (auto simp: erase_packet_def)
qed simp

lemma find_timer_iff: "find_timer pid b = None \<longleftrightarrow> pid \<notin> snd ` set (cbf_timers b)"
  by (auto simp: find_timer_def map_of_eq_None_iff image_iff split_beta)

lemma packet_of_iff: "packet_of pid b = None \<longleftrightarrow> pid \<notin> cbf_identifier ` set (cbf_packets b)"
  by (auto simp: packet_of_def find_None_iff)

lemma timer_reduce_basic:
  "\<exists>l. snd (timer_reduce_lifetime now t p) = p\<lparr>cbf_pdu := (cbf_pdu p)\<lparr>ep_basic := (ep_basic (cbf_pdu p))\<lparr>lifetime := l\<rparr>\<rparr>\<rparr>"
proof -
  have "p = p\<lparr>cbf_pdu := (cbf_pdu p)\<lparr>ep_basic := (ep_basic (cbf_pdu p))\<lparr>lifetime := lifetime (ep_basic (cbf_pdu p))\<rparr>\<rparr>\<rparr>"
    by simp
  then have "\<exists>l. p = p\<lparr>cbf_pdu := (cbf_pdu p)\<lparr>ep_basic := (ep_basic (cbf_pdu p))\<lparr>lifetime := l\<rparr>\<rparr>\<rparr>" by (rule exI)
  then show ?thesis
    by (auto simp: timer_reduce_lifetime_def cbf_reduce_lifetime_def pending_reduce_lifetime_def cbf_pending_def Let_def
        split: option.splits)
qed

lemma reduce_keeps [simp]:
  "cbf_identifier (snd (timer_reduce_lifetime now t p)) = cbf_identifier p"
  "cbf_length gs (snd (timer_reduce_lifetime now t p)) = cbf_length gs p"
  using timer_reduce_basic [of now t p]
  by (auto simp: cbf_identifier_def cbf_source_def cbf_sequence_number_def cbf_length_def cbf_pending_def
      pending_length_def pdu_length_def pdu_of_extended_def split: option.split)

section \<open>Removal\<close>

lemma schedule_timer_simps [simp]:
  "cbf_packets (schedule_timer b) = cbf_packets b" "cbf_timers (schedule_timer b) = cbf_timers b"
  "cbf_stored (schedule_timer b) = cbf_stored b" "cbf_capacity (schedule_timer b) = cbf_capacity b"
  "cbf_counter (schedule_timer b) = cbf_counter b" "cbf_awake (schedule_timer b)"
  by (auto simp: schedule_timer_def cbf_awake_def split: list.split)

lemma remove_timer_simps [simp]:
  "cbf_packets (remove_timer i b) = cbf_packets b" "cbf_timers (remove_timer i b) = erase_timer i (cbf_timers b)"
  "cbf_stored (remove_timer i b) = cbf_stored b" "cbf_capacity (remove_timer i b) = cbf_capacity b"
  "cbf_counter (remove_timer i b) = cbf_counter b"
  by (simp_all add: remove_timer_def Let_def)

lemma remove_timer_awake: "cbf_awake b \<Longrightarrow> cbf_awake (remove_timer i b)"
proof (cases "cbf_timers b")
  case (Cons t ts)
  assume awake: "cbf_awake b"
  show ?thesis
  proof (cases "snd t = i")
    case True
    define b' where "b' = b\<lparr>cbf_timers := erase_timer i (cbf_timers b)\<rparr>"
    have "remove_timer i b = (if cbf_timers b' \<noteq> [] then schedule_timer b' else b')"
      using True Cons by (cases t) (simp add: remove_timer_def b'_def)
    then show ?thesis by (simp add: cbf_awake_def [of b'])
  next
    case False
    then have "erase_timer i (cbf_timers b) = t # erase_timer i ts" using Cons by (cases t) (simp add: erase_timer_def)
    with awake Cons False show ?thesis
      by (cases t) (auto simp: remove_timer_def Let_def cbf_awake_def)
  qed
qed (simp add: remove_timer_def cbf_awake_def erase_timer_def)

definition cbf_erase :: "('sec \<Rightarrow> nat) \<Rightarrow> CbfPacketIdentifier \<Rightarrow> ('sec, 'a) CbfPacket
    \<Rightarrow> ('sec, 'a) CbfPacketBuffer \<Rightarrow> ('sec, 'a) CbfPacketBuffer" where
  "cbf_erase gs pid p b = remove_timer pid (b\<lparr>cbf_stored := cbf_stored b - cbf_length gs p,
     cbf_counter := counter_remove pid (cbf_counter b), cbf_packets := erase_packet pid (cbf_packets b)\<rparr>)"

lemma cbf_erase_inv:
  assumes "cbf_inv gs b" and "packet_of pid b = Some p"
  shows "cbf_inv gs (cbf_erase gs pid p b)"
  using assms packets_length_erase [of "cbf_packets b" pid p gs] erase_packet_facts(3) [of pid "cbf_packets b"]
  by (auto simp: cbf_inv_def cbf_linked_def cbf_erase_def packet_of_def erase_timer_facts erase_packet_facts(1,2))

lemma cbf_erase_awake: "cbf_awake b \<Longrightarrow> cbf_awake (cbf_erase gs pid p b)"
  unfolding cbf_erase_def by (rule remove_timer_awake) (auto simp: cbf_awake_def split: list.splits)

lemma cbf_remove_inv:
  "cbf_inv gs b \<Longrightarrow> cbf_inv gs (snd (cbf_remove gs pid b))" "cbf_awake b \<Longrightarrow> cbf_awake (snd (cbf_remove gs pid b))"
  by (auto simp: cbf_remove_def cbf_erase_inv cbf_erase_awake simp flip: cbf_erase_def split: option.split)

lemma cbf_fetch_eq:
  "cbf_fetch gs now pid b = (case (find_timer pid b, packet_of pid b) of
     (Some t, Some p) \<Rightarrow> (let (ok, q) = timer_reduce_lifetime now t p in if ok then Some q else None, cbf_erase gs pid p b)
   | _ \<Rightarrow> (None, b))"
proof -
  have "cbf_length gs (snd (timer_reduce_lifetime now t p)) = cbf_length gs p" for t and p :: "('a, 'b) CbfPacket"
    by (rule reduce_keeps)
  then show ?thesis
    by (auto simp: cbf_fetch_def cbf_erase_def Let_def case_prod_beta split: option.split)
qed

lemma cbf_fetch_inv:
  "cbf_inv gs b \<Longrightarrow> cbf_inv gs (snd (cbf_fetch gs now pid b))"
  "cbf_awake b \<Longrightarrow> cbf_awake (snd (cbf_fetch gs now pid b))"
  by (auto simp: cbf_fetch_eq cbf_erase_inv cbf_erase_awake split: option.split)

section \<open>Adding and updating\<close>

lemma cbf_linked_drop_head:
  assumes "cbf_linked b" and "cbf_packets b = front # rest"
  shows "cbf_linked (b\<lparr>cbf_stored := n, cbf_timers := erase_timer (cbf_identifier front) (cbf_timers b),
    cbf_counter := c, cbf_packets := rest\<rparr>)"
  using assms by (auto simp: cbf_linked_def erase_timer_facts)

lemma head_drop_spec:
  assumes "cbf_linked b" and "cbf_stored b = packets_length gs (cbf_packets b) + extra"
  shows "cbf_linked (head_drop gs b)
    \<and> cbf_stored (head_drop gs b) = packets_length gs (cbf_packets (head_drop gs b)) + extra
    \<and> cbf_capacity (head_drop gs b) = cbf_capacity b \<and> cbf_scheduled (head_drop gs b) = cbf_scheduled b
    \<and> (cbf_stored (head_drop gs b) \<le> cbf_capacity b \<or> cbf_packets (head_drop gs b) = [])
    \<and> (\<exists>k. cbf_packets (head_drop gs b) = drop k (cbf_packets b)
         \<and> (\<forall>j < k. cbf_capacity b < packets_length gs (drop j (cbf_packets b)) + extra))"
  using assms
proof (induction gs b rule: head_drop.induct)
  case (1 gs b)
  show ?case
  proof (cases "cbf_stored b > cbf_capacity b \<and> cbf_packets b \<noteq> []")
    case False
    then have "head_drop gs b = b" by (subst head_drop.simps) auto
    with False 1(2,3) show ?thesis by (auto intro: exI [of _ 0])
  next
    case True
    then obtain front rest where p: "cbf_packets b = front # rest" by (cases "cbf_packets b") auto
    define b' where "b' = b\<lparr>cbf_stored := cbf_stored b - cbf_length gs front,
      cbf_timers := erase_timer (cbf_identifier front) (cbf_timers b),
      cbf_counter := counter_remove (cbf_identifier front) (cbf_counter b), cbf_packets := rest\<rparr>"
    have eq: "head_drop gs b = head_drop gs b'"
      using True p unfolding b'_def by (subst head_drop.simps) (simp add: Let_def)
    have b': "cbf_packets b' = rest" "cbf_capacity b' = cbf_capacity b" "cbf_scheduled b' = cbf_scheduled b"
      by (simp_all add: b'_def)
    have linked: "cbf_linked b'" unfolding b'_def by (rule cbf_linked_drop_head [OF 1(2) p])
    have stored: "cbf_stored b' = packets_length gs (cbf_packets b') + extra" using 1(3) p by (simp add: b'_def)
    note IH = 1(1) [OF True refl refl, simplified p list.sel, folded b'_def, OF linked stored]
    then obtain k where k: "cbf_packets (head_drop gs b') = drop k rest"
      "\<forall>j < k. cbf_capacity b < packets_length gs (drop j rest) + extra" unfolding b' by blast
    have "\<forall>j < Suc k. cbf_capacity b < packets_length gs (drop j (cbf_packets b)) + extra"
    proof (intro allI impI)
      fix j assume "j < Suc k"
      then show "cbf_capacity b < packets_length gs (drop j (cbf_packets b)) + extra"
        using k(2) True 1(3) p by (cases j) auto
    qed
    then show ?thesis unfolding eq using IH k(1) p unfolding b' by (auto intro!: exI [of _ "Suc k"])
  qed
qed

lemma cbf_add_inv: "cbf_inv gs b \<Longrightarrow> cbf_inv gs (cbf_add gs now p timeout b)"
proof -
  assume inv: "cbf_inv gs b"
  define b1 where "b1 = b\<lparr>cbf_stored := cbf_stored b + cbf_length gs p\<rparr>"
  define b2 where "b2 = head_drop gs b1"
  define b3 where "b3 = (if find_timer (cbf_identifier p) b2 \<noteq> None
      then b2\<lparr>cbf_stored := cbf_stored b2 - cbf_length gs p\<rparr>
      else b2\<lparr>cbf_packets := cbf_packets b2 @ [p],
              cbf_timers := insert_timer (cbf_timer now timeout, cbf_identifier p) (cbf_timers b2),
              cbf_counter := counter_add now (cbf_identifier p) (cbf_counter b2)\<rparr>)"
  have "cbf_linked b1" "cbf_stored b1 = packets_length gs (cbf_packets b1) + cbf_length gs p"
    using inv by (auto simp: b1_def cbf_inv_def cbf_linked_def)
  note hd = head_drop_spec [OF this, folded b2_def]
  have "cbf_inv gs b3"
  proof (cases "find_timer (cbf_identifier p) b2 = None")
    case True
    with hd have "cbf_linked b3"
      by (auto simp: b3_def cbf_linked_def find_timer_iff distinct_insert_timer sorted_insert_timer)
    with True hd show ?thesis by (auto simp: b3_def cbf_inv_def b1_def)
  next
    case False
    with hd show ?thesis by (auto simp: b3_def cbf_inv_def b1_def cbf_linked_def find_timer_iff)
  qed
  moreover have "cbf_add gs now p timeout b =
      (if timeout \<le> 0 then b else if take 1 (cbf_timers b3) \<noteq> take 1 (cbf_timers b) then schedule_timer b3 else b3)"
    by (simp add: cbf_add_def Let_def b1_def b2_def b3_def)
  ultimately show ?thesis using inv by (auto simp: cbf_inv_def cbf_linked_def)
qed

lemma head_drop_scheduled [simp]: "cbf_scheduled (head_drop gs b) = cbf_scheduled b"
proof (induction gs b rule: head_drop.induct)
  case (1 gs b)
  then show ?case
    by (cases "cbf_stored b > cbf_capacity b \<and> cbf_packets b \<noteq> []")
      (subst head_drop.simps, auto simp: Let_def)+
qed

lemma cbf_awake_first: "cbf_awake b \<Longrightarrow> take 1 (cbf_timers b') = take 1 (cbf_timers b)
    \<Longrightarrow> cbf_scheduled b' = cbf_scheduled b \<Longrightarrow> cbf_awake b'"
  by (auto simp: cbf_awake_def split: list.splits)

lemma cbf_add_awake: "cbf_awake b \<Longrightarrow> cbf_awake (cbf_add gs now p timeout b)"
  by (auto simp: cbf_add_def Let_def elim!: cbf_awake_first intro!: schedule_timer_simps(6))

lemma find_timer_mem: "find_timer pid b = Some t \<Longrightarrow> (t, pid) \<in> set (cbf_timers b)"
  by (auto simp: find_timer_def dest: map_of_SomeD)

lemma cbf_update_inv: "cbf_inv gs b \<Longrightarrow> cbf_inv gs (cbf_update now pid timeout b)"
proof (cases "find_timer pid b")
  case (Some t)
  assume inv: "cbf_inv gs b"
  let ?f = "\<lambda>p. if cbf_identifier p = pid then snd (timer_reduce_lifetime now t p) else p"
  have f: "cbf_identifier (?f p) = cbf_identifier p" "cbf_length gs (?f p) = cbf_length gs p" for p by simp_all
  have ids: "map cbf_identifier (map ?f ps) = map cbf_identifier ps" "packets_length gs (map ?f ps) = packets_length gs ps" for ps
    by (induction ps) (simp_all only: list.map packets_length_simps f)
  define ps where "ps = map ?f (cbf_packets b)"
  have ps: "map cbf_identifier ps = map cbf_identifier (cbf_packets b)"
    "packets_length gs ps = packets_length gs (cbf_packets b)" "length ps = length (cbf_packets b)"
    unfolding ps_def using ids [of "cbf_packets b"] by simp_all
  have set: "cbf_identifier ` set ps = cbf_identifier ` set (cbf_packets b)" using arg_cong [OF ps(1), of set] by simp
  have mem: "insert pid (snd ` set (cbf_timers b)) = snd ` set (cbf_timers b)" using find_timer_mem [OF Some] by force
  have upd: "cbf_update now pid timeout b = b\<lparr>cbf_packets := ps,
      cbf_timers := insert_timer (cbf_timer now timeout, pid) (erase_timer pid (cbf_timers b)),
      cbf_counter := counter_increment now pid (cbf_counter b)\<rparr>"
    by (simp add: cbf_update_def Some ps_def)
  show ?thesis
    using inv mem distinct_insert_timer [of "erase_timer pid (cbf_timers b)" "(cbf_timer now timeout, pid)"]
    by (simp add: upd cbf_inv_def cbf_linked_def erase_timer_facts sorted_insert_timer ps set) auto
qed (simp add: cbf_update_def)

lemma awake_all:
  "cbf_linked b \<Longrightarrow> cbf_awake b \<longleftrightarrow> cbf_timers b = []
     \<or> (\<exists>s. cbf_scheduled b = Some s \<and> (\<forall>t \<in> set (cbf_timers b). s \<le> tm_expiry (fst t)))"
  by (fastforce simp: cbf_awake_def cbf_linked_def split: list.splits option.splits)

lemma cbf_update_awake:
  assumes "cbf_inv gs b" and "cbf_awake b" and "\<And>s. cbf_scheduled b = Some s \<Longrightarrow> s \<le> now + timeout"
  shows "cbf_awake (cbf_update now pid timeout b)"
proof -
  have linked: "cbf_linked b" "cbf_linked (cbf_update now pid timeout b)"
    using assms(1) cbf_update_inv [OF assms(1), of now pid timeout] by (simp_all add: cbf_inv_def)
  have "set (cbf_timers (cbf_update now pid timeout b)) \<subseteq> insert (cbf_timer now timeout, pid) (set (cbf_timers b))"
    "cbf_scheduled (cbf_update now pid timeout b) = cbf_scheduled b"
    "cbf_timers b = [] \<Longrightarrow> cbf_timers (cbf_update now pid timeout b) = []"
    using erase_timer_facts(4) [of pid "cbf_timers b"]
    by (auto simp: cbf_update_def find_timer_def split: option.split)
  with assms(2,3) show ?thesis unfolding awake_all [OF linked(1)] awake_all [OF linked(2)]
    by (fastforce simp: cbf_timer_def)
qed

section \<open>Flushing\<close>

definition sent_packet :: "time_point \<Rightarrow> ('sec, 'a) CbfPacketBuffer \<Rightarrow> CbfTimer \<times> CbfPacketIdentifier
    \<Rightarrow> ('sec, 'a) CbfPacket list" where
  "sent_packet now b = (\<lambda>(t, i). case packet_of i b of
     Some p \<Rightarrow> (let (ok, q) = timer_reduce_lifetime now t p in if ok then [q] else []) | None \<Rightarrow> [])"

lemma packet_of_erase: "i \<noteq> j \<Longrightarrow> List.find (\<lambda>p. cbf_identifier p = i) (erase_packet j ps) = List.find (\<lambda>p. cbf_identifier p = i) ps"
  by (induction ps) (auto simp: erase_packet_def)

lemma erase_timer_id: "i \<notin> snd ` set ts \<Longrightarrow> erase_timer i ts = ts"
  by (induction ts) (auto simp: erase_timer_def)

lemma flush_loop_spec:
  assumes "cbf_inv gs b" and "flush_loop gs now b = (sent, b')"
  shows "cbf_inv gs b' \<and> cbf_timers b' = dropWhile (\<lambda>(t, _). tm_expiry t \<le> now) (cbf_timers b)
    \<and> sent = concat (map (sent_packet now b) (takeWhile (\<lambda>(t, _). tm_expiry t \<le> now) (cbf_timers b)))
    \<and> cbf_packets b' = filter (\<lambda>p. cbf_identifier p \<in> snd ` set (cbf_timers b')) (cbf_packets b)"
  using assms
proof (induction "cbf_timers b" arbitrary: b sent b')
  case Nil
  then have "cbf_packets b = []" by (auto simp: cbf_inv_def cbf_linked_def)
  with Nil show ?case by (simp add: flush_loop.simps [of gs now b])
next
  case (Cons x rest)
  note inv0 = Cons.prems(1) and tms = Cons.hyps(2) [symmetric]
  have idem: "filter (\<lambda>p. cbf_identifier p \<in> snd ` set (cbf_timers b)) (cbf_packets b) = cbf_packets b"
    using inv0 by (auto simp: cbf_inv_def cbf_linked_def filter_id_conv)
  obtain t i where x: "x = (t, i)" by (cases x)
  show ?case
  proof (cases "tm_expiry t \<le> now")
    case False
    with Cons.prems idem tms x show ?thesis by (auto simp: flush_loop.simps [of gs now b])
  next
    case True
    have ids: "i \<in> cbf_identifier ` set (cbf_packets b)" "i \<notin> snd ` set rest"
      using inv0 tms x by (auto simp: cbf_inv_def cbf_linked_def)
    then obtain p where p: "packet_of i b = Some p" using packet_of_iff [of i b] by auto
    define b1 where "b1 = b\<lparr>cbf_stored := cbf_stored b - cbf_length gs p,
      cbf_counter := counter_remove i (cbf_counter b),
      cbf_packets := erase_packet i (cbf_packets b), cbf_timers := rest\<rparr>"
    obtain later b2 where r: "flush_loop gs now b1 = (later, b2)" by fastforce
    have red: "cbf_length gs (snd (timer_reduce_lifetime now t p)) = cbf_length gs p" by simp
    have res: "sent = sent_packet now b (t, i) @ later" "b' = b2"
      using Cons.prems(2) True tms x p r red
      by (auto simp: flush_loop.simps [of gs now b] b1_def sent_packet_def case_prod_beta)
    have "rest = erase_timer i (cbf_timers b)"
      using erase_timer_id [OF ids(2)] tms x by (simp add: erase_timer_def)
    then have inv: "cbf_inv gs b1"
      using cbf_erase_inv [OF inv0 p] by (auto simp: cbf_inv_def cbf_linked_def cbf_erase_def b1_def)
    have IH: "cbf_inv gs b2 \<and> cbf_timers b2 = dropWhile (\<lambda>(t, _). tm_expiry t \<le> now) rest
      \<and> later = concat (map (sent_packet now b1) (takeWhile (\<lambda>(t, _). tm_expiry t \<le> now) rest))
      \<and> cbf_packets b2 = filter (\<lambda>p. cbf_identifier p \<in> snd ` set (cbf_timers b2)) (cbf_packets b1)"
      using Cons.hyps(1) [OF _ inv r] by (simp add: b1_def)
    have same: "sent_packet now b1 y = sent_packet now b y" if "y \<in> set rest" for y
      using that ids(2) packet_of_erase [of "snd y" i "cbf_packets b"]
      by (force simp: sent_packet_def packet_of_def b1_def case_prod_beta)
    have "set (takeWhile P rest) \<subseteq> set rest" for P by (auto dest: set_takeWhileD)
    then have mp: "map (sent_packet now b1) (takeWhile P rest) = map (sent_packet now b) (takeWhile P rest)" for P
      using same by (intro map_cong refl) blast
    have "i \<notin> snd ` set (dropWhile P rest)" for P using ids(2) set_dropWhileD [of _ P rest] by force
    then have "filter (\<lambda>p. cbf_identifier p \<in> snd ` set (cbf_timers b2)) (cbf_packets b1)
        = filter (\<lambda>p. cbf_identifier p \<in> snd ` set (cbf_timers b2)) (cbf_packets b)"
      using IH by (auto simp: b1_def erase_packet_def intro: filter_cong)
    then show ?thesis using IH res True tms x by (simp add: mp)
  qed
qed


lemma cbf_flush_spec:
  assumes "cbf_inv gs b" and "cbf_flush gs now b = (sent, b')"
  shows "cbf_inv gs b'" and "cbf_awake b'"
    and "cbf_timers b' = filter (\<lambda>(t, _). now < tm_expiry t) (cbf_timers b)"
    and "cbf_packets b' = filter (\<lambda>p. cbf_identifier p \<in> snd ` set (cbf_timers b')) (cbf_packets b)"
    and "sent = concat (map (sent_packet now b) (filter (\<lambda>(t, _). tm_expiry t \<le> now) (cbf_timers b)))"
proof -
  obtain b1 where r: "flush_loop gs now b = (sent, b1)" "b' = (if cbf_timers b1 \<noteq> [] then schedule_timer b1 else b1)"
    using assms(2) by (cases "flush_loop gs now b") (simp add: cbf_flush_def)
  note L = flush_loop_spec [OF assms(1) r(1)]
  have split: "sorted (map (tm_expiry \<circ> fst) ts) \<Longrightarrow>
      dropWhile (\<lambda>(t, _). tm_expiry t \<le> now) ts = filter (\<lambda>(t, _). now < tm_expiry t) ts
      \<and> takeWhile (\<lambda>(t, _). tm_expiry t \<le> now) ts = filter (\<lambda>(t, _). tm_expiry t \<le> now) ts"
    for ts :: "(CbfTimer \<times> CbfPacketIdentifier) list"
  proof (induction ts)
    case (Cons t ts)
    show ?case
    proof (cases "tm_expiry (fst t) \<le> now")
      case False
      have le: "\<forall>u \<in> set ts. tm_expiry (fst t) \<le> tm_expiry (fst u)" using Cons.prems by simp
      then have "filter (\<lambda>(t, _). tm_expiry t \<le> now) ts = []" "filter (\<lambda>(t, _). now < tm_expiry t) ts = ts"
        using False by (fastforce simp: filter_empty_conv filter_id_conv)+
      with False show ?thesis by (cases t) simp
    next
      case True
      with Cons show ?thesis by (cases t) simp
    qed
  qed simp
  have "sorted (map (tm_expiry \<circ> fst) (cbf_timers b))" using assms(1) by (simp add: cbf_inv_def cbf_linked_def)
  note S = split [OF this]
  show "cbf_timers b' = filter (\<lambda>(t, _). now < tm_expiry t) (cbf_timers b)" using L S r(2) by simp
  show "sent = concat (map (sent_packet now b) (filter (\<lambda>(t, _). tm_expiry t \<le> now) (cbf_timers b)))"
    using L S by simp
  have "cbf_inv gs b1" using L by blast
  then show "cbf_inv gs b'" using r(2) by (auto simp: cbf_inv_def cbf_linked_def)
  show "cbf_awake b'" using r(2) by (simp add: cbf_awake_def [of b1])
  show "cbf_packets b' = filter (\<lambda>p. cbf_identifier p \<in> snd ` set (cbf_timers b')) (cbf_packets b)"
    using L r(2) by simp
qed

section \<open>Runs of the buffer\<close>

text \<open>
  The steps of a buffer in the environment of the router: the operations at the current time, the
  progress of time up to the pending event, and the event itself, which the runtime removes before
  it calls \<^verbatim>\<open>flush\<close>.
\<close>

inductive cbf_step ::
  "('sec \<Rightarrow> nat) \<Rightarrow> time_point \<times> ('sec, 'a) CbfPacketBuffer \<Rightarrow> time_point \<times> ('sec, 'a) CbfPacketBuffer \<Rightarrow> bool"
  for gs where
  step_add: "cbf_step gs (now, b) (now, cbf_add gs now p timeout b)"
| step_remove: "cbf_step gs (now, b) (now, snd (cbf_remove gs pid b))"
| step_fetch: "cbf_step gs (now, b) (now, snd (cbf_fetch gs now pid b))"
| step_update: "cbf_step gs (now, b) (now, cbf_update now pid timeout b)"
| step_wait: "now \<le> now' \<Longrightarrow> (\<And>s. cbf_scheduled b = Some s \<Longrightarrow> now' \<le> max now s)
    \<Longrightarrow> cbf_step gs (now, b) (now', b)"
| step_wake: "cbf_scheduled b = Some s \<Longrightarrow> s \<le> now
    \<Longrightarrow> cbf_step gs (now, b) (now, snd (cbf_flush gs now (b\<lparr>cbf_scheduled := None\<rparr>)))"

inductive cbf_run ::
  "('sec \<Rightarrow> nat) \<Rightarrow> CbfCounter \<Rightarrow> nat \<Rightarrow> time_point \<times> ('sec, 'a) CbfPacketBuffer \<Rightarrow> bool"
  for gs cnt bytes where
  run_create: "cbf_run gs cnt bytes (now, cbf_packet_buffer cnt bytes)"
| run_step: "cbf_run gs cnt bytes s \<Longrightarrow> cbf_step gs s s' \<Longrightarrow> cbf_run gs cnt bytes s'"

lemma cbf_inv_scheduled [simp]: "cbf_inv gs (b\<lparr>cbf_scheduled := s\<rparr>) = cbf_inv gs b"
  by (simp add: cbf_inv_def cbf_linked_def)

lemma cbf_step_inv: "cbf_step gs s s' \<Longrightarrow> cbf_inv gs (snd s) \<Longrightarrow> cbf_inv gs (snd s')"
proof (induction rule: cbf_step.induct)
  case (step_wake b s now)
  then show ?case
    using cbf_flush_spec(1) [of gs "b\<lparr>cbf_scheduled := None\<rparr>" now] by (auto simp: prod_eq_iff)
qed (simp_all add: cbf_add_inv cbf_remove_inv cbf_fetch_inv cbf_update_inv)

lemma cbf_run_inv: "cbf_run gs cnt bytes s \<Longrightarrow> cbf_inv gs (snd s)"
proof (induction rule: cbf_run.induct)
  case (run_create now)
  show ?case by (simp add: cbf_packet_buffer_def cbf_inv_def cbf_linked_def)
qed (rule cbf_step_inv)

text \<open>Every step but an update that moves a timer before the pending event keeps the buffer awake.\<close>

lemma cbf_step_awake:
  assumes "cbf_step gs (now, b) (now', b')" and "cbf_inv gs b" and "cbf_awake b"
    and "\<And>pid timeout s. b' = cbf_update now pid timeout b \<Longrightarrow> cbf_scheduled b = Some s \<Longrightarrow> s \<le> now + timeout"
  shows "cbf_awake b'"
  using assms(1)
proof (cases rule: cbf_step.cases)
  case (step_wake s)
  then show ?thesis
    using cbf_flush_spec(2) [of gs "b\<lparr>cbf_scheduled := None\<rparr>" now] assms(2) by (auto simp: prod_eq_iff)
next
  case (step_update pid timeout)
  then show ?thesis using cbf_update_awake [OF assms(2,3)] assms(4) by blast
qed (use assms(3) in \<open>simp_all add: cbf_add_awake cbf_remove_inv cbf_fetch_inv\<close>)

section \<open>A sample\<close>

text \<open>A packet with a lifetime of 60 seconds and a buffer that holds it since time 10.\<close>

definition sample_packet :: "(unit, unit) CbfPacket" where
  "sample_packet = \<lparr>cbf_pdu = \<lparr>ep_basic = (basic_header_mib default_mib)\<lparr>lifetime := lifetime_set Ten_Seconds 6\<rparr>,
       ep_common = common_header_mib default_mib, ep_secured = None,
       ep_extended = \<lparr>gbc_sequence_number = 7, gbc_reserved1 = 0, gbc_source_position = zero_position_vector,
         geo_area_pos_latitude = 0, geo_area_pos_longitude = 0, distance_a = 0, distance_b = 0,
         gbc_angle = 0, gbc_reserved2 = 0\<rparr>\<rparr>,
     cbf_payload = None, cbf_function = (), m_sender = mac_zero\<rparr>"

definition sample_buffer :: "nat \<Rightarrow> (unit, unit) CbfPacketBuffer" where
  "sample_buffer bytes = cbf_add (\<lambda>_. 0) 10 sample_packet 5 (cbf_packet_buffer (Contending Map.empty) bytes)"

lemma sample_buffer_eq:
  "cbf_packets (sample_buffer n) = [sample_packet]"
  "cbf_timers (sample_buffer n) = [(cbf_timer 10 5, cbf_identifier sample_packet)]"
  "cbf_scheduled (sample_buffer n) = Some 15"
  by (simp_all add: sample_buffer_def cbf_add_def cbf_packet_buffer_def head_drop.simps Let_def find_timer_def
      schedule_timer_def cbf_timer_def)

lemma sample_buffer_step:
  "cbf_step (\<lambda>_. 0) (10, cbf_packet_buffer (Contending Map.empty) n) (10, sample_buffer n)"
  unfolding sample_buffer_def by (rule step_add)

lemma cbf_create_inv: "cbf_inv gs (cbf_packet_buffer cnt n)" "cbf_awake (cbf_packet_buffer cnt n)"
  by (simp_all add: cbf_inv_def cbf_linked_def cbf_packet_buffer_def cbf_awake_def)

lemma sample_buffer_inv: "cbf_inv (\<lambda>_. 0) (sample_buffer n)"
  using cbf_step_inv [OF sample_buffer_step [of n]] cbf_create_inv(1) [of "\<lambda>_. 0" "Contending Map.empty" n] by simp

section \<open>Properties\<close>

text \<open>
  C22: in every run of a contention buffer each packet has exactly one timer and vice versa, the timers
  are in the order of their expiry, the byte count is exact, and it stays within the capacity except
  for a single packet that exceeds it alone.
\<close>

theorem cbf_buffer_invariant:
  assumes "cbf_run get_size cnt bytes (now, b)"
  shows "(find_timer pid b = None \<longleftrightarrow> packet_of pid b = None)
    \<and> distinct (map snd (cbf_timers b)) \<and> distinct (map cbf_identifier (cbf_packets b))
    \<and> sorted (map (tm_expiry \<circ> fst) (cbf_timers b))
    \<and> cbf_stored b = packets_length get_size (cbf_packets b)
    \<and> (cbf_stored b \<le> cbf_capacity b \<or> length (cbf_packets b) \<le> 1)"
  using cbf_run_inv [OF assms] by (auto simp: cbf_inv_def cbf_linked_def find_timer_iff packet_of_iff)

theorem cbf_buffer_invariant_witness:
  "cbf_run (\<lambda>_. 0) (Contending Map.empty) 100 (10, sample_buffer 100)
     \<and> cbf_stored (sample_buffer 100) = packets_length (\<lambda>_. 0) [sample_packet]"
proof -
  have run: "cbf_run (\<lambda>_. 0) (Contending Map.empty) 100 (10, sample_buffer 100)"
    by (rule run_step [OF run_create sample_buffer_step])
  then show ?thesis using cbf_buffer_invariant [OF run, of undefined] by (simp add: sample_buffer_eq)
qed

text \<open>
   no contending packet oversleeps: as long as no update moves a timer before the pending event, the
  event stays pending no later than any timer, so no timer expires before the buffer is flushed.
\<close>

theorem cbf_no_oversleep:
  assumes "cbf_step get_size (now, b) (now', b')" and "cbf_inv get_size b" and "cbf_awake b"
    and "\<And>pid timeout s. b' = cbf_update now pid timeout b \<Longrightarrow> cbf_scheduled b = Some s \<Longrightarrow> s \<le> now + timeout"
  shows "cbf_inv get_size b' \<and> cbf_awake b'
    \<and> (\<forall>(t, _) \<in> set (cbf_timers b'). \<exists>s. cbf_scheduled b' = Some s \<and> s \<le> tm_expiry t)"
proof -
  have "cbf_inv get_size b'" using cbf_step_inv [OF assms(1)] assms(2) by simp
  moreover have "cbf_awake b'" by (rule cbf_step_awake [OF assms])
  ultimately show ?thesis using awake_all [of b'] by (auto simp: cbf_inv_def)
qed

theorem cbf_no_oversleep_witness:
  "cbf_awake (sample_buffer 100) \<and> cbf_timers (sample_buffer 100) \<noteq> []"
  using cbf_no_oversleep [OF sample_buffer_step [of 100] cbf_create_inv]
  by (auto simp: sample_buffer_eq cbf_packet_buffer_def)

text \<open>
  C25: an event of the contention buffer hands exactly the packets whose timers have expired and whose
  lifetime is not used up to the forwarder, in the order of their timers and with the lifetime reduced
  by the time spent in the buffer; the other packets stay, and the next event is set.
\<close>

theorem cbf_flush_sends_expired:
  assumes "cbf_inv get_size b" and "cbf_flush get_size now b = (sent, b')"
  shows "sent = concat (map (\<lambda>(t, pid). case packet_of pid b of
            Some p \<Rightarrow> (let (valid, q) = timer_reduce_lifetime now t p in if valid then [q] else []) | None \<Rightarrow> [])
          (filter (\<lambda>(t, _). tm_expiry t \<le> now) (cbf_timers b)))
    \<and> cbf_timers b' = filter (\<lambda>(t, _). now < tm_expiry t) (cbf_timers b)
    \<and> cbf_packets b' = filter (\<lambda>p. cbf_identifier p \<in> snd ` set (cbf_timers b')) (cbf_packets b)
    \<and> cbf_inv get_size b' \<and> cbf_awake b'"
  using cbf_flush_spec [OF assms] by (simp add: sent_packet_def)

theorem cbf_flush_sends_expired_witness:
  "map cbf_identifier (fst (cbf_flush (\<lambda>_. 0) 20 (sample_buffer 100))) = [cbf_identifier sample_packet]
    \<and> fst (cbf_flush (\<lambda>_. 0) 14 (sample_buffer 100)) = []"
proof -
  have f: "cbf_flush gs now b = (fst (cbf_flush gs now b), snd (cbf_flush gs now b))" for gs now and b :: "(unit, unit) CbfPacketBuffer"
    by simp
  have p: "packet_of (cbf_identifier sample_packet) (sample_buffer 100) = Some sample_packet"
    by (simp add: packet_of_def sample_buffer_eq)
  have "clock_cast (lifetime_decode (lifetime_set Ten_Seconds 6)) = 60000000" by code_simp
  then have v: "fst (timer_reduce_lifetime 20 (cbf_timer 10 5) sample_packet)"
    by (simp add: timer_reduce_lifetime_def cbf_reduce_lifetime_def pending_reduce_lifetime_def cbf_pending_def
        sample_packet_def cbf_timer_def)
  have "tm_expiry (cbf_timer 10 5) = 15" by (simp add: cbf_timer_def)
  with cbf_flush_sends_expired [OF sample_buffer_inv f, of 20 100]
    cbf_flush_sends_expired [OF sample_buffer_inv f, of 14 100] p v
  show ?thesis by (simp add: sample_buffer_eq case_prod_beta)
qed

text \<open>
   an update that gives a contending packet a timer before the pending event leaves the event where
  it is: the buffer sleeps past the new timer.
\<close>

theorem cbf_update_oversleeps:
  assumes "cbf_inv get_size b" and "find_timer pid b = Some t"
    and "cbf_scheduled b = Some s" and "now + timeout < s"
  shows "\<not> cbf_awake (cbf_update now pid timeout b)
    \<and> cbf_scheduled (cbf_update now pid timeout b) = Some s
    \<and> find_timer pid (cbf_update now pid timeout b) = Some (cbf_timer now timeout)"
proof -
  let ?b = "cbf_update now pid timeout b"
  have inv: "cbf_inv get_size ?b" using cbf_update_inv [OF assms(1)] .
  have upd: "cbf_scheduled ?b = Some s"
    "cbf_timers ?b = insert_timer (cbf_timer now timeout, pid) (erase_timer pid (cbf_timers b))"
    using assms by (simp_all add: cbf_update_def)
  then have mem: "(cbf_timer now timeout, pid) \<in> set (cbf_timers ?b)" by simp
  have "distinct (map snd (cbf_timers ?b))" using inv by (simp add: cbf_inv_def cbf_linked_def)
  then have "find_timer pid ?b = Some (cbf_timer now timeout)"
    using mem unfolding find_timer_def by (intro map_of_is_SomeI) (force simp: comp_def case_prod_beta)+
  moreover have "\<not> cbf_awake ?b"
    using awake_all [of ?b] inv mem upd(1) assms(4) by (force simp: cbf_inv_def cbf_timer_def)
  ultimately show ?thesis using upd(1) by blast
qed

theorem cbf_update_oversleeps_witness:
  "\<not> cbf_awake (cbf_update 11 (cbf_identifier sample_packet) 1 (sample_buffer 100))"
  using cbf_update_oversleeps [OF sample_buffer_inv [of 100], of "cbf_identifier sample_packet" "cbf_timer 10 5" 15 11 1]
  by (simp add: sample_buffer_eq find_timer_def)

end
