(* ===== verification/Recency.thy ===== *)
theory Recency
  imports Cbf
begin

text \<open>
  Containers that keep the most recently used keys: the memory of seen geo-broadcast packets
  (\<^verbatim>\<open>geonet/gbc_memory.*\<close>) and the cache with least-recently-used replacement
  (\<^verbatim>\<open>common/lru_cache.hpp\<close>). Both refine the same specification, given as the locale
  \<open>recency_store\<close>: the keys kept are the last \<open>cap\<close> of the keys used, each at its last use.
\<close>

section \<open>Memory of geo-broadcast packets\<close>

text \<open>The two indices of the container show the same identifiers; the list is in queue order.\<close>

record GbcMemory =
  gm_capacity :: nat
  m_identifiers :: "CbfPacketIdentifier list"

definition gbc_memory :: GbcMemory where
  "gbc_memory = \<lparr>gm_capacity = 1, m_identifiers = []\<rparr>"

fun pop_while_over :: "nat \<Rightarrow> 'k list \<Rightarrow> 'k list" where
  "pop_while_over n [] = []"
| "pop_while_over n (x # xs) = (if length (x # xs) > n then pop_while_over n xs else x # xs)"

definition memory_capacity :: "nat \<Rightarrow> GbcMemory \<Rightarrow> GbcMemory" where
  "memory_capacity num m =
     (let cap = (if num < 1 then 1 else num)
      in m\<lparr>gm_capacity := cap, m_identifiers := pop_while_over cap (m_identifiers m)\<rparr>)"

definition memory_size :: "GbcMemory \<Rightarrow> nat" where
  "memory_size m = length (m_identifiers m)"

definition memory_knows :: "CbfPacketIdentifier \<Rightarrow> GbcMemory \<Rightarrow> bool" where
  "memory_knows pid m \<longleftrightarrow> pid \<in> set (m_identifiers m)"

fun pop_while_full :: "nat \<Rightarrow> 'k list \<Rightarrow> 'k list" where
  "pop_while_full n [] = []"
| "pop_while_full n (x # xs) = (if length (x # xs) \<ge> n then pop_while_full n xs else x # xs)"

definition remember :: "CbfPacketIdentifier \<Rightarrow> GbcMemory \<Rightarrow> bool \<times> GbcMemory" where
  "remember pid m =
     (if \<not> memory_knows pid m then
        (False, m\<lparr>m_identifiers := pop_while_full (gm_capacity m) (m_identifiers m) @ [pid]\<rparr>)
      else (True, m\<lparr>m_identifiers := remove1 pid (m_identifiers m) @ [pid]\<rparr>))"

section \<open>Cache with least-recently-used replacement\<close>

text \<open>
  The generator function is the argument \<open>gen\<close>. A map entry refers to its key's node in the index,
  whose front is the most recently used key.
\<close>

record ('k, 'v) LruCache =
  lc_capacity :: nat
  lc_index :: "'k list"
  lc_cache :: "'k \<rightharpoonup> 'v"

definition lru_cache :: "nat \<Rightarrow> ('k, 'v) LruCache" where
  "lru_cache capacity = \<lparr>lc_capacity = capacity, lc_index = [], lc_cache = Map.empty\<rparr>"

definition lru_remove :: "('k, 'v) LruCache \<Rightarrow> ('k, 'v) LruCache" where
  "lru_remove c =
     (if lc_index c \<noteq> [] then
        c\<lparr>lc_cache := (lc_cache c)(last (lc_index c) := None), lc_index := butlast (lc_index c)\<rparr>
      else c)"

text \<open>The number of map entries is the length of the index, as the invariant below shows.\<close>

definition lru_add :: "('k \<Rightarrow> 'v) \<Rightarrow> 'k \<Rightarrow> ('k, 'v) LruCache \<Rightarrow> 'v \<times> ('k, 'v) LruCache" where
  "lru_add gen k c =
     (let c = (if card (dom (lc_cache c)) \<ge> lc_capacity c then lru_remove c else c);
          c = c\<lparr>lc_index := k # lc_index c\<rparr>
      in (gen k, c\<lparr>lc_cache := (lc_cache c)(k \<mapsto> gen k)\<rparr>))"

definition lru_refresh :: "'k \<Rightarrow> 'v \<Rightarrow> ('k, 'v) LruCache \<Rightarrow> 'v \<times> ('k, 'v) LruCache" where
  "lru_refresh k v c = (v, c\<lparr>lc_index := k # remove1 k (lc_index c)\<rparr>)"

definition lru_access :: "('k \<Rightarrow> 'v) \<Rightarrow> 'k \<Rightarrow> ('k, 'v) LruCache \<Rightarrow> 'v \<times> ('k, 'v) LruCache" where
  "lru_access gen k c = (case lc_cache c k of None \<Rightarrow> lru_add gen k c | Some v \<Rightarrow> lru_refresh k v c)"

section \<open>The specification\<close>

text \<open>The last \<open>n\<close> distinct keys of a history, oldest first.\<close>

definition most_recent :: "nat \<Rightarrow> 'k list \<Rightarrow> 'k list" where
  "most_recent n xs = drop (length (remdups xs) - n) (remdups xs)"

locale recency_store =
  fixes inv :: "'s \<Rightarrow> bool"
    and recent :: "'s \<Rightarrow> 'k list"
    and use_key :: "'k \<Rightarrow> 's \<Rightarrow> 's"
    and cap :: "'s \<Rightarrow> nat"
  assumes inv_use: "inv s \<Longrightarrow> inv (use_key k s)"
    and cap_use: "inv s \<Longrightarrow> cap (use_key k s) = cap s"
    and cap_pos: "inv s \<Longrightarrow> 0 < cap s"
    and recent_bounded: "inv s \<Longrightarrow> length (recent s) \<le> cap s"
    and use_known: "inv s \<Longrightarrow> k \<in> set (recent s) \<Longrightarrow> recent (use_key k s) = remove1 k (recent s) @ [k]"
    and use_new: "inv s \<Longrightarrow> k \<notin> set (recent s) \<Longrightarrow>
           recent (use_key k s) = drop (Suc (length (recent s)) - cap s) (recent s) @ [k]"
begin

lemma remdups_snoc: "remdups (xs @ [x]) = remove1 x (remdups xs) @ [x]"
proof -
  have "filter (\<lambda>y. y \<noteq> x) (remdups xs) = remove1 x (remdups xs)"
    by (simp add: distinct_remove1_removeAll removeAll_filter_not_eq eq_commute)
  moreover have "remdups (xs @ [x]) = filter (\<lambda>y. y \<noteq> x) (remdups xs) @ [x]"
    by (induction xs) auto
  ultimately show ?thesis by simp
qed

lemma remove1_drop_distinct:
  "distinct ys \<Longrightarrow> x \<in> set (drop d ys) \<Longrightarrow> remove1 x (drop d ys) = drop d (remove1 x ys)"
proof (induction ys arbitrary: d)
  case (Cons y ys)
  show ?case
  proof (cases d)
    case (Suc e)
    with Cons.prems have "y \<noteq> x" by (auto dest: in_set_dropD)
    with Suc Cons show ?thesis by simp
  qed simp
qed simp

lemma most_recent_snoc:
  assumes "0 < n"
  shows "most_recent n (xs @ [k]) = (if k \<in> set (most_recent n xs) then remove1 k (most_recent n xs) @ [k]
    else drop (Suc (length (most_recent n xs)) - n) (most_recent n xs) @ [k])"
proof -
  let ?r = "remdups xs"
  have len: "length (remove1 k ?r) = (if k \<in> set ?r then length ?r - 1 else length ?r)"
    by (simp add: length_remove1)
  show ?thesis
  proof (cases "k \<in> set (most_recent n xs)")
    case True
    then have in_r: "k \<in> set ?r" "k \<in> set (drop (length ?r - n) ?r)"
      by (auto simp: most_recent_def dest: in_set_dropD)
    then have "0 < length ?r" by (cases ?r) auto
    with True in_r assms show ?thesis
      unfolding most_recent_def remdups_snoc
      by (simp add: len remove1_drop_distinct drop_append Suc_diff_le) 
  next
    case False
    define d where "d = length ?r - n"
    have m: "most_recent n xs = drop d ?r" by (simp add: most_recent_def d_def)
    show ?thesis
    proof (cases "k \<in> set ?r")
      case False
      then have "remdups (xs @ [k]) = ?r @ [k]" by (simp add: remdups_snoc remove1_idem)
      then have "most_recent n (xs @ [k]) = drop (Suc (length ?r) - n) ?r @ [k]" using assms by (simp add: most_recent_def)
      moreover have "drop (Suc (length (drop d ?r)) - n) (drop d ?r) = drop (Suc (length ?r) - n) ?r"
        by (cases "n \<le> length ?r") (auto simp: d_def Suc_diff_le)
      ultimately show ?thesis using \<open>k \<notin> set (most_recent n xs)\<close> by (simp add: m)
    next
      case True
      have split: "?r = take d ?r @ drop d ?r" by simp
      from True False have old: "k \<in> set (take d ?r)" unfolding m by (metis Un_iff set_append split)
      then have d: "0 < d" "n < length ?r" by (cases d; simp add: d_def)+
      have rem: "remove1 k ?r = remove1 k (take d ?r) @ drop d ?r" using old by (metis remove1_append split)
      have "length (remove1 k (take d ?r)) = d - 1" using old d by (simp add: length_remove1 d_def)
      then have "drop d (remove1 k ?r) = drop 1 (drop d ?r)" using d by (simp add: rem)
      moreover have "most_recent n (xs @ [k]) = drop d (remove1 k ?r) @ [k]"
        using True d assms by (simp add: most_recent_def remdups_snoc len d_def)
      moreover have "Suc (length (drop d ?r)) - n = 1" using d by (simp add: d_def)
      ultimately show ?thesis using False by (simp add: m)
    qed
  qed
qed

lemma recent_history:
  assumes "inv s" and "recent s = []"
  shows "inv (fold use_key xs s) \<and> cap (fold use_key xs s) = cap s
    \<and> recent (fold use_key xs s) = most_recent (cap s) xs"
proof (induction xs rule: rev_induct)
  case Nil
  then show ?case using assms by (simp add: most_recent_def)
next
  case (snoc x xs)
  then show ?case using cap_pos [OF assms(1)]
    by (auto simp: inv_use cap_use most_recent_snoc use_known use_new)
qed

end

section \<open>Interpretations\<close>

definition memory_inv :: "GbcMemory \<Rightarrow> bool" where
  "memory_inv m \<longleftrightarrow> 0 < gm_capacity m \<and> memory_size m \<le> gm_capacity m \<and> distinct (m_identifiers m)"

lemma pop_while_over_eq: "pop_while_over n xs = drop (length xs - n) xs"
  by (induction xs) (auto simp: Suc_diff_le)

lemma pop_while_full_eq: "0 < n \<Longrightarrow> pop_while_full n xs = drop (Suc (length xs) - n) xs"
  by (induction xs) (auto simp: Suc_diff_le)

interpretation memory: recency_store memory_inv m_identifiers "\<lambda>pid m. snd (remember pid m)" gm_capacity
proof
  fix m pid assume inv: "memory_inv m"
  show "memory_inv (snd (remember pid m))"
    using inv by (auto simp: memory_inv_def remember_def memory_knows_def memory_size_def pop_while_full_eq length_remove1
        dest: in_set_dropD)
  show "gm_capacity (snd (remember pid m)) = gm_capacity m" by (simp add: remember_def)
  show "0 < gm_capacity m" "length (m_identifiers m) \<le> gm_capacity m"
    using inv by (simp_all add: memory_inv_def memory_size_def)
  show "m_identifiers (snd (remember pid m)) = remove1 pid (m_identifiers m) @ [pid]" if "pid \<in> set (m_identifiers m)"
    using that by (simp add: remember_def memory_knows_def)
  show "m_identifiers (snd (remember pid m)) = drop (Suc (length (m_identifiers m)) - gm_capacity m) (m_identifiers m) @ [pid]"
    if "pid \<notin> set (m_identifiers m)"
    using that inv by (simp add: remember_def memory_knows_def memory_inv_def pop_while_full_eq)
qed

text \<open>A cache of capacity zero behaves like one of capacity one.\<close>

definition lru_inv :: "('k \<Rightarrow> 'v) \<Rightarrow> ('k, 'v) LruCache \<Rightarrow> bool" where
  "lru_inv gen c \<longleftrightarrow> distinct (lc_index c) \<and> dom (lc_cache c) = set (lc_index c)
     \<and> length (lc_index c) \<le> max 1 (lc_capacity c) \<and> (\<forall>k \<in> set (lc_index c). lc_cache c k = Some (gen k))"

lemma lru_access_cases:
  assumes "lru_inv gen c"
  shows "lru_access gen k c = (gen k, if k \<in> set (lc_index c) then c\<lparr>lc_index := k # remove1 k (lc_index c)\<rparr>
    else let keep = (if lc_capacity c \<le> length (lc_index c) then butlast (lc_index c) else lc_index c)
         in c\<lparr>lc_index := k # keep, lc_cache := (\<lambda>j. if j \<in> set (k # keep) then Some (gen j) else None)\<rparr>)"
proof (cases "k \<in> set (lc_index c)")
  case True
  with assms show ?thesis by (simp add: lru_access_def lru_refresh_def lru_inv_def)
next
  case False
  have card: "card (dom (lc_cache c)) = length (lc_index c)" using assms by (simp add: lru_inv_def distinct_card)
  have none: "lc_cache c k = None" using False assms by (auto simp: lru_inv_def)
  have all: "lc_cache c = (\<lambda>j. if j \<in> set (lc_index c) then Some (gen j) else None)"
    using assms by (fastforce simp: lru_inv_def)
  have last: "last xs \<notin> set (butlast xs)" "set xs = insert (last xs) (set (butlast xs))"
    if "distinct xs" "xs \<noteq> []" for xs :: "'a list"
    using that append_butlast_last_id [of xs] by (metis distinct_append distinct.simps(2) list.set(1,2) Un_insert_right
        append_is_Nil_conv disjoint_insert(2) list.simps(15) set_append sup_bot.right_neutral)+
  show ?thesis
  proof (cases "lc_capacity c \<le> length (lc_index c) \<and> lc_index c \<noteq> []")
    case True
    then have "lru_remove c = c\<lparr>lc_cache := (\<lambda>j. if j \<in> set (butlast (lc_index c)) then Some (gen j) else None),
        lc_index := butlast (lc_index c)\<rparr>"
      using assms last [of "lc_index c"] by (auto simp: lru_remove_def lru_inv_def all fun_eq_iff)
    with True False none card show ?thesis
      by (auto simp: lru_access_def lru_add_def Let_def fun_eq_iff)
  next
    case neg: False
    have upd: "(lc_cache c)(k \<mapsto> gen k) = (\<lambda>j. if j = k \<or> j \<in> set (lc_index c) then Some (gen j) else None)"
      by (subst all) (simp add: fun_eq_iff)
    from neg False none card show ?thesis
      by (auto simp: lru_access_def lru_add_def lru_remove_def Let_def upd)
  qed
qed

lemma lru_access_inv: "lru_inv gen c \<Longrightarrow> lru_inv gen (snd (lru_access gen k c))"
  unfolding lru_access_cases
  by (auto simp: lru_inv_def Let_def length_remove1 distinct_butlast dest: in_set_butlastD split: if_splits)

interpretation cache: recency_store "lru_inv gen" "\<lambda>c. rev (lc_index c)" "\<lambda>k c. snd (lru_access gen k c)"
  "\<lambda>c. max 1 (lc_capacity c)" for gen :: "'k \<Rightarrow> 'v"
proof
  fix c :: "('k, 'v) LruCache" and k assume inv: "lru_inv gen c"
  show "lru_inv gen (snd (lru_access gen k c))" using inv by (rule lru_access_inv)
  show "max 1 (lc_capacity (snd (lru_access gen k c))) = max 1 (lc_capacity c)"
    using inv by (simp add: lru_access_cases Let_def)
  show "0 < max 1 (lc_capacity c)" "length (rev (lc_index c)) \<le> max 1 (lc_capacity c)"
    using inv by (simp_all add: lru_inv_def)
  have "distinct (lc_index c)" using inv by (simp add: lru_inv_def)
  then have rem: "rev (remove1 k (lc_index c)) = remove1 k (rev (lc_index c))"
    by (simp add: distinct_remove1_removeAll removeAll_filter_not_eq rev_filter)
  show "rev (lc_index (snd (lru_access gen k c))) = remove1 k (rev (lc_index c)) @ [k]" if "k \<in> set (rev (lc_index c))"
    using that inv rem by (simp add: lru_access_cases)
  show "rev (lc_index (snd (lru_access gen k c)))
      = drop (Suc (length (rev (lc_index c))) - max 1 (lc_capacity c)) (rev (lc_index c)) @ [k]"
    if "k \<notin> set (rev (lc_index c))"
  proof -
    have "rev (butlast xs) = drop 1 (rev xs)" for xs :: "'k list" by (cases xs rule: rev_cases) auto
    moreover have "length (lc_index c) \<le> max 1 (lc_capacity c)" using inv by (simp add: lru_inv_def)
    ultimately show ?thesis using that inv by (auto simp: lru_access_cases Let_def max_def Suc_diff_le)
  qed
qed

section \<open>Properties\<close>

text \<open>
   after any sequence of packets the memory knows exactly the most recent distinct ones, as many as
  its capacity allows, and a packet is reported as known exactly if it is one of them.
\<close>

theorem gbc_memory_most_recent:
  "let m = fold (\<lambda>pid m. snd (remember pid m)) pids (memory_capacity n gbc_memory)
   in m_identifiers m = most_recent (max 1 n) pids
      \<and> (fst (remember pid m) \<longleftrightarrow> pid \<in> set (most_recent (max 1 n) pids))"
proof -
  let ?m = "memory_capacity n gbc_memory"
  have "memory_inv ?m" "m_identifiers ?m = []" "gm_capacity ?m = max 1 n"
    by (auto simp: memory_capacity_def gbc_memory_def memory_inv_def memory_size_def Let_def)
  with memory.recent_history [of ?m pids] show ?thesis by (auto simp: Let_def remember_def memory_knows_def)
qed

text \<open>
   after any sequence of accesses the cache holds exactly the most recently used keys, as many as its
  capacity allows (one at least), each with its generated value, and an access returns that value.
\<close>

theorem lru_cache_most_recent:
  "let c = fold (\<lambda>k c. snd (lru_access gen k c)) ks (lru_cache n)
   in lc_cache c = (\<lambda>k. if k \<in> set (most_recent (max 1 n) ks) then Some (gen k) else None)
      \<and> fst (lru_access gen k c) = gen k"
proof -
  let ?c = "lru_cache n :: ('a, 'b) LruCache"
  have "lru_inv gen ?c" "rev (lc_index ?c) = []" "max 1 (lc_capacity ?c) = max 1 n"
    by (simp_all add: lru_cache_def lru_inv_def)
  with cache.recent_history [of gen ?c ks]
  have inv: "lru_inv gen (fold (\<lambda>k c. snd (lru_access gen k c)) ks ?c)"
    and idx: "rev (lc_index (fold (\<lambda>k c. snd (lru_access gen k c)) ks ?c)) = most_recent (max 1 n) ks" by simp_all
  from arg_cong [OF idx, of set] inv show ?thesis
    by (fastforce simp: Let_def lru_access_cases lru_inv_def fun_eq_iff)
qed

end
