(* ===== verification/Manual_Runtime.thy ===== *)
theory Manual_Runtime
  imports Prelude
begin

text \<open>
  The event queue that drives the stack (\<^verbatim>\<open>common/manual_runtime.*\<close>): callbacks with a
  deadline and a scope, cancelled by scope and invoked when time is advanced. A callback may change
  the queue and any state of its component; its effect is the argument \<open>exec\<close>, a function on the
  runtime and a world state, so that a trigger need not return.
\<close>

section \<open>Queue\<close>

text \<open>
  The queue in the order of its deadline index, equal deadlines in the order of insertion. A scope is
  a pointer used for identification, \<^const>\<open>None\<close> for the null pointer.
\<close>

record 'cb ScheduledCallback =
  deadline :: time_point
  callback :: 'cb
  scope :: "nat option"

record 'cb ManualRuntime =
  rt_now :: time_point
  rt_queue :: "'cb ScheduledCallback list"

definition manual_runtime :: "time_point \<Rightarrow> 'cb ManualRuntime" where
  "manual_runtime init = \<lparr>rt_now = init, rt_queue = []\<rparr>"

fun insert_deadline :: "'cb ScheduledCallback \<Rightarrow> 'cb ScheduledCallback list \<Rightarrow> 'cb ScheduledCallback list" where
  "insert_deadline e [] = [e]"
| "insert_deadline e (x # xs) = (if deadline e < deadline x then e # x # xs else x # insert_deadline e xs)"

definition schedule_at :: "time_point \<Rightarrow> 'cb \<Rightarrow> nat option \<Rightarrow> 'cb ManualRuntime \<Rightarrow> 'cb ManualRuntime" where
  "schedule_at tp cb sc rt = rt\<lparr>rt_queue := insert_deadline \<lparr>deadline = tp, callback = cb, scope = sc\<rparr> (rt_queue rt)\<rparr>"

definition schedule_in :: "duration \<Rightarrow> 'cb \<Rightarrow> nat option \<Rightarrow> 'cb ManualRuntime \<Rightarrow> 'cb ManualRuntime" where
  "schedule_in d cb sc rt = schedule_at (rt_now rt + d) cb sc rt"

definition cancel :: "nat option \<Rightarrow> 'cb ManualRuntime \<Rightarrow> 'cb ManualRuntime" where
  "cancel sc rt = (if sc \<noteq> None then rt\<lparr>rt_queue := filter (\<lambda>e. scope e \<noteq> sc) (rt_queue rt)\<rparr> else rt)"

text \<open>The largest time point of the clock, when nothing is scheduled.\<close>

definition next_deadline :: "'cb ManualRuntime \<Rightarrow> time_point" where
  "next_deadline rt = (case rt_queue rt of [] \<Rightarrow> 2 ^ 63 - 1 | e # _ \<Rightarrow> deadline e)"

section \<open>Triggering\<close>

type_synonym ('cb, 'w) exec = "'cb \<Rightarrow> time_point \<Rightarrow> 'cb ManualRuntime \<times> 'w \<Rightarrow> 'cb ManualRuntime \<times> 'w"

partial_function (option) trigger_loop ::
  "('cb, 'w) exec \<Rightarrow> 'cb ManualRuntime \<times> 'w \<Rightarrow> ('cb ManualRuntime \<times> 'w) option" where
  "trigger_loop exec s =
     (case rt_queue (fst s) of
        [] \<Rightarrow> Some s
      | e # rest \<Rightarrow>
          if deadline e \<le> rt_now (fst s) then
            trigger_loop exec (exec (callback e) (deadline e) ((fst s)\<lparr>rt_queue := rest\<rparr>, snd s))
          else Some s)"

text \<open>Advancing to a time point asserts that time does not run backwards: \<^const>\<open>None\<close>.\<close>

definition trigger_at ::
  "('cb, 'w) exec \<Rightarrow> time_point \<Rightarrow> 'cb ManualRuntime \<times> 'w \<Rightarrow> ('cb ManualRuntime \<times> 'w) option" where
  "trigger_at exec tp s =
     (if tp \<ge> rt_now (fst s) then trigger_loop exec ((fst s)\<lparr>rt_now := tp\<rparr>, snd s) else None)"

definition trigger_by ::
  "('cb, 'w) exec \<Rightarrow> duration \<Rightarrow> 'cb ManualRuntime \<times> 'w \<Rightarrow> ('cb ManualRuntime \<times> 'w) option" where
  "trigger_by exec d s = trigger_loop exec ((fst s)\<lparr>rt_now := rt_now (fst s) + d\<rparr>, snd s)"

definition reset :: "('cb, 'w) exec \<Rightarrow> time_point \<Rightarrow> 'cb ManualRuntime \<times> 'w \<Rightarrow> 'cb ManualRuntime \<times> 'w" where
  "reset exec tp s =
     foldl (\<lambda>s item. exec (callback item) (deadline item) s) (\<lparr>rt_now = tp, rt_queue = []\<rparr>, snd s) (rt_queue (fst s))"

section \<open>Order of the queue\<close>

definition rt_inv :: "'cb ManualRuntime \<Rightarrow> bool" where
  "rt_inv rt \<longleftrightarrow> sorted (map deadline (rt_queue rt))"

lemma set_insert_deadline [simp]: "set (insert_deadline e xs) = insert e (set xs)"
  by (induction xs) auto

lemma sorted_insert_deadline: "sorted (map deadline xs) \<Longrightarrow> sorted (map deadline (insert_deadline e xs))"
  by (induction xs) auto

lemma rt_inv_ops [simp]:
  "rt_inv (manual_runtime t)"
  "rt_inv rt \<Longrightarrow> rt_inv (schedule_at tp cb sc rt)"
  "rt_inv rt \<Longrightarrow> rt_inv (schedule_in d cb sc rt)"
  "rt_inv rt \<Longrightarrow> rt_inv (cancel sc rt)"
  by (simp_all add: rt_inv_def manual_runtime_def schedule_at_def schedule_in_def cancel_def
      sorted_insert_deadline sorted_map_same sorted_filter)

lemma next_deadline_least: "rt_inv rt \<Longrightarrow> e \<in> set (rt_queue rt) \<Longrightarrow> next_deadline rt \<le> deadline e"
  by (cases "rt_queue rt") (auto simp: rt_inv_def next_deadline_def)

definition due :: "'cb ManualRuntime \<Rightarrow> 'cb ScheduledCallback list" where
  "due rt = filter (\<lambda>e. deadline e \<le> rt_now rt) (rt_queue rt)"

lemma insert_deadline_later:
  "t < deadline e \<Longrightarrow> filter (\<lambda>x. deadline x \<le> t) (insert_deadline e xs) = filter (\<lambda>x. deadline x \<le> t) xs"
  by (induction xs) auto

lemma due_schedule_later [simp]: "rt_now rt < tp \<Longrightarrow> due (schedule_at tp cb sc rt) = due rt"
  by (simp add: due_def schedule_at_def insert_deadline_later)

text \<open>
  A well-behaved callback keeps the clock and the order of the queue, and leaves the callbacks that
  are due: it schedules later ones only.
\<close>

definition well_behaved :: "('cb, 'w) exec \<Rightarrow> bool" where
  "well_behaved exec \<longleftrightarrow> (\<forall>cb t rt w. rt_inv rt \<longrightarrow>
     (let rt' = fst (exec cb t (rt, w)) in rt_inv rt' \<and> rt_now rt' = rt_now rt \<and> due rt' = due rt))"

lemma trigger_loop_done: "due rt = [] \<Longrightarrow> rt_inv rt \<Longrightarrow> trigger_loop exec (rt, w) = Some (rt, w)"
  by (subst trigger_loop.simps) (auto simp: due_def split: list.split)

lemma due_Cons:
  assumes "rt_inv rt" and "due rt = e # es"
  shows "\<exists>rest. rt_queue rt = e # rest \<and> due (rt\<lparr>rt_queue := rest\<rparr>) = es \<and> rt_inv (rt\<lparr>rt_queue := rest\<rparr>)
    \<and> deadline e \<le> rt_now rt"
proof (cases "rt_queue rt")
  case (Cons x xs)
  have "deadline x \<le> rt_now rt"
  proof (rule ccontr)
    assume "\<not> deadline x \<le> rt_now rt"
    with assms(1) Cons have "due rt = []" by (auto simp: due_def rt_inv_def filter_empty_conv)
    with assms(2) show False by simp
  qed
  with Cons assms show ?thesis by (auto simp: due_def rt_inv_def)
qed (use assms(2) in \<open>simp add: due_def\<close>)

lemma trigger_loop_spec:
  assumes "well_behaved exec" and "\<And>cb t rt w. calls (snd (exec cb t (rt, w))) = calls w @ [(cb, t)]" and "rt_inv rt"
  shows "\<exists>rt' w'. trigger_loop exec (rt, w) = Some (rt', w') \<and> rt_inv rt' \<and> rt_now rt' = rt_now rt
    \<and> due rt' = [] \<and> calls w' = calls w @ map (\<lambda>e. (callback e, deadline e)) (due rt)"
  using assms(3)
proof (induction "due rt" arbitrary: rt w)
  case Nil
  then show ?case using trigger_loop_done [of rt exec w] by auto
next
  case (Cons e es)
  from due_Cons [OF Cons.prems Cons.hyps(2) [symmetric]] obtain rest
    where rest: "rt_queue rt = e # rest" "due (rt\<lparr>rt_queue := rest\<rparr>) = es" "rt_inv (rt\<lparr>rt_queue := rest\<rparr>)"
      "deadline e \<le> rt_now rt" by blast
  obtain rt1 w1 where x: "exec (callback e) (deadline e) (rt\<lparr>rt_queue := rest\<rparr>, w) = (rt1, w1)" by fastforce
  have wb: "rt_inv rt1 \<and> rt_now rt1 = rt_now rt \<and> due rt1 = es"
    using assms(1) [unfolded well_behaved_def Let_def, rule_format, OF rest(3), of "callback e" "deadline e" w] rest(2) x
    by simp
  have lg: "calls w1 = calls w @ [(callback e, deadline e)]" using assms(2) [of "callback e" "deadline e"] x by (metis snd_conv)
  have "trigger_loop exec (rt, w) = trigger_loop exec (rt1, w1)"
    using rest(1,4) x by (subst trigger_loop.simps) simp
  with Cons.hyps(1) [of rt1 w1] wb lg show ?case by (auto simp flip: Cons.hyps(2))
qed

section \<open>Properties\<close>



end
