(* ===== verification/Dcc_Rate_Control.thy ===== *)
theory Dcc_Rate_Control
  imports Geonet_Requests Unit_Interval
begin

text \<open>
  Transmit rate control of decentralized congestion control (\<^verbatim>\<open>dcc/\<close>): the two reactive state
  machines (\<^verbatim>\<open>fully_meshed_state_machine.*, gradual_state_machine.*\<close>), the adaptive LIMERIC
  algorithm (\<^verbatim>\<open>limeric.*\<close>), the transmission budgets (\<^verbatim>\<open>burst_budget.*,
  state_machine_budget.*, limeric_budget.*\<close>), the rate controls composed of them, and the channel
  occupancy of a transmission (\<^verbatim>\<open>transmission.*\<close>, \<^verbatim>\<open>access/data_rates.*\<close>).

  Doubles are reals. The current time of the runtime is an argument \<open>now\<close>, the transmission
  interval of the state machine and the permitted duty cycle are arguments of the budgets that
  read them. Time points and durations are integers in microseconds without overflow; the
  smallest time point is the one of a 64 bit clock.
\<close>

abbreviation milliseconds :: "int \<Rightarrow> duration" where
  "milliseconds n \<equiv> 1000 * n"

section \<open>Circular buffers\<close>

text \<open>
  A \<^verbatim>\<open>boost::circular_buffer\<close>: pushing into a full buffer overwrites the element at the other
  end; \<^verbatim>\<open>resize\<close> changes the number of elements, not the capacity, and fills up with
  value-initialized elements, growing the capacity if necessary.
\<close>

record 'a circular_buffer =
  cb_capacity :: nat
  cb_items :: "'a list"

definition cb_full :: "'a circular_buffer \<Rightarrow> bool" where
  "cb_full b = (length (cb_items b) = cb_capacity b)"

definition cb_push_back :: "'a \<Rightarrow> 'a circular_buffer \<Rightarrow> 'a circular_buffer" where
  "cb_push_back x b =
     (if cb_capacity b = 0 then b
      else b\<lparr>cb_items := (if cb_full b then tl (cb_items b) else cb_items b) @ [x]\<rparr>)"

definition cb_push_front :: "'a \<Rightarrow> 'a circular_buffer \<Rightarrow> 'a circular_buffer" where
  "cb_push_front x b = b\<lparr>cb_items := take (cb_capacity b) (x # cb_items b)\<rparr>"

definition cb_resize :: "nat \<Rightarrow> 'a \<Rightarrow> 'a circular_buffer \<Rightarrow> 'a circular_buffer" where
  "cb_resize n x b =
     \<lparr>cb_capacity = max (cb_capacity b) n, cb_items = take n (cb_items b) @ replicate (n - length (cb_items b)) x\<rparr>"

section \<open>Transmissions\<close>

record DataRateG5 =
  bytes_per_second :: nat
  coded_bits_per_symbol :: nat

definition data_rate_g5 :: "nat \<Rightarrow> nat \<Rightarrow> DataRateG5" where
  "data_rate_g5 kbps cbits = \<lparr>bytes_per_second = kbps * 1000 div 8, coded_bits_per_symbol = cbits\<rparr>"

definition G5_6Mbps :: DataRateG5 where
  "G5_6Mbps = data_rate_g5 6000 96"

definition data_length :: "DataRateG5 \<Rightarrow> nat \<Rightarrow> nat" where
  "data_length rate psdu =
     (let body = 16 + 6 + psdu * 8;
          padding = body mod coded_bits_per_symbol rate;
          padding = (if padding > 0 then coded_bits_per_symbol rate - padding else padding)
      in (body + padding) div 8)"

record Transmission =
  tx_profile :: Profile
  tx_body_length :: nat
  tx_data_rate :: "DataRateG5 option"

definition channel_occupancy :: "Transmission \<Rightarrow> duration" where
  "channel_occupancy tx =
     (let rate = (case tx_data_rate tx of None \<Rightarrow> G5_6Mbps | Some r \<Rightarrow> r);
          bytes = data_length rate (tx_body_length tx + 2 + 34);
          seconds_per_byte = 1 / real (bytes_per_second rate)
      in 32 + 8 + clock_cast (real bytes * seconds_per_byte))"

section \<open>The fully meshed state machine\<close>

datatype DccState = Relaxed | Active | Restrictive

record FullyMeshedStateMachine =
  fm_state :: DccState
  fm_substate :: nat
  fm_channel_loads :: "ChannelLoad circular_buffer"

definition N_samples_up :: nat where "N_samples_up = 10"
definition N_samples_down :: nat where "N_samples_down = 50"
definition NDL_minChannelLoad :: real where "NDL_minChannelLoad = 0.19"
definition NDL_maxChannelLoad :: real where "NDL_maxChannelLoad = 0.59"

definition fully_meshed_state_machine :: FullyMeshedStateMachine where
  "fully_meshed_state_machine =
     \<lparr>fm_state = Relaxed, fm_substate = 0,
      fm_channel_loads = \<lparr>cb_capacity = max N_samples_up N_samples_down, cb_items = []\<rparr>\<rparr>"

definition min_channel_load :: "FullyMeshedStateMachine \<Rightarrow> real" where
  "min_channel_load m =
     (case take N_samples_up (cb_items (fm_channel_loads m)) of [] \<Rightarrow> 0 | x # xs \<Rightarrow> foldl min x xs)"

definition max_channel_load :: "FullyMeshedStateMachine \<Rightarrow> real" where
  "max_channel_load m = foldl max 0 (take N_samples_down (cb_items (fm_channel_loads m)))"

definition upper_bound_index :: "real list \<Rightarrow> real \<Rightarrow> nat" where
  "upper_bound_index xs v = length (takeWhile (\<lambda>x. \<not> v < x) xs)"

definition active_channel_loads :: "real list" where
  "active_channel_loads = [0.27, 0.35, 0.43, 0.51, 0.59]"

definition active_substate :: "real \<Rightarrow> real \<Rightarrow> nat" where
  "active_substate min_cl max_cl =
     (let state_up = upper_bound_index active_channel_loads min_cl;
          state_down = upper_bound_index active_channel_loads max_cl
      in min (5 - 1) (max state_up state_down))"

definition enter_active :: "FullyMeshedStateMachine \<Rightarrow> FullyMeshedStateMachine" where
  "enter_active m = m\<lparr>fm_state := Active, fm_substate := active_substate (min_channel_load m) (max_channel_load m)\<rparr>"

definition fully_meshed_update :: "ChannelLoad \<Rightarrow> FullyMeshedStateMachine \<Rightarrow> FullyMeshedStateMachine" where
  "fully_meshed_update cl m0 =
     (let m = m0\<lparr>fm_channel_loads := cb_push_front cl (fm_channel_loads m0)\<rparr>
      in case fm_state m of
           Relaxed \<Rightarrow> if min_channel_load m \<ge> NDL_minChannelLoad then enter_active m else m
         | Restrictive \<Rightarrow> if max_channel_load m < NDL_maxChannelLoad then enter_active m else m
         | Active \<Rightarrow>
             if max_channel_load m < NDL_minChannelLoad then m\<lparr>fm_state := Relaxed\<rparr>
             else if min_channel_load m \<ge> NDL_maxChannelLoad then m\<lparr>fm_state := Restrictive\<rparr>
             else enter_active m)"

definition active_interval :: "nat \<Rightarrow> duration" where
  "active_interval substate =
     [milliseconds 100, milliseconds 180, milliseconds 260, milliseconds 340, milliseconds 420] ! min (5 - 1) substate"

definition fully_meshed_interval :: "FullyMeshedStateMachine \<Rightarrow> duration" where
  "fully_meshed_interval m =
     (case fm_state m of
        Relaxed \<Rightarrow> milliseconds 60 | Active \<Rightarrow> active_interval (fm_substate m) | Restrictive \<Rightarrow> milliseconds 460)"

definition message_rate :: "FullyMeshedStateMachine \<Rightarrow> real" where
  "message_rate m = 1000000 / real_of_int (fully_meshed_interval m)"

section \<open>The gradual state machine\<close>

text \<open>The set of states ordered by lower limit is a sorted list, the iterator an index into it.\<close>

record GradualState =
  lower_limit :: ChannelLoad
  off_time :: duration

record GradualStateMachine =
  gs_states :: "GradualState list"
  gs_current :: nat

definition etsiStates1ms :: "GradualState list" where
  "etsiStates1ms =
     [\<lparr>lower_limit = 0, off_time = milliseconds 100\<rparr>, \<lparr>lower_limit = 0.3, off_time = milliseconds 200\<rparr>,
      \<lparr>lower_limit = 0.4, off_time = milliseconds 400\<rparr>, \<lparr>lower_limit = 0.5, off_time = milliseconds 500\<rparr>,
      \<lparr>lower_limit = 0.6, off_time = milliseconds 1000\<rparr>]"

definition etsiStates500us :: "GradualState list" where
  "etsiStates500us =
     [\<lparr>lower_limit = 0, off_time = milliseconds 50\<rparr>, \<lparr>lower_limit = 0.3, off_time = milliseconds 100\<rparr>,
      \<lparr>lower_limit = 0.4, off_time = milliseconds 200\<rparr>, \<lparr>lower_limit = 0.5, off_time = milliseconds 250\<rparr>,
      \<lparr>lower_limit = 0.65, off_time = milliseconds 1000\<rparr>]"

definition gradual_repair :: "GradualStateMachine \<Rightarrow> GradualStateMachine" where
  "gradual_repair m =
     (if gs_states m = [] then \<lparr>gs_states = [\<lparr>lower_limit = 0, off_time = 0\<rparr>], gs_current = 0\<rparr> else m)"

definition gradual_state_machine :: "GradualState list \<Rightarrow> GradualStateMachine" where
  "gradual_state_machine states = gradual_repair \<lparr>gs_states = states, gs_current = 0\<rparr>"

definition gradual_update :: "ChannelLoad \<Rightarrow> GradualStateMachine \<Rightarrow> GradualStateMachine" where
  "gradual_update cbr m =
     (if cbr < lower_limit (gs_states m ! gs_current m)
      then (if gs_current m \<noteq> 0 then m\<lparr>gs_current := gs_current m - 1\<rparr> else m)
      else let up = Suc (gs_current m)
           in if up \<noteq> length (gs_states m) \<and> cbr \<ge> lower_limit (gs_states m ! up)
              then m\<lparr>gs_current := up\<rparr> else m)"

definition gradual_interval :: "GradualStateMachine \<Rightarrow> duration" where
  "gradual_interval m = off_time (gs_states m ! gs_current m)"

section \<open>LIMERIC\<close>

record LimericParameters =
  alpha :: UnitInterval
  beta :: UnitInterval
  delta_max :: UnitInterval
  delta_min :: UnitInterval
  g_plus_max :: real
  g_minus_max :: real
  cbr_target :: ChannelLoad
  cbr_interval :: duration

definition limericDefaultParams :: LimericParameters where
  "limericDefaultParams =
     \<lparr>alpha = 0.016, beta = 0.0012, delta_max = 0.03, delta_min = 0.0006, g_plus_max = 0.0005,
      g_minus_max = -0.00025, cbr_target = 0.68, cbr_interval = milliseconds 100\<rparr>"

record DualAlphaParameters =
  alternate_alpha :: UnitInterval
  threshold :: UnitInterval

record Limeric =
  lim_params :: LimericParameters
  lim_dual_alpha :: "DualAlphaParameters option"
  lim_channel_load :: ChannelLoad
  lim_duty_cycle :: UnitInterval
  lim_cbr :: "ChannelLoad circular_buffer"

definition limeric :: "LimericParameters \<Rightarrow> Limeric" where
  "limeric params =
     \<lparr>lim_params = params, lim_dual_alpha = None, lim_channel_load = 0,
      lim_duty_cycle = unit_interval_mean2 (delta_max params) (delta_min params),
      lim_cbr = \<lparr>cb_capacity = 2, cb_items = []\<rparr>\<rparr>"

definition average_cbr :: "Limeric \<Rightarrow> ChannelLoad" where
  "average_cbr l =
     (if cb_full (lim_cbr l)
      then unit_interval_add (unit_interval_scale (unit_interval_mean (cb_items (lim_cbr l))) 0.5)
             (unit_interval_scale (lim_channel_load l) 0.5)
      else lim_channel_load l)"

definition update_cbr :: "ChannelLoad \<Rightarrow> Limeric \<Rightarrow> Limeric" where
  "update_cbr cbr l =
     (let full = cb_full (lim_cbr l);
          l' = l\<lparr>lim_cbr := cb_push_back cbr (lim_cbr l)\<rparr>
      in if \<not> full then l'\<lparr>lim_channel_load := unit_interval_mean (cb_items (lim_cbr l'))\<rparr> else l')"

definition limit_delta :: "LimericParameters \<Rightarrow> UnitInterval \<Rightarrow> UnitInterval" where
  "limit_delta params delta = min (max delta (delta_min params)) (delta_max params)"

definition delta_offset :: "Limeric \<Rightarrow> real" where
  "delta_offset l =
     (let params = lim_params l;
          cbr_delta = cbr_target params - lim_channel_load l
      in if cbr_delta > 0 then min (beta params * cbr_delta) (g_plus_max params)
         else max (beta params * cbr_delta) (g_minus_max params))"

definition calculate_duty_cycle :: "Limeric \<Rightarrow> UnitInterval" where
  "calculate_duty_cycle l =
     (let params = lim_params l;
          delta = limit_delta params
            (unit_interval_add (unit_interval_times (complement (alpha params)) (lim_duty_cycle l)) (delta_offset l))
      in case lim_dual_alpha l of
           None \<Rightarrow> delta
         | Some dual \<Rightarrow>
             if unit_interval_subtract (lim_duty_cycle l) delta > threshold dual
             then limit_delta params
               (unit_interval_add (unit_interval_times (complement (alternate_alpha dual)) (lim_duty_cycle l))
                  (delta_offset l))
             else delta)"

definition limeric_calculate :: "Limeric \<Rightarrow> Limeric" where
  "limeric_calculate l0 =
     (let l = l0\<lparr>lim_channel_load := average_cbr l0\<rparr>
      in l\<lparr>lim_duty_cycle := calculate_duty_cycle l\<rparr>)"

text \<open>The remainder of C++ truncates; time points are not before the epoch.\<close>

definition limeric_schedule :: "LimericParameters \<Rightarrow> time_point \<Rightarrow> time_point" where
  "limeric_schedule params now =
     (let scheduling_interval = 2 * cbr_interval params;
          tp = now + scheduling_interval;
          scheduling_bias = tp mod scheduling_interval
      in if scheduling_bias > cbr_interval params then tp + (scheduling_interval - scheduling_bias)
         else if scheduling_bias > 0 then tp - scheduling_bias
         else tp)"

definition configure_dual_alpha :: "DualAlphaParameters option \<Rightarrow> Limeric \<Rightarrow> Limeric" where
  "configure_dual_alpha params l = l\<lparr>lim_dual_alpha := params\<rparr>"

section \<open>Budgets\<close>

record BurstBudget =
  bb_messages :: "time_point circular_buffer"
  bb_burst_duration :: duration
  bb_burst_period :: duration

definition burst_budget :: BurstBudget where
  "burst_budget = \<lparr>bb_messages = \<lparr>cb_capacity = 20, cb_items = []\<rparr>,
     bb_burst_duration = milliseconds 1000, bb_burst_period = milliseconds 10000\<rparr>"

definition burst_delay :: "time_point \<Rightarrow> BurstBudget \<Rightarrow> duration \<times> BurstBudget" where
  "burst_delay now b =
     (case cb_items (bb_messages b) of
        [] \<Rightarrow> (0, b)
      | front # _ \<Rightarrow>
          if front + bb_burst_duration b > now \<and> \<not> cb_full (bb_messages b) then (0, b)
          else if front + bb_burst_period b < now then (0, b\<lparr>bb_messages := (bb_messages b)\<lparr>cb_items := []\<rparr>\<rparr>)
          else (front + bb_burst_period b - now, b))"

definition burst_notify :: "time_point \<Rightarrow> BurstBudget \<Rightarrow> BurstBudget" where
  "burst_notify now b = b\<lparr>bb_messages := cb_push_back now (bb_messages b)\<rparr>"

definition burst_messages :: "nat \<Rightarrow> BurstBudget \<Rightarrow> BurstBudget" where
  "burst_messages n b = b\<lparr>bb_messages := cb_resize n 0 (bb_messages b)\<rparr>"

definition set_burst_duration :: "duration \<Rightarrow> BurstBudget \<Rightarrow> BurstBudget" where
  "set_burst_duration d b = b\<lparr>bb_burst_duration := d\<rparr>"

definition set_burst_period :: "duration \<Rightarrow> BurstBudget \<Rightarrow> BurstBudget" where
  "set_burst_period p b = b\<lparr>bb_burst_period := p\<rparr>"

record StateMachineBudget =
  smb_last_tx :: "time_point option"

definition fsm_delay :: "duration \<Rightarrow> time_point \<Rightarrow> StateMachineBudget \<Rightarrow> duration" where
  "fsm_delay tx_interval now b =
     (case smb_last_tx b of
        None \<Rightarrow> 0
      | Some last_tx \<Rightarrow> if last_tx + tx_interval < now then 0 else last_tx + tx_interval - now)"

definition fsm_notify :: "time_point \<Rightarrow> StateMachineBudget \<Rightarrow> StateMachineBudget" where
  "fsm_notify now b = b\<lparr>smb_last_tx := Some now\<rparr>"

record LimericBudget =
  lb_interval :: duration
  lb_tx_start :: time_point
  lb_tx_on :: duration

definition min_interval :: duration where "min_interval = milliseconds 25"
definition max_interval :: duration where "max_interval = milliseconds 1000"

definition clamp_interval :: "duration \<Rightarrow> duration" where
  "clamp_interval i = min (max i min_interval) max_interval"

definition limeric_delay :: "time_point \<Rightarrow> LimericBudget \<Rightarrow> duration" where
  "limeric_delay now b =
     (if now \<ge> lb_tx_start b + lb_interval b then 0 else lb_tx_start b + lb_interval b - now)"

text \<open>
  With a duty cycle of zero the quotient is infinite or not a number and its conversion to a
  duration is undefined; the permitted duty cycle of LIMERIC is positive.
\<close>

definition limeric_notify :: "UnitInterval \<Rightarrow> time_point \<Rightarrow> duration \<Rightarrow> LimericBudget \<Rightarrow> LimericBudget" where
  "limeric_notify duty_cycle now tx_on b =
     b\<lparr>lb_tx_start := now, lb_tx_on := tx_on,
       lb_interval := clamp_interval (truncate_real (real_of_int tx_on / duty_cycle))\<rparr>"

definition limeric_update :: "UnitInterval \<Rightarrow> time_point \<Rightarrow> LimericBudget \<Rightarrow> LimericBudget" where
  "limeric_update duty_cycle now b =
     (let remaining = lb_tx_start b + lb_interval b - now
      in if duty_cycle > 0
         then if remaining > 0
              then let i = (real_of_int (lb_tx_on b) / duty_cycle) * (real_of_int remaining / real_of_int (lb_interval b))
                   in b\<lparr>lb_interval := clamp_interval (truncate_real i + now - lb_tx_start b)\<rparr>
              else b\<lparr>lb_interval := clamp_interval (truncate_real (real_of_int (lb_tx_on b) / duty_cycle))\<rparr>
         else b\<lparr>lb_interval := max_interval\<rparr>)"

definition limeric_budget :: "UnitInterval \<Rightarrow> time_point \<Rightarrow> LimericBudget" where
  "limeric_budget duty_cycle now =
     limeric_update duty_cycle now \<lparr>lb_interval = min_interval, lb_tx_start = - (2 ^ 63), lb_tx_on = 0\<rparr>"

section \<open>Rate controls\<close>

record BurstyTransmitRateControl =
  m_burst_budget :: BurstBudget
  m_fsm_budget :: StateMachineBudget

definition bursty_delay ::
    "duration \<Rightarrow> time_point \<Rightarrow> Transmission \<Rightarrow> BurstyTransmitRateControl \<Rightarrow> duration \<times> BurstyTransmitRateControl" where
  "bursty_delay fsm_interval now tx trc =
     (case tx_profile tx of
        DP0 \<Rightarrow> (let (d, b) = burst_delay now (m_burst_budget trc) in (d, trc\<lparr>m_burst_budget := b\<rparr>))
      | _ \<Rightarrow> (fsm_delay fsm_interval now (m_fsm_budget trc), trc))"

definition bursty_interval :: "duration \<Rightarrow> Transmission \<Rightarrow> BurstyTransmitRateControl \<Rightarrow> duration" where
  "bursty_interval fsm_interval tx trc =
     (case tx_profile tx of DP0 \<Rightarrow> bb_burst_period (m_burst_budget trc) | _ \<Rightarrow> fsm_interval)"

definition bursty_notify :: "time_point \<Rightarrow> Transmission \<Rightarrow> BurstyTransmitRateControl \<Rightarrow> BurstyTransmitRateControl" where
  "bursty_notify now tx trc =
     (case tx_profile tx of
        DP0 \<Rightarrow> trc\<lparr>m_burst_budget := burst_notify now (m_burst_budget trc)\<rparr>
      | _ \<Rightarrow> trc\<lparr>m_fsm_budget := fsm_notify now (m_fsm_budget trc)\<rparr>)"

definition smoothing_indicate :: "UnitInterval \<Rightarrow> ChannelLoad \<Rightarrow> ChannelLoad \<Rightarrow> ChannelLoad" where
  "smoothing_indicate a cl channel_load =
     unit_interval_add (unit_interval_times a cl) (unit_interval_times (complement a) channel_load)"

section \<open>Gradual state machine\<close>

definition gradual_wf :: "GradualStateMachine \<Rightarrow> bool" where
  "gradual_wf m \<longleftrightarrow> gs_current m < length (gs_states m) \<and> sorted (map lower_limit (gs_states m))"

text \<open>The state for a channel load: the last one whose lower limit is reached, or the first.\<close>

definition gradual_target :: "ChannelLoad \<Rightarrow> GradualStateMachine \<Rightarrow> nat" where
  "gradual_target cbr m = length (takeWhile (\<lambda>s. lower_limit s \<le> cbr) (gs_states m)) - 1"

lemma gradual_update_states [simp]: "gs_states (gradual_update cbr m) = gs_states m"
  by (simp add: gradual_update_def Let_def)

lemma gradual_limits:
  assumes "gradual_wf m"
  shows "j < length (gs_states m) \<Longrightarrow> j \<noteq> 0 \<Longrightarrow> lower_limit (gs_states m ! j) \<le> cbr \<longleftrightarrow> j \<le> gradual_target cbr m"
    and "gradual_target cbr m < length (gs_states m)"
proof -
  let ?n = "length (takeWhile (\<lambda>s. lower_limit s \<le> cbr) (gs_states m))"
  have sorted: "sorted (map lower_limit (gs_states m))" using assms by (simp add: gradual_wf_def)
  have below: "lower_limit (gs_states m ! j) \<le> cbr" if "j < ?n" for j
    using that set_takeWhileD [of "takeWhile (\<lambda>s. lower_limit s \<le> cbr) (gs_states m) ! j"]
    by (metis nth_mem takeWhile_nth)
  have above: "\<not> lower_limit (gs_states m ! j) \<le> cbr" if "?n \<le> j" "j < length (gs_states m)" for j
  proof -
    have "\<not> lower_limit (gs_states m ! ?n) \<le> cbr" using that by (intro nth_length_takeWhile) simp
    moreover have "lower_limit (gs_states m ! ?n) \<le> lower_limit (gs_states m ! j)"
      using sorted_nth_mono [OF sorted that(1)] that by simp
    ultimately show ?thesis by simp
  qed
  show "lower_limit (gs_states m ! j) \<le> cbr \<longleftrightarrow> j \<le> gradual_target cbr m" if "j < length (gs_states m)" "j \<noteq> 0"
    using below [of j] above [of j] that by (cases "j < ?n") (auto simp: gradual_target_def)
  show "gradual_target cbr m < length (gs_states m)"
    using assms length_takeWhile_le [of "\<lambda>s. lower_limit s \<le> cbr" "gs_states m"]
    unfolding gradual_target_def gradual_wf_def by linarith
qed

lemma gradual_update_moves:
  assumes "gradual_wf m"
  shows "gs_current (gradual_update cbr m) =
    (if gs_current m < gradual_target cbr m then gs_current m + 1
     else if gradual_target cbr m < gs_current m then gs_current m - 1 else gs_current m)"
proof -
  let ?i = "gs_current m" and ?t = "gradual_target cbr m"
  have i: "?i < length (gs_states m)" using assms by (simp add: gradual_wf_def)
  have sorted: "sorted (map lower_limit (gs_states m))" using assms by (simp add: gradual_wf_def)
  have here: "lower_limit (gs_states m ! ?i) \<le> cbr \<longleftrightarrow> ?i \<le> ?t" if "?i \<noteq> 0"
    using gradual_limits(1) [OF assms i that] .
  have up: "lower_limit (gs_states m ! Suc ?i) \<le> cbr \<longleftrightarrow> Suc ?i \<le> ?t" if "Suc ?i < length (gs_states m)"
    using gradual_limits(1) [OF assms that] by simp
  have first: "lower_limit (gs_states m ! 0) \<le> cbr" if "0 < ?t"
  proof -
    have t: "?t < length (gs_states m)" using gradual_limits(2) [OF assms] .
    have "gs_states m \<noteq> []" using i by auto
    then have "lower_limit (gs_states m ! 0) \<le> lower_limit (gs_states m ! ?t)"
      using sorted_nth_mono [OF sorted, of 0 ?t] t nth_map [of 0 "gs_states m" lower_limit] by simp
    then show ?thesis using gradual_limits(1) [OF assms t, of cbr] that by simp
  qed
  have t: "?t < length (gs_states m)" using gradual_limits(2) [OF assms] .
  consider (lower) "?i < ?t" | (upper) "?t < ?i" | (same) "?i = ?t" by linarith
  then show ?thesis
  proof cases
    case lower
    then have "Suc ?i < length (gs_states m)" using t by simp
    moreover have "lower_limit (gs_states m ! ?i) \<le> cbr" using lower here first by (cases "?i = 0") auto
    ultimately show ?thesis using lower up by (simp add: gradual_update_def Let_def not_less)
  next
    case upper
    then have "cbr < lower_limit (gs_states m ! ?i)" using here by (simp add: not_le)
    then show ?thesis using upper by (simp add: gradual_update_def Let_def)
  next
    case same
    have "?i = 0" if "cbr < lower_limit (gs_states m ! ?i)" using that here same by auto
    moreover have "\<not> lower_limit (gs_states m ! Suc ?i) \<le> cbr" if "Suc ?i < length (gs_states m)" using up [OF that] same by simp
    ultimately show ?thesis using same i by (auto simp: gradual_update_def Let_def)
  qed
qed

lemma gradual_wf_update: "gradual_wf m \<Longrightarrow> gradual_wf (gradual_update cbr m)"
  using gradual_update_moves [of m cbr] gradual_limits(2) [of m cbr]
  by (auto simp: gradual_wf_def)

lemma gradual_target_update [simp]: "gradual_target cbr (gradual_update c m) = gradual_target cbr m"
  by (simp add: gradual_target_def)

definition index_distance :: "nat \<Rightarrow> nat \<Rightarrow> nat" where
  "index_distance i j = (i - j) + (j - i)"

lemma gradual_approaches:
  "gradual_wf m \<Longrightarrow> index_distance (gs_current (gradual_update cbr m)) (gradual_target cbr m)
     = index_distance (gs_current m) (gradual_target cbr m) - 1"
  by (auto simp: gradual_update_moves index_distance_def)

lemma gradual_run:
  "gradual_wf m \<Longrightarrow>
     gradual_wf (((gradual_update cbr) ^^ n) m) \<and> gs_states (((gradual_update cbr) ^^ n) m) = gs_states m
     \<and> gradual_target cbr (((gradual_update cbr) ^^ n) m) = gradual_target cbr m
     \<and> index_distance (gs_current (((gradual_update cbr) ^^ n) m)) (gradual_target cbr m)
         = index_distance (gs_current m) (gradual_target cbr m) - n"
proof (induction n)
  case (Suc n)
  then show ?case
    using gradual_approaches [of "((gradual_update cbr) ^^ n) m" cbr] gradual_wf_update [of "((gradual_update cbr) ^^ n) m" cbr]
    by simp
qed simp

section \<open>Fully meshed state machine\<close>

lemma foldl_min_ge: "(\<forall>y \<in> set (x # xs). c \<le> y) \<Longrightarrow> (c :: real) \<le> foldl min x xs"
  by (induction xs arbitrary: x) auto

lemma foldl_max_less: "(x :: real) < c \<Longrightarrow> (\<forall>y \<in> set xs. y < c) \<Longrightarrow> foldl max x xs < c"
  by (induction xs arbitrary: x) auto

lemma foldl_max_ge: "(\<exists>y \<in> set (x # xs). c \<le> y) \<Longrightarrow> (c :: real) \<le> foldl max x xs"
  by (induction xs arbitrary: x) (auto simp: le_max_iff_disj)

definition fm_wf :: "FullyMeshedStateMachine \<Rightarrow> bool" where
  "fm_wf m \<longleftrightarrow> cb_capacity (fm_channel_loads m) = 50 \<and> length (cb_items (fm_channel_loads m)) \<le> 50 \<and> fm_substate m < 5"

lemma fully_meshed_update_loads:
  "fm_channel_loads (fully_meshed_update cl m) = cb_push_front cl (fm_channel_loads m)"
  by (simp add: fully_meshed_update_def Let_def enter_active_def split: DccState.splits)

lemma fm_wf_initial: "fm_wf fully_meshed_state_machine"
  by (simp add: fm_wf_def fully_meshed_state_machine_def N_samples_up_def N_samples_down_def)

lemma fm_wf_update: "fm_wf m \<Longrightarrow> fm_wf (fully_meshed_update cl m)"
  by (auto simp: fm_wf_def fully_meshed_update_def Let_def enter_active_def cb_push_front_def active_substate_def
      split: DccState.splits)

lemma fully_meshed_fold_loads:
  "fm_wf m \<Longrightarrow> fm_wf (fold fully_meshed_update cls m)
     \<and> cb_items (fm_channel_loads (fold fully_meshed_update cls m)) = take 50 (rev cls @ cb_items (fm_channel_loads m))"
proof (induction cls arbitrary: m)
  case Nil
  then show ?case by (simp add: fm_wf_def)
next
  case (Cons cl cls)
  have "take 50 (rev cls @ take 50 ys) = take 50 (rev cls @ ys)" for ys :: "real list"
    by (simp add: min_def)
  moreover have "cb_items (fm_channel_loads (fully_meshed_update cl m)) = take 50 (cl # cb_items (fm_channel_loads m))"
    using Cons.prems by (simp add: fully_meshed_update_loads cb_push_front_def fm_wf_def)
  ultimately show ?case
    using Cons.IH [OF fm_wf_update [OF Cons.prems, of cl]] by (metis append_Cons append_Nil append_assoc fold_simps(2) rev.simps(2))
qed

lemma min_channel_load_ge:
  assumes "fm_wf m" and "10 \<le> length cls" and "\<forall>c \<in> set cls. l \<le> c"
  shows "l \<le> min_channel_load (fold fully_meshed_update cls m)"
proof -
  have "take 10 (take 50 (rev cls @ ys)) = take 10 (rev cls)" for ys using assms(2) by simp
  then have items: "take 10 (cb_items (fm_channel_loads (fold fully_meshed_update cls m))) = take 10 (rev cls)"
    using fully_meshed_fold_loads [OF assms(1), of cls] by simp
  obtain x xs where "take 10 (rev cls) = x # xs" using assms(2) by (cases "take 10 (rev cls)") auto
  moreover from this have "\<forall>y \<in> set (x # xs). l \<le> y"
    using assms(3) by (metis in_set_takeD set_rev)
  ultimately show ?thesis
    using foldl_min_ge [of x xs l] items by (simp add: min_channel_load_def N_samples_up_def)
qed

lemma max_channel_load_less:
  assumes "fm_wf m" and "50 \<le> length cls" and "\<forall>c \<in> set cls. c < l" and "0 < l"
  shows "max_channel_load (fold fully_meshed_update cls m) < l"
proof -
  have "take 50 (rev cls @ ys) = take 50 (rev cls)" for ys using assms(2) by simp
  then have "take 50 (cb_items (fm_channel_loads (fold fully_meshed_update cls m))) = take 50 (rev cls)"
    using fully_meshed_fold_loads [OF assms(1), of cls] by simp
  moreover have "\<forall>y \<in> set (take 50 (rev cls)). y < l" using assms(3) by (metis in_set_takeD set_rev)
  ultimately show ?thesis using foldl_max_less [OF assms(4)] by (simp add: max_channel_load_def N_samples_down_def)
qed

lemma max_channel_load_ge_last:
  assumes "fm_wf m" and "cls \<noteq> []" and "l \<le> last cls"
  shows "l \<le> max_channel_load (fold fully_meshed_update cls m)"
proof -
  have "take 50 (rev cls @ ys) = last cls # take 49 (tl (rev cls) @ ys)" for ys
    using assms(2) by (cases cls rule: rev_cases) (simp_all add: take_Cons')
  then have "last cls \<in> set (take 50 (cb_items (fm_channel_loads (fold fully_meshed_update cls m))))"
    using fully_meshed_fold_loads [OF assms(1), of cls] by simp
  then show ?thesis
    using assms(3) foldl_max_ge [of 0 _ l] by (auto simp: max_channel_load_def N_samples_down_def)
qed

lemma min_channel_load_le_last:
  assumes "fm_wf m" and "cls \<noteq> []" and "last cls < l"
  shows "min_channel_load (fold fully_meshed_update cls m) < l"
proof -
  have "foldl min x ys \<le> x" for x :: real and ys
    by (induction ys arbitrary: x) (simp, metis foldl_Cons min.boundedE)
  moreover have "take 10 (rev cls @ ys) = last cls # take 9 (tl (rev cls) @ ys)" for ys
    using assms(2) by (cases cls rule: rev_cases) (simp_all add: take_Cons')
  moreover have "take 10 (cb_items (fm_channel_loads (fold fully_meshed_update cls m)))
      = take 10 (rev cls @ cb_items (fm_channel_loads m))"
    using fully_meshed_fold_loads [OF assms(1), of cls] by (simp del: take_append)
  ultimately show ?thesis
    using assms(3) by (simp add: min_channel_load_def N_samples_up_def del: take_append) (metis le_less_trans)
qed

lemma fully_meshed_update_state:
  "fm_state (fully_meshed_update cl m) =
     (let m' = m\<lparr>fm_channel_loads := cb_push_front cl (fm_channel_loads m)\<rparr>
      in case fm_state m of
           Relaxed \<Rightarrow> if min_channel_load m' \<ge> NDL_minChannelLoad then Active else Relaxed
         | Restrictive \<Rightarrow> if max_channel_load m' < NDL_maxChannelLoad then Active else Restrictive
         | Active \<Rightarrow> if max_channel_load m' < NDL_minChannelLoad then Relaxed
                     else if min_channel_load m' \<ge> NDL_maxChannelLoad then Restrictive else Active)"
  by (simp add: fully_meshed_update_def Let_def enter_active_def split: DccState.splits)

lemma channel_load_updated:
  "min_channel_load (m\<lparr>fm_channel_loads := cb_push_front cl (fm_channel_loads m)\<rparr>) = min_channel_load (fully_meshed_update cl m)"
  "max_channel_load (m\<lparr>fm_channel_loads := cb_push_front cl (fm_channel_loads m)\<rparr>) = max_channel_load (fully_meshed_update cl m)"
  by (simp_all add: min_channel_load_def max_channel_load_def fully_meshed_update_loads)

text \<open>One update under sustained high or low load: the state follows after at most two steps.\<close>

lemma high_load_step:
  assumes "fm_wf m" and "10 \<le> length cls" and "\<forall>c \<in> set cls. NDL_maxChannelLoad \<le> c"
  shows "fm_state (fold fully_meshed_update cls m) =
    (if fm_state (fold fully_meshed_update (butlast cls) m) = Relaxed then Active else Restrictive)"
proof -
  have ne: "cls \<noteq> []" using assms(2) by auto
  let ?m = "fold fully_meshed_update (butlast cls) m"
  have m: "fold fully_meshed_update cls m = fully_meshed_update (last cls) ?m"
    using ne by (cases cls rule: rev_cases) simp_all
  have "NDL_maxChannelLoad \<le> min_channel_load (fully_meshed_update (last cls) ?m)"
    "NDL_maxChannelLoad \<le> max_channel_load (fully_meshed_update (last cls) ?m)"
    using min_channel_load_ge [OF assms] max_channel_load_ge_last [OF assms(1) ne] assms(3) ne m by simp_all
  then show ?thesis
    unfolding m fully_meshed_update_state Let_def channel_load_updated
    by (auto simp: NDL_minChannelLoad_def NDL_maxChannelLoad_def split: DccState.splits)
qed

lemma low_load_step:
  assumes "fm_wf m" and "50 \<le> length cls" and "\<forall>c \<in> set cls. c < NDL_minChannelLoad"
  shows "fm_state (fold fully_meshed_update cls m) =
    (if fm_state (fold fully_meshed_update (butlast cls) m) = Restrictive then Active else Relaxed)"
proof -
  have ne: "cls \<noteq> []" using assms(2) by auto
  let ?m = "fold fully_meshed_update (butlast cls) m"
  have m: "fold fully_meshed_update cls m = fully_meshed_update (last cls) ?m"
    using ne by (cases cls rule: rev_cases) simp_all
  have pos: "0 < NDL_minChannelLoad" by (simp add: NDL_minChannelLoad_def)
  have low: "last cls < NDL_minChannelLoad" using assms(3) ne by (metis last_in_set)
  have "max_channel_load (fully_meshed_update (last cls) ?m) < NDL_minChannelLoad"
    "min_channel_load (fully_meshed_update (last cls) ?m) < NDL_minChannelLoad"
    using max_channel_load_less [OF assms pos] min_channel_load_le_last [OF assms(1) ne low]
    unfolding m by blast+
  then show ?thesis
    unfolding m fully_meshed_update_state Let_def channel_load_updated
    by (auto simp: NDL_minChannelLoad_def NDL_maxChannelLoad_def split: DccState.splits)
qed

text \<open>
   The reactive state machine follows sustained load from every reachable state. After eleven
  or more measurements at or above the upper limit the machine is Restrictive and permits one
  message per 460 ms; after fifty-one or more below the lower limit it is Relaxed and permits one
  per 60 ms.
\<close>

theorem fully_meshed_reacts:
  assumes "fm_wf m"
  shows "(11 \<le> length cls \<and> (\<forall>c \<in> set cls. NDL_maxChannelLoad \<le> c) \<longrightarrow>
      fm_state (fold fully_meshed_update cls m) = Restrictive
      \<and> fully_meshed_interval (fold fully_meshed_update cls m) = milliseconds 460)
    \<and> (51 \<le> length cls \<and> (\<forall>c \<in> set cls. c < NDL_minChannelLoad) \<longrightarrow>
      fm_state (fold fully_meshed_update cls m) = Relaxed
      \<and> fully_meshed_interval (fold fully_meshed_update cls m) = milliseconds 60)"
proof -
  have sub: "\<forall>c \<in> set cls. P c \<Longrightarrow> \<forall>c \<in> set (butlast cls). P c" for P
    by (meson in_set_butlastD)
  have "fm_state (fold fully_meshed_update cls m) = Restrictive"
    if "11 \<le> length cls" and "\<forall>c \<in> set cls. NDL_maxChannelLoad \<le> c"
    using high_load_step [OF assms, of cls] high_load_step [OF assms, of "butlast cls"] that sub [OF that(2)]
    by (auto split: if_splits)
  moreover have "fm_state (fold fully_meshed_update cls m) = Relaxed"
    if "51 \<le> length cls" and "\<forall>c \<in> set cls. c < NDL_minChannelLoad"
    using low_load_step [OF assms, of cls] low_load_step [OF assms, of "butlast cls"] that sub [OF that(2)]
    by (auto split: if_splits)
  ultimately show ?thesis by (simp add: fully_meshed_interval_def)
qed

theorem fully_meshed_reacts_witness:
  "fm_state (fold fully_meshed_update (replicate 11 0.7) fully_meshed_state_machine) = Restrictive
   \<and> fm_state (fold fully_meshed_update (replicate 51 0.1)
        (fold fully_meshed_update (replicate 11 0.7) fully_meshed_state_machine)) = Relaxed"
  using fully_meshed_reacts [OF fm_wf_initial, of "replicate 11 0.7"]
    fully_meshed_reacts [of "fold fully_meshed_update (replicate 11 0.7) fully_meshed_state_machine" "replicate 51 0.1"]
    fully_meshed_fold_loads [OF fm_wf_initial, of "replicate 11 0.7"]
  by (auto simp: NDL_maxChannelLoad_def NDL_minChannelLoad_def simp del: replicate.simps)

text \<open>
  Within Active the smaller load of the up window never matters: whenever it is at most the larger
  load of the down window, the substate is the one of the down window.
\<close>

lemma upper_bound_index_mono: "v \<le> w \<Longrightarrow> upper_bound_index xs v \<le> upper_bound_index xs w"
  by (induction xs) (auto simp: upper_bound_index_def)

lemma active_substate_down:
  "min_cl \<le> max_cl \<Longrightarrow> active_substate min_cl max_cl = min 4 (upper_bound_index active_channel_loads max_cl)"
  using upper_bound_index_mono [of min_cl max_cl active_channel_loads] by (simp add: active_substate_def max_def)

text \<open>
   The gradual state machine settles: as many measurements of an unchanged load as there are
  states suffice, whatever the state before, to bring it to the state whose lower limit the load
  has reached while it has not reached the next one's.
\<close>

theorem gradual_settles:
  assumes "gradual_wf m" and "length (gs_states m) \<le> n"
  shows "let m' = ((gradual_update cbr) ^^ n) m
    in gs_states m' = gs_states m \<and> gs_current m' < length (gs_states m)
      \<and> (gs_current m' \<noteq> 0 \<longrightarrow> lower_limit (gs_states m ! gs_current m') \<le> cbr)
      \<and> (\<forall>j. gs_current m' < j \<and> j < length (gs_states m) \<longrightarrow> cbr < lower_limit (gs_states m ! j))
      \<and> gradual_interval m' = off_time (gs_states m ! gs_current m')"
proof -
  let ?m' = "((gradual_update cbr) ^^ n) m"
  have "index_distance (gs_current m) (gradual_target cbr m) \<le> length (gs_states m)"
    using assms(1) gradual_limits(2) [OF assms(1), of cbr] by (auto simp: index_distance_def gradual_wf_def)
  then have "gs_current ?m' = gradual_target cbr m"
    using gradual_run [OF assms(1), of n cbr] assms(2) by (auto simp: index_distance_def)
  moreover have "cbr < lower_limit (gs_states m ! j)" if "gradual_target cbr m < j" "j < length (gs_states m)" for j
    using gradual_limits(1) [OF assms(1), of j cbr] that by (simp add: linorder_not_le)
  moreover have "gs_states ?m' = gs_states m" using gradual_run [OF assms(1), of n cbr] by simp
  ultimately show ?thesis
    using gradual_limits(1) [OF assms(1), of "gradual_target cbr m" cbr] gradual_limits(2) [OF assms(1), of cbr]
    by (auto simp: Let_def gradual_interval_def)
qed

theorem gradual_settles_witness:
  "gs_current (((gradual_update 0.45) ^^ 5) (gradual_state_machine etsiStates1ms)) = 2"
proof -
  let ?m = "gradual_state_machine etsiStates1ms"
  have m: "gs_states ?m = etsiStates1ms" "gs_current ?m = 0"
    by (simp_all add: gradual_state_machine_def gradual_repair_def etsiStates1ms_def)
  then have "gradual_wf ?m" by (simp add: gradual_wf_def etsiStates1ms_def)
  then have g: "let m' = ((gradual_update 0.45) ^^ 5) ?m in
      gs_current m' < 5 \<and> (gs_current m' \<noteq> 0 \<longrightarrow> lower_limit (etsiStates1ms ! gs_current m') \<le> 0.45)
      \<and> (\<forall>j. gs_current m' < j \<and> j < 5 \<longrightarrow> 0.45 < lower_limit (etsiStates1ms ! j))"
    using gradual_settles [where m = ?m and n = 5 and cbr = "0.45"] m by (auto simp: Let_def etsiStates1ms_def)
  then have "gs_current (((gradual_update 0.45) ^^ 5) ?m) \<in> {0, 1, 2, 3, 4}" by (auto simp: Let_def)
  moreover have "\<not> gs_current (((gradual_update 0.45) ^^ 5) ?m) < 2"
    using g by (auto simp: Let_def etsiStates1ms_def dest!: spec [of _ 2])
  ultimately show ?thesis using g by (auto simp: Let_def etsiStates1ms_def)
qed

section \<open>LIMERIC\<close>

definition limeric_params_ok :: "LimericParameters \<Rightarrow> bool" where
  "limeric_params_ok p \<longleftrightarrow> 0 < alpha p \<and> alpha p \<le> 1 \<and> 0 \<le> delta_min p \<and> delta_min p \<le> delta_max p \<and> delta_max p \<le> 1"

lemma limeric_params_ok_default: "limeric_params_ok limericDefaultParams"
  by (simp add: limeric_params_ok_def limericDefaultParams_def)

definition limeric_in_range :: "Limeric \<Rightarrow> bool" where
  "limeric_in_range l \<longleftrightarrow> delta_min (lim_params l) \<le> lim_duty_cycle l \<and> lim_duty_cycle l \<le> delta_max (lim_params l)"

lemma limit_delta_range: "limeric_params_ok p \<Longrightarrow> delta_min p \<le> limit_delta p d \<and> limit_delta p d \<le> delta_max p"
  by (auto simp: limit_delta_def limeric_params_ok_def)

lemma limeric_in_range_initial: "limeric_params_ok p \<Longrightarrow> limeric_in_range (limeric p)"
  by (simp add: limeric_in_range_def limeric_def limeric_params_ok_def unit_interval_mean2_eq unit_interval_def)

lemma limeric_in_range_calculate:
  "limeric_params_ok (lim_params l) \<Longrightarrow> limeric_in_range (limeric_calculate l)"
  using limit_delta_range
  by (auto simp: limeric_in_range_def limeric_calculate_def calculate_duty_cycle_def Let_def split: option.splits)

text \<open>Measurements leave the duty cycle alone.\<close>

lemma limeric_update_cbr [simp]:
  "lim_params (update_cbr c l) = lim_params l" "lim_duty_cycle (update_cbr c l) = lim_duty_cycle l"
  "lim_dual_alpha (update_cbr c l) = lim_dual_alpha l"
  by (simp_all add: update_cbr_def Let_def)

text \<open>A steady channel: the two latest measurements and the smoothed load agree.\<close>

definition limeric_steady :: "ChannelLoad \<Rightarrow> Limeric \<Rightarrow> bool" where
  "limeric_steady c l \<longleftrightarrow> unit_interval c \<and> lim_channel_load l = c \<and> lim_cbr l = \<lparr>cb_capacity = 2, cb_items = [c, c]\<rparr>
     \<and> lim_dual_alpha l = None"

definition duty_offset :: "LimericParameters \<Rightarrow> ChannelLoad \<Rightarrow> real" where
  "duty_offset p c = (if cbr_target p - c > 0 then min (beta p * (cbr_target p - c)) (g_plus_max p)
     else max (beta p * (cbr_target p - c)) (g_minus_max p))"

definition duty_equilibrium :: "LimericParameters \<Rightarrow> ChannelLoad \<Rightarrow> real" where
  "duty_equilibrium p c = limit_delta p (duty_offset p c / alpha p)"

lemma limeric_steady_calculate:
  assumes "limeric_steady c l"
  shows "limeric_steady c (limeric_calculate l)" and "lim_params (limeric_calculate l) = lim_params l"
    and "lim_duty_cycle (limeric_calculate l) =
      limit_delta (lim_params l) (clamp ((1 - alpha (lim_params l)) * lim_duty_cycle l + duty_offset (lim_params l) c))"
proof -
  have "unit_interval_mean [c, c] = c"
    using assms unit_interval_mean_eq [of "[c, c]"] by (simp add: limeric_steady_def)
  moreover have "unit_interval (c / 2)" using assms by (simp add: limeric_steady_def unit_interval_def)
  ultimately have avg: "average_cbr l = c"
    using assms by (simp add: average_cbr_def cb_full_def limeric_steady_def unit_interval_add_def unit_interval_scale_def)
  then show "limeric_steady c (limeric_calculate l)" "lim_params (limeric_calculate l) = lim_params l"
    using assms by (simp_all add: limeric_steady_def limeric_calculate_def Let_def)
  show "lim_duty_cycle (limeric_calculate l) =
      limit_delta (lim_params l) (clamp ((1 - alpha (lim_params l)) * lim_duty_cycle l + duty_offset (lim_params l) c))"
    using assms avg
    by (simp add: limeric_steady_def limeric_calculate_def calculate_duty_cycle_def delta_offset_def duty_offset_def
        unit_interval_add_def unit_interval_times_def complement_def Let_def)
qed

lemma limit_delta_nonexpansive: "\<bar>limit_delta p (clamp x) - limit_delta p (clamp y)\<bar> \<le> \<bar>x - y\<bar>"
  by (simp add: limit_delta_def clamp_def min_def max_def abs_if)

lemma duty_equilibrium_fixed:
  assumes "limeric_params_ok p"
  shows "limit_delta p (clamp ((1 - alpha p) * duty_equilibrium p c + duty_offset p c)) = duty_equilibrium p c"
proof -
  let ?o = "duty_offset p c" and ?a = "alpha p"
  have a: "0 < ?a" using assms by (simp add: limeric_params_ok_def)
  consider (low) "?o / ?a < delta_min p" | (mid) "delta_min p \<le> ?o / ?a" "?o / ?a \<le> delta_max p" | (high) "delta_max p < ?o / ?a"
    by linarith
  then show ?thesis
  proof cases
    case low
    then have "?o < ?a * delta_min p" using a by (simp add: field_simps)
    moreover have "duty_equilibrium p c = delta_min p"
      using low assms by (simp add: duty_equilibrium_def limit_delta_def limeric_params_ok_def)
    ultimately show ?thesis using assms by (auto simp: limit_delta_def clamp_def limeric_params_ok_def algebra_simps)
  next
    case mid
    then have e: "duty_equilibrium p c = ?o / ?a" by (simp add: duty_equilibrium_def limit_delta_def)
    then have "(1 - ?a) * duty_equilibrium p c + ?o = ?o / ?a" using a by (simp add: field_simps)
    moreover have "unit_interval (?o / ?a)" using mid assms unfolding unit_interval_def limeric_params_ok_def by linarith
    ultimately show ?thesis using mid by (simp add: e limit_delta_def)
  next
    case high
    then have "?a * delta_max p < ?o" using a by (simp add: field_simps)
    moreover have "duty_equilibrium p c = delta_max p"
      using high assms by (simp add: duty_equilibrium_def limit_delta_def limeric_params_ok_def)
    ultimately show ?thesis using assms by (auto simp: limit_delta_def clamp_def limeric_params_ok_def algebra_simps)
  qed
qed

lemma limeric_contracts:
  assumes "limeric_params_ok (lim_params l)" and "limeric_steady c l"
  shows "\<bar>lim_duty_cycle (limeric_calculate l) - duty_equilibrium (lim_params l) c\<bar>
    \<le> (1 - alpha (lim_params l)) * \<bar>lim_duty_cycle l - duty_equilibrium (lim_params l) c\<bar>"
proof -
  let ?p = "lim_params l" and ?e = "duty_equilibrium (lim_params l) c"
  have "\<bar>lim_duty_cycle (limeric_calculate l) - ?e\<bar>
      \<le> \<bar>((1 - alpha ?p) * lim_duty_cycle l + duty_offset ?p c) - ((1 - alpha ?p) * ?e + duty_offset ?p c)\<bar>"
    using limit_delta_nonexpansive duty_equilibrium_fixed [OF assms(1), of c] limeric_steady_calculate(3) [OF assms(2)]
    by metis
  also have "\<dots> = (1 - alpha ?p) * \<bar>lim_duty_cycle l - ?e\<bar>"
    using assms(1) by (simp add: limeric_params_ok_def abs_mult flip: right_diff_distrib)
  finally show ?thesis .
qed

text \<open>
  C30: LIMERIC converges: under a steady channel load the duty cycle approaches its equilibrium
  geometrically with ratio 1 - alpha, from every starting point, and it never leaves the permitted
  range from the first calculation on.
\<close>

theorem limeric_converges:
  assumes "limeric_params_ok (lim_params l)" and "limeric_steady c l"
  shows "\<bar>lim_duty_cycle ((limeric_calculate ^^ n) l) - duty_equilibrium (lim_params l) c\<bar>
      \<le> (1 - alpha (lim_params l)) ^ n * \<bar>lim_duty_cycle l - duty_equilibrium (lim_params l) c\<bar>
    \<and> (n \<noteq> 0 \<longrightarrow> limeric_in_range ((limeric_calculate ^^ n) l))"
proof -
  let ?p = "lim_params l" and ?e = "duty_equilibrium (lim_params l) c"
  let ?l = "\<lambda>n. (limeric_calculate ^^ n) l"
  have inv: "limeric_steady c (?l n) \<and> lim_params (?l n) = ?p
      \<and> \<bar>lim_duty_cycle (?l n) - ?e\<bar> \<le> (1 - alpha ?p) ^ n * \<bar>lim_duty_cycle l - ?e\<bar>" for n
  proof (induction n)
    case (Suc n)
    then have "\<bar>lim_duty_cycle (?l (Suc n)) - ?e\<bar> \<le> (1 - alpha ?p) * \<bar>lim_duty_cycle (?l n) - ?e\<bar>"
      using limeric_contracts [of "?l n" c] assms(1) by simp
    also have "\<dots> \<le> (1 - alpha ?p) * ((1 - alpha ?p) ^ n * \<bar>lim_duty_cycle l - ?e\<bar>)"
      using Suc assms(1) by (intro mult_left_mono) (simp_all add: limeric_params_ok_def)
    finally show ?case using Suc limeric_steady_calculate [of c "?l n"] by (simp add: mult.assoc)
  qed (simp add: assms(2))
  moreover have "limeric_in_range (?l n)" if "n \<noteq> 0"
    using that inv [of "n - 1"] limeric_in_range_calculate [of "?l (n - 1)"] assms(1) by (cases n) simp_all
  ultimately show ?thesis by blast
qed

theorem limeric_converges_witness:
  "\<bar>lim_duty_cycle ((limeric_calculate ^^ 3) ((limeric limericDefaultParams)
       \<lparr>lim_channel_load := 0.68, lim_cbr := \<lparr>cb_capacity = 2, cb_items = [0.68, 0.68]\<rparr>\<rparr>)) - 0.0006\<bar> \<le> 0.984 ^ 3 * 0.0147"
proof -
  let ?l = "(limeric limericDefaultParams)
       \<lparr>lim_channel_load := 0.68, lim_cbr := \<lparr>cb_capacity = 2, cb_items = [0.68, 0.68]\<rparr>\<rparr>"
  have ok: "limeric_params_ok (lim_params ?l)" "limeric_steady 0.68 ?l"
    by (simp_all add: limeric_def limeric_params_ok_default limeric_steady_def unit_interval_def)
  have d: "lim_duty_cycle ?l = 0.0153"
    by (simp add: limeric_def limericDefaultParams_def unit_interval_mean2_def clamp_def)
  have e: "duty_equilibrium (lim_params ?l) 0.68 = 0.0006"
    by (simp add: duty_equilibrium_def duty_offset_def limeric_def limericDefaultParams_def limit_delta_def)
  have a: "alpha (lim_params ?l) = 0.016" by (simp add: limeric_def limericDefaultParams_def)
  show ?thesis using limeric_converges [OF ok, of 3] unfolding a d e by simp
qed

text \<open>Calculations are scheduled on multiples of twice the measurement interval, one to two intervals ahead.\<close>

lemma limeric_schedule_aligned:
  assumes "0 < cbr_interval p"
  shows "limeric_schedule p now mod (2 * cbr_interval p) = 0"
    and "now + cbr_interval p \<le> limeric_schedule p now" and "limeric_schedule p now < now + 3 * cbr_interval p"
proof -
  let ?s = "2 * cbr_interval p"
  let ?b = "(now + ?s) mod ?s"
  have b: "0 \<le> ?b" "?b < ?s" using assms by simp_all
  have "((now + ?s) - ?b) mod ?s = 0" unfolding minus_mod_eq_mult_div by simp
  moreover have "((now + ?s) + (?s - ?b)) mod ?s = 0"
    using \<open>((now + ?s) - ?b) mod ?s = 0\<close> by (metis add_diff_eq diff_add_eq mod_add_self2)
  ultimately show "limeric_schedule p now mod ?s = 0" using b by (auto simp: limeric_schedule_def Let_def)
  show "now + cbr_interval p \<le> limeric_schedule p now" "limeric_schedule p now < now + 3 * cbr_interval p"
    using b assms unfolding limeric_schedule_def Let_def by (simp_all only: split: if_splits) linarith+
qed

section \<open>Rate limits\<close>

text \<open>
  A gate is driven by timed events; some of them are transmissions, which a well-behaved client
  performs only when the gate admits them. The contract: transmissions are remembered, and the
  gate admits none within the gap after the last. What follows is a bound on the number of
  transmissions in any window of time.
\<close>

primrec admitted :: "(time_point \<Rightarrow> 'e \<Rightarrow> 's \<Rightarrow> 's) \<Rightarrow> (time_point \<Rightarrow> 'e \<Rightarrow> 's \<Rightarrow> bool) \<Rightarrow> ('e \<Rightarrow> bool) \<Rightarrow>
    's \<Rightarrow> (time_point \<times> 'e) list \<Rightarrow> bool" where
  "admitted step adm sends s [] \<longleftrightarrow> True"
| "admitted step adm sends s (x # xs) \<longleftrightarrow>
     (sends (snd x) \<longrightarrow> adm (fst x) (snd x) s) \<and> admitted step adm sends (step (fst x) (snd x) s) xs"

definition send_times :: "('e \<Rightarrow> bool) \<Rightarrow> (time_point \<times> 'e) list \<Rightarrow> time_point list" where
  "send_times sends xs = map fst (filter (\<lambda>x. sends (snd x)) xs)"

definition count_within :: "time_point \<Rightarrow> duration \<Rightarrow> time_point list \<Rightarrow> int" where
  "count_within a w ts = int (length (filter (\<lambda>t. a \<le> t \<and> t < a + w) ts))"

lemma spaced_span:
  "sorted_wrt (\<lambda>t u. t + gap \<le> u) (t # ts) \<Longrightarrow> 0 < gap \<Longrightarrow> t + int (length ts) * gap \<le> last (t # ts)"
proof (induction ts arbitrary: t)
  case (Cons u ts)
  then have "u + int (length ts) * gap \<le> last (u # ts)" "t + gap \<le> u" by simp_all
  then show ?case by (simp add: algebra_simps)
qed simp

lemma spaced_count:
  assumes "sorted_wrt (\<lambda>t u. t + gap \<le> u) ts" and "0 < gap" and "0 \<le> w"
  shows "count_within a w ts * gap < w + gap"
proof (cases "filter (\<lambda>t. a \<le> t \<and> t < a + w) ts")
  case Nil
  then show ?thesis using assms by (simp add: count_within_def)
next
  case (Cons t us)
  have "sorted_wrt (\<lambda>t u. t + gap \<le> u) (t # us)" using assms(1) Cons by (metis sorted_wrt_filter)
  then have "t + int (length us) * gap \<le> last (t # us)" using spaced_span assms(2) by blast
  moreover have "\<forall>x \<in> set (t # us). a \<le> x \<and> x < a + w" unfolding Cons [symmetric] by simp
  then have "a \<le> t" "last (t # us) < a + w" using last_in_set [of "t # us"] by auto
  ultimately show ?thesis using Cons by (simp add: count_within_def algebra_simps)
qed

locale transmission_gate =
  fixes step :: "time_point \<Rightarrow> 'e \<Rightarrow> 's \<Rightarrow> 's"
    and adm :: "time_point \<Rightarrow> 'e \<Rightarrow> 's \<Rightarrow> bool"
    and sends :: "'e \<Rightarrow> bool"
    and inv :: "'s \<Rightarrow> bool"
    and last_sent :: "'s \<Rightarrow> time_point option"
    and gap :: duration
  assumes gap_positive: "0 < gap"
    and inv_step: "inv s \<Longrightarrow> inv (step t e s)"
    and last_step: "last_sent (step t e s) = (if sends e then Some t else last_sent s)"
    and spaced: "inv s \<Longrightarrow> sends e \<Longrightarrow> adm t e s \<Longrightarrow> last_sent s = Some l \<Longrightarrow> l + gap \<le> t"
begin

lemma sends_spaced:
  "inv s \<Longrightarrow> admitted step adm sends s xs \<Longrightarrow>
     sorted_wrt (\<lambda>t u. t + gap \<le> u) (send_times sends xs)
     \<and> (\<forall>l t ts. last_sent s = Some l \<longrightarrow> send_times sends xs = t # ts \<longrightarrow> l + gap \<le> t)"
proof (induction xs arbitrary: s)
  case (Cons x xs)
  let ?s = "step (fst x) (snd x) s"
  have IH: "sorted_wrt (\<lambda>t u. t + gap \<le> u) (send_times sends xs)"
    "\<And>l t ts. last_sent ?s = Some l \<Longrightarrow> send_times sends xs = t # ts \<Longrightarrow> l + gap \<le> t"
    using Cons.IH [of ?s] Cons.prems inv_step by auto
  show ?case
  proof (cases "sends (snd x)")
    case True
    then have times: "send_times sends (x # xs) = fst x # send_times sends xs" by (simp add: send_times_def)
    have "sorted_wrt (\<lambda>t u. t + gap \<le> u) (fst x # send_times sends xs)"
      using IH True last_step gap_positive by (cases "send_times sends xs") fastforce+
    moreover have "\<forall>l. last_sent s = Some l \<longrightarrow> l + gap \<le> fst x"
      using spaced Cons.prems True by simp
    ultimately show ?thesis unfolding times by blast
  next
    case False
    then have "send_times sends (x # xs) = send_times sends xs" "last_sent ?s = last_sent s"
      using last_step by (simp_all add: send_times_def)
    then show ?thesis using IH by simp
  qed
qed (simp add: send_times_def)

lemma sends_bounded:
  "inv s \<Longrightarrow> admitted step adm sends s xs \<Longrightarrow> 0 \<le> w \<Longrightarrow> count_within a w (send_times sends xs) * gap < w + gap"
  using sends_spaced spaced_count gap_positive by blast

end

text \<open>
  Reactive control: channel load reports drive the state machine, requests ask the bursty rate
  control for the delay at its interval and notify it once sent.
\<close>

datatype dcc_event = Load_Report ChannelLoad | Transmit Transmission

type_synonym reactive_state = "FullyMeshedStateMachine \<times> BurstyTransmitRateControl"

primrec reactive_step :: "time_point \<Rightarrow> dcc_event \<Rightarrow> reactive_state \<Rightarrow> reactive_state" where
  "reactive_step now (Load_Report cl) s = (fully_meshed_update cl (fst s), snd s)"
| "reactive_step now (Transmit tx) s =
     (fst s, bursty_notify now tx (snd (bursty_delay (fully_meshed_interval (fst s)) now tx (snd s))))"

primrec reactive_admits :: "time_point \<Rightarrow> dcc_event \<Rightarrow> reactive_state \<Rightarrow> bool" where
  "reactive_admits now (Load_Report cl) s \<longleftrightarrow> True"
| "reactive_admits now (Transmit tx) s \<longleftrightarrow> fst (bursty_delay (fully_meshed_interval (fst s)) now tx (snd s)) = 0"

primrec regular_transmission :: "dcc_event \<Rightarrow> bool" where
  "regular_transmission (Load_Report cl) \<longleftrightarrow> False"
| "regular_transmission (Transmit tx) \<longleftrightarrow> tx_profile tx \<noteq> DP0"

lemma fully_meshed_interval_range:
  "milliseconds 60 \<le> fully_meshed_interval m \<and> fully_meshed_interval m \<le> milliseconds 460"
proof -
  have "min 4 n \<in> {0, 1, 2, 3, 4}" for n :: nat by auto
  from this [of "fm_substate m"] show ?thesis
    by (auto simp: fully_meshed_interval_def active_interval_def split: DccState.splits)
qed

interpretation reactive: transmission_gate reactive_step reactive_admits regular_transmission
  "\<lambda>s. True" "\<lambda>s. smb_last_tx (m_fsm_budget (snd s))" "milliseconds 60"
proof (unfold_locales, goal_cases)
  case (3 t e s)
  then show ?case
    by (cases e) (auto simp: bursty_notify_def bursty_delay_def fsm_notify_def split: Profile.splits prod.splits)
next
  case (4 s e t l)
  then show ?case using fully_meshed_interval_range [of "fst s"]
    by (cases e) (auto simp: bursty_delay_def fsm_delay_def split: Profile.splits if_splits)
qed simp_all

primrec limeric_step :: "time_point \<Rightarrow> UnitInterval \<times> duration option \<Rightarrow> LimericBudget \<Rightarrow> LimericBudget" where
  "limeric_step now (x, tx) b =
     (case tx of None \<Rightarrow> limeric_update x now b | Some tx_on \<Rightarrow> limeric_notify x now tx_on b)"

definition limeric_admits :: "time_point \<Rightarrow> UnitInterval \<times> duration option \<Rightarrow> LimericBudget \<Rightarrow> bool" where
  "limeric_admits now e b \<longleftrightarrow> limeric_delay now b = 0"

definition limeric_transmission :: "UnitInterval \<times> duration option \<Rightarrow> bool" where
  "limeric_transmission e \<longleftrightarrow> snd e \<noteq> None"

lemma clamp_interval_range: "milliseconds 25 \<le> clamp_interval i \<and> clamp_interval i \<le> milliseconds 1000"
  by (auto simp: clamp_interval_def min_interval_def max_interval_def)

definition limeric_budget_wf :: "LimericBudget \<Rightarrow> bool" where
  "limeric_budget_wf b \<longleftrightarrow> milliseconds 25 \<le> lb_interval b \<and> lb_interval b \<le> milliseconds 1000"

lemma limeric_budget_wf_step:
  "limeric_budget_wf (limeric_update x now b)" "limeric_budget_wf (limeric_notify x now tx_on b)"
  "lb_tx_start (limeric_update x now b) = lb_tx_start b"
  using clamp_interval_range
  by (simp_all add: limeric_budget_wf_def limeric_update_def limeric_notify_def Let_def max_interval_def)

interpretation limeric: transmission_gate limeric_step limeric_admits limeric_transmission
  limeric_budget_wf "\<lambda>b. Some (lb_tx_start b)" "milliseconds 25"
proof (unfold_locales, goal_cases)
  case (2 s t e)
  then show ?case by (cases e) (simp add: limeric_budget_wf_step split: option.splits)
next
  case (3 t e s)
  then show ?case
    by (cases e) (auto simp: limeric_transmission_def limeric_budget_wf_step limeric_notify_def split: option.splits)
next
  case (4 s e t l)
  then show ?case by (simp add: limeric_admits_def limeric_budget_wf_def limeric_delay_def split: if_splits)
qed simp

text \<open>Waiting for the announced delay is enough with both budgets.\<close>

lemma fsm_delay_sufficient: "fsm_delay i (now + fsm_delay i now b) b = 0" "0 \<le> fsm_delay i now b"
  by (auto simp: fsm_delay_def split: option.splits)

lemma limeric_delay_sufficient: "limeric_delay (now + limeric_delay now b) b = 0" "0 \<le> limeric_delay now b"
  by (auto simp: limeric_delay_def)

text \<open>
  C28: The reactive rate control bounds the packet rate: whatever channel loads are reported and
  however DP0 bursts are interleaved, in any window of time the transmissions of profiles DP1 to
  DP3 that were admitted number less than one more than the window's length over 60 ms; with
  LIMERIC the same holds with 25 ms.
\<close>

theorem rate_limit:
  assumes "0 \<le> w"
  shows "(admitted reactive_step reactive_admits regular_transmission s xs \<longrightarrow>
      count_within a w (send_times regular_transmission xs) * milliseconds 60 < w + milliseconds 60)
    \<and> (limeric_budget_wf b \<and> admitted limeric_step limeric_admits limeric_transmission b ys \<longrightarrow>
      count_within a w (send_times limeric_transmission ys) * milliseconds 25 < w + milliseconds 25)"
  using reactive.sends_bounded [of s xs w a] limeric.sends_bounded [of b ys w a] assms by simp

theorem rate_limit_witness:
  "count_within 0 200000 (send_times regular_transmission
      [(0, Transmit \<lparr>tx_profile = DP2, tx_body_length = 100, tx_data_rate = None\<rparr>), (50000, Load_Report 0.1),
       (60000, Transmit \<lparr>tx_profile = DP3, tx_body_length = 100, tx_data_rate = None\<rparr>)]) * 60000 < 260000
   \<and> count_within 0 200000 (send_times limeric_transmission [(0 :: int, (0.5 :: real, Some 100)), (25000, (0.5, Some (100 :: int)))])
       * 25000 < 225000"
proof
  let ?s = "(fully_meshed_state_machine, \<lparr>m_burst_budget = burst_budget, m_fsm_budget = \<lparr>smb_last_tx = None\<rparr>\<rparr>)"
  let ?xs = "[(0, Transmit \<lparr>tx_profile = DP2, tx_body_length = 100, tx_data_rate = None\<rparr>), (50000, Load_Report 0.1),
     (60000, Transmit \<lparr>tx_profile = DP3, tx_body_length = 100, tx_data_rate = None\<rparr>)]"
  have "admitted reactive_step reactive_admits regular_transmission ?s ?xs"
    by (simp add: bursty_delay_def bursty_notify_def fsm_delay_def fsm_notify_def fully_meshed_interval_def
        fully_meshed_update_def fully_meshed_state_machine_def min_channel_load_def cb_push_front_def N_samples_up_def
        N_samples_down_def NDL_minChannelLoad_def Let_def)
  then show "count_within 0 200000 (send_times regular_transmission ?xs) * 60000 < 260000"
    using rate_limit [where w = 200000 and s = ?s and xs = ?xs and a = 0] by simp
  let ?b = "\<lparr>lb_interval = min_interval, lb_tx_start = - 1000000, lb_tx_on = 0\<rparr>"
  let ?ys = "[(0 :: int, (0.5 :: real, Some 100)), (25000, (0.5, Some (100 :: int)))]"
  have "limeric_budget_wf ?b" "admitted limeric_step limeric_admits limeric_transmission ?b ?ys"
    by (simp_all add: limeric_admits_def limeric_transmission_def limeric_budget_wf_def limeric_delay_def limeric_notify_def clamp_interval_def min_interval_def
        max_interval_def truncate_real_def)
  then show "count_within 0 200000 (send_times limeric_transmission ?ys) * 25000 < 225000"
    using rate_limit [where w = 200000 and b = ?b and ys = ?ys and a = 0] by simp
qed

definition burst_step :: "time_point \<Rightarrow> unit \<Rightarrow> BurstBudget \<Rightarrow> BurstBudget" where
  "burst_step now u b = burst_notify now (snd (burst_delay now b))"

definition burst_admits :: "time_point \<Rightarrow> unit \<Rightarrow> BurstBudget \<Rightarrow> bool" where
  "burst_admits now u b \<longleftrightarrow> fst (burst_delay now b) = 0"

definition burst_scenario :: "(time_point \<times> unit) list" where
  "burst_scenario = map (\<lambda>t. (t, ()))
     (map (\<lambda>i. 50000 * i) [0..19] @ map (\<lambda>i. 10000000 + 50000 * i) [0..17] @ map (\<lambda>i. 10900001 + i) [0..19])"

text \<open>
   The burst budget of twenty DP0 messages per ten seconds can be exceeded: a burst whose
  messages are repeated exactly when their delay has elapsed slides through the buffer, until one
  message comes later than that and clears it. Thirty-eight messages are admitted in one second.
\<close>

theorem burst_limit_exceeded:
  "admitted burst_step burst_admits (\<lambda>u. True) burst_budget burst_scenario
   \<and> count_within 10000000 1000000 (send_times (\<lambda>u. True) burst_scenario) = 38"
  by code_simp

end
