(* ===== verification/Dcc_Flow_Control.thy ===== *)
theory Dcc_Flow_Control
  imports Dcc_Rate_Control Manual_Runtime Packets "HOL-Library.Sublist" "HOL-Library.Multiset"
begin

text \<open>
  The gatekeeper above the access layer (\<^verbatim>\<open>dcc/flow_control.*\<close>): a queue of pending packets
  for each access category, transmitted when the transmit rate control permits it.

  The rate control is an interface of two operations on a state of its own; it is the record
  argument \<open>trc\<close> of the operations, and the classes that implement it are given below. The world
  an operation changes is the runtime, in which triggers are scheduled, and the flow control. The
  invocations of the drop hook and of the transmit hook with the access layer are logs, newest last.
\<close>

section \<open>Access categories and requests\<close>

datatype AccessCategory = BK | BE | VI | VO

primrec user_priority :: "AccessCategory \<Rightarrow> nat" where
  "user_priority BK = 1"
| "user_priority BE = 3"
| "user_priority VI = 5"
| "user_priority VO = 7"

lemma user_priority_inject: "user_priority a = user_priority b \<longleftrightarrow> a = b"
  by (cases a; cases b) simp_all

instantiation AccessCategory :: linorder
begin

definition less_eq_AccessCategory :: "AccessCategory \<Rightarrow> AccessCategory \<Rightarrow> bool" where
  "less_eq_AccessCategory a b \<longleftrightarrow> user_priority a \<le> user_priority b"

definition less_AccessCategory :: "AccessCategory \<Rightarrow> AccessCategory \<Rightarrow> bool" where
  "less_AccessCategory a b \<longleftrightarrow> user_priority a < user_priority b"

instance
  by standard
    (auto simp: less_eq_AccessCategory_def less_AccessCategory_def simp flip: user_priority_inject)

end

primrec map_profile_onto_ac :: "Profile \<Rightarrow> AccessCategory" where
  "map_profile_onto_ac DP0 = VO"
| "map_profile_onto_ac DP1 = VI"
| "map_profile_onto_ac DP2 = BE"
| "map_profile_onto_ac DP3 = BK"

record DccDataRequest =
  dr_ether_type :: u16
  dr_source :: MacAddress
  dr_destination :: MacAddress
  dr_dcc_profile :: Profile
  dr_lifetime :: duration

record AccessDataRequest =
  ar_ether_type :: u16
  ar_source_addr :: MacAddress
  ar_destination_addr :: MacAddress
  ar_access_category :: AccessCategory

record PendingTransmission =
  pt_expiry :: time_point
  pt_request :: DccDataRequest
  pt_packet :: ChunkPacket

definition transmission_lite :: "Profile \<Rightarrow> nat \<Rightarrow> Transmission" where
  "transmission_lite dp len = \<lparr>tx_profile = dp, tx_body_length = len, tx_data_rate = None\<rparr>"

definition pending_transmission :: "PendingTransmission \<Rightarrow> Transmission" where
  "pending_transmission p =
     \<lparr>tx_profile = dr_dcc_profile (pt_request p), tx_body_length = chunk_size (pt_packet p), tx_data_rate = Some G5_6Mbps\<rparr>"

section \<open>Flow control\<close>

record 't TransmitRateControl =
  trc_delay :: "time_point \<Rightarrow> Transmission \<Rightarrow> 't \<Rightarrow> duration \<times> 't"
  trc_notify :: "time_point \<Rightarrow> Transmission \<Rightarrow> 't \<Rightarrow> 't"

text \<open>
  Queues that were never used are empty; the map iterates from the highest to the lowest category.
\<close>

record 't FlowControl =
  m_queues :: "AccessCategory \<Rightarrow> PendingTransmission list"
  m_queue_length :: nat
  m_trc :: 't
  drop_log :: "(AccessCategory \<times> ChunkPacket) list"
  transmit_log :: "(AccessDataRequest \<times> ChunkPacket) list"

datatype fc_callback = Trigger

type_synonym 't fc_world = "fc_callback ManualRuntime \<times> 't FlowControl"

definition queue_order :: "AccessCategory list" where
  "queue_order = [VO, VI, BE, BK]"

definition flow_control :: "'t \<Rightarrow> 't FlowControl" where
  "flow_control trc = \<lparr>m_queues = \<lambda>_. [], m_queue_length = 0, m_trc = trc, drop_log = [], transmit_log = []\<rparr>"

text \<open>The scope of the scheduled triggers is the flow control itself.\<close>

definition fc_scope :: "nat option" where
  "fc_scope = Some 0"

definition drop_expired_queue :: "time_point \<Rightarrow> AccessCategory \<Rightarrow> 't FlowControl \<Rightarrow> 't FlowControl" where
  "drop_expired_queue now ac fc =
     fc\<lparr>m_queues := (m_queues fc)(ac := filter (\<lambda>p. \<not> pt_expiry p < now) (m_queues fc ac)),
       drop_log := drop_log fc @ map (\<lambda>p. (ac, pt_packet p)) (filter (\<lambda>p. pt_expiry p < now) (m_queues fc ac))\<rparr>"

definition drop_expired_packets :: "time_point \<Rightarrow> 't FlowControl \<Rightarrow> 't FlowControl" where
  "drop_expired_packets now fc = fold (drop_expired_queue now) queue_order fc"

definition fc_empty :: "'t FlowControl \<Rightarrow> bool" where
  "fc_empty fc \<longleftrightarrow> (\<forall>ac \<in> set queue_order. m_queues fc ac = [])"

text \<open>The largest duration of the clock.\<close>

definition duration_max :: duration where
  "duration_max = 2 ^ 63 - 1"

fun next_queue_loop :: "'t TransmitRateControl \<Rightarrow> time_point \<Rightarrow> AccessCategory list \<Rightarrow> duration \<Rightarrow>
    AccessCategory option \<Rightarrow> 't FlowControl \<Rightarrow> AccessCategory option \<times> 't FlowControl" where
  "next_queue_loop trc now [] min_delay nxt fc = (nxt, fc)"
| "next_queue_loop trc now (ac # acs) min_delay nxt fc =
     (case m_queues fc ac of
        [] \<Rightarrow> next_queue_loop trc now acs min_delay nxt fc
      | front # _ \<Rightarrow>
          let (delay, t) = trc_delay trc now (pending_transmission front) (m_trc fc);
              fc' = fc\<lparr>m_trc := t\<rparr>
          in if delay < min_delay then next_queue_loop trc now acs delay (Some ac) fc'
             else next_queue_loop trc now acs min_delay nxt fc')"

definition next_queue :: "'t TransmitRateControl \<Rightarrow> time_point \<Rightarrow> 't FlowControl \<Rightarrow> AccessCategory option \<times> 't FlowControl" where
  "next_queue trc now fc = next_queue_loop trc now queue_order duration_max None fc"

definition dequeue :: "'t TransmitRateControl \<Rightarrow> time_point \<Rightarrow> 't FlowControl \<Rightarrow> PendingTransmission option \<times> 't FlowControl" where
  "dequeue trc now fc0 =
     (let (queue, fc) = next_queue trc now fc0
      in case queue of
           None \<Rightarrow> (None, fc)
         | Some ac \<Rightarrow> (Some (hd (m_queues fc ac)), fc\<lparr>m_queues := (m_queues fc)(ac := tl (m_queues fc ac))\<rparr>))"

definition next_transmission ::
    "'t TransmitRateControl \<Rightarrow> time_point \<Rightarrow> 't FlowControl \<Rightarrow> PendingTransmission option \<times> 't FlowControl" where
  "next_transmission trc now fc0 =
     (let (queue, fc) = next_queue trc now fc0 in (map_option (\<lambda>ac. hd (m_queues fc ac)) queue, fc))"

definition transmit :: "DccDataRequest \<Rightarrow> ChunkPacket \<Rightarrow> 't FlowControl \<Rightarrow> 't FlowControl" where
  "transmit request packet fc =
     (let access_request = \<lparr>ar_ether_type = dr_ether_type request, ar_source_addr = dr_source request,
            ar_destination_addr = dr_destination request,
            ar_access_category = map_profile_onto_ac (dr_dcc_profile request)\<rparr>
      in fc\<lparr>transmit_log := transmit_log fc @ [(access_request, packet)]\<rparr>)"

definition schedule_trigger :: "'t TransmitRateControl \<Rightarrow> Transmission \<Rightarrow> 't fc_world \<Rightarrow> 't fc_world" where
  "schedule_trigger trc tx w =
     (let (callback_delay, t) = trc_delay trc (rt_now (fst w)) tx (m_trc (snd w))
      in (schedule_in callback_delay Trigger fc_scope (fst w), (snd w)\<lparr>m_trc := t\<rparr>))"

text \<open>A full queue loses its first element; the hook is handed the packet that is being enqueued.\<close>

function make_room :: "AccessCategory \<Rightarrow> ChunkPacket \<Rightarrow> 't FlowControl \<Rightarrow> 't FlowControl" where
  "make_room ac packet fc =
     (if m_queue_length fc > 0 \<and> length (m_queues fc ac) \<ge> m_queue_length fc
      then make_room ac packet
        (fc\<lparr>m_queues := (m_queues fc)(ac := tl (m_queues fc ac)), drop_log := drop_log fc @ [(ac, packet)]\<rparr>)
      else fc)"
  by pat_completeness auto

termination make_room
  by (relation "measure (\<lambda>(ac, packet, fc). length (m_queues fc ac))") auto

declare make_room.simps [simp del]

definition enqueue :: "'t TransmitRateControl \<Rightarrow> DccDataRequest \<Rightarrow> ChunkPacket \<Rightarrow> 't fc_world \<Rightarrow> 't fc_world" where
  "enqueue trc request packet w =
     (let first_packet = fc_empty (snd w);
          ac = map_profile_onto_ac (dr_dcc_profile request);
          item = \<lparr>pt_expiry = rt_now (fst w) + dr_lifetime request, pt_request = request, pt_packet = packet\<rparr>;
          fc = make_room ac packet (snd w);
          w' = (fst w, fc\<lparr>m_queues := (m_queues fc)(ac := m_queues fc ac @ [item])\<rparr>)
      in if first_packet then schedule_trigger trc (pending_transmission item) w' else w')"

definition contention :: "AccessCategory \<Rightarrow> 't FlowControl \<Rightarrow> bool" where
  "contention ac fc \<longleftrightarrow> (\<exists>a \<in> set queue_order. ac \<le> a \<and> m_queues fc a \<noteq> [])"

definition transmit_immediately ::
    "'t TransmitRateControl \<Rightarrow> time_point \<Rightarrow> Transmission \<Rightarrow> 't FlowControl \<Rightarrow> bool \<times> 't FlowControl" where
  "transmit_immediately trc now tx fc =
     (if contention (map_profile_onto_ac (tx_profile tx)) fc then (False, fc)
      else let (d, t) = trc_delay trc now tx (m_trc fc) in (d = 0, fc\<lparr>m_trc := t\<rparr>))"

definition fc_notify :: "'t TransmitRateControl \<Rightarrow> time_point \<Rightarrow> Transmission \<Rightarrow> 't FlowControl \<Rightarrow> 't FlowControl" where
  "fc_notify trc now tx fc = fc\<lparr>m_trc := trc_notify trc now tx (m_trc fc)\<rparr>"

definition request :: "'t TransmitRateControl \<Rightarrow> DccDataRequest \<Rightarrow> ChunkPacket \<Rightarrow> 't fc_world \<Rightarrow> 't fc_world" where
  "request trc req packet w =
     (let now = rt_now (fst w);
          tx = transmission_lite (dr_dcc_profile req) (chunk_size packet);
          (immediately, fc) = transmit_immediately trc now tx (drop_expired_packets now (snd w))
      in if immediately then (fst w, transmit req packet (fc_notify trc now tx fc))
         else enqueue trc req packet (fst w, fc))"

definition trigger :: "'t TransmitRateControl \<Rightarrow> 't fc_world \<Rightarrow> 't fc_world" where
  "trigger trc w =
     (let now = rt_now (fst w);
          (transmission, fc) = dequeue trc now (drop_expired_packets now (snd w));
          fc = (case transmission of
                  None \<Rightarrow> fc
                | Some p \<Rightarrow> transmit (pt_request p) (pt_packet p) (fc_notify trc now (pending_transmission p) fc));
          (nxt, fc) = next_transmission trc now fc
      in case nxt of None \<Rightarrow> (fst w, fc) | Some p \<Rightarrow> schedule_trigger trc (pending_transmission p) (fst w, fc))"

definition reschedule :: "'t TransmitRateControl \<Rightarrow> 't fc_world \<Rightarrow> 't fc_world" where
  "reschedule trc w =
     (let (nxt, fc) = next_transmission trc (rt_now (fst w)) (snd w)
      in case nxt of
           None \<Rightarrow> (fst w, fc)
         | Some p \<Rightarrow> schedule_trigger trc (pending_transmission p) (cancel fc_scope (fst w), fc))"

definition queue_length :: "nat \<Rightarrow> 't fc_world \<Rightarrow> 't fc_world" where
  "queue_length len w = (fst w, (snd w)\<lparr>m_queue_length := len\<rparr>)"

definition fc_exec :: "'t TransmitRateControl \<Rightarrow> (fc_callback, 't FlowControl) exec" where
  "fc_exec trc cb t w = trigger trc w"

section \<open>Rate controls\<close>

text \<open>The reactive control with its state machine, LIMERIC with the permitted duty cycle.\<close>

definition reactive_rate_control :: "reactive_state TransmitRateControl" where
  "reactive_rate_control =
     \<lparr>trc_delay = \<lambda>now tx s. (let (d, b) = bursty_delay (fully_meshed_interval (fst s)) now tx (snd s) in (d, (fst s, b))),
      trc_notify = \<lambda>now tx s. (fst s, bursty_notify now tx (snd s))\<rparr>"

definition limeric_rate_control :: "(UnitInterval \<times> LimericBudget) TransmitRateControl" where
  "limeric_rate_control =
     \<lparr>trc_delay = \<lambda>now tx s. (limeric_delay now (snd s), s),
      trc_notify = \<lambda>now tx s. (fst s, limeric_notify (fst s) now (channel_occupancy tx) (snd s))\<rparr>"

text \<open>The control that ignores profiles, with the gradual state machine.\<close>

definition single_reactive_rate_control :: "(GradualStateMachine \<times> StateMachineBudget) TransmitRateControl" where
  "single_reactive_rate_control =
     \<lparr>trc_delay = \<lambda>now tx s. (fsm_delay (gradual_interval (fst s)) now (snd s), s),
      trc_notify = \<lambda>now tx s. (fst s, fsm_notify now (snd s))\<rparr>"

section \<open>Frame of the operations\<close>

lemma UNIV_queue_order: "set queue_order = UNIV"
  by (auto simp: queue_order_def) (metis AccessCategory.exhaust)

lemma fc_empty_iff: "fc_empty fc \<longleftrightarrow> (\<forall>ac. m_queues fc ac = [])"
  by (simp add: fc_empty_def UNIV_queue_order)

lemma contention_iff: "contention ac fc \<longleftrightarrow> (\<exists>a \<ge> ac. m_queues fc a \<noteq> [])"
  by (simp add: contention_def UNIV_queue_order)

definition category :: "DccDataRequest \<Rightarrow> AccessCategory" where
  "category r = map_profile_onto_ac (dr_dcc_profile r)"

text \<open>What was sent, waits, and was reported as dropped in an access category, in order.\<close>

definition sent :: "AccessCategory \<Rightarrow> 't FlowControl \<Rightarrow> ChunkPacket list" where
  "sent ac fc = map snd (filter (\<lambda>x. ar_access_category (fst x) = ac) (transmit_log fc))"

definition waiting :: "AccessCategory \<Rightarrow> 't FlowControl \<Rightarrow> ChunkPacket list" where
  "waiting ac fc = map pt_packet (m_queues fc ac)"

definition drops :: "AccessCategory \<Rightarrow> 't FlowControl \<Rightarrow> nat" where
  "drops ac fc = length (filter (\<lambda>x. fst x = ac) (drop_log fc))"

definition queues_wf :: "'t FlowControl \<Rightarrow> bool" where
  "queues_wf fc \<longleftrightarrow> (\<forall>ac. \<forall>p \<in> set (m_queues fc ac). category (pt_request p) = ac)"

lemmas fc_view_defs = sent_def waiting_def drops_def queues_wf_def

lemma fc_view_trc [simp]:
  "sent ac (fc\<lparr>m_trc := t\<rparr>) = sent ac fc" "waiting ac (fc\<lparr>m_trc := t\<rparr>) = waiting ac fc"
  "drops ac (fc\<lparr>m_trc := t\<rparr>) = drops ac fc" "queues_wf (fc\<lparr>m_trc := t\<rparr>) = queues_wf fc"
  "fc_empty (fc\<lparr>m_trc := t\<rparr>) = fc_empty fc"
  "sent ac (fc\<lparr>m_queues := q\<rparr>) = sent ac fc" "drops ac (fc\<lparr>m_queues := q\<rparr>) = drops ac fc"
  by (simp_all add: fc_view_defs fc_empty_def)

lemma fc_view_queue_length [simp]:
  "sent ac (fc\<lparr>m_queue_length := n\<rparr>) = sent ac fc" "waiting ac (fc\<lparr>m_queue_length := n\<rparr>) = waiting ac fc"
  "drops ac (fc\<lparr>m_queue_length := n\<rparr>) = drops ac fc" "queues_wf (fc\<lparr>m_queue_length := n\<rparr>) = queues_wf fc"
  by (simp_all add: fc_view_defs)

lemma drop_expired_frame [simp]:
  "m_queues (drop_expired_packets now fc) ac = filter (\<lambda>p. \<not> pt_expiry p < now) (m_queues fc ac)"
  "transmit_log (drop_expired_packets now fc) = transmit_log fc" "m_trc (drop_expired_packets now fc) = m_trc fc"
  "m_queue_length (drop_expired_packets now fc) = m_queue_length fc"
  by (cases ac; simp add: drop_expired_packets_def drop_expired_queue_def queue_order_def)+

lemma drop_expired_drops:
  "drops ac (drop_expired_packets now fc) = drops ac fc + length (filter (\<lambda>p. pt_expiry p < now) (m_queues fc ac))"
  by (cases ac; simp add: drops_def drop_expired_packets_def drop_expired_queue_def queue_order_def filter_map comp_def)

text \<open>What an operation may do to a category: it appends to what was sent or waits, and loses elements.\<close>

definition advances :: "(AccessCategory \<Rightarrow> ChunkPacket list) \<Rightarrow> 't FlowControl \<Rightarrow> 't FlowControl \<Rightarrow> bool" where
  "advances new fc fc' \<longleftrightarrow> (queues_wf fc \<longrightarrow> queues_wf fc') \<and>
     (\<forall>ac. subseq (sent ac fc' @ waiting ac fc') (sent ac fc @ waiting ac fc @ new ac)
       \<and> length (sent ac fc') + length (waiting ac fc') + drops ac fc'
         = length (sent ac fc) + length (waiting ac fc) + drops ac fc + length (new ac))"

lemma advances_wf: "advances new fc fc' \<Longrightarrow> queues_wf fc \<Longrightarrow> queues_wf fc'"
  by (simp add: advances_def)

lemma advances_refl [simp]: "advances (\<lambda>_. []) fc fc"
  by (simp add: advances_def)

lemma advances_trans:
  assumes "advances new fc fc'" and "advances new' fc' fc''"
  shows "advances (\<lambda>ac. new ac @ new' ac) fc fc''"
proof -
  have "subseq (sent ac fc'' @ waiting ac fc'') (sent ac fc @ waiting ac fc @ new ac @ new' ac)" for ac
  proof -
    have "subseq (sent ac fc'' @ waiting ac fc'') ((sent ac fc' @ waiting ac fc') @ new' ac)"
      using assms(2) by (simp add: advances_def)
    also have "subseq \<dots> ((sent ac fc @ waiting ac fc @ new ac) @ new' ac)"
      using assms(1) by (metis advances_def list_emb_append_mono subseq_order.refl)
    finally show ?thesis by simp
  qed
  then show ?thesis using assms by (simp add: advances_def)
qed

lemma advances_internal:
  "advances (\<lambda>_. []) fc fc' \<Longrightarrow> advances new fc' fc'' \<Longrightarrow> advances new fc fc''"
  "advances new fc fc' \<Longrightarrow> advances (\<lambda>_. []) fc' fc'' \<Longrightarrow> advances new fc fc''"
  using advances_trans [of "\<lambda>_. []" fc fc' new fc''] advances_trans [of new fc fc' "\<lambda>_. []" fc''] by simp_all

lemma advances_trc [simp]:
  "advances new (fc\<lparr>m_trc := t\<rparr>) fc' = advances new fc fc'" "advances new fc (fc'\<lparr>m_trc := t\<rparr>) = advances new fc fc'"
  "advances new fc (fc'\<lparr>m_queue_length := n\<rparr>) = advances new fc fc'"
  by (simp_all add: advances_def)

lemma advances_drop_expired_packets: "advances (\<lambda>_. []) fc (drop_expired_packets now fc)"
proof -
  have "length (filter (\<lambda>p. \<not> pt_expiry p < now) xs) + length (filter (\<lambda>p. pt_expiry p < now) xs) = length xs"
    for xs :: "PendingTransmission list"
    using sum_length_filter_compl [of "\<lambda>p. pt_expiry p < now" xs] by simp
  then show ?thesis
    by (auto simp: advances_def drop_expired_drops sent_def waiting_def queues_wf_def list_emb_append_mono
        subseq_map [OF subseq_filter_left])
qed

lemma transmit_frame [simp]:
  "m_queues (transmit r p fc) = m_queues fc" "m_trc (transmit r p fc) = m_trc fc" "drop_log (transmit r p fc) = drop_log fc"
  "sent ac (transmit r p fc) = sent ac fc @ (if category r = ac then [p] else [])"
  by (simp_all add: transmit_def sent_def category_def Let_def)

lemma make_room_frame [simp]:
  "transmit_log (make_room ac p fc) = transmit_log fc" "m_trc (make_room ac p fc) = m_trc fc"
  "m_queue_length (make_room ac p fc) = m_queue_length fc"
  by (induction ac p fc rule: make_room.induct; subst make_room.simps; simp)+

lemma advances_make_room: "advances (\<lambda>_. []) fc (make_room ac p fc)"
proof (induction ac p fc rule: make_room.induct)
  case (1 ac p fc)
  let ?fc = "fc\<lparr>m_queues := (m_queues fc)(ac := tl (m_queues fc ac)), drop_log := drop_log fc @ [(ac, p)]\<rparr>"
  show ?case
  proof (cases "m_queue_length fc > 0 \<and> length (m_queues fc ac) \<ge> m_queue_length fc")
    case True
    then obtain x xs where "m_queues fc ac = x # xs" by (cases "m_queues fc ac") auto
    then have "advances (\<lambda>_. []) fc ?fc"
      by (auto simp: advances_def sent_def waiting_def drops_def queues_wf_def intro!: list_emb_append_mono)
    then show ?thesis using 1 [OF True] True advances_internal(1) by (subst make_room.simps) fastforce
  next
    case False
    then show ?thesis by (subst make_room.simps) (simp only: if_False advances_refl)
  qed
qed

lemma make_room_length: "0 < m_queue_length fc \<Longrightarrow> length (m_queues (make_room ac p fc) ac) < m_queue_length fc"
  by (induction ac p fc rule: make_room.induct) (subst make_room.simps, simp)

lemma next_queue_loop_frame:
  "\<exists>t. snd (next_queue_loop trc now acs d nxt fc) = fc\<lparr>m_trc := t\<rparr>
     \<and> (\<forall>ac. fst (next_queue_loop trc now acs d nxt fc) = Some ac \<longrightarrow> nxt = Some ac \<or> m_queues fc ac \<noteq> [])"
proof (induction acs arbitrary: d nxt fc)
  case Nil
  then show ?case by (auto intro: exI [of _ "m_trc fc"])
next
  case (Cons a acs)
  show ?case
  proof (cases "m_queues fc a")
    case Nil
    then show ?thesis using Cons.IH by simp
  next
    case (Cons front rest)
    obtain e t where delay: "trc_delay trc now (pending_transmission front) (m_trc fc) = (e, t)" by force
    show ?thesis
      using Cons.IH [of e "Some a" "fc\<lparr>m_trc := t\<rparr>"] Cons.IH [of d nxt "fc\<lparr>m_trc := t\<rparr>"] delay Cons
      by (auto simp: Let_def)
  qed
qed

lemma next_queue_frame:
  assumes "next_queue trc now fc = (q, fc')"
  shows "\<exists>t. fc' = fc\<lparr>m_trc := t\<rparr>" and "q = Some ac \<Longrightarrow> m_queues fc ac \<noteq> []"
  using assms next_queue_loop_frame [of trc now queue_order duration_max None fc] by (auto simp: next_queue_def)

lemma next_transmission_frame:
  "next_transmission trc now fc = (p, fc') \<Longrightarrow> \<exists>t. fc' = fc\<lparr>m_trc := t\<rparr>"
  using next_queue_frame(1) by (fastforce simp: next_transmission_def split: prod.splits)

lemma schedule_trigger_frame:
  "\<exists>d t. schedule_trigger trc tx w = (schedule_in d Trigger fc_scope (fst w), (snd w)\<lparr>m_trc := t\<rparr>)"
  by (auto simp: schedule_trigger_def split: prod.splits)

lemma schedule_trigger_snd:
  "snd (schedule_trigger trc tx (rt, fc\<lparr>m_trc := t\<rparr>)) = fc\<lparr>m_trc := snd (trc_delay trc (rt_now rt) tx t)\<rparr>"
  by (simp add: schedule_trigger_def split: prod.splits)

section \<open>Order and accounting\<close>

lemma advances_enqueue:
  "advances (\<lambda>ac. if category r = ac then [p] else []) (snd w) (snd (enqueue trc r p w))"
proof -
  let ?ac = "category r"
  let ?item = "\<lparr>pt_expiry = rt_now (fst w) + dr_lifetime r, pt_request = r, pt_packet = p\<rparr>"
  let ?fc = "make_room ?ac p (snd w)"
  let ?fc' = "?fc\<lparr>m_queues := (m_queues ?fc)(?ac := m_queues ?fc ?ac @ [?item])\<rparr>"
  have "advances (\<lambda>ac. if ?ac = ac then [p] else []) ?fc ?fc'"
    by (auto simp: advances_def sent_def waiting_def drops_def queues_wf_def)
  then have "advances (\<lambda>ac. if ?ac = ac then [p] else []) (snd w) ?fc'"
    using advances_make_room advances_internal(1) by blast
  then show ?thesis
    using schedule_trigger_frame [of trc "pending_transmission ?item" "(fst w, ?fc')"]
    by (auto simp: enqueue_def category_def Let_def)
qed

lemma transmit_immediately_frame:
  assumes "transmit_immediately trc now tx fc = (b, fc')"
  shows "\<exists>t. fc' = fc\<lparr>m_trc := t\<rparr>" and "b \<Longrightarrow> m_queues fc (map_profile_onto_ac (tx_profile tx)) = []"
  using assms by (auto simp: transmit_immediately_def contention_iff split: if_splits prod.splits intro: exI [of _ "m_trc fc"])

lemma advances_request:
  "advances (\<lambda>ac. if category r = ac then [p] else []) (snd w) (snd (request trc r p w))"
proof -
  let ?now = "rt_now (fst w)" and ?tx = "transmission_lite (dr_dcc_profile r) (chunk_size p)"
  let ?fc = "drop_expired_packets ?now (snd w)"
  obtain b fc' where imm: "transmit_immediately trc ?now ?tx ?fc = (b, fc')" by force
  then obtain t where fc': "fc' = ?fc\<lparr>m_trc := t\<rparr>" using transmit_immediately_frame(1) by blast
  have pre: "advances (\<lambda>_. []) (snd w) fc'" by (simp add: fc' advances_drop_expired_packets)
  have "advances (\<lambda>ac. if category r = ac then [p] else []) fc' (snd (request trc r p w))"
  proof (cases b)
    case True
    then have "m_queues fc' (category r) = []"
      using transmit_immediately_frame(2) [OF imm] by (simp add: fc' category_def transmission_lite_def)
    then show ?thesis using imm True
      by (auto simp: request_def fc_notify_def advances_def waiting_def drops_def queues_wf_def)
  next
    case False
    then show ?thesis using imm advances_enqueue [of r p "(fst w, fc')" trc] by (simp add: request_def)
  qed
  then show ?thesis using pre advances_internal(1) by blast
qed

lemma dequeue_cases:
  obtains (none) t where "dequeue trc now fc = (None, fc\<lparr>m_trc := t\<rparr>)"
  | (some) ac x xs t where "m_queues fc ac = x # xs"
      "dequeue trc now fc = (Some x, fc\<lparr>m_trc := t, m_queues := (m_queues fc)(ac := xs)\<rparr>)"
proof -
  obtain q fc' where q: "next_queue trc now fc = (q, fc')" by force
  then obtain t where fc': "fc' = fc\<lparr>m_trc := t\<rparr>" using next_queue_frame(1) by blast
  show thesis
  proof (cases q)
    case None
    then show thesis using q fc' none by (simp add: dequeue_def)
  next
    case (Some ac)
    then obtain x xs where "m_queues fc ac = x # xs"
      using next_queue_frame(2) [OF q] by (cases "m_queues fc ac") auto
    then show thesis using q fc' Some some [of ac x xs t] by (simp add: dequeue_def)
  qed
qed

text \<open>What a trigger does to the queues, before the next one is scheduled.\<close>

definition send_next :: "'t TransmitRateControl \<Rightarrow> time_point \<Rightarrow> 't FlowControl \<Rightarrow> 't FlowControl" where
  "send_next trc now fc0 =
     (let (transmission, fc) = dequeue trc now fc0
      in case transmission of
           None \<Rightarrow> fc
         | Some p \<Rightarrow> transmit (pt_request p) (pt_packet p) (fc_notify trc now (pending_transmission p) fc))"

lemma trigger_eq:
  "trigger trc w =
     (case next_transmission trc (rt_now (fst w)) (send_next trc (rt_now (fst w)) (drop_expired_packets (rt_now (fst w)) (snd w))) of
        (None, fc) \<Rightarrow> (fst w, fc)
      | (Some p, fc) \<Rightarrow> schedule_trigger trc (pending_transmission p) (fst w, fc))"
  by (simp add: trigger_def send_next_def Let_def split: prod.split option.split)

lemma trigger_frame: "\<exists>t. snd (trigger trc w) = (send_next trc (rt_now (fst w)) (drop_expired_packets (rt_now (fst w)) (snd w)))\<lparr>m_trc := t\<rparr>"
proof -
  let ?now = "rt_now (fst w)"
  let ?fc = "send_next trc ?now (drop_expired_packets ?now (snd w))"
  obtain nxt fc where n: "next_transmission trc ?now ?fc = (nxt, fc)" by force
  then obtain t where "fc = ?fc\<lparr>m_trc := t\<rparr>" using next_transmission_frame by blast
  then show ?thesis
    using n unfolding trigger_eq by (cases nxt) (auto simp: schedule_trigger_snd)
qed

lemma advances_send_next:
  assumes "queues_wf fc"
  shows "advances (\<lambda>_. []) fc (send_next trc now fc)"
proof (cases rule: dequeue_cases [of trc now fc])
  case (none t)
  then show ?thesis by (simp add: send_next_def)
next
  case (some ac x xs t)
  have "category (pt_request x) = ac" using assms some(1) unfolding queues_wf_def by (metis list.set_intros(1))
  then show ?thesis using some assms
    by (auto simp: send_next_def advances_def fc_notify_def waiting_def drops_def queues_wf_def)
qed

lemma advances_trigger:
  assumes "queues_wf (snd w)"
  shows "advances (\<lambda>_. []) (snd w) (snd (trigger trc w))"
proof -
  let ?fc = "drop_expired_packets (rt_now (fst w)) (snd w)"
  have "advances (\<lambda>_. []) (snd w) ?fc" by (rule advances_drop_expired_packets)
  moreover from this have "advances (\<lambda>_. []) ?fc (send_next trc (rt_now (fst w)) ?fc)"
    using assms advances_send_next advances_wf by blast
  ultimately have "advances (\<lambda>_. []) (snd w) (send_next trc (rt_now (fst w)) ?fc)" by (rule advances_internal(1))
  then show ?thesis using trigger_frame [of trc w] by auto
qed

lemma reschedule_frame: "\<exists>t. snd (reschedule trc w) = (snd w)\<lparr>m_trc := t\<rparr>"
proof -
  obtain nxt fc where n: "next_transmission trc (rt_now (fst w)) (snd w) = (nxt, fc)" by force
  then obtain t where "fc = (snd w)\<lparr>m_trc := t\<rparr>" using next_transmission_frame by blast
  then show ?thesis
    using n by (cases nxt) (auto simp: reschedule_def schedule_trigger_snd)
qed

text \<open>
  Runs: requests of the layer above, the clock of the runtime advancing, the runtime invoking a
  callback that is due, rescheduling, a new queue length, and changes of the rate control (a new
  channel load, a new duty cycle) to states that are valid at the time.
\<close>

inductive fc_run :: "'t TransmitRateControl \<Rightarrow> (time_point \<Rightarrow> 't \<Rightarrow> bool) \<Rightarrow> 't fc_world \<Rightarrow>
    (DccDataRequest \<times> ChunkPacket) list \<Rightarrow> 't fc_world \<Rightarrow> bool" for trc valid w0 where
  initially: "fc_run trc valid w0 [] w0"
| requested: "fc_run trc valid w0 rs w \<Longrightarrow> fc_run trc valid w0 (rs @ [(r, p)]) (request trc r p w)"
| clock: "fc_run trc valid w0 rs (rt, fc) \<Longrightarrow> rt_now rt \<le> tp \<Longrightarrow> fc_run trc valid w0 rs (rt\<lparr>rt_now := tp\<rparr>, fc)"
| triggered: "fc_run trc valid w0 rs (rt, fc) \<Longrightarrow> rt_queue rt = e # rest \<Longrightarrow> deadline e \<le> rt_now rt \<Longrightarrow>
    fc_run trc valid w0 rs (trigger trc (rt\<lparr>rt_queue := rest\<rparr>, fc))"
| rescheduled: "fc_run trc valid w0 rs w \<Longrightarrow> fc_run trc valid w0 rs (reschedule trc w)"
| resized: "fc_run trc valid w0 rs w \<Longrightarrow> fc_run trc valid w0 rs (queue_length n w)"
| rate_changed: "fc_run trc valid w0 rs (rt, fc) \<Longrightarrow> valid (rt_now rt) t \<Longrightarrow> fc_run trc valid w0 rs (rt, fc\<lparr>m_trc := t\<rparr>)"

definition requested_in :: "AccessCategory \<Rightarrow> (DccDataRequest \<times> ChunkPacket) list \<Rightarrow> ChunkPacket list" where
  "requested_in ac rs = map snd (filter (\<lambda>x. category (fst x) = ac) rs)"

lemma fc_run_advances:
  "fc_run trc valid w0 rs w \<Longrightarrow> queues_wf (snd w0) \<Longrightarrow>
     queues_wf (snd w) \<and> advances (\<lambda>ac. requested_in ac rs) (snd w0) (snd w)"
proof (induction rule: fc_run.induct)
  case (requested rs w r p)
  have "(\<lambda>ac. requested_in ac rs @ (if category r = ac then [p] else [])) = (\<lambda>ac. requested_in ac (rs @ [(r, p)]))"
    by (auto simp: requested_in_def)
  then have "advances (\<lambda>ac. requested_in ac (rs @ [(r, p)])) (snd w0) (snd (request trc r p w))"
    using advances_trans [OF conjunct2 [OF requested.IH [OF requested.prems]] advances_request [of r p w trc]]
    by (simp only:)
  from advances_wf [OF this requested.prems] this show ?case by (rule conjI)
next
  case (triggered rs rt fc e rest)
  then have step: "advances (\<lambda>_. []) fc (snd (trigger trc (rt\<lparr>rt_queue := rest\<rparr>, fc)))"
    using advances_trigger [of "(rt\<lparr>rt_queue := rest\<rparr>, fc)" trc] by simp
  have "advances (\<lambda>ac. requested_in ac rs) (snd w0) fc" using triggered.IH triggered.prems by simp
  then have "advances (\<lambda>ac. requested_in ac rs) (snd w0) (snd (trigger trc (rt\<lparr>rt_queue := rest\<rparr>, fc)))"
    by (rule advances_internal(2) [OF _ step])
  from advances_wf [OF this triggered.prems] this show ?case by (rule conjI)
next
  case (rescheduled rs w)
  obtain t where "snd (reschedule trc w) = (snd w)\<lparr>m_trc := t\<rparr>" by (rule exE [OF reschedule_frame])
  then show ?case using rescheduled by simp
next
  case (resized rs w n)
  then show ?case by (simp add: queue_length_def)
qed (simp_all add: requested_in_def)


definition plain_request :: "Profile \<Rightarrow> duration \<Rightarrow> DccDataRequest" where
  "plain_request dp d = \<lparr>dr_ether_type = 0x8947, dr_source = MacAddress 0 0 0 0 0 1, dr_destination = cBroadcastMacAddress,
     dr_dcc_profile = dp, dr_lifetime = d\<rparr>"

definition one_byte_packet :: "byte \<Rightarrow> ChunkPacket" where
  "one_byte_packet b = (\<lambda>l. if l = Application then [b] else [])"

definition reactive_start :: "reactive_state" where
  "reactive_start = (fully_meshed_state_machine, \<lparr>m_burst_budget = burst_budget, m_fsm_budget = \<lparr>smb_last_tx = None\<rparr>\<rparr>)"

section \<open>Liveness\<close>

text \<open>The invariant: the rate control is valid, and while packets wait a trigger is pending.\<close>

definition live :: "(time_point \<Rightarrow> 't \<Rightarrow> bool) \<Rightarrow> 't fc_world \<Rightarrow> bool" where
  "live valid w \<longleftrightarrow> valid (rt_now (fst w)) (m_trc (snd w))
     \<and> (\<not> fc_empty (snd w) \<longrightarrow> (\<exists>e \<in> set (rt_queue (fst w)). scope e = fc_scope))"

definition backlog :: "'t FlowControl \<Rightarrow> nat" where
  "backlog fc = (\<Sum>ac \<leftarrow> queue_order. length (m_queues fc ac))"

lemma backlog_trc [simp]: "backlog (fc\<lparr>m_trc := t\<rparr>) = backlog fc"
  by (simp add: backlog_def)

lemma backlog_zero: "backlog fc = 0 \<longleftrightarrow> fc_empty fc"
  by (auto simp: backlog_def fc_empty_def queue_order_def)

text \<open>
  What flow control needs of a rate control: as long as its state is valid at the current time,
  the delays it announces are not negative and below the largest duration, and validity is kept by
  its operations and as time passes.
\<close>

locale rate_control =
  fixes trc :: "'t TransmitRateControl"
    and valid :: "time_point \<Rightarrow> 't \<Rightarrow> bool"
  assumes delay_bounded: "valid now t \<Longrightarrow> 0 \<le> fst (trc_delay trc now tx t) \<and> fst (trc_delay trc now tx t) < duration_max"
    and valid_delay: "valid now t \<Longrightarrow> valid now (snd (trc_delay trc now tx t))"
    and valid_notify: "valid now t \<Longrightarrow> valid now (trc_notify trc now tx t)"
    and valid_later: "valid now t \<Longrightarrow> now \<le> later \<Longrightarrow> valid later t"
begin

lemma next_queue_loop_found:
  "valid now (m_trc fc) \<Longrightarrow> nxt \<noteq> None \<or> d = duration_max \<Longrightarrow>
     valid now (m_trc (snd (next_queue_loop trc now acs d nxt fc)))
     \<and> (fst (next_queue_loop trc now acs d nxt fc) = None \<longleftrightarrow> nxt = None \<and> (\<forall>ac \<in> set acs. m_queues fc ac = []))"
proof (induction acs arbitrary: d nxt fc)
  case (Cons a acs)
  show ?case
  proof (cases "m_queues fc a")
    case Nil
    then show ?thesis using Cons by simp
  next
    case (Cons front rest)
    obtain e t where delay: "trc_delay trc now (pending_transmission front) (m_trc fc) = (e, t)" by force
    have "valid now t" "e < duration_max"
      using valid_delay [OF Cons.prems(1), of "pending_transmission front"]
        delay_bounded [OF Cons.prems(1), of "pending_transmission front"] delay by simp_all
    then show ?thesis
      using Cons.IH [of "fc\<lparr>m_trc := t\<rparr>" "Some a" e] Cons.IH [of "fc\<lparr>m_trc := t\<rparr>" nxt d] Cons.prems(2) delay Cons
      by (auto simp: Let_def)
  qed
qed simp

lemma next_queue_found:
  assumes "valid now (m_trc fc)"
  shows "valid now (m_trc (snd (next_queue trc now fc)))" and "fst (next_queue trc now fc) = None \<longleftrightarrow> fc_empty fc"
  using next_queue_loop_found [OF assms, of None duration_max queue_order] by (simp_all add: next_queue_def fc_empty_def)

lemma next_transmission_found:
  assumes "valid now (m_trc fc)"
  shows "valid now (m_trc (snd (next_transmission trc now fc)))"
    and "fst (next_transmission trc now fc) = None \<longleftrightarrow> fc_empty fc"
  using next_queue_found [OF assms] by (auto simp: next_transmission_def split: prod.splits)

lemma send_next_progress:
  assumes "valid now (m_trc fc)"
  shows "valid now (m_trc (send_next trc now fc))"
    and "\<not> fc_empty fc \<Longrightarrow> \<exists>ac x xs. m_queues fc ac = x # xs \<and> m_queues (send_next trc now fc) = (m_queues fc)(ac := xs)"
proof -
  obtain q fc' where q: "next_queue trc now fc = (q, fc')" by force
  then obtain t where fc': "fc' = fc\<lparr>m_trc := t\<rparr>" using next_queue_frame(1) by blast
  have valid: "valid now t" using next_queue_found(1) [OF assms] q fc' by simp
  show "valid now (m_trc (send_next trc now fc))"
    using valid valid_notify q fc' by (auto simp: send_next_def dequeue_def fc_notify_def split: option.splits)
  show "\<exists>ac x xs. m_queues fc ac = x # xs \<and> m_queues (send_next trc now fc) = (m_queues fc)(ac := xs)" if ne: "\<not> fc_empty fc"
  proof -
    obtain ac where "q = Some ac" using next_queue_found(2) [OF assms] ne q by (cases q) auto
    moreover obtain x xs where "m_queues fc ac = x # xs"
      using next_queue_frame(2) [OF q calculation] by (cases "m_queues fc ac") auto
    ultimately show ?thesis using q fc' by (auto simp: send_next_def dequeue_def fc_notify_def intro!: exI [of _ ac])
  qed
qed

lemma live_schedule_trigger:
  "valid (rt_now (fst w)) (m_trc (snd w)) \<Longrightarrow> live valid (schedule_trigger trc tx w)"
  using valid_delay [of "rt_now (fst w)" "m_trc (snd w)" tx]
  by (auto simp: live_def schedule_trigger_def schedule_in_def schedule_at_def split: prod.splits)

lemma live_trigger:
  assumes "valid (rt_now (fst w)) (m_trc (snd w))"
  shows "live valid (trigger trc w)"
proof -
  let ?now = "rt_now (fst w)"
  let ?fc = "send_next trc ?now (drop_expired_packets ?now (snd w))"
  obtain nxt fc where n: "next_transmission trc ?now ?fc = (nxt, fc)" by force
  then obtain t where fc: "fc = ?fc\<lparr>m_trc := t\<rparr>" using next_transmission_frame by blast
  have "valid ?now (m_trc ?fc)" using send_next_progress(1) assms by simp
  then have "valid ?now (m_trc fc)" "nxt = None \<longleftrightarrow> fc_empty ?fc"
    using next_transmission_found [of ?now ?fc] n by simp_all
  then show ?thesis
    using n fc live_schedule_trigger [of "(fst w, fc)"] unfolding trigger_eq
    by (cases nxt) (auto simp: live_def)
qed

lemma live_enqueue:
  assumes "valid (rt_now (fst w)) (m_trc (snd w))" and "\<not> fc_empty (snd w) \<Longrightarrow> live valid w"
  shows "live valid (enqueue trc r p w)"
proof (cases "fc_empty (snd w)")
  case True
  then show ?thesis using assms(1) by (auto simp: enqueue_def Let_def intro!: live_schedule_trigger)
next
  case False
  then show ?thesis using assms(2) by (auto simp: enqueue_def Let_def live_def)
qed

lemma live_request:
  assumes "live valid w"
  shows "live valid (request trc r p w)"
proof -
  let ?now = "rt_now (fst w)" and ?tx = "transmission_lite (dr_dcc_profile r) (chunk_size p)"
  let ?fc = "drop_expired_packets ?now (snd w)"
  obtain b fc' where imm: "transmit_immediately trc ?now ?tx ?fc = (b, fc')" by force
  then obtain t where fc': "fc' = ?fc\<lparr>m_trc := t\<rparr>" using transmit_immediately_frame(1) by blast
  have "valid ?now (m_trc fc')"
    using imm assms valid_delay [of ?now "m_trc (snd w)" ?tx]
    by (auto simp: transmit_immediately_def live_def split: if_splits prod.splits)
  then have valid: "valid ?now t" by (simp add: fc')
  have "fc_empty (snd w) \<Longrightarrow> fc_empty fc'" by (simp add: fc' fc_empty_iff)
  then have pending: "\<not> fc_empty fc' \<Longrightarrow> live valid (fst w, fc')" using assms valid by (auto simp: live_def fc')
  show ?thesis
  proof (cases b)
    case True
    then show ?thesis using imm valid valid_notify pending
      by (auto simp: request_def Let_def live_def fc_notify_def fc' fc_empty_def)
  next
    case False
    then show ?thesis using imm valid pending live_enqueue [of "(fst w, fc')"] by (simp add: request_def fc')
  qed
qed

lemma live_reschedule:
  assumes "live valid w"
  shows "live valid (reschedule trc w)"
proof -
  obtain nxt fc where n: "next_transmission trc (rt_now (fst w)) (snd w) = (nxt, fc)" by force
  then obtain t where fc: "fc = (snd w)\<lparr>m_trc := t\<rparr>" using next_transmission_frame by blast
  have "valid (rt_now (fst w)) t" "nxt = None \<longleftrightarrow> fc_empty (snd w)"
    using next_transmission_found [of "rt_now (fst w)" "snd w"] assms n fc by (simp_all add: live_def)
  then show ?thesis
    using n fc live_schedule_trigger [of "(cancel fc_scope (fst w), fc)"]
    by (cases nxt) (auto simp: reschedule_def live_def cancel_def)
qed

lemma live_run: "fc_run trc valid w0 rs w \<Longrightarrow> live valid w0 \<Longrightarrow> live valid w"
proof (induction rule: fc_run.induct)
  case (requested rs w r p)
  then show ?case by (simp add: live_request)
next
  case (clock rs rt fc tp)
  then show ?case using valid_later by (auto simp: live_def)
next
  case (triggered rs rt fc e rest)
  then show ?case using live_trigger [of "(rt\<lparr>rt_queue := rest\<rparr>, fc)"] by (simp add: live_def)
next
  case (rescheduled rs w)
  then show ?case by (simp add: live_reschedule)
next
  case (resized rs w n)
  then show ?case by (simp add: live_def queue_length_def fc_empty_def)
next
  case (rate_changed rs rt fc t)
  then show ?case by (simp add: live_def)
qed simp

lemma backlog_trigger:
  assumes "valid (rt_now (fst w)) (m_trc (snd w))"
  shows "backlog (snd (trigger trc w)) \<le> backlog (snd w) - 1"
proof -
  let ?now = "rt_now (fst w)"
  let ?d = "drop_expired_packets ?now (snd w)"
  have le: "backlog ?d \<le> backlog (snd w)" by (auto simp: backlog_def queue_order_def intro!: add_mono)
  obtain t where t: "snd (trigger trc w) = (send_next trc ?now ?d)\<lparr>m_trc := t\<rparr>" by (rule exE [OF trigger_frame])
  show ?thesis
  proof (cases "fc_empty ?d")
    case True
    then have "advances (\<lambda>_. []) ?d (send_next trc ?now ?d)"
      by (intro advances_send_next) (simp add: queues_wf_def fc_empty_iff)
    then have "fc_empty (send_next trc ?now ?d)"
      using True by (cases rule: dequeue_cases [of trc ?now ?d]) (auto simp: send_next_def fc_empty_iff)
    then show ?thesis using t backlog_zero [of "send_next trc ?now ?d"] by simp
  next
    case False
    then obtain ac x xs where "m_queues ?d ac = x # xs" "m_queues (send_next trc ?now ?d) = (m_queues ?d)(ac := xs)"
      using send_next_progress(2) [of ?now ?d] assms by auto
    then have "backlog (send_next trc ?now ?d) < backlog ?d"
      by (cases ac) (auto simp: backlog_def queue_order_def)
    then show ?thesis using t le by simp
  qed
qed

end

text \<open>The reactive control: no transmission lies in the future and the burst period is a day at most.\<close>

definition reactive_valid :: "time_point \<Rightarrow> reactive_state \<Rightarrow> bool" where
  "reactive_valid now s \<longleftrightarrow>
     (\<forall>t \<in> set (cb_items (bb_messages (m_burst_budget (snd s)))). t \<le> now)
     \<and> (\<forall>t. smb_last_tx (m_fsm_budget (snd s)) = Some t \<longrightarrow> t \<le> now)
     \<and> bb_burst_period (m_burst_budget (snd s)) \<le> milliseconds 86400000"

definition limeric_valid :: "time_point \<Rightarrow> UnitInterval \<times> LimericBudget \<Rightarrow> bool" where
  "limeric_valid now s \<longleftrightarrow> limeric_budget_wf (snd s) \<and> lb_tx_start (snd s) \<le> now"

lemma cb_push_back_set: "x \<in> set (cb_items (cb_push_back y b)) \<Longrightarrow> x = y \<or> x \<in> set (cb_items b)"
  by (cases "cb_items b") (auto simp: cb_push_back_def split: if_splits)

lemma bursty_delay_bounded:
  assumes "reactive_valid now s"
  shows "0 \<le> fst (bursty_delay (fully_meshed_interval (fst s)) now tx (snd s))
    \<and> fst (bursty_delay (fully_meshed_interval (fst s)) now tx (snd s)) < duration_max"
proof (cases "tx_profile tx")
  case DP0
  then show ?thesis using assms
    by (auto simp: bursty_delay_def burst_delay_def reactive_valid_def duration_max_def split: list.splits prod.splits)
qed (use assms fully_meshed_interval_range [of "fst s"] in
    \<open>auto simp: bursty_delay_def fsm_delay_def reactive_valid_def duration_max_def split: option.splits\<close>)

interpretation reactive_control: rate_control reactive_rate_control reactive_valid
proof (unfold_locales, goal_cases)
  case (1 now t tx)
  then show ?case using bursty_delay_bounded by (simp add: reactive_rate_control_def split: prod.splits) (metis fst_conv)
next
  case (2 now t tx)
  then show ?case
    by (auto simp: reactive_rate_control_def reactive_valid_def bursty_delay_def burst_delay_def
        split: Profile.splits prod.splits list.splits)
next
  case (3 now t tx)
  then show ?case
    by (auto simp: reactive_rate_control_def reactive_valid_def bursty_notify_def burst_notify_def fsm_notify_def
        dest!: cb_push_back_set split: Profile.splits)
next
  case (4 now t later)
  then show ?case by (fastforce simp: reactive_valid_def)
qed

interpretation limeric_control: rate_control limeric_rate_control limeric_valid
proof (unfold_locales, goal_cases)
  case (1 now t tx)
  then show ?case
    by (auto simp: limeric_rate_control_def limeric_valid_def limeric_delay_def limeric_budget_wf_def duration_max_def)
next
  case (3 now t tx)
  then show ?case by (simp add: limeric_rate_control_def limeric_valid_def limeric_budget_wf_step) (simp add: limeric_notify_def)
qed (auto simp: limeric_rate_control_def limeric_valid_def)

definition single_reactive_valid :: "time_point \<Rightarrow> GradualStateMachine \<times> StateMachineBudget \<Rightarrow> bool" where
  "single_reactive_valid now s \<longleftrightarrow> gradual_interval (fst s) \<le> milliseconds 86400000
     \<and> (\<forall>t. smb_last_tx (snd s) = Some t \<longrightarrow> t \<le> now)"

interpretation single_reactive_control: rate_control single_reactive_rate_control single_reactive_valid
  by unfold_locales
    (auto simp: single_reactive_rate_control_def single_reactive_valid_def fsm_delay_def fsm_notify_def duration_max_def
      split: option.splits)

lemma live_initial: "valid t0 t \<Longrightarrow> live valid (manual_runtime t0, flow_control t)"
  by (simp add: live_def manual_runtime_def flow_control_def fc_empty_def)


definition first_request :: "reactive_state fc_world" where
  "first_request = request reactive_rate_control (plain_request DP1 1000) (one_byte_packet 7)
     (manual_runtime 0, flow_control reactive_start)"



text \<open>
  A trigger does not ask the rate control again before it sends. A second trigger is scheduled
  when the queue has run empty because its packet expired, and then two packets leave at once:
  the packets below are requested at 0, 1, 20 and 30 ms, the second with a lifetime of 10 ms.
\<close>

definition clock_to :: "time_point \<Rightarrow> 't fc_world \<Rightarrow> 't fc_world" where
  "clock_to tp w = ((fst w)\<lparr>rt_now := tp\<rparr>, snd w)"

definition dispatch :: "'t TransmitRateControl \<Rightarrow> 't fc_world \<Rightarrow> 't fc_world" where
  "dispatch trc w =
     (case rt_queue (fst w) of
        [] \<Rightarrow> w
      | e # rest \<Rightarrow> if deadline e \<le> rt_now (fst w) then trigger trc ((fst w)\<lparr>rt_queue := rest\<rparr>, snd w) else w)"

lemma trigger_loop_dispatch: "trigger_loop (fc_exec trc) w = trigger_loop (fc_exec trc) (dispatch trc w)"
  by (subst trigger_loop.simps) (auto simp: dispatch_def fc_exec_def trigger_loop.simps split: list.split)

definition double_trigger :: "reactive_state fc_world" where
  "double_trigger =
     (let req = (\<lambda>d b. request reactive_rate_control (plain_request DP1 d) (one_byte_packet b))
      in clock_to 60000 (req 1000000 4 (clock_to 30000 (req 1000000 3 (clock_to 20000
           (req 10000 2 (clock_to 1000 (req 1000000 1 (manual_runtime 0, flow_control reactive_start)))))))))"

lemmas fc_eval = request_def plain_request_def transmission_lite_def drop_expired_packets_def drop_expired_queue_def queue_order_def
  transmit_immediately_def contention_def fc_empty_def reactive_rate_control_def bursty_delay_def fsm_delay_def
  bursty_notify_def fsm_notify_def transmit_def fc_notify_def enqueue_def make_room.simps schedule_trigger_def schedule_in_def schedule_at_def
  pending_transmission_def clock_to_def flow_control_def manual_runtime_def reactive_start_def fully_meshed_interval_def fully_meshed_state_machine_def
  less_eq_AccessCategory_def dispatch_def trigger_def dequeue_def next_queue_def next_transmission_def duration_max_def

text \<open>
   A trigger sends without consulting the rate control, so a second pending trigger exceeds the
  permitted rate: at 60 ms the first trigger sends a packet, whereupon the rate control demands to
  wait another 60 ms, and the second trigger sends the next packet at the same instant.
\<close>

theorem trigger_exceeds_rate:
  "let w1 = dispatch reactive_rate_control double_trigger; w2 = dispatch reactive_rate_control w1
   in length (transmit_log (snd double_trigger)) = 1 \<and> length (transmit_log (snd w1)) = 2
     \<and> fst (trc_delay reactive_rate_control (rt_now (fst w1)) (transmission_lite DP1 1) (m_trc (snd w1))) = milliseconds 60
     \<and> length (transmit_log (snd w2)) = 3 \<and> rt_now (fst w2) = rt_now (fst w1)"
  unfolding Let_def by (intro conjI; simp add: double_trigger_def fc_eval)

end
