(* ===== verification/Certificates.thy ===== *)
theory Certificates
  imports Geonet_Requests
begin

text \<open>
  Certificates of version 3 (\<^verbatim>\<open>security/v3/certificate.cpp\<close>): the ASN.1 structure as the
  code reads it, the accessors for keys, signatures and permissions, the canonical form and the
  digest, validity in time, and containment of regions (\<^verbatim>\<open>v3/distance.cpp\<close>,
  \<^verbatim>\<open>v3/geometry.cpp\<close>).

  The OER codec is generated by asn1c. It is a parameter, a record of partial functions; where a
  statement relies on it, \<open>codec_ok\<close> says that decoding an encoding gives the encoded value. The
  SHA functions are parameters without any assumption. A \<^verbatim>\<open>CertificateView\<close> is the
  certificate it points to: the null view is not modelled. Elements of ASN.1 sequences are
  never null pointers.
\<close>

section \<open>Structure of certificates\<close>

type_synonym octets = "byte list"
type_synonym HashedId8 = octets
type_synonym HashedId3 = octets
type_synonym Time32 = u32

text \<open>
  The points of the 256 bit and of the 384 bit curves have the same choices and the code treats
  them by overloads with the same bodies.
\<close>

datatype EccCurvePoint =
  Point_NOTHING | X_only octets | Fill | Compressed_y_0 octets | Compressed_y_1 octets
| Uncompressed_point octets octets

datatype PublicVerificationKey =
  VerKey_NOTHING | EcdsaNistP256 EccCurvePoint | EcdsaBrainpoolP256r1 EccCurvePoint
| EcdsaBrainpoolP384r1 EccCurvePoint | EcdsaNistP384 EccCurvePoint | EcsigSm2 EccCurvePoint
| FnDsa512 octets

datatype VerificationKeyIndicator =
  Indicator_NOTHING | VerificationKey PublicVerificationKey | ReconstructionValue EccCurvePoint

datatype Asn1Signature =
  Signature_NOTHING | EcdsaNistP256Signature EccCurvePoint octets
| EcdsaBrainpoolP256r1Signature EccCurvePoint octets
| EcdsaBrainpoolP384r1Signature EccCurvePoint octets
| EcdsaNistP384Signature EccCurvePoint octets | Sm2Signature octets octets
| FnDsa512Signature octets

datatype BasePublicEncryptionKey =
  EncKey_NOTHING | EciesNistP256 EccCurvePoint | EciesBrainpoolP256r1 EccCurvePoint
| EcencSm2 EccCurvePoint

datatype SymmAlgorithm = Aes128Ccm | Sm4Ccm

record PublicEncryptionKey =
  supportedSymmAlg :: SymmAlgorithm
  enc_publicKey :: BasePublicEncryptionKey

datatype Asn1HashAlgorithm = Asn1_sha256 | Asn1_sha384 | Asn1_sm3

datatype IssuerIdentifier =
  Issuer_NOTHING | Sha256AndDigest octets | Issuer_self Asn1HashAlgorithm | Sha384AndDigest octets

datatype CertificateId =
  Id_NOTHING | Id_linkageData octets | Id_name octets | Id_binaryId octets | Id_none

datatype ValidityDuration =
  Duration_NOTHING | Microseconds u16 | Milliseconds u16 | Seconds u16 | Minutes u16 | Hours u16
| SixtyHours u16 | Years u16

record TwoDLocation =
  loc_latitude :: int
  loc_longitude :: int

record RectangularRegion =
  northWest :: TwoDLocation
  southEast :: TwoDLocation

datatype IdentifiedRegion =
  Identified_NOTHING | CountryOnly u16 | CountryAndRegions u16 octets | CountryAndSubregions u16 octets

datatype GeographicRegion =
  Region_NOTHING | CircularRegion TwoDLocation int | RectangularRegions "RectangularRegion list"
| PolygonalRegion "TwoDLocation list" | IdentifiedRegions "IdentifiedRegion list"

datatype ServiceSpecificPermissions = Ssp_NOTHING | Ssp_opaque octets | BitmapSsp octets

record PsidSsp =
  psid :: u64
  ssp :: "ServiceSpecificPermissions option"

datatype SspRange = SspRange_NOTHING | SspRange_opaque "octets list" | SspRange_all | BitmapSspRange octets octets

record PsidSspRange =
  range_psid :: u64
  sspRange :: "SspRange option"

datatype SubjectPermissions = Permissions_NOTHING | Permissions_explicit "PsidSspRange list" | Permissions_all

record PsidGroupPermissions =
  subjectPermissions :: SubjectPermissions
  minChainLength :: int
  chainLengthRange :: int
  eeType :: octets

text \<open>The extension fields that no code of the stack reads are kept as their encodings.\<close>

record ToBeSignedCertificate =
  cert_id :: CertificateId
  cracaId :: octets
  crlSeries :: u16
  validity_start :: Time32
  validity_duration :: ValidityDuration
  region :: "GeographicRegion option"
  assuranceLevel :: "octets option"
  appPermissions :: "PsidSsp list option"
  certIssuePermissions :: "PsidGroupPermissions list option"
  certRequestPermissions :: "PsidGroupPermissions list option"
  canRequestRollover :: bool
  encryptionKey :: "PublicEncryptionKey option"
  verifyKeyIndicator :: VerificationKeyIndicator
  extension_fields :: octets
  altVerificationKey :: "PublicVerificationKey option"
  altSignatureValue :: "Asn1Signature option"

datatype CertificateType = Explicit_certificate | Implicit_certificate

record Certificate =
  cert_version :: u8
  cert_type :: CertificateType
  issuer :: IssuerIdentifier
  toBeSigned :: ToBeSignedCertificate
  cert_signature :: "Asn1Signature option"

text \<open>The asn1c codec: \<open>None\<close> is a failed encoding (an exception) or decoding.\<close>

record Asn1Codec =
  encode_cert :: "Certificate \<Rightarrow> octets option"
  decode_cert :: "octets \<Rightarrow> Certificate option"
  encode_tbs :: "ToBeSignedCertificate \<Rightarrow> octets option"

definition codec_ok :: "Asn1Codec \<Rightarrow> bool" where
  "codec_ok asn \<longleftrightarrow> (\<forall>c b. encode_cert asn c = Some b \<longrightarrow> decode_cert asn b = Some c)"

text \<open>
  \<^verbatim>\<open>asn1::copy\<close> and the copy constructor of \<^verbatim>\<open>Certificate\<close> encode and decode; a
  failure of either is an exception.
\<close>

definition asn1_copy :: "Asn1Codec \<Rightarrow> Certificate \<Rightarrow> Certificate option" where
  "asn1_copy asn c = Option.bind (encode_cert asn c) (decode_cert asn)"

section \<open>Keys and signatures\<close>

datatype KeyType = Unspecified | NistP256 | BrainpoolP256r1 | BrainpoolP384r1
datatype HashAlgorithm = Hash_Unspecified | SHA256 | SHA384
datatype KeyCompression = NoCompression | Y0 | Y1

record PublicKey =
  pk_x :: octets
  pk_y :: octets
  pk_type :: KeyType
  pk_compression :: KeyCompression

record PrivateKey =
  sk_type :: KeyType
  sk_key :: octets

record Signature =
  sig_r :: octets
  sig_s :: octets
  sig_type :: KeyType

fun key_length :: "KeyType \<Rightarrow> nat" where
  "key_length NistP256 = 32"
| "key_length BrainpoolP256r1 = 32"
| "key_length BrainpoolP384r1 = 48"
| "key_length Unspecified = 0"

fun specified_hash_algorithm :: "KeyType \<Rightarrow> HashAlgorithm" where
  "specified_hash_algorithm NistP256 = SHA256"
| "specified_hash_algorithm BrainpoolP256r1 = SHA256"
| "specified_hash_algorithm BrainpoolP384r1 = SHA384"
| "specified_hash_algorithm Unspecified = Hash_Unspecified"

fun copy_curve_point :: "KeyType \<Rightarrow> EccCurvePoint \<Rightarrow> PublicKey option" where
  "copy_curve_point t (Compressed_y_0 x) = Some \<lparr>pk_x = x, pk_y = [], pk_type = t, pk_compression = Y0\<rparr>"
| "copy_curve_point t (Compressed_y_1 x) = Some \<lparr>pk_x = x, pk_y = [], pk_type = t, pk_compression = Y1\<rparr>"
| "copy_curve_point t (Uncompressed_point x y) =
     Some \<lparr>pk_x = x, pk_y = y, pk_type = t, pk_compression = NoCompression\<rparr>"
| "copy_curve_point t _ = None"

fun get_x_coordinate :: "EccCurvePoint \<Rightarrow> octets" where
  "get_x_coordinate (Compressed_y_0 x) = x"
| "get_x_coordinate (Compressed_y_1 x) = x"
| "get_x_coordinate (X_only x) = x"
| "get_x_coordinate (Uncompressed_point x y) = x"
| "get_x_coordinate _ = []"

definition get_verification_key_type :: "Certificate \<Rightarrow> KeyType" where
  "get_verification_key_type cert =
     (case verifyKeyIndicator (toBeSigned cert) of
        VerificationKey k \<Rightarrow>
          (case k of EcdsaNistP256 _ \<Rightarrow> NistP256 | EcdsaBrainpoolP256r1 _ \<Rightarrow> BrainpoolP256r1
           | EcdsaBrainpoolP384r1 _ \<Rightarrow> BrainpoolP384r1 | _ \<Rightarrow> Unspecified)
      | _ \<Rightarrow> Unspecified)"

definition get_public_key :: "Certificate \<Rightarrow> PublicKey option" where
  "get_public_key cert =
     (case verifyKeyIndicator (toBeSigned cert) of
        VerificationKey k \<Rightarrow>
          (case k of EcdsaNistP256 p \<Rightarrow> copy_curve_point NistP256 p
           | EcdsaBrainpoolP256r1 p \<Rightarrow> copy_curve_point BrainpoolP256r1 p
           | EcdsaBrainpoolP384r1 p \<Rightarrow> copy_curve_point BrainpoolP384r1 p
           | _ \<Rightarrow> None)
      | _ \<Rightarrow> None)"

definition get_public_encryption_key :: "Certificate \<Rightarrow> PublicKey option" where
  "get_public_encryption_key cert =
     (case encryptionKey (toBeSigned cert) of
        None \<Rightarrow> None
      | Some enc_key \<Rightarrow>
          if supportedSymmAlg enc_key \<noteq> Aes128Ccm then None
          else (case enc_publicKey enc_key of
                  EciesNistP256 p \<Rightarrow> copy_curve_point NistP256 p
                | EciesBrainpoolP256r1 p \<Rightarrow> copy_curve_point BrainpoolP256r1 p
                | _ \<Rightarrow> None))"

definition get_signature :: "Certificate \<Rightarrow> Signature option" where
  "get_signature cert =
     (case cert_signature cert of
        None \<Rightarrow> None
      | Some s \<Rightarrow>
          (case s of
             EcdsaNistP256Signature r s \<Rightarrow> Some \<lparr>sig_r = get_x_coordinate r, sig_s = s, sig_type = NistP256\<rparr>
           | EcdsaBrainpoolP256r1Signature r s \<Rightarrow>
               Some \<lparr>sig_r = get_x_coordinate r, sig_s = s, sig_type = BrainpoolP256r1\<rparr>
           | EcdsaBrainpoolP384r1Signature r s \<Rightarrow>
               Some \<lparr>sig_r = get_x_coordinate r, sig_s = s, sig_type = BrainpoolP384r1\<rparr>
           | _ \<Rightarrow> None))"

section \<open>Canonical form\<close>

fun is_compressed :: "EccCurvePoint \<Rightarrow> bool" where
  "is_compressed (Compressed_y_0 _) = True"
| "is_compressed (Compressed_y_1 _) = True"
| "is_compressed _ = False"

fun is_x_only :: "EccCurvePoint \<Rightarrow> bool" where
  "is_x_only (X_only _) = True"
| "is_x_only _ = False"

fun is_signature_x_only :: "Asn1Signature \<Rightarrow> bool" where
  "is_signature_x_only (EcdsaNistP256Signature r s) = is_x_only r"
| "is_signature_x_only (EcdsaBrainpoolP256r1Signature r s) = is_x_only r"
| "is_signature_x_only (EcdsaBrainpoolP384r1Signature r s) = is_x_only r"
| "is_signature_x_only _ = True"

definition compressed_point :: "VerificationKeyIndicator \<Rightarrow> bool" where
  "compressed_point indicator =
     (case indicator of
        VerificationKey k \<Rightarrow>
          (case k of EcdsaNistP256 p \<Rightarrow> is_compressed p | EcdsaBrainpoolP256r1 p \<Rightarrow> is_compressed p
           | EcdsaBrainpoolP384r1 p \<Rightarrow> is_compressed p | _ \<Rightarrow> True)
      | ReconstructionValue p \<Rightarrow> is_compressed p
      | Indicator_NOTHING \<Rightarrow> True)"

definition is_canonical :: "Certificate \<Rightarrow> bool" where
  "is_canonical cert =
     (if \<not> compressed_point (verifyKeyIndicator (toBeSigned cert)) then False
      else (case cert_signature cert of None \<Rightarrow> True | Some s \<Rightarrow> is_signature_x_only s))"

text \<open>
  \<^verbatim>\<open>compress\<close> and \<^verbatim>\<open>make_x_only\<close> change a point in place and report success;
  here they return the new point, or \<open>None\<close> for the failures.
\<close>

fun compress :: "EccCurvePoint \<Rightarrow> EccCurvePoint option" where
  "compress (Uncompressed_point x y) =
     (let y_odd = (y \<noteq> [] \<and> last y AND 1 \<noteq> 0)
      in if y_odd then Some (Compressed_y_1 x) else Some (Compressed_y_0 x))"
| "compress (Compressed_y_0 x) = Some (Compressed_y_0 x)"
| "compress (Compressed_y_1 x) = Some (Compressed_y_1 x)"
| "compress _ = None"

fun make_x_only :: "EccCurvePoint \<Rightarrow> EccCurvePoint option" where
  "make_x_only (Uncompressed_point x y) = Some (X_only x)"
| "make_x_only (X_only x) = Some (X_only x)"
| "make_x_only _ = None"

fun make_signature_x_only :: "Asn1Signature \<Rightarrow> Asn1Signature option" where
  "make_signature_x_only (EcdsaNistP256Signature r s) =
     map_option (\<lambda>r. EcdsaNistP256Signature r s) (make_x_only r)"
| "make_signature_x_only (EcdsaBrainpoolP256r1Signature r s) =
     map_option (\<lambda>r. EcdsaBrainpoolP256r1Signature r s) (make_x_only r)"
| "make_signature_x_only (EcdsaBrainpoolP384r1Signature r s) =
     map_option (\<lambda>r. EcdsaBrainpoolP384r1Signature r s) (make_x_only r)"
| "make_signature_x_only _ = None"

fun compress_indicator :: "VerificationKeyIndicator \<Rightarrow> VerificationKeyIndicator option" where
  "compress_indicator (VerificationKey (EcdsaNistP256 p)) =
     map_option (\<lambda>p. VerificationKey (EcdsaNistP256 p)) (compress p)"
| "compress_indicator (VerificationKey (EcdsaBrainpoolP256r1 p)) =
     map_option (\<lambda>p. VerificationKey (EcdsaBrainpoolP256r1 p)) (compress p)"
| "compress_indicator (VerificationKey (EcdsaBrainpoolP384r1 p)) =
     map_option (\<lambda>p. VerificationKey (EcdsaBrainpoolP384r1 p)) (compress p)"
| "compress_indicator (VerificationKey k) = Some (VerificationKey k)"
| "compress_indicator (ReconstructionValue p) = map_option ReconstructionValue (compress p)"
| "compress_indicator Indicator_NOTHING = Some Indicator_NOTHING"

fun compress_encryption_key :: "BasePublicEncryptionKey \<Rightarrow> BasePublicEncryptionKey option" where
  "compress_encryption_key (EciesNistP256 p) = map_option EciesNistP256 (compress p)"
| "compress_encryption_key (EciesBrainpoolP256r1 p) = map_option EciesBrainpoolP256r1 (compress p)"
| "compress_encryption_key k = Some k"

text \<open>An operation on an optional part: nothing to do where the part is absent.\<close>

definition on_present :: "('a \<Rightarrow> 'a option) \<Rightarrow> 'a option \<Rightarrow> 'a option option" where
  "on_present f x = (case x of None \<Rightarrow> Some None | Some v \<Rightarrow> map_option Some (f v))"

definition canonicalize_copy :: "Certificate \<Rightarrow> Certificate option" where
  "canonicalize_copy cert =
     (case (compress_indicator (verifyKeyIndicator (toBeSigned cert)),
            on_present (\<lambda>k. map_option (\<lambda>p. k\<lparr>enc_publicKey := p\<rparr>) (compress_encryption_key (enc_publicKey k)))
              (encryptionKey (toBeSigned cert)),
            on_present make_signature_x_only (cert_signature cert)) of
        (Some ind, Some enc, Some sig) \<Rightarrow>
          Some (cert\<lparr>toBeSigned := (toBeSigned cert)\<lparr>verifyKeyIndicator := ind, encryptionKey := enc\<rparr>,
                     cert_signature := sig\<rparr>)
      | _ \<Rightarrow> None)"

definition cert_canonicalize :: "Asn1Codec \<Rightarrow> Certificate \<Rightarrow> Certificate option" where
  "cert_canonicalize asn cert = Option.bind (asn1_copy asn cert) canonicalize_copy"

section \<open>Digest\<close>

text \<open>The SHA functions return their digest; a hashed identifier is its last octets.\<close>

record ShaFunctions =
  calculate_sha256_digest :: "octets \<Rightarrow> octets"
  calculate_sha384_digest :: "octets \<Rightarrow> octets"

definition last_octets :: "nat \<Rightarrow> octets \<Rightarrow> octets" where
  "last_octets n bs = drop (length bs - n) bs"

definition create_hashed_id8 :: "octets \<Rightarrow> HashedId8" where
  "create_hashed_id8 digest = last_octets 8 digest"

definition truncate_hashed_id :: "HashedId8 \<Rightarrow> HashedId3" where
  "truncate_hashed_id h = last_octets 3 h"

definition calculate_digest_internal :: "Asn1Codec \<Rightarrow> ShaFunctions \<Rightarrow> Certificate \<Rightarrow> KeyType \<Rightarrow> HashedId8 option" where
  "calculate_digest_internal asn sha cert key_type =
     (case encode_cert asn cert of
        None \<Rightarrow> None
      | Some buffer \<Rightarrow>
          (case key_type of
             NistP256 \<Rightarrow> Some (create_hashed_id8 (calculate_sha256_digest sha buffer))
           | BrainpoolP256r1 \<Rightarrow> Some (create_hashed_id8 (calculate_sha256_digest sha buffer))
           | BrainpoolP384r1 \<Rightarrow> Some (create_hashed_id8 (calculate_sha384_digest sha buffer))
           | Unspecified \<Rightarrow> None))"

definition calculate_digest :: "Asn1Codec \<Rightarrow> ShaFunctions \<Rightarrow> Certificate \<Rightarrow> HashedId8 option" where
  "calculate_digest asn sha cert =
     (let key_type = get_verification_key_type cert
      in if key_type = Unspecified then None
         else if is_canonical cert then calculate_digest_internal asn sha cert key_type
         else (case cert_canonicalize asn cert of
                 None \<Rightarrow> None
               | Some canonical \<Rightarrow> calculate_digest_internal asn sha canonical key_type))"

section \<open>Issuer, kind and permissions\<close>

text \<open>The octet string of a hashed identifier has eight octets by its ASN.1 constraint.\<close>

definition issuer_digest :: "Certificate \<Rightarrow> HashedId8 option" where
  "issuer_digest cert =
     (case issuer cert of
        Sha256AndDigest d \<Rightarrow> Some (take 8 d)
      | Sha384AndDigest d \<Rightarrow> Some (take 8 d)
      | _ \<Rightarrow> None)"

definition issuer_is_self :: "Certificate \<Rightarrow> bool" where
  "issuer_is_self cert = (case issuer cert of Issuer_self _ \<Rightarrow> True | _ \<Rightarrow> False)"

definition has_region_restriction :: "Certificate \<Rightarrow> bool" where
  "has_region_restriction cert = (region (toBeSigned cert) \<noteq> None)"

definition is_ca_certificate :: "Certificate \<Rightarrow> bool" where
  "is_ca_certificate cert = (certIssuePermissions (toBeSigned cert) \<noteq> None)"

definition is_at_certificate :: "Certificate \<Rightarrow> bool" where
  "is_at_certificate cert =
     (certIssuePermissions (toBeSigned cert) = None \<and> appPermissions (toBeSigned cert) \<noteq> None)"

text \<open>A Psid is a 64 bit quantity, an ITS-AID has 32 bit: comparison extends the ITS-AID.\<close>

definition valid_for_application :: "Certificate \<Rightarrow> ItsAid \<Rightarrow> bool" where
  "valid_for_application cert aid =
     (case appPermissions (toBeSigned cert) of
        None \<Rightarrow> False
      | Some permissions \<Rightarrow> list_ex (\<lambda>p. psid p = ucast aid) permissions)"

definition contains_permission :: "PsidSspRange list \<Rightarrow> ItsAid \<Rightarrow> bool" where
  "contains_permission permissions aid = list_ex (\<lambda>p. range_psid p = ucast aid) permissions"

fun group_allows :: "ItsAid \<Rightarrow> SubjectPermissions \<Rightarrow> bool" where
  "group_allows aid Permissions_all = True"
| "group_allows aid (Permissions_explicit ps) = contains_permission ps aid"
| "group_allows aid Permissions_NOTHING = False"

definition is_allowed_to_issue :: "Certificate \<Rightarrow> ItsAid \<Rightarrow> bool" where
  "is_allowed_to_issue cert aid =
     (case certIssuePermissions (toBeSigned cert) of
        None \<Rightarrow> False
      | Some groups \<Rightarrow> list_ex (\<lambda>g. group_allows aid (subjectPermissions g)) groups)"

definition assurance_level :: "Certificate \<Rightarrow> u8 option" where
  "assurance_level cert =
     (case assuranceLevel (toBeSigned cert) of
        None \<Rightarrow> None
      | Some [] \<Rightarrow> None
      | Some (b # _) \<Rightarrow> Some b)"

definition get_aids :: "Certificate \<Rightarrow> ItsAid list" where
  "get_aids cert =
     (case appPermissions (toBeSigned cert) of None \<Rightarrow> [] | Some seq \<Rightarrow> map (\<lambda>p. ucast (psid p)) seq)"

fun find_app_permissions :: "PsidSsp list \<Rightarrow> ItsAid \<Rightarrow> octets" where
  "find_app_permissions [] aid = []"
| "find_app_permissions (p # ps) aid =
     (if psid p = ucast aid
      then (case ssp p of
              Some (BitmapSsp bitmap) \<Rightarrow> bitmap
            | Some (Ssp_opaque opaque) \<Rightarrow> opaque
            | _ \<Rightarrow> find_app_permissions ps aid)
      else find_app_permissions ps aid)"

definition get_app_permissions :: "Certificate \<Rightarrow> ItsAid \<Rightarrow> octets" where
  "get_app_permissions cert aid =
     (case appPermissions (toBeSigned cert) of None \<Rightarrow> [] | Some seq \<Rightarrow> find_app_permissions seq aid)"

definition add_app_permission :: "ItsAid \<Rightarrow> octets \<Rightarrow> Certificate \<Rightarrow> Certificate" where
  "add_app_permission aid bitmap cert =
     (let seq = (case appPermissions (toBeSigned cert) of None \<Rightarrow> [] | Some seq \<Rightarrow> seq);
          entry = \<lparr>psid = ucast aid, ssp = (if bitmap = [] then None else Some (BitmapSsp bitmap))\<rparr>
      in cert\<lparr>toBeSigned := (toBeSigned cert)\<lparr>appPermissions := Some (seq @ [entry])\<rparr>\<rparr>)"

text \<open>
  The sequence of the explicit choice is appended to whatever the discriminator says; the caller
  selects the explicit choice. A group with another choice has no such sequence.
\<close>

definition add_psid_group_permission :: "ItsAid \<Rightarrow> octets \<Rightarrow> octets \<Rightarrow> PsidGroupPermissions \<Rightarrow> PsidGroupPermissions" where
  "add_psid_group_permission aid value bitmask grp =
     (case subjectPermissions grp of
        Permissions_explicit ps \<Rightarrow>
          grp\<lparr>subjectPermissions := Permissions_explicit
            (ps @ [\<lparr>range_psid = ucast aid, sspRange = Some (BitmapSspRange value bitmask)\<rparr>])\<rparr>
      | _ \<Rightarrow> grp)"

definition add_cert_issue_permission :: "PsidGroupPermissions \<Rightarrow> Certificate \<Rightarrow> Certificate" where
  "add_cert_issue_permission grp cert =
     (let seq = (case certIssuePermissions (toBeSigned cert) of None \<Rightarrow> [] | Some seq \<Rightarrow> seq)
      in cert\<lparr>toBeSigned := (toBeSigned cert)\<lparr>certIssuePermissions := Some (seq @ [grp])\<rparr>\<rparr>)"

definition fake_certificate :: Certificate where
  "fake_certificate = add_app_permission 36 [1, 0, 0]
     \<lparr>cert_version = 3, cert_type = Explicit_certificate, issuer = Issuer_self Asn1_sha256,
      toBeSigned =
        \<lparr>cert_id = Id_none, cracaId = [0, 0, 0], crlSeries = 0, validity_start = 0,
         validity_duration = Minutes 10080, region = None, assuranceLevel = None,
         appPermissions = None, certIssuePermissions = None, certRequestPermissions = None,
         canRequestRollover = False, encryptionKey = None,
         verifyKeyIndicator = VerificationKey (EcdsaNistP256 (Compressed_y_0 (replicate 32 0))),
         extension_fields = [], altVerificationKey = None, altSignatureValue = None\<rparr>,
      cert_signature = None\<rparr>"

section \<open>Validity in time\<close>

text \<open>The duration added to the start by \<^verbatim>\<open>valid_at_timepoint\<close>, in microseconds.\<close>

fun duration_time :: "ValidityDuration \<Rightarrow> duration" where
  "duration_time Duration_NOTHING = 0"
| "duration_time (Microseconds n) = uint n"
| "duration_time (Milliseconds n) = 1000 * uint n"
| "duration_time (Seconds n) = 1000000 * uint n"
| "duration_time (Minutes n) = 60 * 1000000 * uint n"
| "duration_time (Hours n) = 3600 * 1000000 * uint n"
| "duration_time (SixtyHours n) = 60 * 3600 * 1000000 * uint n"
| "duration_time (Years n) = 31556952 * 1000000 * uint n"

definition valid_at_timepoint :: "Certificate \<Rightarrow> time_point \<Rightarrow> bool" where
  "valid_at_timepoint cert timepoint =
     (let start = 1000000 * uint (validity_start (toBeSigned cert));
          end = start + duration_time (validity_duration (toBeSigned cert))
      in start \<le> timepoint \<and> timepoint < end)"

record StartAndEndValidity =
  start_validity :: Time32
  end_validity :: Time32

text \<open>
  The products of \<^verbatim>\<open>get_start_and_end_validity\<close> are computed in \<^verbatim>\<open>int\<close> and
  converted to \<^verbatim>\<open>Time32\<close>. An overflowing product is undefined in C++; it wraps around here,
  and the statements below exclude it.
\<close>

fun duration_time32 :: "ValidityDuration \<Rightarrow> Time32" where
  "duration_time32 Duration_NOTHING = 0"
| "duration_time32 (Microseconds n) = ucast n div 1000000"
| "duration_time32 (Milliseconds n) = ucast n div 1000"
| "duration_time32 (Seconds n) = ucast n"
| "duration_time32 (Minutes n) = ucast n * 60"
| "duration_time32 (Hours n) = ucast n * 60 * 60"
| "duration_time32 (SixtyHours n) = ucast n * 60 * 60 * 60"
| "duration_time32 (Years n) = ucast n * 60 * 60 * 24 * 365"

definition get_start_and_end_validity :: "Certificate \<Rightarrow> StartAndEndValidity" where
  "get_start_and_end_validity cert =
     (let start = validity_start (toBeSigned cert)
      in \<lparr>start_validity = start,
          end_validity = start + duration_time32 (validity_duration (toBeSigned cert))\<rparr>)"

section \<open>Regions\<close>

text \<open>
  Only latitude and longitude of a \<^verbatim>\<open>PositionFix\<close> are read. \<open>None\<close> is a coordinate that
  is not finite. Comparisons with a distance that is not a number are false.
\<close>

record PositionFix =
  fix_latitude :: "real option"
  fix_longitude :: "real option"

definition ninety_degree_min :: int where "ninety_degree_min = -900000000"
definition ninety_degree_max :: int where "ninety_degree_max = 900000000"
definition one_eighty_degree_min :: int where "one_eighty_degree_min = -1799999999"
definition one_eighty_degree_max :: int where "one_eighty_degree_max = 1800000000"

definition location_is_valid :: "TwoDLocation \<Rightarrow> bool" where
  "location_is_valid loc \<longleftrightarrow>
     loc_latitude loc \<ge> ninety_degree_min \<and> loc_latitude loc \<le> ninety_degree_max \<and>
     loc_longitude loc \<ge> one_eighty_degree_min \<and> loc_longitude loc \<le> one_eighty_degree_max"

definition convert_latitude :: "int \<Rightarrow> real option" where
  "convert_latitude i =
     (if i \<ge> ninety_degree_min \<and> i \<le> ninety_degree_max
      then Some (real_of_int i * 90 / real_of_int ninety_degree_max) else None)"

definition convert_longitude :: "int \<Rightarrow> real option" where
  "convert_longitude i =
     (if i \<ge> one_eighty_degree_min \<and> i \<le> one_eighty_degree_max
      then Some (real_of_int i * 180 / real_of_int one_eighty_degree_max) else None)"

definition sphere_distance :: "GeodeticPosition \<Rightarrow> GeodeticPosition \<Rightarrow> real" where
  "sphere_distance one other =
     (let sin_delta_phi = sin (radians (geo_latitude one - geo_latitude other) / 2);
          sin_delta_lambda = sin (radians (geo_longitude one - geo_longitude other) / 2);
          a = sin_delta_phi * sin_delta_phi
              + cos (radians (geo_latitude one)) * cos (radians (geo_latitude other))
                * sin_delta_lambda * sin_delta_lambda;
          c = 2 * atan2 (sqrt a) (sqrt (1 - a))
      in 6371000 * c)"

definition cert_distance :: "PositionFix \<Rightarrow> TwoDLocation \<Rightarrow> real option" where
  "cert_distance one other =
     (case (fix_latitude one, fix_longitude one,
            convert_latitude (loc_latitude other), convert_longitude (loc_longitude other)) of
        (Some lat, Some lon, Some other_lat, Some other_lon) \<Rightarrow>
          Some (sphere_distance \<lparr>geo_latitude = lat, geo_longitude = lon\<rparr>
                  \<lparr>geo_latitude = other_lat, geo_longitude = other_lon\<rparr>)
      | _ \<Rightarrow> None)"

definition is_inside_circle :: "PositionFix \<Rightarrow> TwoDLocation \<Rightarrow> int \<Rightarrow> bool" where
  "is_inside_circle location center radius =
     (if location_is_valid center \<and> radius \<ge> 0
      then (case cert_distance location center of None \<Rightarrow> False | Some d \<Rightarrow> d \<le> real_of_int radius)
      else False)"

definition is_inside_rectangle :: "PositionFix \<Rightarrow> RectangularRegion \<Rightarrow> bool" where
  "is_inside_rectangle location r =
     (case (fix_latitude location, fix_longitude location) of
        (Some lat, Some lon) \<Rightarrow>
          if location_is_valid (northWest r) \<and> location_is_valid (southEast r)
          then if loc_latitude (northWest r) \<le> loc_latitude (southEast r) then False
               else if loc_longitude (northWest r) = loc_longitude (southEast r) then False
               else let loc_lat = truncate_real (lat * real_of_int (ninety_degree_max div 90));
                        loc_lon = truncate_real (lon * real_of_int (one_eighty_degree_max div 180))
                    in if loc_lat \<ge> loc_latitude (southEast r) \<and> loc_lat \<le> loc_latitude (northWest r)
                       then if loc_longitude (northWest r) < loc_longitude (southEast r)
                            then loc_lon \<ge> loc_longitude (northWest r) \<and> loc_lon \<le> loc_longitude (southEast r)
                            else loc_lon \<ge> loc_longitude (northWest r) \<or> loc_lon \<le> loc_longitude (southEast r)
                       else False
          else False
      | _ \<Rightarrow> False)"

definition is_inside_rectangles :: "PositionFix \<Rightarrow> RectangularRegion list \<Rightarrow> bool" where
  "is_inside_rectangles location regions = list_ex (is_inside_rectangle location) regions"

definition equal_location :: "TwoDLocation \<Rightarrow> TwoDLocation \<Rightarrow> bool" where
  "equal_location lhs rhs \<longleftrightarrow> loc_latitude lhs = loc_latitude rhs \<and> loc_longitude lhs = loc_longitude rhs"

definition equal_rectangle :: "RectangularRegion \<Rightarrow> RectangularRegion \<Rightarrow> bool" where
  "equal_rectangle lhs rhs \<longleftrightarrow>
     equal_location (northWest lhs) (northWest rhs) \<and> equal_location (southEast lhs) (southEast rhs)"

definition equal_rectangles :: "RectangularRegion list \<Rightarrow> RectangularRegion list \<Rightarrow> bool" where
  "equal_rectangles lhs rhs \<longleftrightarrow>
     length lhs = length rhs \<and> list_all (\<lambda>(a, b). equal_rectangle a b) (zip lhs rhs)"

fun is_within_circle :: "GeographicRegion \<Rightarrow> TwoDLocation \<Rightarrow> int \<Rightarrow> bool" where
  "is_within_circle (CircularRegion center radius) outer_center outer_radius =
     (if \<not> location_is_valid center \<or> \<not> location_is_valid outer_center \<or> radius < 0 \<or> outer_radius < 0
      then False
      else let inner_center = \<lparr>fix_latitude = convert_latitude (loc_latitude center),
                               fix_longitude = convert_longitude (loc_longitude center)\<rparr>
           in (case cert_distance inner_center outer_center of
                 None \<Rightarrow> False
               | Some d \<Rightarrow> d + real_of_int radius \<le> real_of_int outer_radius))"
| "is_within_circle _ outer_center outer_radius = False"

fun is_within_rectangles :: "GeographicRegion \<Rightarrow> RectangularRegion list \<Rightarrow> bool" where
  "is_within_rectangles (RectangularRegions inner) outer = equal_rectangles inner outer"
| "is_within_rectangles _ outer = False"

fun is_within :: "GeographicRegion \<Rightarrow> GeographicRegion \<Rightarrow> bool" where
  "is_within inner (CircularRegion center radius) = is_within_circle inner center radius"
| "is_within inner (RectangularRegions outer) = is_within_rectangles inner outer"
| "is_within inner (PolygonalRegion _) = False"
| "is_within inner Region_NOTHING = True"
| "is_within inner (IdentifiedRegions _) = False"

definition region_is_within :: "Certificate \<Rightarrow> Certificate \<Rightarrow> bool" where
  "region_is_within subject issuer_cert =
     (case region (toBeSigned issuer_cert) of
        None \<Rightarrow> True
      | Some issuer_region \<Rightarrow>
          (case region (toBeSigned subject) of
             None \<Rightarrow> False
           | Some subject_region \<Rightarrow> is_within subject_region issuer_region))"

section \<open>Lemmas\<close>

named_theorems cert_defs \<open>accessors of certificates\<close>

declare get_verification_key_type_def [cert_defs] get_public_key_def [cert_defs]
  get_signature_def [cert_defs] issuer_digest_def [cert_defs] issuer_is_self_def [cert_defs]
  is_ca_certificate_def [cert_defs] is_at_certificate_def [cert_defs]

lemma compress_compressed: "compress p = Some q \<Longrightarrow> is_compressed q"
  by (cases p) (auto simp: Let_def split: if_splits)

lemma compress_idle: "is_compressed p \<Longrightarrow> compress p = Some p"
  by (cases p) auto

lemma compress_key_rel:
  "compress p = Some q \<Longrightarrow>
     rel_option (\<lambda>k k'. pk_x k' = pk_x k \<and> pk_type k' = pk_type k) (copy_curve_point t p) (copy_curve_point t q)"
  by (cases p) (auto simp: Let_def split: if_splits)

lemma make_x_only_x_only: "make_x_only p = Some q \<Longrightarrow> is_x_only q"
  by (cases p) auto

lemma make_x_only_idle: "is_x_only p \<Longrightarrow> make_x_only p = Some p"
  by (cases p) auto

lemma make_x_only_coordinate: "make_x_only p = Some q \<Longrightarrow> get_x_coordinate q = get_x_coordinate p"
  by (cases p) auto

lemma make_signature_x_only_result:
  assumes "make_signature_x_only s = Some s'"
  shows "is_signature_x_only s'" and "make_signature_x_only s' = Some s'"
  using assms by (cases s; auto dest: make_x_only_x_only simp: make_x_only_idle)+

lemma compress_indicator_result:
  assumes "compress_indicator i = Some i'"
  shows "compressed_point i'" and "compress_indicator i' = Some i'"
  using assms
  by (cases i rule: compress_indicator.cases;
      auto simp: compressed_point_def compress_idle dest: compress_compressed)+

fun encryption_key_compressed :: "BasePublicEncryptionKey \<Rightarrow> bool" where
  "encryption_key_compressed (EciesNistP256 p) = is_compressed p"
| "encryption_key_compressed (EciesBrainpoolP256r1 p) = is_compressed p"
| "encryption_key_compressed _ = True"

lemma compress_encryption_key_result:
  assumes "compress_encryption_key k = Some k'"
  shows "encryption_key_compressed k'" and "compress_encryption_key k' = Some k'"
  using assms by (cases k; auto simp: compress_idle dest: compress_compressed)+

lemma compress_encryption_key_idle: "encryption_key_compressed k \<Longrightarrow> compress_encryption_key k = Some k"
  by (cases k) (auto simp: compress_idle)

lemma compress_indicator_idle: "compressed_point i \<Longrightarrow> compress_indicator i = Some i"
  by (cases i rule: compress_indicator.cases) (auto simp: compressed_point_def compress_idle)

lemma on_present_SomeD:
  "on_present f x = Some y \<Longrightarrow>
     (x = None \<and> y = None) \<or> (\<exists>v w. x = Some v \<and> y = Some w \<and> f v = Some w)"
  by (auto simp: on_present_def split: option.splits)

text \<open>What canonicalization changes: the three parts, each by its own conversion.\<close>

lemma canonicalize_copyD:
  assumes "canonicalize_copy c = Some c'"
  obtains ind enc sig where
    "compress_indicator (verifyKeyIndicator (toBeSigned c)) = Some ind"
    "on_present (\<lambda>k. map_option (\<lambda>p. k\<lparr>enc_publicKey := p\<rparr>) (compress_encryption_key (enc_publicKey k)))
       (encryptionKey (toBeSigned c)) = Some enc"
    "on_present make_signature_x_only (cert_signature c) = Some sig"
    "c' = c\<lparr>toBeSigned := (toBeSigned c)\<lparr>verifyKeyIndicator := ind, encryptionKey := enc\<rparr>,
            cert_signature := sig\<rparr>"
  using assms by (auto simp: canonicalize_copy_def split: option.splits)

definition cert_encryption_key_compressed :: "Certificate \<Rightarrow> bool" where
  "cert_encryption_key_compressed c =
     (case encryptionKey (toBeSigned c) of
        None \<Rightarrow> True | Some k \<Rightarrow> encryption_key_compressed (enc_publicKey k))"

lemma canonicalize_copy_canonical:
  assumes "canonicalize_copy c = Some c'"
  shows "is_canonical c'" and "cert_encryption_key_compressed c'" and "canonicalize_copy c' = Some c'"
proof -
  from assms obtain ind enc sig where p:
    "compress_indicator (verifyKeyIndicator (toBeSigned c)) = Some ind"
    "on_present (\<lambda>k. map_option (\<lambda>p. k\<lparr>enc_publicKey := p\<rparr>) (compress_encryption_key (enc_publicKey k)))
       (encryptionKey (toBeSigned c)) = Some enc"
    "on_present make_signature_x_only (cert_signature c) = Some sig"
    "c' = c\<lparr>toBeSigned := (toBeSigned c)\<lparr>verifyKeyIndicator := ind, encryptionKey := enc\<rparr>,
            cert_signature := sig\<rparr>"
    by (rule canonicalize_copyD)
  note i = compress_indicator_result [OF p(1)]
  show "is_canonical c'"
    using i(1) on_present_SomeD [OF p(3)] p(4)
    by (auto simp: is_canonical_def dest: make_signature_x_only_result)
  show "cert_encryption_key_compressed c'"
    using on_present_SomeD [OF p(2)] p(4)
    by (auto simp: cert_encryption_key_compressed_def dest: compress_encryption_key_result)
  have "on_present (\<lambda>k. map_option (\<lambda>p. k\<lparr>enc_publicKey := p\<rparr>) (compress_encryption_key (enc_publicKey k)))
          enc = Some enc"
    using on_present_SomeD [OF p(2)] by (auto simp: on_present_def dest: compress_encryption_key_result)
  moreover have "on_present make_signature_x_only sig = Some sig"
    using on_present_SomeD [OF p(3)] by (auto simp: on_present_def dest: make_signature_x_only_result)
  ultimately show "canonicalize_copy c' = Some c'" using i(2) p(4) by (simp add: canonicalize_copy_def)
qed

lemma canonicalize_copy_same:
  assumes "canonicalize_copy c = Some c'"
  shows "issuer c' = issuer c" and "get_signature c' = get_signature c"
    and "get_verification_key_type c' = get_verification_key_type c"
    and "rel_option (\<lambda>k k'. pk_x k' = pk_x k \<and> pk_type k' = pk_type k) (get_public_key c) (get_public_key c')"
proof -
  from assms obtain ind enc sig where p:
    "compress_indicator (verifyKeyIndicator (toBeSigned c)) = Some ind"
    "on_present (\<lambda>k. map_option (\<lambda>p. k\<lparr>enc_publicKey := p\<rparr>) (compress_encryption_key (enc_publicKey k)))
       (encryptionKey (toBeSigned c)) = Some enc"
    "on_present make_signature_x_only (cert_signature c) = Some sig"
    "c' = c\<lparr>toBeSigned := (toBeSigned c)\<lparr>verifyKeyIndicator := ind, encryptionKey := enc\<rparr>,
            cert_signature := sig\<rparr>"
    by (rule canonicalize_copyD)
  show "issuer c' = issuer c" using p(4) by simp
  have "make_signature_x_only s = Some s' \<Longrightarrow>
      get_signature (x\<lparr>cert_signature := Some s'\<rparr>) = get_signature (x\<lparr>cert_signature := Some s\<rparr>)" for s s' x
    by (cases s) (auto simp: get_signature_def make_x_only_coordinate)
  then show "get_signature c' = get_signature c"
    using on_present_SomeD [OF p(3)] p(4) by (fastforce simp: get_signature_def split: Asn1Signature.splits)
  show "get_verification_key_type c' = get_verification_key_type c"
    using p(1,4) by (cases "verifyKeyIndicator (toBeSigned c)" rule: compress_indicator.cases)
      (auto simp: get_verification_key_type_def)
  show "rel_option (\<lambda>k k'. pk_x k' = pk_x k \<and> pk_type k' = pk_type k) (get_public_key c) (get_public_key c')"
    using p(1,4) by (cases "verifyKeyIndicator (toBeSigned c)" rule: compress_indicator.cases)
      (auto simp: get_public_key_def intro: compress_key_rel)
qed

lemma canonicalize_copy_idle:
  assumes "canonicalize_copy c = Some c'" and "is_canonical c" and "cert_encryption_key_compressed c"
  shows "c' = c"
proof -
  from assms(1) obtain ind enc sig where p:
    "compress_indicator (verifyKeyIndicator (toBeSigned c)) = Some ind"
    "on_present (\<lambda>k. map_option (\<lambda>p. k\<lparr>enc_publicKey := p\<rparr>) (compress_encryption_key (enc_publicKey k)))
       (encryptionKey (toBeSigned c)) = Some enc"
    "on_present make_signature_x_only (cert_signature c) = Some sig"
    "c' = c\<lparr>toBeSigned := (toBeSigned c)\<lparr>verifyKeyIndicator := ind, encryptionKey := enc\<rparr>,
            cert_signature := sig\<rparr>"
    by (rule canonicalize_copyD)
  have can: "compressed_point (verifyKeyIndicator (toBeSigned c))"
    "\<And>s. cert_signature c = Some s \<Longrightarrow> is_signature_x_only s"
    using assms(2) by (auto simp: is_canonical_def split: if_splits)
  have "ind = verifyKeyIndicator (toBeSigned c)" using p(1) can(1) by (simp add: compress_indicator_idle)
  moreover have "enc = encryptionKey (toBeSigned c)"
    using on_present_SomeD [OF p(2)] assms(3)
    by (auto simp: cert_encryption_key_compressed_def compress_encryption_key_idle)
  moreover have "is_signature_x_only s \<Longrightarrow> make_signature_x_only s = Some s' \<Longrightarrow> s' = s" for s s'
    by (cases s) (auto simp: make_x_only_idle)
  then have "sig = cert_signature c" using on_present_SomeD [OF p(3)] can(2) by auto
  ultimately show ?thesis using p(4) by simp
qed

lemma asn1_copy_ok: "codec_ok asn \<Longrightarrow> encode_cert asn c = Some b \<Longrightarrow> asn1_copy asn c = Some c"
  by (simp add: asn1_copy_def codec_ok_def)

lemma asn1_copy_SomeD: "codec_ok asn \<Longrightarrow> asn1_copy asn c = Some c' \<Longrightarrow> c' = c \<and> (\<exists>b. encode_cert asn c = Some b)"
  by (auto simp: asn1_copy_def codec_ok_def bind_eq_Some_conv)

lemma cert_canonicalizeD:
  "codec_ok asn \<Longrightarrow> cert_canonicalize asn c = Some c' \<Longrightarrow> canonicalize_copy c = Some c'"
  by (auto simp: cert_canonicalize_def bind_eq_Some_conv dest: asn1_copy_SomeD)

lemma calculate_digest_encodable:
  "is_canonical c \<Longrightarrow> calculate_digest asn sha c = Some d \<Longrightarrow> \<exists>b. encode_cert asn c = Some b"
  by (auto simp: calculate_digest_def calculate_digest_internal_def Let_def split: if_splits option.splits)

section \<open>A finite codec\<close>

text \<open>
  A codec for the certificates of a list, for concrete instances of the statements: an encoding is
  as many octets as the position of the certificate in the list.
\<close>

fun list_position :: "'a list \<Rightarrow> 'a \<Rightarrow> nat option" where
  "list_position [] a = None"
| "list_position (b # bs) a = (if a = b then Some 0 else map_option Suc (list_position bs a))"

definition list_codec :: "Certificate list \<Rightarrow> Asn1Codec" where
  "list_codec cs =
     \<lparr>encode_cert = (\<lambda>c. map_option (\<lambda>n. replicate n 0) (list_position cs c)),
      decode_cert = (\<lambda>b. if length b < length cs then Some (cs ! length b) else None),
      encode_tbs = (\<lambda>t. map_option (\<lambda>n. replicate n 0) (list_position (map toBeSigned cs) t))\<rparr>"

definition identity_sha :: ShaFunctions where
  "identity_sha = \<lparr>calculate_sha256_digest = (\<lambda>b. b), calculate_sha384_digest = (\<lambda>b. b)\<rparr>"

lemma list_position_SomeD: "list_position cs c = Some n \<Longrightarrow> n < length cs \<and> cs ! n = c"
  by (induction cs arbitrary: n) (auto split: if_splits)

lemma codec_ok_list_codec: "codec_ok (list_codec cs)"
  by (auto simp: codec_ok_def list_codec_def dest: list_position_SomeD)

lemma encode_list_codec:
  "encode_cert (list_codec cs) c = map_option (\<lambda>n. replicate n 0) (list_position cs c)"
  by (simp add: list_codec_def)

lemma asn1_copy_list_codec: "asn1_copy (list_codec cs) c = (if c \<in> set cs then Some c else None)"
proof (cases "list_position cs c")
  case None
  then have "c \<notin> set cs" by (induction cs) (auto split: if_splits)
  then show ?thesis using None by (simp add: asn1_copy_def encode_list_codec)
next
  case (Some n)
  then show ?thesis
    using list_position_SomeD [OF Some] nth_mem by (fastforce simp: asn1_copy_def list_codec_def)
qed

section \<open>Properties\<close>


definition uncompressed_certificate :: Certificate where
  "uncompressed_certificate = fake_certificate
     \<lparr>toBeSigned := (toBeSigned fake_certificate)
        \<lparr>verifyKeyIndicator := VerificationKey (EcdsaNistP256 (Uncompressed_point [1] [3]))\<rparr>,
      cert_signature := Some (EcdsaNistP256Signature (Uncompressed_point [5] [6]) [7])\<rparr>"


text \<open>
   a certificate whose verification key is compressed and whose signature is in x-only form
  counts as canonical even if its encryption key is not compressed. Its digest is the hash of the
  encoding as received, although canonicalization changes the certificate: the same certificate
  has another digest after canonicalization.
\<close>

theorem digest_ignores_encryption_key:
  assumes "is_canonical c" and "\<not> cert_encryption_key_compressed c" and "canonicalize_copy c = Some c'"
  shows "c' \<noteq> c
    \<and> calculate_digest asn sha c = calculate_digest_internal asn sha c (get_verification_key_type c)
    \<and> calculate_digest asn sha c' = calculate_digest_internal asn sha c' (get_verification_key_type c)"
proof -
  note r = canonicalize_copy_canonical [OF assms(3)] and same = canonicalize_copy_same [OF assms(3)]
  have "calculate_digest_internal asn sha x Unspecified = None" for x
    by (simp add: calculate_digest_internal_def split: option.splits)
  then show ?thesis using assms r same(3) by (auto simp: calculate_digest_def Let_def)
qed

definition encryption_certificate :: "EccCurvePoint \<Rightarrow> Certificate" where
  "encryption_certificate point = fake_certificate
     \<lparr>toBeSigned := (toBeSigned fake_certificate)\<lparr>encryptionKey :=
        Some \<lparr>supportedSymmAlg = Aes128Ccm, enc_publicKey = EciesNistP256 point\<rparr>\<rparr>\<rparr>"

theorem digest_ignores_encryption_key_witness:
  "let c = encryption_certificate (Uncompressed_point [1] [3]);
       c' = encryption_certificate (Compressed_y_1 [1]);
       asn = list_codec [c, c']
   in canonicalize_copy c = Some c' \<and> calculate_digest asn identity_sha c = Some []
      \<and> calculate_digest asn identity_sha c' = Some [0]"
proof -
  let ?c = "encryption_certificate (Uncompressed_point [1] [3])"
    and ?c' = "encryption_certificate (Compressed_y_1 [1])"
  have c': "canonicalize_copy ?c = Some ?c'"
    by (simp add: canonicalize_copy_def on_present_def encryption_certificate_def fake_certificate_def
        add_app_permission_def Let_def)
  have p: "is_canonical ?c" "\<not> cert_encryption_key_compressed ?c" "get_verification_key_type ?c = NistP256"
    by (simp_all add: encryption_certificate_def fake_certificate_def add_app_permission_def Let_def
        is_canonical_def compressed_point_def cert_encryption_key_compressed_def get_verification_key_type_def)
  then show ?thesis
    using digest_ignores_encryption_key [OF p(1,2) c', of "list_codec [?c, ?c']" identity_sha] c'
    by (auto simp: Let_def calculate_digest_internal_def encode_list_codec identity_sha_def
        create_hashed_id8_def last_octets_def)
qed

end
