(* ===== verification/Certificate_Stores.thy ===== *)
theory Certificate_Stores
  imports Certificates
begin

text \<open>
  The stores certificate validation draws on (\<^verbatim>\<open>security/v3/trust_store.*\<close>,
  \<^verbatim>\<open>issuer_memory_lookup.*\<close>, \<^verbatim>\<open>certificate_cache.*\<close>,
  \<^verbatim>\<open>revocation_lookup.*\<close>). The three certificate stores are keyed by digest; the locale
  \<open>digest_store\<close> states their common contract, and each of them is an instance. Hash maps are
  maps, the multimap of the trust store is a list of pairs in insertion order.
\<close>

section \<open>Trust store\<close>

datatype cert_exception = Invalid_argument string | Runtime_error string

record TrustStore =
  trusted_certificates :: "(HashedId8 \<times> Certificate) list"

definition trust_store :: TrustStore where
  "trust_store = \<lparr>trusted_certificates = []\<rparr>"

definition trust_insert :: "Asn1Codec \<Rightarrow> ShaFunctions \<Rightarrow> Certificate \<Rightarrow> TrustStore \<Rightarrow> cert_exception + TrustStore" where
  "trust_insert asn sha certificate store =
     (if \<not> issuer_is_self certificate
      then Inl (Runtime_error ''Only root certificate authorities may be added to the trust store'')
      else (case calculate_digest asn sha certificate of
              None \<Rightarrow> Inl (Runtime_error ''Cannot calculate hash for certificate'')
            | Some h \<Rightarrow>
                Inr (store\<lparr>trusted_certificates := trusted_certificates store @ [(h, certificate)]\<rparr>)))"

definition trust_lookup :: "TrustStore \<Rightarrow> HashedId8 \<Rightarrow> Certificate list" where
  "trust_lookup store h = map snd (filter (\<lambda>item. fst item = h) (trusted_certificates store))"

section \<open>Issuer lookup\<close>

record IssuerMemoryLookup =
  issuer_certificates :: "HashedId8 \<rightharpoonup> Certificate"

definition issuer_memory_lookup :: IssuerMemoryLookup where
  "issuer_memory_lookup = \<lparr>issuer_certificates = Map.empty\<rparr>"

definition issuer_insert :: "Asn1Codec \<Rightarrow> ShaFunctions \<Rightarrow> Certificate \<Rightarrow> IssuerMemoryLookup \<Rightarrow> bool \<times> IssuerMemoryLookup" where
  "issuer_insert asn sha cert lookup =
     (if \<not> is_ca_certificate cert then (False, lookup)
      else (case calculate_digest asn sha cert of
              None \<Rightarrow> (False, lookup)
            | Some h \<Rightarrow> (True, lookup\<lparr>issuer_certificates := (issuer_certificates lookup)(h \<mapsto> cert)\<rparr>)))"

definition find_issuer :: "IssuerMemoryLookup \<Rightarrow> HashedId8 \<Rightarrow> Certificate option" where
  "find_issuer lookup h = issuer_certificates lookup h"

section \<open>Certificate cache\<close>

text \<open>An iterator into the storage is the digest it points to: entries are never removed.\<close>

record CertificateCache =
  cache_storage :: "HashedId8 \<rightharpoonup> Certificate"
  cache_short_digests :: "HashedId3 \<rightharpoonup> HashedId8"
  cache_digests :: "HashedId8 set"

definition certificate_cache :: CertificateCache where
  "certificate_cache = \<lparr>cache_storage = Map.empty, cache_short_digests = Map.empty, cache_digests = {}\<rparr>"

definition cache_lookup :: "CertificateCache \<Rightarrow> HashedId8 \<Rightarrow> Certificate option" where
  "cache_lookup cache h = cache_storage cache h"

definition cache_lookup_short :: "CertificateCache \<Rightarrow> HashedId3 \<Rightarrow> Certificate option" where
  "cache_lookup_short cache h =
     (case cache_short_digests cache h of None \<Rightarrow> None | Some found \<Rightarrow> cache_storage cache found)"

definition cache_store :: "Asn1Codec \<Rightarrow> ShaFunctions \<Rightarrow> Certificate \<Rightarrow> CertificateCache \<Rightarrow> CertificateCache" where
  "cache_store asn sha cert cache =
     (case calculate_digest asn sha cert of
        None \<Rightarrow> cache
      | Some h \<Rightarrow>
          if cache_storage cache h \<noteq> None then cache
          else cache\<lparr>cache_storage := (cache_storage cache)(h \<mapsto> cert),
                     cache_short_digests :=
                       (if cache_short_digests cache (truncate_hashed_id h) \<noteq> None
                        then cache_short_digests cache
                        else (cache_short_digests cache)(truncate_hashed_id h \<mapsto> h)),
                     cache_digests := insert h (cache_digests cache)\<rparr>)"

definition cache_announce :: "HashedId8 \<Rightarrow> CertificateCache \<Rightarrow> bool \<times> CertificateCache" where
  "cache_announce h cache =
     (h \<notin> cache_digests cache, cache\<lparr>cache_digests := insert h (cache_digests cache)\<rparr>)"

definition cache_is_known :: "CertificateCache \<Rightarrow> HashedId8 \<Rightarrow> bool" where
  "cache_is_known cache h = (h \<in> cache_digests cache)"

section \<open>Revocation\<close>

record RevocationMemoryLookup =
  revoked_certificates :: "HashedId8 \<rightharpoonup> HashedId8 set"

definition revocation_memory_lookup :: RevocationMemoryLookup where
  "revocation_memory_lookup = \<lparr>revoked_certificates = Map.empty\<rparr>"

definition revoke :: "HashedId8 \<Rightarrow> HashedId8 \<Rightarrow> RevocationMemoryLookup \<Rightarrow> RevocationMemoryLookup" where
  "revoke issuer_id subject_id lookup =
     (let listed = (case revoked_certificates lookup issuer_id of None \<Rightarrow> {} | Some l \<Rightarrow> l)
      in lookup\<lparr>revoked_certificates := (revoked_certificates lookup)(issuer_id \<mapsto> insert subject_id listed)\<rparr>)"

definition clear_revocations :: "HashedId8 \<Rightarrow> RevocationMemoryLookup \<Rightarrow> RevocationMemoryLookup" where
  "clear_revocations issuer_id lookup =
     lookup\<lparr>revoked_certificates := (revoked_certificates lookup)(issuer_id := None)\<rparr>"

definition is_revoked :: "RevocationMemoryLookup \<Rightarrow> HashedId8 \<Rightarrow> HashedId8 \<Rightarrow> bool" where
  "is_revoked lookup issuer_id subject_id =
     (case revoked_certificates lookup issuer_id of None \<Rightarrow> False | Some listed \<Rightarrow> subject_id \<in> listed)"

section \<open>The contract of the certificate stores\<close>

locale digest_store =
  fixes digest :: "'c \<Rightarrow> 'd option"
    and accepts :: "'c \<Rightarrow> bool"
    and initial :: 's
    and add :: "'c \<Rightarrow> 's \<Rightarrow> 's"
    and find :: "'s \<Rightarrow> 'd \<Rightarrow> 'c option"
  assumes find_initial: "find initial d = None"
    and find_add: "find (add c s) d = Some x \<Longrightarrow>
      find s d = Some x \<or> (x = c \<and> accepts c \<and> digest c = Some d)"
    and add_findable: "accepts c \<Longrightarrow> digest c = Some d \<Longrightarrow> find (add c s) d \<noteq> None"
    and add_keeps: "find s d \<noteq> None \<Longrightarrow> find (add c s) d \<noteq> None"
begin

lemma found_was_added:
  "find (fold add cs s) d = Some x \<Longrightarrow>
     find s d = Some x \<or> (x \<in> set cs \<and> accepts x \<and> digest x = Some d)"
  by (induction cs arbitrary: s) (auto dest: find_add)

lemma fold_keeps: "find s d \<noteq> None \<Longrightarrow> find (fold add cs s) d \<noteq> None"
proof (induction cs arbitrary: s)
  case (Cons a cs)
  then show ?case using Cons.IH [OF add_keeps [OF Cons.prems]] by simp
qed simp

lemma added_is_found:
  "c \<in> set cs \<Longrightarrow> accepts c \<Longrightarrow> digest c = Some d \<Longrightarrow> find (fold add cs s) d \<noteq> None"
proof (induction cs arbitrary: s)
  case (Cons a cs)
  then show ?case by (auto intro: fold_keeps [OF add_findable, simplified])
qed simp

theorem store_contents:
  "find (fold add cs initial) d = Some x \<Longrightarrow> x \<in> set cs \<and> accepts x \<and> digest x = Some d"
  "find (fold add cs initial) d = None \<longleftrightarrow> (\<forall>c \<in> set cs. accepts c \<longrightarrow> digest c \<noteq> Some d)"
proof -
  show found: "find (fold add cs initial) d = Some x \<Longrightarrow> x \<in> set cs \<and> accepts x \<and> digest x = Some d" for x
    using found_was_added [of cs initial d x] find_initial [of d] by simp
  show "find (fold add cs initial) d = None \<longleftrightarrow> (\<forall>c \<in> set cs. accepts c \<longrightarrow> digest c \<noteq> Some d)"
    using added_is_found [of _ cs d initial] found by (cases "find (fold add cs initial) d") auto
qed

end

definition trust_find :: "TrustStore \<Rightarrow> HashedId8 \<Rightarrow> Certificate option" where
  "trust_find store h = (case trust_lookup store h of [] \<Rightarrow> None | c # _ \<Rightarrow> Some c)"

definition trust_add :: "Asn1Codec \<Rightarrow> ShaFunctions \<Rightarrow> Certificate \<Rightarrow> TrustStore \<Rightarrow> TrustStore" where
  "trust_add asn sha c store = (case trust_insert asn sha c store of Inl _ \<Rightarrow> store | Inr s \<Rightarrow> s)"

interpretation roots: digest_store "calculate_digest asn sha" issuer_is_self trust_store "trust_add asn sha" trust_find
  for asn sha
  by unfold_locales
    (auto simp: trust_find_def trust_lookup_def trust_add_def trust_insert_def trust_store_def
      split: list.splits option.splits if_splits)

interpretation issuers: digest_store "calculate_digest asn sha" is_ca_certificate issuer_memory_lookup
  "\<lambda>c s. snd (issuer_insert asn sha c s)" find_issuer for asn sha
  by unfold_locales
    (auto simp: find_issuer_def issuer_insert_def issuer_memory_lookup_def split: option.splits if_splits)

interpretation cached: digest_store "calculate_digest asn sha" "\<lambda>_. True" certificate_cache
  "cache_store asn sha" cache_lookup for asn sha
  by unfold_locales
    (auto simp: cache_lookup_def cache_store_def certificate_cache_def split: option.splits if_splits)

section \<open>Invariant of the certificate cache\<close>

definition cache_inv :: "CertificateCache \<Rightarrow> bool" where
  "cache_inv cache \<longleftrightarrow> dom (cache_storage cache) \<subseteq> cache_digests cache
     \<and> (\<forall>h. cache_storage cache h \<noteq> None \<longrightarrow> cache_short_digests cache (truncate_hashed_id h) \<noteq> None)
     \<and> (\<forall>k h. cache_short_digests cache k = Some h \<longrightarrow>
          truncate_hashed_id h = k \<and> cache_storage cache h \<noteq> None)"

lemma cache_inv_initial: "cache_inv certificate_cache"
  by (simp add: cache_inv_def certificate_cache_def)

lemma cache_inv_store: "cache_inv cache \<Longrightarrow> cache_inv (cache_store asn sha c cache)"
  by (auto simp: cache_inv_def cache_store_def split: option.splits)

lemma cache_inv_announce: "cache_inv cache \<Longrightarrow> cache_inv (snd (cache_announce h cache))"
  by (auto simp: cache_inv_def cache_announce_def)

lemma cache_inv_fold: "cache_inv s \<Longrightarrow> cache_inv (fold (cache_store asn sha) cs s)"
  by (induction cs arbitrary: s) (simp_all add: cache_inv_store)

lemma cache_lookup_short_hit:
  "cache_inv cache \<Longrightarrow> cache_lookup_short cache k = Some c \<Longrightarrow>
     \<exists>h. truncate_hashed_id h = k \<and> cache_lookup cache h = Some c"
  unfolding cache_inv_def cache_lookup_short_def cache_lookup_def by (auto split: option.splits) metis

lemma cache_lookup_short_total:
  "cache_inv cache \<Longrightarrow> cache_lookup cache h \<noteq> None \<Longrightarrow> cache_lookup_short cache (truncate_hashed_id h) \<noteq> None"
  by (fastforce simp: cache_inv_def cache_lookup_short_def cache_lookup_def split: option.splits)

section \<open>Contents after a sequence of insertions\<close>

lemma trust_lookup_fold:
  "trust_lookup (fold (trust_add asn sha) cs s) h
     = trust_lookup s h @ filter (\<lambda>c. issuer_is_self c \<and> calculate_digest asn sha c = Some h) cs"
  by (induction cs arbitrary: s)
    (auto simp: trust_lookup_def trust_add_def trust_insert_def split: option.splits)

lemma find_issuer_fold:
  "find_issuer (fold (\<lambda>c s. snd (issuer_insert asn sha c s)) cs s) h
     = (case filter (\<lambda>c. is_ca_certificate c \<and> calculate_digest asn sha c = Some h) cs of
          [] \<Rightarrow> find_issuer s h | l \<Rightarrow> Some (last l))"
  by (induction cs arbitrary: s)
    (auto simp: find_issuer_def issuer_insert_def split: option.splits list.splits)

lemma cache_lookup_fold:
  "cache_lookup (fold (cache_store asn sha) cs s) h
     = (case cache_lookup s h of
          Some c \<Rightarrow> Some c
        | None \<Rightarrow> (case filter (\<lambda>c. calculate_digest asn sha c = Some h) cs of [] \<Rightarrow> None | c # _ \<Rightarrow> Some c))"
  by (induction cs arbitrary: s)
    (auto simp: cache_lookup_def cache_store_def split: option.splits list.splits)

section \<open>Properties\<close>

text \<open>
   contents of the stores after any sequence of insertions. The trust store returns under a
  digest exactly the inserted self-signed certificates with this digest, the issuer lookup the last
  inserted authority certificate with this digest, the cache the first certificate with this digest.
  The short form of a digest finds a certificate in the cache exactly if some stored certificate
  has a digest that ends with it, and such a certificate only.
\<close>

theorem store_contents_by_digest:
  "trust_lookup (fold (trust_add asn sha) cs trust_store) h
     = filter (\<lambda>c. issuer_is_self c \<and> calculate_digest asn sha c = Some h) cs
   \<and> find_issuer (fold (\<lambda>c s. snd (issuer_insert asn sha c s)) cs issuer_memory_lookup) h
     = (case filter (\<lambda>c. is_ca_certificate c \<and> calculate_digest asn sha c = Some h) cs of
          [] \<Rightarrow> None | l \<Rightarrow> Some (last l))
   \<and> cache_lookup (fold (cache_store asn sha) cs certificate_cache) h
     = (case filter (\<lambda>c. calculate_digest asn sha c = Some h) cs of [] \<Rightarrow> None | c # _ \<Rightarrow> Some c)
   \<and> (cache_lookup_short (fold (cache_store asn sha) cs certificate_cache) k = None
        \<longleftrightarrow> {c \<in> set cs. map_option truncate_hashed_id (calculate_digest asn sha c) = Some k} = {})
   \<and> set_option (cache_lookup_short (fold (cache_store asn sha) cs certificate_cache) k)
        \<subseteq> {c \<in> set cs. map_option truncate_hashed_id (calculate_digest asn sha c) = Some k}"
proof -
  let ?C = "fold (cache_store asn sha) cs certificate_cache"
  let ?S = "{c \<in> set cs. map_option truncate_hashed_id (calculate_digest asn sha c) = Some k}"
  have inv: "cache_inv ?C" by (rule cache_inv_fold [OF cache_inv_initial])
  have sub: "set_option (cache_lookup_short ?C k) \<subseteq> ?S"
    by (auto dest!: cache_lookup_short_hit [OF inv] cached.store_contents(1))
  moreover have "cache_lookup_short ?C k \<noteq> None" if "c \<in> ?S" for c
  proof -
    from that obtain d where d: "calculate_digest asn sha c = Some d" "truncate_hashed_id d = k" by auto
    then have "cache_lookup ?C d \<noteq> None" using that by (intro cached.added_is_found) auto
    then show ?thesis using cache_lookup_short_total [OF inv] d(2) by blast
  qed
  then have "cache_lookup_short ?C k = None \<longleftrightarrow> ?S = {}" using sub by (cases "cache_lookup_short ?C k") auto
  moreover have initial: "trust_lookup trust_store h = []" "find_issuer issuer_memory_lookup h = None"
    "cache_lookup certificate_cache h = None"
    by (simp_all add: trust_lookup_def trust_store_def find_issuer_def issuer_memory_lookup_def
        cache_lookup_def certificate_cache_def)
  ultimately show ?thesis unfolding trust_lookup_fold find_issuer_fold cache_lookup_fold initial by simp
qed

end
