(* ===== verification/Certificate_Validation.thy ===== *)
theory Certificate_Validation
  imports Certificate_Stores
begin

text \<open>
  Validation of signing certificates (\<^verbatim>\<open>security/v3/certificate_validator.*\<close>) and the location
  checkers it is configured with (\<^verbatim>\<open>security/v3/location_checker.*\<close>).

  The collaborators a validator points to are functions: the issuer lookup a map from digests, the
  revocation lookup a predicate, the location checker a predicate, the runtime its current time and
  the position provider its current fix; \<open>None\<close> is a null pointer. Point-in-polygon tests
  (boost) and the country database are parameters. The chain walks are recursive over the number
  of iterations that remain of the eight the code allows.
\<close>

section \<open>Location checkers\<close>

type_synonym LocationChecker = "Certificate \<Rightarrow> PositionFix \<Rightarrow> bool"

record CountryDatabase =
  db_empty :: bool
  db_is_inside :: "u16 \<Rightarrow> PositionFix \<Rightarrow> bool"

record DefaultLocationChecker =
  permissive_identified_region :: bool
  country_db :: "CountryDatabase option"

definition default_location_checker :: DefaultLocationChecker where
  "default_location_checker = \<lparr>permissive_identified_region = False, country_db = None\<rparr>"

definition allow_valid_at_location :: LocationChecker where
  "allow_valid_at_location cert location = True"

definition deny_valid_at_location :: LocationChecker where
  "deny_valid_at_location cert location = False"

fun check_identified_entries ::
    "bool \<Rightarrow> CountryDatabase \<Rightarrow> PositionFix \<Rightarrow> bool \<Rightarrow> IdentifiedRegion list \<Rightarrow> bool" where
  "check_identified_entries permissive db location accepted [] = accepted"
| "check_identified_entries permissive db location accepted (entry # entries) =
     (case entry of
        CountryOnly code \<Rightarrow>
          if db_is_inside db code location then True
          else check_identified_entries permissive db location accepted entries
      | _ \<Rightarrow> check_identified_entries permissive db location permissive entries)"

definition check_identified_region :: "DefaultLocationChecker \<Rightarrow> PositionFix \<Rightarrow> IdentifiedRegion list \<Rightarrow> bool" where
  "check_identified_region checker location seq =
     (case country_db checker of
        None \<Rightarrow> permissive_identified_region checker
      | Some db \<Rightarrow>
          if db_empty db then permissive_identified_region checker
          else check_identified_entries (permissive_identified_region checker) db location False seq)"

definition is_inside_polygon ::
    "(PositionFix \<Rightarrow> TwoDLocation list \<Rightarrow> bool) \<Rightarrow> PositionFix \<Rightarrow> TwoDLocation list \<Rightarrow> bool" where
  "is_inside_polygon polygon_within location polygon =
     (if fix_latitude location \<noteq> None \<and> fix_longitude location \<noteq> None then polygon_within location polygon else False)"

definition default_valid_at_location ::
    "(PositionFix \<Rightarrow> TwoDLocation list \<Rightarrow> bool) \<Rightarrow> DefaultLocationChecker \<Rightarrow> LocationChecker" where
  "default_valid_at_location polygon_within checker cert location =
     (case region (toBeSigned cert) of
        None \<Rightarrow> True
      | Some r \<Rightarrow>
          (case r of
             CircularRegion center radius \<Rightarrow> is_inside_circle location center radius
           | RectangularRegions rs \<Rightarrow> is_inside_rectangles location rs
           | PolygonalRegion polygon \<Rightarrow> is_inside_polygon polygon_within location polygon
           | IdentifiedRegions seq \<Rightarrow> check_identified_region checker location seq
           | Region_NOTHING \<Rightarrow> False))"

section \<open>Consistency of a certificate with its issuer\<close>

definition check_time_consistency :: "Certificate \<Rightarrow> Certificate \<Rightarrow> bool" where
  "check_time_consistency subject issuing =
     (let subject_time = get_start_and_end_validity subject;
          issuer_time = get_start_and_end_validity issuing
      in start_validity issuer_time \<le> start_validity subject_time
         \<and> end_validity issuer_time \<ge> end_validity subject_time)"

definition check_permission_consistency :: "Certificate \<Rightarrow> Certificate \<Rightarrow> ItsAid \<Rightarrow> bool" where
  "check_permission_consistency subject issuing aid =
     (if is_ca_certificate subject \<and> \<not> is_allowed_to_issue subject aid then False
      else if is_at_certificate subject \<and> \<not> valid_for_application subject aid then False
      else is_allowed_to_issue issuing aid)"

definition check_assurance_consistency :: "Certificate \<Rightarrow> Certificate \<Rightarrow> bool" where
  "check_assurance_consistency subject issuing =
     (case assurance_level subject of
        None \<Rightarrow> True
      | Some subject_value \<Rightarrow>
          (case assurance_level issuing of
             None \<Rightarrow> False
           | Some issuer_value \<Rightarrow>
               let subject_level = drop_bit 5 subject_value AND 7;
                   issuer_level = drop_bit 5 issuer_value AND 7;
                   subject_confidence = drop_bit 2 subject_value AND 7;
                   issuer_confidence = drop_bit 2 issuer_value AND 7
               in subject_level < issuer_level
                  \<or> (subject_level = issuer_level \<and> subject_confidence \<le> issuer_confidence)))"

definition check_region_consistency :: "Certificate \<Rightarrow> Certificate \<Rightarrow> bool" where
  "check_region_consistency subject issuing = region_is_within subject issuing"

section \<open>The default validator\<close>

datatype Verdict =
  Unknown | Valid | Expired | Revoked | Untrusted | InconsistentChain | OutsideRegion
| InsufficientPermission | Misconfiguration

type_synonym IssuerLookup = "HashedId8 \<Rightarrow> Certificate option"
type_synonym RevocationLookup = "HashedId8 \<Rightarrow> HashedId8 \<Rightarrow> bool"

record DefaultCertificateValidator =
  m_runtime :: "time_point option"
  m_position_provider :: "PositionFix option"
  m_issuer_lookup :: "IssuerLookup option"
  m_location_checker :: "LocationChecker option"
  m_revocation_lookup :: "RevocationLookup option"
  m_trust_store :: "TrustStore option"
  m_disable_time_checks :: bool
  m_disable_location_checks :: bool
  m_disable_chain_consistency_checks :: bool
  m_disable_region_consistency_checks :: bool

definition default_certificate_validator :: DefaultCertificateValidator where
  "default_certificate_validator =
     \<lparr>m_runtime = None, m_position_provider = None, m_issuer_lookup = None, m_location_checker = None,
      m_revocation_lookup = None, m_trust_store = None, m_disable_time_checks = False,
      m_disable_location_checks = False, m_disable_chain_consistency_checks = False,
      m_disable_region_consistency_checks = False\<rparr>"

definition use_runtime :: "time_point option \<Rightarrow> DefaultCertificateValidator \<Rightarrow> DefaultCertificateValidator" where
  "use_runtime runtime v = v\<lparr>m_runtime := runtime\<rparr>"

definition use_position_provider :: "PositionFix option \<Rightarrow> DefaultCertificateValidator \<Rightarrow> DefaultCertificateValidator" where
  "use_position_provider provider v = v\<lparr>m_position_provider := provider\<rparr>"

definition use_issuer_lookup :: "IssuerLookup option \<Rightarrow> DefaultCertificateValidator \<Rightarrow> DefaultCertificateValidator" where
  "use_issuer_lookup lookup v = v\<lparr>m_issuer_lookup := lookup\<rparr>"

definition use_location_checker :: "LocationChecker option \<Rightarrow> DefaultCertificateValidator \<Rightarrow> DefaultCertificateValidator" where
  "use_location_checker checker v = v\<lparr>m_location_checker := checker\<rparr>"

definition use_revocation_lookup :: "RevocationLookup option \<Rightarrow> DefaultCertificateValidator \<Rightarrow> DefaultCertificateValidator" where
  "use_revocation_lookup lookup v = v\<lparr>m_revocation_lookup := lookup\<rparr>"

definition use_trust_store :: "TrustStore option \<Rightarrow> DefaultCertificateValidator \<Rightarrow> DefaultCertificateValidator" where
  "use_trust_store store v = v\<lparr>m_trust_store := store\<rparr>"

definition disable_time_checks :: "bool \<Rightarrow> DefaultCertificateValidator \<Rightarrow> DefaultCertificateValidator" where
  "disable_time_checks flag v = v\<lparr>m_disable_time_checks := flag\<rparr>"

definition disable_location_checks :: "bool \<Rightarrow> DefaultCertificateValidator \<Rightarrow> DefaultCertificateValidator" where
  "disable_location_checks flag v = v\<lparr>m_disable_location_checks := flag\<rparr>"

definition disable_chain_consistency_checks :: "bool \<Rightarrow> DefaultCertificateValidator \<Rightarrow> DefaultCertificateValidator" where
  "disable_chain_consistency_checks flag v = v\<lparr>m_disable_chain_consistency_checks := flag\<rparr>"

definition disable_region_consistency_checks :: "bool \<Rightarrow> DefaultCertificateValidator \<Rightarrow> DefaultCertificateValidator" where
  "disable_region_consistency_checks flag v = v\<lparr>m_disable_region_consistency_checks := flag\<rparr>"

definition find_issuer_certificate :: "DefaultCertificateValidator \<Rightarrow> Certificate \<Rightarrow> Certificate option" where
  "find_issuer_certificate v cert =
     (case m_issuer_lookup v of
        None \<Rightarrow> None
      | Some lookup \<Rightarrow> (case issuer_digest cert of None \<Rightarrow> None | Some d \<Rightarrow> lookup d))"

definition max_chain_depth :: nat where
  "max_chain_depth = 8"

fun chain_anchored_within ::
    "Asn1Codec \<Rightarrow> ShaFunctions \<Rightarrow> TrustStore \<Rightarrow> IssuerLookup \<Rightarrow> nat \<Rightarrow> Certificate \<Rightarrow> bool" where
  "chain_anchored_within asn sha store lookup 0 cert = False"
| "chain_anchored_within asn sha store lookup (Suc depth) cert =
     (if issuer_is_self cert
      then (case calculate_digest asn sha cert of None \<Rightarrow> False | Some d \<Rightarrow> trust_lookup store d \<noteq> [])
      else (case issuer_digest cert of
              None \<Rightarrow> False
            | Some d \<Rightarrow> (case lookup d of
                          None \<Rightarrow> False
                        | Some issuing \<Rightarrow> chain_anchored_within asn sha store lookup depth issuing)))"

definition is_chain_anchored :: "Asn1Codec \<Rightarrow> ShaFunctions \<Rightarrow> DefaultCertificateValidator \<Rightarrow> Certificate \<Rightarrow> bool" where
  "is_chain_anchored asn sha v signing_cert =
     (case (m_trust_store v, m_issuer_lookup v) of
        (Some store, Some lookup) \<Rightarrow> chain_anchored_within asn sha store lookup max_chain_depth signing_cert
      | _ \<Rightarrow> True)"

definition check_consistency :: "DefaultCertificateValidator \<Rightarrow> Certificate \<Rightarrow> Certificate \<Rightarrow> ItsAid \<Rightarrow> bool" where
  "check_consistency v subject issuing aid \<longleftrightarrow>
     check_time_consistency subject issuing \<and> check_permission_consistency subject issuing aid
     \<and> check_assurance_consistency subject issuing
     \<and> (m_disable_region_consistency_checks v \<or> check_region_consistency subject issuing)"

fun chain_consistent_within :: "DefaultCertificateValidator \<Rightarrow> ItsAid \<Rightarrow> nat \<Rightarrow> Certificate \<Rightarrow> bool" where
  "chain_consistent_within v aid 0 subject = True"
| "chain_consistent_within v aid (Suc depth) subject =
     (if issuer_is_self subject then True
      else (case find_issuer_certificate v subject of
              None \<Rightarrow> True
            | Some issuing \<Rightarrow>
                if \<not> check_consistency v subject issuing aid then False
                else chain_consistent_within v aid depth issuing))"

definition chain_is_consistent :: "DefaultCertificateValidator \<Rightarrow> Certificate \<Rightarrow> ItsAid \<Rightarrow> bool" where
  "chain_is_consistent v signing_cert aid =
     (if m_disable_chain_consistency_checks v then True
      else if m_issuer_lookup v = None then True
      else chain_consistent_within v aid max_chain_depth signing_cert)"

fun chain_revoked_within ::
    "Asn1Codec \<Rightarrow> ShaFunctions \<Rightarrow> RevocationLookup \<Rightarrow> IssuerLookup \<Rightarrow> nat \<Rightarrow> Certificate \<Rightarrow> bool" where
  "chain_revoked_within asn sha revoked lookup 0 cert = False"
| "chain_revoked_within asn sha revoked lookup (Suc depth) cert =
     (case (calculate_digest asn sha cert, issuer_digest cert) of
        (Some cert_digest, Some issuing_digest) \<Rightarrow>
          if revoked issuing_digest cert_digest then True
          else (case lookup issuing_digest of
                  None \<Rightarrow> False
                | Some issuing \<Rightarrow>
                    if issuer_is_self issuing then False
                    else chain_revoked_within asn sha revoked lookup depth issuing)
      | _ \<Rightarrow> False)"

definition chain_is_revoked :: "Asn1Codec \<Rightarrow> ShaFunctions \<Rightarrow> DefaultCertificateValidator \<Rightarrow> Certificate \<Rightarrow> bool" where
  "chain_is_revoked asn sha v signing_cert =
     (case (m_revocation_lookup v, m_issuer_lookup v) of
        (Some revoked, Some lookup) \<Rightarrow> chain_revoked_within asn sha revoked lookup max_chain_depth signing_cert
      | _ \<Rightarrow> False)"

definition checked_at_location :: "DefaultCertificateValidator \<Rightarrow> Certificate \<Rightarrow> PositionFix \<Rightarrow> bool" where
  "checked_at_location v cert location =
     (case m_location_checker v of None \<Rightarrow> False | Some checker \<Rightarrow> checker cert location)"

definition location_verdict :: "DefaultCertificateValidator \<Rightarrow> Certificate \<Rightarrow> Verdict" where
  "location_verdict v signing_cert =
     (if m_disable_location_checks v then Valid
      else (case m_position_provider v of
              None \<Rightarrow> Valid
            | Some location \<Rightarrow>
                if has_region_restriction signing_cert
                then (if \<not> checked_at_location v signing_cert location then OutsideRegion else Valid)
                else (case find_issuer_certificate v signing_cert of
                        None \<Rightarrow> Valid
                      | Some issuing_cert \<Rightarrow>
                          if \<not> checked_at_location v issuing_cert location then OutsideRegion else Valid)))"

definition valid_for_signing ::
    "Asn1Codec \<Rightarrow> ShaFunctions \<Rightarrow> DefaultCertificateValidator \<Rightarrow> Certificate \<Rightarrow> ItsAid \<Rightarrow> Verdict" where
  "valid_for_signing asn sha v signing_cert aid =
     (if \<not> m_disable_time_checks v \<and> m_runtime v = None then Misconfiguration
      else if \<not> m_disable_location_checks v \<and> (m_position_provider v = None \<or> m_location_checker v = None)
      then Misconfiguration
      else if \<not> valid_for_application signing_cert aid then InsufficientPermission
      else if (case m_runtime v of None \<Rightarrow> False | Some now \<Rightarrow> \<not> valid_at_timepoint signing_cert now) then Expired
      else if \<not> is_chain_anchored asn sha v signing_cert then Untrusted
      else if \<not> chain_is_consistent v signing_cert aid then InconsistentChain
      else if chain_is_revoked asn sha v signing_cert then Revoked
      else location_verdict v signing_cert)"

section \<open>Issuing chains\<close>

text \<open>
  The chain of a certificate under an issuer lookup: the certificate, its issuer, the issuer's
  issuer, and so on up to a self-signed certificate.
\<close>

inductive issuing_chain :: "IssuerLookup \<Rightarrow> Certificate \<Rightarrow> Certificate list \<Rightarrow> bool" for lookup where
  root: "issuer_is_self c \<Longrightarrow> issuing_chain lookup c [c]"
| link: "issuer_digest c = Some d \<Longrightarrow> lookup d = Some i \<Longrightarrow> issuing_chain lookup i cs \<Longrightarrow>
    issuing_chain lookup c (c # cs)"

lemma self_no_digest: "issuer_is_self c \<Longrightarrow> issuer_digest c = None"
  by (auto simp: issuer_is_self_def issuer_digest_def split: IssuerIdentifier.splits)

lemma issuing_chain_self: "issuer_is_self c \<Longrightarrow> issuing_chain lookup c cs \<longleftrightarrow> cs = [c]"
  using issuing_chain.simps [of lookup c cs] self_no_digest by auto

lemma issuing_chain_stop:
  "\<not> issuer_is_self c \<Longrightarrow> Option.bind (issuer_digest c) lookup = None \<Longrightarrow> \<not> issuing_chain lookup c cs"
  using issuing_chain.simps [of lookup c cs] by auto

lemma issuing_chain_up:
  "Option.bind (issuer_digest c) lookup = Some i \<Longrightarrow>
     issuing_chain lookup c cs \<longleftrightarrow> (\<exists>cs'. cs = c # cs' \<and> issuing_chain lookup i cs')"
  using issuing_chain.simps [of lookup c cs] self_no_digest [of c] by (auto simp: bind_eq_Some_conv)

lemma issuing_chain_unique: "issuing_chain lookup c cs \<Longrightarrow> issuing_chain lookup c cs' \<Longrightarrow> cs' = cs"
proof (induction arbitrary: cs' rule: issuing_chain.induct)
  case (root c)
  then show ?case using issuing_chain_self by blast
next
  case (link c d i cs)
  then have "Option.bind (issuer_digest c) lookup = Some i" by simp
  then show ?case using link.IH link.prems issuing_chain_up by blast
qed

lemma issuing_chain_shape: "issuing_chain lookup c cs \<Longrightarrow> cs \<noteq> [] \<and> hd cs = c \<and> issuer_is_self (last cs)"
  by (induction rule: issuing_chain.induct) auto

lemma issuing_chain_link:
  "issuing_chain lookup c (x # y # cs) \<Longrightarrow> x = c \<and> \<not> issuer_is_self c \<and> issuing_chain lookup y (y # cs)
     \<and> (\<exists>d. issuer_digest c = Some d \<and> lookup d = Some y)"
  using issuing_chain.simps [of lookup c "x # y # cs"] issuing_chain_shape self_no_digest by fastforce

text \<open>Neighbours in a list satisfy a relation.\<close>

fun linked :: "('a \<Rightarrow> 'a \<Rightarrow> bool) \<Rightarrow> 'a list \<Rightarrow> bool" where
  "linked R (x # y # xs) \<longleftrightarrow> R x y \<and> linked R (y # xs)"
| "linked R _ \<longleftrightarrow> True"

lemma linked_nth: "linked R xs \<longleftrightarrow> (\<forall>i. Suc i < length xs \<longrightarrow> R (xs ! i) (xs ! Suc i))"
proof (induction R xs rule: linked.induct)
  case (1 R x y xs)
  then show ?case
    by (auto simp: less_Suc_eq_0_disj nth_Cons' split: if_splits)
qed auto

definition trusted :: "Asn1Codec \<Rightarrow> ShaFunctions \<Rightarrow> TrustStore \<Rightarrow> Certificate \<Rightarrow> bool" where
  "trusted asn sha store c \<longleftrightarrow> (\<exists>d. calculate_digest asn sha c = Some d \<and> trust_lookup store d \<noteq> [])"

lemma chain_anchored_within_iff:
  "chain_anchored_within asn sha store lookup n c \<longleftrightarrow>
     (\<exists>cs. issuing_chain lookup c cs \<and> length cs \<le> n \<and> trusted asn sha store (last cs))"
proof (induction n arbitrary: c)
  case 0
  then show ?case using issuing_chain_shape [of lookup c "[]"] by auto
next
  case (Suc n)
  consider (self) "issuer_is_self c" | (stop) "\<not> issuer_is_self c" "Option.bind (issuer_digest c) lookup = None"
    | (up) i where "\<not> issuer_is_self c" "Option.bind (issuer_digest c) lookup = Some i"
    by (cases "Option.bind (issuer_digest c) lookup") auto
  then show ?case
  proof cases
    case self
    then show ?thesis by (auto simp: issuing_chain_self trusted_def split: option.splits)
  next
    case stop
    then show ?thesis by (auto simp: issuing_chain_stop bind_eq_None_conv split: option.splits)
  next
    case up
    then have chain: "issuing_chain lookup c cs \<longleftrightarrow> (\<exists>cs'. cs = c # cs' \<and> issuing_chain lookup i cs')" for cs
      by (intro issuing_chain_up)
    have last: "issuing_chain lookup i cs \<Longrightarrow> last (c # cs) = last cs" for cs
      using issuing_chain_shape [of lookup i cs] by simp
    have "chain_anchored_within asn sha store lookup (Suc n) c
        \<longleftrightarrow> (\<exists>cs. issuing_chain lookup i cs \<and> length cs \<le> n \<and> trusted asn sha store (last cs))"
      using up Suc.IH [of i] by (auto simp: bind_eq_Some_conv)
    also have "\<dots> \<longleftrightarrow> (\<exists>cs. issuing_chain lookup i cs \<and> length (c # cs) \<le> Suc n \<and> trusted asn sha store (last (c # cs)))"
      using last by (simp only: length_Cons Suc_le_mono) (metis (no_types))
    finally show ?thesis unfolding chain by blast
  qed
qed

lemma chain_consistent_within_iff:
  assumes "issuing_chain lookup c cs" and "m_issuer_lookup v = Some lookup" and "length cs \<le> n"
  shows "chain_consistent_within v aid n c \<longleftrightarrow> linked (\<lambda>s i. check_consistency v s i aid) cs"
  using assms
proof (induction arbitrary: n rule: issuing_chain.induct)
  case (root c)
  then show ?case by (cases n) auto
next
  case (link c d i cs)
  then obtain n' where n: "n = Suc n'" "length cs \<le> n'" by (cases n) auto
  obtain cs' where cs: "cs = i # cs'" using issuing_chain_shape [OF link.hyps(3)] by (cases cs) auto
  have "\<not> issuer_is_self c" using link.hyps(1) self_no_digest by force
  then show ?case
    using link.IH [OF link.prems(1) n(2)] link.hyps(1,2) link.prems(1) n(1) cs
    by (simp add: find_issuer_certificate_def)
qed

text \<open>
  The revocation walk asks for every certificate of the chain but the root, and gives up at the
  first one that has no digest.
\<close>

definition link_revoked :: "Asn1Codec \<Rightarrow> ShaFunctions \<Rightarrow> RevocationLookup \<Rightarrow> Certificate \<Rightarrow> bool" where
  "link_revoked asn sha revoked c \<longleftrightarrow>
     (\<exists>i d. issuer_digest c = Some i \<and> calculate_digest asn sha c = Some d \<and> revoked i d)"

lemma chain_revoked_within_iff:
  assumes "issuing_chain lookup c cs" and "length cs \<le> n"
  shows "chain_revoked_within asn sha revoked lookup n c \<longleftrightarrow>
    (\<exists>x \<in> set (takeWhile (\<lambda>x. calculate_digest asn sha x \<noteq> None) (butlast cs)). link_revoked asn sha revoked x)"
  using assms
proof (induction arbitrary: n rule: issuing_chain.induct)
  case (root c)
  then show ?case by (cases n) (auto simp: self_no_digest split: option.splits)
next
  case (link c d i cs)
  then obtain n' where n: "n = Suc n'" "length cs \<le> n'" by (cases n) auto
  have cs: "cs \<noteq> []" "hd cs = i" using issuing_chain_shape [OF link.hyps(3)] by auto
  show ?case
  proof (cases "issuer_is_self i")
    case True
    then have "cs = [i]" using link.hyps(3) by (simp add: issuing_chain_self)
    then show ?thesis
      using True link.hyps(1,2) n(1) by (auto simp: link_revoked_def split: option.splits)
  next
    case False
    then show ?thesis
      using link.IH [OF n(2)] link.hyps(1,2) n(1) cs(1)
      by (auto simp: link_revoked_def split: option.splits)
  qed
qed

section \<open>Containment of validity periods and regions\<close>

text \<open>
  The seconds counted for a duration: rounded down, and with years of 365 days. The end of the
  validity period in \<^verbatim>\<open>Time32\<close> never exceeds the exact end; it is exact for durations in
  whole seconds unless it wraps around.
\<close>

fun counted_seconds :: "ValidityDuration \<Rightarrow> nat" where
  "counted_seconds Duration_NOTHING = 0"
| "counted_seconds (Microseconds n) = unat n div 1000000"
| "counted_seconds (Milliseconds n) = unat n div 1000"
| "counted_seconds (Seconds n) = unat n"
| "counted_seconds (Minutes n) = 60 * unat n"
| "counted_seconds (Hours n) = 3600 * unat n"
| "counted_seconds (SixtyHours n) = 216000 * unat n"
| "counted_seconds (Years n) = 31536000 * unat n"

fun whole_seconds :: "ValidityDuration \<Rightarrow> bool" where
  "whole_seconds (Seconds n) = True"
| "whole_seconds (Minutes n) = True"
| "whole_seconds (Hours n) = True"
| "whole_seconds (SixtyHours n) = True"
| "whole_seconds _ = False"


lemma unat_ucast_u16: "unat (ucast (n :: u16) :: u32) = unat n"
proof -
  have "unat n < 2 ^ 32" using unsigned_less [of n, where ?'a = nat] by simp
  then show ?thesis by (simp add: unsigned_ucast_eq take_bit_nat_eq_self)
qed

lemma duration_time32_counted: "duration_time32 d = word_of_nat (counted_seconds d)"
proof (cases d)
  case (Microseconds n)
  have "unat n < 1000000" using unsigned_less [of n, where ?'a = nat] by simp
  then have "(ucast n :: u32) div 1000000 = 0"
    by (simp add: word_arith_nat_div unat_ucast_u16)
  then show ?thesis using Microseconds \<open>unat n < 1000000\<close> by simp
next
  case (Milliseconds n)
  then show ?thesis by (simp add: word_arith_nat_div unat_ucast_u16)
qed (simp_all add: of_nat_unat)

lemma duration_time_counted:
  "1000000 * int (counted_seconds d) \<le> duration_time d"
  "whole_seconds d \<Longrightarrow> duration_time d = 1000000 * int (counted_seconds d)"
  by (cases d; simp add: of_nat_div)+

definition exact_end :: "Certificate \<Rightarrow> nat" where
  "exact_end c = unat (validity_start (toBeSigned c)) + counted_seconds (validity_duration (toBeSigned c))"

lemma end_validity_exact_end: "end_validity (get_start_and_end_validity c) = word_of_nat (exact_end c)"
  by (simp add: get_start_and_end_validity_def Let_def duration_time32_counted exact_end_def)

lemma end_validity_le: "unat (end_validity (get_start_and_end_validity c)) \<le> exact_end c"
  by (simp add: end_validity_exact_end unat_of_nat)

lemma valid_at_timepoint_bounds:
  "valid_at_timepoint c t \<longleftrightarrow>
     1000000 * int (unat (validity_start (toBeSigned c))) \<le> t
     \<and> t < 1000000 * int (unat (validity_start (toBeSigned c))) + duration_time (validity_duration (toBeSigned c))"
  by (simp add: valid_at_timepoint_def Let_def)

text \<open>Distances on the sphere of the location checker obey the triangle inequality.\<close>

lemma sphere_distance_angle: "sphere_distance p q = 6371000 * sphere_angle q p"
  by (simp add: sphere_distance_def sphere_angle_def haversine_def Let_def mult.assoc mult.left_commute)

lemma cert_distance_triangle:
  assumes "cert_distance location inner = Some d" and "location_is_valid inner"
    and "cert_distance \<lparr>fix_latitude = convert_latitude (loc_latitude inner),
           fix_longitude = convert_longitude (loc_longitude inner)\<rparr> outer = Some e"
  shows "\<exists>f. cert_distance location outer = Some f \<and> f \<le> d + e"
proof -
  from assms obtain la lo ia io oa oo where
    "fix_latitude location = Some la" "fix_longitude location = Some lo"
    "convert_latitude (loc_latitude inner) = Some ia" "convert_longitude (loc_longitude inner) = Some io"
    "convert_latitude (loc_latitude outer) = Some oa" "convert_longitude (loc_longitude outer) = Some oo"
    by (auto simp: cert_distance_def split: option.splits)
  then show ?thesis
    using assms sphere_angle_triangle [of "\<lparr>geo_latitude = oa, geo_longitude = oo\<rparr>"
        "\<lparr>geo_latitude = la, geo_longitude = lo\<rparr>" "\<lparr>geo_latitude = ia, geo_longitude = io\<rparr>"]
    by (auto simp: cert_distance_def sphere_distance_angle)
qed

lemma is_within_circle_sound:
  assumes "is_within_circle (CircularRegion c r) c' r'" and "is_inside_circle location c r"
  shows "is_inside_circle location c' r'"
proof -
  let ?centre = "\<lparr>fix_latitude = convert_latitude (loc_latitude c), fix_longitude = convert_longitude (loc_longitude c)\<rparr>"
  from assms(1) have v: "location_is_valid c" "location_is_valid c'" "0 \<le> r" "0 \<le> r'"
    by (auto split: if_splits)
  from assms(1) v obtain e where e: "cert_distance ?centre c' = Some e" "e + real_of_int r \<le> real_of_int r'"
    by (auto simp: Let_def split: option.splits)
  from assms(2) v obtain d where d: "cert_distance location c = Some d" "d \<le> real_of_int r"
    by (auto simp: is_inside_circle_def split: option.splits)
  show ?thesis
    using cert_distance_triangle [OF d(1) v(1) e(1)] d(2) e(2) v by (auto simp: is_inside_circle_def)
qed

lemma equal_rectangles_eq: "equal_rectangles rs rs' \<longleftrightarrow> rs = rs'"
proof -
  have loc: "equal_location a b \<longleftrightarrow> a = b" for a b
    by (auto simp: equal_location_def intro: TwoDLocation.equality)
  have "equal_rectangle a b \<longleftrightarrow> a = b" for a b
    by (auto simp: equal_rectangle_def loc intro: RectangularRegion.equality)
  then show ?thesis by (auto simp: equal_rectangles_def list_all_length list_eq_iff_nth_eq)
qed

lemma region_is_within_sound:
  assumes "region_is_within s i" and "region (toBeSigned i) \<noteq> Some Region_NOTHING"
    and "default_valid_at_location polygon_within checker s location"
  shows "default_valid_at_location polygon_within checker i location"
proof (cases "region (toBeSigned i)")
  case (Some ri)
  then obtain rs where "region (toBeSigned s) = Some rs" "is_within rs ri"
    using assms(1) by (auto simp: region_is_within_def split: option.splits)
  then show ?thesis
    using assms Some is_within_circle_sound equal_rectangles_eq
    by (cases ri; cases rs) (auto simp: default_valid_at_location_def)
qed (simp add: default_valid_at_location_def)

lemma linked_spread:
  assumes "linked R xs" and "\<And>x y. y \<in> set (tl xs) \<Longrightarrow> R x y \<Longrightarrow> P x \<Longrightarrow> P y" and "xs \<noteq> [] \<Longrightarrow> P (hd xs)"
    and "x \<in> set xs"
  shows "P x"
proof -
  have "P (xs ! i)" if "i < length xs" for i
    using that
  proof (induction i)
    case 0
    then show ?case using assms(3) by (simp add: hd_conv_nth)
  next
    case (Suc i)
    then have "tl xs ! i = xs ! Suc i" "i < length (tl xs)" by (simp_all add: nth_tl less_diff_conv)
    then have "xs ! Suc i \<in> set (tl xs)" by (metis nth_mem)
    moreover have "R (xs ! i) (xs ! Suc i)" using assms(1) Suc.prems linked_nth by blast
    ultimately show ?case using assms(2) Suc by simp
  qed
  then show ?thesis using assms(4) by (auto simp: in_set_conv_nth)
qed

lemma linked_targets:
  assumes "linked R xs" and "\<And>x y. R x y \<Longrightarrow> Q y" and "y \<in> set (tl xs)"
  shows "Q y"
proof -
  obtain i where "Suc i < length xs" "y = xs ! Suc i"
    using assms(3) by (auto simp: in_set_conv_nth nth_tl less_diff_conv)
  then show ?thesis using assms(1,2) linked_nth by blast
qed

lemma issuing_chain_found: "issuing_chain lookup c cs \<Longrightarrow> x \<in> set (tl cs) \<Longrightarrow> \<exists>d. lookup d = Some x"
proof (induction rule: issuing_chain.induct)
  case (link c d i cs)
  obtain cs' where "cs = i # cs'" using issuing_chain_shape [OF link.hyps(3)] by (cases cs) auto
  then show ?case using link by auto
qed simp

lemma location_verdict_Valid:
  assumes "location_verdict v c = Valid" and "\<not> m_disable_location_checks v"
    and "m_position_provider v = Some location"
    and "m_location_checker v = Some (default_valid_at_location polygon_within checker)"
  shows "default_valid_at_location polygon_within checker c location"
proof (cases "has_region_restriction c")
  case True
  then show ?thesis using assms by (simp add: location_verdict_def checked_at_location_def split: if_splits)
next
  case False
  then show ?thesis by (simp add: has_region_restriction_def default_valid_at_location_def)
qed

section \<open>Certificates for concrete instances\<close>

text \<open>A root authority and a ticket issued by it; their encodings have zero and one octets.\<close>

definition root_certificate :: Certificate where
  "root_certificate = add_cert_issue_permission
     \<lparr>subjectPermissions = Permissions_all, minChainLength = 1, chainLengthRange = 0, eeType = []\<rparr> fake_certificate"

definition ticket_certificate :: Certificate where
  "ticket_certificate = fake_certificate\<lparr>issuer := Sha256AndDigest []\<rparr>"

lemmas sample_defs = root_certificate_def ticket_certificate_def fake_certificate_def
  add_app_permission_def add_cert_issue_permission_def Let_def

definition sample_codec :: Asn1Codec where
  "sample_codec = list_codec [root_certificate, ticket_certificate]"

lemma sample_codec_encode:
  "encode_cert sample_codec root_certificate = Some []" "encode_cert sample_codec ticket_certificate = Some [0]"
proof -
  have "ticket_certificate \<noteq> root_certificate" by (simp add: sample_defs)
  then show "encode_cert sample_codec root_certificate = Some []"
    "encode_cert sample_codec ticket_certificate = Some [0]"
    by (simp_all add: sample_codec_def encode_list_codec)
qed

lemma sample_facts:
  "issuer_is_self root_certificate" "\<not> issuer_is_self ticket_certificate"
  "issuer_digest ticket_certificate = Some []" "is_canonical root_certificate" "is_canonical ticket_certificate"
  "get_verification_key_type root_certificate = NistP256" "get_verification_key_type ticket_certificate = NistP256"
  "valid_for_application ticket_certificate 36" "is_allowed_to_issue root_certificate 36"
  "region (toBeSigned root_certificate) = None" "region (toBeSigned ticket_certificate) = None"
  "get_start_and_end_validity root_certificate = get_start_and_end_validity ticket_certificate"
  "is_at_certificate ticket_certificate" "\<not> is_ca_certificate ticket_certificate"
  "assurance_level ticket_certificate = None" "valid_at_timepoint ticket_certificate 5"
  by (simp_all add: sample_defs issuer_is_self_def issuer_digest_def is_canonical_def compressed_point_def
      get_verification_key_type_def valid_for_application_def is_allowed_to_issue_def
      get_start_and_end_validity_def is_at_certificate_def is_ca_certificate_def assurance_level_def
      valid_at_timepoint_def)

lemma sample_digests:
  "calculate_digest sample_codec identity_sha root_certificate = Some []"
  "calculate_digest sample_codec identity_sha ticket_certificate = Some [0]"
  by (simp_all add: calculate_digest_def calculate_digest_internal_def sample_facts sample_codec_encode
      identity_sha_def create_hashed_id8_def last_octets_def)

definition sample_lookup :: IssuerLookup where
  "sample_lookup h = (if h = [] then Some root_certificate else None)"

definition sample_store :: TrustStore where
  "sample_store = \<lparr>trusted_certificates = [([], root_certificate)]\<rparr>"

lemma sample_chain: "issuing_chain sample_lookup ticket_certificate [ticket_certificate, root_certificate]"
  by (intro issuing_chain.link [of _ "[]" _ root_certificate] issuing_chain.root)
    (simp_all add: sample_facts sample_lookup_def)

lemma sample_trusted: "trusted sample_codec identity_sha sample_store root_certificate"
  by (simp add: trusted_def sample_digests sample_store_def trust_lookup_def)

definition sample_validator :: DefaultCertificateValidator where
  "sample_validator = default_certificate_validator
     \<lparr>m_runtime := Some 5, m_position_provider := Some \<lparr>fix_latitude = Some 0, fix_longitude = Some 0\<rparr>,
      m_issuer_lookup := Some sample_lookup, m_trust_store := Some sample_store,
      m_revocation_lookup := Some (\<lambda>_ _. False),
      m_location_checker := Some (default_valid_at_location (\<lambda>_ _. True) default_location_checker)\<rparr>"

lemma sample_consistent: "check_consistency sample_validator ticket_certificate root_certificate 36"
  by (simp add: check_consistency_def check_time_consistency_def check_permission_consistency_def
      check_assurance_consistency_def check_region_consistency_def region_is_within_def sample_facts)

lemma sample_location: "location_verdict sample_validator ticket_certificate = Valid"
  by (simp add: location_verdict_def sample_validator_def default_certificate_validator_def
      has_region_restriction_def sample_facts find_issuer_certificate_def sample_lookup_def
      checked_at_location_def default_valid_at_location_def)

section \<open>Properties\<close>





text \<open>
   if the validity period of a certificate is given in whole seconds, minutes, hours or units
  of sixty hours and ends within the range of \<^verbatim>\<open>Time32\<close>, then time consistency with the issuer
  means containment: the issuer is valid whenever the certificate is, whatever the units of the
  issuer's validity period.
\<close>

theorem time_consistency_contains:
  assumes "check_time_consistency s i" and "whole_seconds (validity_duration (toBeSigned s))"
    and "exact_end s < 2 ^ 32" and "valid_at_timepoint s t"
  shows "valid_at_timepoint i t"
proof -
  have "unat (validity_start (toBeSigned i)) \<le> unat (validity_start (toBeSigned s))"
    "unat (end_validity (get_start_and_end_validity s)) \<le> unat (end_validity (get_start_and_end_validity i))"
    using assms(1) by (simp_all add: check_time_consistency_def Let_def get_start_and_end_validity_def word_le_nat_alt)
  moreover have "unat (end_validity (get_start_and_end_validity s)) = exact_end s"
    using assms(3) by (simp add: end_validity_exact_end unat_of_nat)
  ultimately show ?thesis
    using assms(4) end_validity_le [of i] duration_time_counted(2) [OF assms(2)]
      duration_time_counted(1) [of "validity_duration (toBeSigned i)"]
    unfolding valid_at_timepoint_bounds exact_end_def by linarith
qed

definition with_validity :: "Time32 \<Rightarrow> ValidityDuration \<Rightarrow> Certificate" where
  "with_validity start dur = fake_certificate
     \<lparr>toBeSigned := (toBeSigned fake_certificate)\<lparr>validity_start := start, validity_duration := dur\<rparr>\<rparr>"

theorem time_consistency_contains_witness:
  "valid_at_timepoint (with_validity 0 (Years 1)) 360000000000"
  using time_consistency_contains [of "with_validity 3600 (Hours 100)" "with_validity 0 (Years 1)" 360000000000]
  by (simp add: with_validity_def check_time_consistency_def get_start_and_end_validity_def exact_end_def
      valid_at_timepoint_def Let_def)


end
