(* ===== verification/Hybrid_Certificates.thy ===== *)
theory Hybrid_Certificates
  imports Certificate_Validation
begin

text \<open>
  Certificates with two nested signatures (\<^verbatim>\<open>security/pqc/hybrid_certificate.*\<close>,
  \<^verbatim>\<open>security/pqc/fndsa512.hpp\<close>) and the validator that checks both along the chain
  (\<^verbatim>\<open>security/pqc/hybrid_certificate_validator.*\<close>). The inner, alternative signature is an
  FN-DSA-512 signature over the certificate without it; the outer, primary signature is an ECC
  signature over the certificate with the alternative signature.

  The two cryptographic backends are records of functions about which nothing is assumed unless a
  statement says so. Exceptions are the left summand of a sum.
\<close>

section \<open>Backends\<close>

record EccBackend =
  calculate_hash :: "HashAlgorithm \<Rightarrow> octets \<Rightarrow> octets"
  sign_digest :: "PrivateKey \<Rightarrow> octets \<Rightarrow> cert_exception + Signature"
  verify_digest :: "PublicKey \<Rightarrow> octets \<Rightarrow> Signature \<Rightarrow> bool"

record PqcBackend =
  pqc_sign :: "octets \<Rightarrow> octets \<Rightarrow> cert_exception + octets"
  pqc_verify :: "octets \<Rightarrow> octets \<Rightarrow> octets \<Rightarrow> bool"

definition fndsa512_public_key_size :: nat where "fndsa512_public_key_size = 897"
definition fndsa512_signature_size :: nat where "fndsa512_signature_size = 666"

datatype SignatureLayer = Alternative | Primary
datatype MaterialState = NoMaterial | Authority | EndEntity | Inconsistent

section \<open>Alternative material\<close>

text \<open>A copy is made by encoding and decoding; exceptions of either are caught.\<close>

definition copy_certificate :: "Asn1Codec \<Rightarrow> Certificate \<Rightarrow> Certificate option" where
  "copy_certificate asn view = Option.bind (encode_cert asn view) (decode_cert asn)"

definition copy_certificate_or_throw :: "Asn1Codec \<Rightarrow> Certificate \<Rightarrow> cert_exception + Certificate" where
  "copy_certificate_or_throw asn view =
     or_throw (Invalid_argument ''certificate cannot be encoded and decoded'') (copy_certificate asn view)"

definition extract_alternative_public_key :: "Certificate \<Rightarrow> octets option" where
  "extract_alternative_public_key certificate =
     (case altVerificationKey (toBeSigned certificate) of
        Some (FnDsa512 bytes) \<Rightarrow> if length bytes = fndsa512_public_key_size then Some bytes else None
      | _ \<Rightarrow> None)"

definition extract_alternative_signature :: "Certificate \<Rightarrow> octets option" where
  "extract_alternative_signature certificate =
     (case altSignatureValue (toBeSigned certificate) of
        Some (FnDsa512Signature bytes) \<Rightarrow> if length bytes = fndsa512_signature_size then Some bytes else None
      | _ \<Rightarrow> None)"

definition get_alternative_public_key :: "Asn1Codec \<Rightarrow> Certificate \<Rightarrow> octets option" where
  "get_alternative_public_key asn view =
     (case copy_certificate asn view of None \<Rightarrow> None | Some c \<Rightarrow> extract_alternative_public_key c)"

definition get_alternative_signature :: "Asn1Codec \<Rightarrow> Certificate \<Rightarrow> octets option" where
  "get_alternative_signature asn view =
     (case copy_certificate asn view of None \<Rightarrow> None | Some c \<Rightarrow> extract_alternative_signature c)"

definition alternative_material_state :: "Asn1Codec \<Rightarrow> Certificate \<Rightarrow> MaterialState" where
  "alternative_material_state asn view =
     (case copy_certificate asn view of
        None \<Rightarrow> Inconsistent
      | Some certificate \<Rightarrow>
          let key_present = (altVerificationKey (toBeSigned certificate) \<noteq> None);
              signature_present = (altSignatureValue (toBeSigned certificate) \<noteq> None);
              has_key = (extract_alternative_public_key certificate \<noteq> None);
              has_signature = (extract_alternative_signature certificate \<noteq> None)
          in if \<not> key_present \<and> \<not> signature_present then NoMaterial
             else if key_present \<noteq> has_key \<or> signature_present \<noteq> has_signature then Inconsistent
             else if is_at_certificate view
             then (if \<not> has_key \<and> has_signature then EndEntity else Inconsistent)
             else if issuer_is_self view \<or> is_ca_certificate view
             then (if has_key \<and> has_signature then Authority else Inconsistent)
             else Inconsistent)"

definition assign_octets :: "octets \<Rightarrow> cert_exception + octets" where
  "assign_octets source =
     (if length source > 2147483647 then Inl (Runtime_error ''cannot allocate ASN.1 octet string'') else Inr source)"

definition clear_alternative_public_key :: "Certificate \<Rightarrow> Certificate" where
  "clear_alternative_public_key c = c\<lparr>toBeSigned := (toBeSigned c)\<lparr>altVerificationKey := None\<rparr>\<rparr>"

definition clear_alternative_signature :: "Certificate \<Rightarrow> Certificate" where
  "clear_alternative_signature c = c\<lparr>toBeSigned := (toBeSigned c)\<lparr>altSignatureValue := None\<rparr>\<rparr>"

definition set_alternative_public_key :: "octets \<Rightarrow> Certificate \<Rightarrow> cert_exception + Certificate" where
  "set_alternative_public_key key certificate =
     ebind (check_or_throw (length key = fndsa512_public_key_size)
              (Invalid_argument ''FN-DSA-512 public key has an invalid size'')) (\<lambda>_.
     ebind (assign_octets key) (\<lambda>bytes.
       let cleared = clear_alternative_public_key certificate
       in Inr (cleared\<lparr>toBeSigned := (toBeSigned cleared)\<lparr>altVerificationKey := Some (FnDsa512 bytes)\<rparr>\<rparr>)))"

definition set_alternative_signature :: "octets \<Rightarrow> Certificate \<Rightarrow> cert_exception + Certificate" where
  "set_alternative_signature sig certificate =
     ebind (check_or_throw (length sig = fndsa512_signature_size)
              (Invalid_argument ''FN-DSA-512 signature has an invalid size'')) (\<lambda>_.
     ebind (assign_octets sig) (\<lambda>bytes.
       let cleared = clear_alternative_signature certificate
       in Inr (cleared\<lparr>toBeSigned := (toBeSigned cleared)\<lparr>altSignatureValue := Some (FnDsa512Signature bytes)\<rparr>\<rparr>)))"

definition set_primary_signature :: "Signature \<Rightarrow> Certificate \<Rightarrow> cert_exception + Certificate" where
  "set_primary_signature sig certificate =
     ebind (check_or_throw (length (sig_r sig) = key_length (sig_type sig) \<and> length (sig_s sig) = key_length (sig_type sig))
              (Invalid_argument ''ECC certificate signature has an invalid size'')) (\<lambda>_.
     ebind (case sig_type sig of
              NistP256 \<Rightarrow> Inr EcdsaNistP256Signature
            | BrainpoolP256r1 \<Rightarrow> Inr EcdsaBrainpoolP256r1Signature
            | BrainpoolP384r1 \<Rightarrow> Inr EcdsaBrainpoolP384r1Signature
            | Unspecified \<Rightarrow> Inl (Invalid_argument ''unsupported ECC certificate signature type'')) (\<lambda>mk.
     ebind (assign_octets (sig_r sig)) (\<lambda>r.
     ebind (assign_octets (sig_s sig)) (\<lambda>s.
       Inr (certificate\<lparr>cert_signature := Some (mk (X_only r) s)\<rparr>)))))"

section \<open>Certificate hashes\<close>

definition signing_certificate :: "Certificate \<Rightarrow> Certificate option \<Rightarrow> cert_exception + Certificate" where
  "signing_certificate subject issuing =
     (if issuer_is_self subject then Inr subject
      else or_throw (Invalid_argument ''issuer certificate is required for a non-self-signed certificate'') issuing)"

definition canonical_tbs :: "Asn1Codec \<Rightarrow> Certificate \<Rightarrow> SignatureLayer \<Rightarrow> cert_exception + octets" where
  "canonical_tbs asn subject layer =
     ebind (copy_certificate_or_throw asn subject) (\<lambda>copy.
       let certificate = (if layer = Alternative then clear_alternative_signature copy else copy)
       in ebind (or_throw (Invalid_argument ''certificate cannot be canonicalized'') (cert_canonicalize asn certificate))
            (\<lambda>canonical. or_throw (Runtime_error ''OER encoding failed'') (encode_tbs asn (toBeSigned canonical))))"

definition canonical_issuer ::
    "Asn1Codec \<Rightarrow> ShaFunctions \<Rightarrow> Certificate \<Rightarrow> Certificate option \<Rightarrow> cert_exception + octets" where
  "canonical_issuer asn sha subject issuing =
     (if issuer_is_self subject then Inr []
      else ebind (or_throw (Invalid_argument ''issuer certificate is required for a non-self-signed certificate'') issuing) (\<lambda>i.
           ebind (check_or_throw
                    (issuer_digest subject \<noteq> None \<and> calculate_digest asn sha i \<noteq> None
                     \<and> issuer_digest subject = calculate_digest asn sha i)
                    (Invalid_argument ''issuer certificate does not match the subject issuer identifier'')) (\<lambda>_.
           ebind (or_throw (Invalid_argument ''issuer certificate cannot be canonicalized'') (cert_canonicalize asn i)) (\<lambda>canonical.
             or_throw (Runtime_error ''OER encoding failed'') (encode_cert asn canonical)))))"

definition calculate_certificate_hash ::
    "Asn1Codec \<Rightarrow> ShaFunctions \<Rightarrow> EccBackend \<Rightarrow> HashAlgorithm \<Rightarrow> Certificate \<Rightarrow> Certificate option
       \<Rightarrow> SignatureLayer \<Rightarrow> cert_exception + octets" where
  "calculate_certificate_hash asn sha backend algorithm subject issuing layer =
     ebind (check_or_throw (algorithm \<noteq> Hash_Unspecified)
              (Invalid_argument ''certificate hash algorithm is unspecified'')) (\<lambda>_.
     ebind (canonical_tbs asn subject layer) (\<lambda>data_input.
     ebind (canonical_issuer asn sha subject issuing) (\<lambda>signer_input.
       let data_hash = calculate_hash backend algorithm data_input;
           signer_hash = calculate_hash backend algorithm signer_input
       in Inr (calculate_hash backend algorithm (data_hash @ signer_hash)))))"

section \<open>Signing and verifying\<close>

definition sign_primary_certificate ::
    "Asn1Codec \<Rightarrow> ShaFunctions \<Rightarrow> EccBackend \<Rightarrow> PrivateKey \<Rightarrow> Certificate \<Rightarrow> Certificate option
       \<Rightarrow> cert_exception + Certificate" where
  "sign_primary_certificate asn sha backend issuer_key subject issuing =
     ebind (signing_certificate subject issuing) (\<lambda>signer.
     ebind (copy_certificate_or_throw asn signer) (\<lambda>signer_copy.
     ebind (or_throw (Invalid_argument ''ECC private key does not match the issuer certificate key type'')
              (get_public_key signer_copy)) (\<lambda>public_key.
     ebind (check_or_throw (pk_type public_key = sk_type issuer_key)
              (Invalid_argument ''ECC private key does not match the issuer certificate key type'')) (\<lambda>_.
     ebind (calculate_certificate_hash asn sha backend (specified_hash_algorithm (sk_type issuer_key))
              subject issuing Primary) (\<lambda>digest.
     ebind (sign_digest backend issuer_key digest) (\<lambda>sig.
     ebind (check_or_throw (verify_digest backend public_key digest sig)
              (Invalid_argument ''ECC private key does not match the issuer certificate public key'')) (\<lambda>_.
       set_primary_signature sig subject)))))))"

definition verify_primary_certificate ::
    "Asn1Codec \<Rightarrow> ShaFunctions \<Rightarrow> EccBackend \<Rightarrow> Certificate \<Rightarrow> Certificate option \<Rightarrow> bool" where
  "verify_primary_certificate asn sha backend subject issuing = caught (
     ebind (signing_certificate subject issuing) (\<lambda>signer.
     ebind (copy_certificate_or_throw asn signer) (\<lambda>signer_copy.
     ebind (copy_certificate_or_throw asn subject) (\<lambda>subject_copy.
       case (get_public_key signer_copy, get_signature subject_copy) of
         (Some public_key, Some sig) \<Rightarrow>
           if pk_type public_key \<noteq> sig_type sig then Inr False
           else ebind (calculate_certificate_hash asn sha backend (specified_hash_algorithm (pk_type public_key))
                         subject issuing Primary) (\<lambda>digest.
                Inr (verify_digest backend public_key digest sig))
       | _ \<Rightarrow> Inr False))))"

definition sign_alternative_certificate ::
    "Asn1Codec \<Rightarrow> ShaFunctions \<Rightarrow> EccBackend \<Rightarrow> PqcBackend \<Rightarrow> octets \<Rightarrow> Certificate \<Rightarrow> Certificate option
       \<Rightarrow> cert_exception + Certificate" where
  "sign_alternative_certificate asn sha hash_backend backend issuer_key subject issuing =
     ebind (signing_certificate subject issuing) (\<lambda>signer.
     ebind (or_throw (Invalid_argument ''issuer certificate has no FN-DSA-512 alternative key'')
              (get_alternative_public_key asn signer)) (\<lambda>public_key.
     ebind (calculate_certificate_hash asn sha hash_backend SHA256 subject issuing Alternative) (\<lambda>digest.
     ebind (pqc_sign backend issuer_key digest) (\<lambda>sig.
     ebind (check_or_throw (pqc_verify backend public_key digest sig)
              (Invalid_argument ''FN-DSA-512 private key does not match the issuer certificate public key'')) (\<lambda>_.
       set_alternative_signature sig subject)))))"

definition verify_alternative_certificate ::
    "Asn1Codec \<Rightarrow> ShaFunctions \<Rightarrow> EccBackend \<Rightarrow> PqcBackend \<Rightarrow> Certificate \<Rightarrow> Certificate option \<Rightarrow> bool" where
  "verify_alternative_certificate asn sha hash_backend backend subject issuing = caught (
     ebind (signing_certificate subject issuing) (\<lambda>signer.
       case (get_alternative_public_key asn signer, get_alternative_signature asn subject) of
         (Some public_key, Some sig) \<Rightarrow>
           ebind (calculate_certificate_hash asn sha hash_backend SHA256 subject issuing Alternative) (\<lambda>digest.
             Inr (pqc_verify backend public_key digest sig))
       | _ \<Rightarrow> Inr False))"

section \<open>The hybrid validator\<close>

datatype VerificationPolicy = ClassicalOnly | HybridIfPresent | HybridRequired

record HybridCertificateValidator =
  h_policy_validator :: DefaultCertificateValidator
  h_issuer_lookup :: "IssuerLookup option"
  h_trust_store :: "TrustStore option"
  h_ecc_backend :: "EccBackend option"
  h_pqc_backend :: "PqcBackend option"
  h_verification_policy :: VerificationPolicy

definition hybrid_certificate_validator :: HybridCertificateValidator where
  "hybrid_certificate_validator =
     \<lparr>h_policy_validator = default_certificate_validator, h_issuer_lookup = None, h_trust_store = None,
      h_ecc_backend = None, h_pqc_backend = None, h_verification_policy = HybridRequired\<rparr>"

text \<open>The setters for the policy checks forward to the default validator.\<close>

definition h_configure ::
    "(DefaultCertificateValidator \<Rightarrow> DefaultCertificateValidator) \<Rightarrow> HybridCertificateValidator \<Rightarrow> HybridCertificateValidator" where
  "h_configure f v = v\<lparr>h_policy_validator := f (h_policy_validator v)\<rparr>"

definition h_use_issuer_lookup :: "IssuerLookup option \<Rightarrow> HybridCertificateValidator \<Rightarrow> HybridCertificateValidator" where
  "h_use_issuer_lookup lookup v = h_configure (use_issuer_lookup lookup) (v\<lparr>h_issuer_lookup := lookup\<rparr>)"

definition h_use_trust_store :: "TrustStore option \<Rightarrow> HybridCertificateValidator \<Rightarrow> HybridCertificateValidator" where
  "h_use_trust_store store v = h_configure (use_trust_store store) (v\<lparr>h_trust_store := store\<rparr>)"

definition h_use_backends :: "EccBackend option \<Rightarrow> PqcBackend option \<Rightarrow> HybridCertificateValidator \<Rightarrow> HybridCertificateValidator" where
  "h_use_backends ecc pqc_backend v = v\<lparr>h_ecc_backend := ecc, h_pqc_backend := pqc_backend\<rparr>"

definition h_use_verification_policy :: "VerificationPolicy \<Rightarrow> HybridCertificateValidator \<Rightarrow> HybridCertificateValidator" where
  "h_use_verification_policy policy v = v\<lparr>h_verification_policy := policy\<rparr>"

definition alternative_signature_is_accepted ::
    "Asn1Codec \<Rightarrow> ShaFunctions \<Rightarrow> EccBackend \<Rightarrow> PqcBackend option \<Rightarrow> VerificationPolicy
       \<Rightarrow> Certificate \<Rightarrow> Certificate option \<Rightarrow> bool" where
  "alternative_signature_is_accepted asn sha ecc pqc_backend policy subject issuing =
     (if policy = ClassicalOnly then True
      else let state = alternative_material_state asn subject
           in if state = Inconsistent then False
              else if state = NoMaterial then policy = HybridIfPresent
              else (case pqc_backend of
                      None \<Rightarrow> False
                    | Some pqc \<Rightarrow> verify_alternative_certificate asn sha ecc pqc subject issuing))"

fun chain_authentic_within ::
    "Asn1Codec \<Rightarrow> ShaFunctions \<Rightarrow> EccBackend \<Rightarrow> PqcBackend option \<Rightarrow> VerificationPolicy \<Rightarrow> TrustStore
       \<Rightarrow> IssuerLookup \<Rightarrow> nat \<Rightarrow> Certificate \<Rightarrow> bool" where
  "chain_authentic_within asn sha ecc pqc policy store lookup 0 subject = False"
| "chain_authentic_within asn sha ecc pqc policy store lookup (Suc depth) subject =
     (if issuer_is_self subject
      then (case calculate_digest asn sha subject of
              None \<Rightarrow> False
            | Some root_digest \<Rightarrow>
                if trust_lookup store root_digest = [] then False
                else verify_primary_certificate asn sha ecc subject None
                     \<and> alternative_signature_is_accepted asn sha ecc pqc policy subject None)
      else (case issuer_digest subject of
              None \<Rightarrow> False
            | Some expected \<Rightarrow>
                (case lookup expected of
                   None \<Rightarrow> False
                 | Some issuing \<Rightarrow>
                     if calculate_digest asn sha issuing \<noteq> Some expected then False
                     else if \<not> verify_primary_certificate asn sha ecc subject (Some issuing)
                          \<or> \<not> alternative_signature_is_accepted asn sha ecc pqc policy subject (Some issuing)
                     then False
                     else chain_authentic_within asn sha ecc pqc policy store lookup depth issuing)))"

definition hybrid_valid_for_signing ::
    "Asn1Codec \<Rightarrow> ShaFunctions \<Rightarrow> HybridCertificateValidator \<Rightarrow> Certificate \<Rightarrow> ItsAid \<Rightarrow> Verdict" where
  "hybrid_valid_for_signing asn sha v certificate aid =
     (let policy_verdict = valid_for_signing asn sha (h_policy_validator v) certificate aid
      in if policy_verdict \<noteq> Valid then policy_verdict
         else (case (h_issuer_lookup v, h_trust_store v, h_ecc_backend v) of
                 (Some lookup, Some store, Some ecc) \<Rightarrow>
                   if h_verification_policy v \<noteq> ClassicalOnly \<and> h_pqc_backend v = None then Misconfiguration
                   else if chain_authentic_within asn sha ecc (h_pqc_backend v) (h_verification_policy v) store lookup
                             max_chain_depth certificate
                   then Valid else Untrusted
               | _ \<Rightarrow> Misconfiguration))"

section \<open>Lemmas\<close>

lemma assign_octets_Inr [exn_simps]: "assign_octets s = Inr b \<longleftrightarrow> b = s \<and> length s \<le> 2147483647"
  by (auto simp: assign_octets_def)

definition encodable :: "Asn1Codec \<Rightarrow> Certificate \<Rightarrow> bool" where
  "encodable asn c \<longleftrightarrow> encode_cert asn c \<noteq> None"

lemma copy_certificate_iff: "codec_ok asn \<Longrightarrow> copy_certificate asn c = Some x \<longleftrightarrow> x = c \<and> encodable asn c"
  by (auto simp: copy_certificate_def codec_ok_def encodable_def bind_eq_Some_conv)

lemma copy_certificate_eq: "codec_ok asn \<Longrightarrow> encodable asn c \<Longrightarrow> copy_certificate asn c = Some c"
  by (simp add: copy_certificate_iff)

lemma copy_certificate_or_throw_iff [exn_simps]:
  "codec_ok asn \<Longrightarrow> copy_certificate_or_throw asn c = Inr x \<longleftrightarrow> x = c \<and> encodable asn c"
  by (simp add: copy_certificate_or_throw_def or_throw_Inr copy_certificate_iff)

lemma cert_canonicalize_iff:
  "codec_ok asn \<Longrightarrow> cert_canonicalize asn c = Some k \<longleftrightarrow> encodable asn c \<and> canonicalize_copy c = Some k"
  by (auto simp: cert_canonicalize_def asn1_copy_def codec_ok_def encodable_def bind_eq_Some_conv)

definition signed_part :: "SignatureLayer \<Rightarrow> Certificate \<Rightarrow> Certificate" where
  "signed_part layer c = (if layer = Alternative then clear_alternative_signature c else c)"

lemma canonical_tbs_iff:
  "codec_ok asn \<Longrightarrow> canonical_tbs asn c layer = Inr b \<longleftrightarrow>
     encodable asn c \<and> encodable asn (signed_part layer c)
     \<and> (\<exists>k. canonicalize_copy (signed_part layer c) = Some k \<and> encode_tbs asn (toBeSigned k) = Some b)"
  by (auto simp: canonical_tbs_def exn_simps cert_canonicalize_iff signed_part_def Let_def)

text \<open>Canonicalization treats the signature and the rest of the certificate separately.\<close>

lemma canonicalize_copy_with_signature:
  assumes "canonicalize_copy c = Some k" and "make_signature_x_only s = Some s"
  shows "canonicalize_copy (c\<lparr>cert_signature := Some s\<rparr>) = Some (k\<lparr>cert_signature := Some s\<rparr>)"
  using assms by (elim canonicalize_copyD) (simp add: canonicalize_copy_def on_present_def)

lemma signed_part_with_signature:
  "signed_part layer (c\<lparr>cert_signature := s\<rparr>) = (signed_part layer c)\<lparr>cert_signature := s\<rparr>"
  by (simp add: signed_part_def clear_alternative_signature_def)

lemma canonical_tbs_with_signature:
  assumes "codec_ok asn" and "canonical_tbs asn c layer = Inr b" and "make_signature_x_only s = Some s"
    and "encodable asn (c\<lparr>cert_signature := Some s\<rparr>)"
    and "encodable asn (signed_part layer (c\<lparr>cert_signature := Some s\<rparr>))"
  shows "canonical_tbs asn (c\<lparr>cert_signature := Some s\<rparr>) layer = Inr b"
  using assms(2-5) canonicalize_copy_with_signature [OF _ assms(3)]
  by (fastforce simp: canonical_tbs_iff [OF assms(1)] signed_part_with_signature)

lemma canonical_issuer_cong:
  "issuer c' = issuer c \<Longrightarrow> canonical_issuer asn sha c' i = canonical_issuer asn sha c i"
  by (simp add: canonical_issuer_def issuer_is_self_def issuer_digest_def)

lemma certificate_hash_cong:
  assumes "issuer c' = issuer c" and "canonical_tbs asn c layer = Inr b" and "canonical_tbs asn c' layer = Inr b"
  shows "calculate_certificate_hash asn sha be alg c' i layer = calculate_certificate_hash asn sha be alg c i layer"
  using assms canonical_issuer_cong [OF assms(1)] by (simp add: calculate_certificate_hash_def)

lemma certificate_hash_tbs:
  "calculate_certificate_hash asn sha be alg c i layer = Inr d \<Longrightarrow> \<exists>b. canonical_tbs asn c layer = Inr b"
  by (auto simp: calculate_certificate_hash_def exn_simps)

lemma signing_certificate_cong:
  "issuer c' = issuer c \<Longrightarrow>
     signing_certificate c' i = (if issuer_is_self c then Inr c' else signing_certificate c i)"
  by (simp add: signing_certificate_def issuer_is_self_def)

lemma set_primary_signature_result:
  assumes "set_primary_signature sig c = Inr c'"
  obtains s where "c' = c\<lparr>cert_signature := Some s\<rparr>" "make_signature_x_only s = Some s" "get_signature c' = Some sig"
proof -
  from assms obtain mk where mk: "c' = c\<lparr>cert_signature := Some (mk (X_only (sig_r sig)) (sig_s sig))\<rparr>"
    "(case sig_type sig of NistP256 \<Rightarrow> Inr EcdsaNistP256Signature
      | BrainpoolP256r1 \<Rightarrow> Inr EcdsaBrainpoolP256r1Signature | BrainpoolP384r1 \<Rightarrow> Inr EcdsaBrainpoolP384r1Signature
      | Unspecified \<Rightarrow> Inl (Invalid_argument ''unsupported ECC certificate signature type'')) = Inr mk"
    by (auto simp: set_primary_signature_def exn_simps)
  then have "make_signature_x_only (mk (X_only (sig_r sig)) (sig_s sig)) = Some (mk (X_only (sig_r sig)) (sig_s sig))"
    "get_signature c' = Some sig"
    by (cases "sig_type sig"; cases sig; auto simp: get_signature_def)+
  then show thesis using that mk(1) by blast
qed

lemma set_alternative_signature_result:
  assumes "set_alternative_signature sig c = Inr c'"
  shows "c' = c\<lparr>toBeSigned := (toBeSigned c)\<lparr>altSignatureValue := Some (FnDsa512Signature sig)\<rparr>\<rparr>"
    and "extract_alternative_signature c' = Some sig"
  using assms by (auto simp: set_alternative_signature_def exn_simps clear_alternative_signature_def
      extract_alternative_signature_def Let_def)

text \<open>
  Both signing operations: what they sign, and that the result verifies as long as it can be
  encoded. A signature made later does not invalidate the alternative signature.
\<close>

lemma sign_primaryD:
  assumes "codec_ok asn" and "sign_primary_certificate asn sha ecc key c i = Inr c'"
  obtains signer pk d sig s where
    "signing_certificate c i = Inr signer" "encodable asn signer" "get_public_key signer = Some pk"
    "pk_type pk = sk_type key" "sign_digest ecc key d = Inr sig" "verify_digest ecc pk d sig"
    "calculate_certificate_hash asn sha ecc (specified_hash_algorithm (pk_type pk)) c i Primary = Inr d"
    "c' = c\<lparr>cert_signature := Some s\<rparr>" "make_signature_x_only s = Some s" "get_signature c' = Some sig"
proof -
  from assms obtain signer pk d sig where
    "signing_certificate c i = Inr signer" "encodable asn signer" "get_public_key signer = Some pk"
    "pk_type pk = sk_type key" "sign_digest ecc key d = Inr sig" "verify_digest ecc pk d sig"
    "calculate_certificate_hash asn sha ecc (specified_hash_algorithm (pk_type pk)) c i Primary = Inr d"
    "set_primary_signature sig c = Inr c'"
    by (auto simp: sign_primary_certificate_def exn_simps)
  then show thesis using that by (auto elim!: set_primary_signature_result)
qed

lemma sign_primary_verifies:
  assumes codec: "codec_ok asn" and sign: "sign_primary_certificate asn sha ecc key c i = Inr c'"
    and enc: "encodable asn c'" and same_type: "\<And>d sig. sign_digest ecc key d = Inr sig \<Longrightarrow> sig_type sig = sk_type key"
  shows "verify_primary_certificate asn sha ecc c' i"
proof -
  from codec sign obtain signer pk d sig s where r:
    "signing_certificate c i = Inr signer" "encodable asn signer" "get_public_key signer = Some pk"
    "pk_type pk = sk_type key" "sign_digest ecc key d = Inr sig" "verify_digest ecc pk d sig"
    "calculate_certificate_hash asn sha ecc (specified_hash_algorithm (pk_type pk)) c i Primary = Inr d"
    "c' = c\<lparr>cert_signature := Some s\<rparr>" "make_signature_x_only s = Some s" "get_signature c' = Some sig"
    by (rule sign_primaryD)
  from certificate_hash_tbs [OF r(7)] obtain b where b: "canonical_tbs asn c Primary = Inr b" by blast
  have "canonical_tbs asn c' Primary = Inr b"
    using canonical_tbs_with_signature [OF codec b r(9)] enc r(8) by (simp add: signed_part_def)
  then have hash: "calculate_certificate_hash asn sha ecc (specified_hash_algorithm (pk_type pk)) c' i Primary = Inr d"
    using certificate_hash_cong [OF _ b] r(7,8) by simp
  have "\<exists>signer'. signing_certificate c' i = Inr signer' \<and> encodable asn signer' \<and> get_public_key signer' = Some pk"
    using r(1-3,8) enc by (auto simp: signing_certificate_def issuer_is_self_def get_public_key_def split: if_splits)
  then obtain signer' where s': "signing_certificate c' i = Inr signer'" "encodable asn signer'"
    "get_public_key signer' = Some pk" by blast
  have "copy_certificate_or_throw asn signer' = Inr signer'" "copy_certificate_or_throw asn c' = Inr c'"
    using s'(2) enc by (simp_all add: copy_certificate_or_throw_iff [OF codec])
  then show ?thesis
    using s' r(4,6,10) same_type [OF r(5)] hash
    by (simp add: verify_primary_certificate_def caught_iff)
qed

lemma sign_alternativeD:
  assumes "codec_ok asn" and "sign_alternative_certificate asn sha ecc pqc key c i = Inr c'"
  obtains signer pk d sig where
    "signing_certificate c i = Inr signer" "encodable asn signer" "extract_alternative_public_key signer = Some pk"
    "pqc_verify pqc pk d sig" "calculate_certificate_hash asn sha ecc SHA256 c i Alternative = Inr d"
    "c' = c\<lparr>toBeSigned := (toBeSigned c)\<lparr>altSignatureValue := Some (FnDsa512Signature sig)\<rparr>\<rparr>"
    "extract_alternative_signature c' = Some sig"
proof -
  from assms obtain signer pk d sig where
    "signing_certificate c i = Inr signer" "get_alternative_public_key asn signer = Some pk"
    "pqc_verify pqc pk d sig" "calculate_certificate_hash asn sha ecc SHA256 c i Alternative = Inr d"
    "set_alternative_signature sig c = Inr c'"
    by (auto simp: sign_alternative_certificate_def exn_simps)
  moreover from this have "encodable asn signer" "extract_alternative_public_key signer = Some pk"
    using copy_certificate_iff [OF assms(1)] by (auto simp: get_alternative_public_key_def split: option.splits)
  ultimately show thesis using that set_alternative_signature_result by blast
qed

lemma sign_alternative_verifies:
  assumes codec: "codec_ok asn" and sign: "sign_alternative_certificate asn sha ecc pqc key c i = Inr c'"
    and enc: "encodable asn c''" and iss: "issuer c'' = issuer c'"
    and alt: "altSignatureValue (toBeSigned c'') = altSignatureValue (toBeSigned c')"
      "altVerificationKey (toBeSigned c'') = altVerificationKey (toBeSigned c')"
    and tbs: "canonical_tbs asn c'' Alternative = canonical_tbs asn c Alternative"
  shows "verify_alternative_certificate asn sha ecc pqc c'' i"
proof -
  from codec sign obtain signer pk d sig where r:
    "signing_certificate c i = Inr signer" "encodable asn signer" "extract_alternative_public_key signer = Some pk"
    "pqc_verify pqc pk d sig" "calculate_certificate_hash asn sha ecc SHA256 c i Alternative = Inr d"
    "c' = c\<lparr>toBeSigned := (toBeSigned c)\<lparr>altSignatureValue := Some (FnDsa512Signature sig)\<rparr>\<rparr>"
    "extract_alternative_signature c' = Some sig"
    by (rule sign_alternativeD)
  from certificate_hash_tbs [OF r(5)] obtain b where b: "canonical_tbs asn c Alternative = Inr b" by blast
  have iss': "issuer c'' = issuer c" using iss r(6) by simp
  have hash: "calculate_certificate_hash asn sha ecc SHA256 c'' i Alternative = Inr d"
    using certificate_hash_cong [OF iss' b] tbs b r(5) by simp
  have sig: "get_alternative_signature asn c'' = Some sig"
    using r(7) alt(1) enc copy_certificate_eq [OF codec enc]
    by (simp add: get_alternative_signature_def extract_alternative_signature_def)
  have "\<exists>signer'. signing_certificate c'' i = Inr signer' \<and> encodable asn signer'
      \<and> extract_alternative_public_key signer' = Some pk"
  proof (cases "issuer_is_self c")
    case True
    then have "signer = c" using r(1) by (simp add: signing_certificate_def)
    then show ?thesis
      using r(3,6) enc alt(2) True by (simp add: signing_certificate_cong [OF iss'] extract_alternative_public_key_def)
  next
    case False
    then show ?thesis using r(1-3) by (simp add: signing_certificate_cong [OF iss'])
  qed
  then obtain signer' where s': "signing_certificate c'' i = Inr signer'" "get_alternative_public_key asn signer' = Some pk"
    using copy_certificate_eq [OF codec] by (auto simp: get_alternative_public_key_def)
  then show ?thesis using sig hash r(4) by (simp add: verify_alternative_certificate_def caught_iff)
qed

lemma signed_part_set_alternative:
  "signed_part Alternative (c\<lparr>toBeSigned := (toBeSigned c)\<lparr>altSignatureValue := x\<rparr>\<rparr>) = signed_part Alternative c"
  by (simp add: signed_part_def clear_alternative_signature_def)

lemma canonical_tbs_set_alternative:
  assumes "codec_ok asn" and "canonical_tbs asn c Alternative = Inr b"
    and "encodable asn (c\<lparr>toBeSigned := (toBeSigned c)\<lparr>altSignatureValue := x\<rparr>\<rparr>)"
  shows "canonical_tbs asn (c\<lparr>toBeSigned := (toBeSigned c)\<lparr>altSignatureValue := x\<rparr>\<rparr>) Alternative = Inr b"
  using assms by (simp add: canonical_tbs_iff signed_part_set_alternative)

section \<open>Authentic chains\<close>

definition link_authentic ::
    "Asn1Codec \<Rightarrow> ShaFunctions \<Rightarrow> EccBackend \<Rightarrow> PqcBackend option \<Rightarrow> VerificationPolicy \<Rightarrow> Certificate \<Rightarrow> Certificate \<Rightarrow> bool" where
  "link_authentic asn sha ecc pqc policy s i \<longleftrightarrow> calculate_digest asn sha i = issuer_digest s
     \<and> verify_primary_certificate asn sha ecc s (Some i)
     \<and> alternative_signature_is_accepted asn sha ecc pqc policy s (Some i)"

definition root_authentic ::
    "Asn1Codec \<Rightarrow> ShaFunctions \<Rightarrow> EccBackend \<Rightarrow> PqcBackend option \<Rightarrow> VerificationPolicy \<Rightarrow> Certificate \<Rightarrow> bool" where
  "root_authentic asn sha ecc pqc policy r \<longleftrightarrow> verify_primary_certificate asn sha ecc r None
     \<and> alternative_signature_is_accepted asn sha ecc pqc policy r None"

lemma linked_Cons: "cs \<noteq> [] \<Longrightarrow> linked R (c # cs) \<longleftrightarrow> R c (hd cs) \<and> linked R cs"
  by (cases cs) simp_all

lemma chain_authentic_within_iff:
  "chain_authentic_within asn sha ecc pqc policy store lookup n c \<longleftrightarrow>
     (\<exists>cs. issuing_chain lookup c cs \<and> length cs \<le> n \<and> trusted asn sha store (last cs)
        \<and> linked (link_authentic asn sha ecc pqc policy) cs \<and> root_authentic asn sha ecc pqc policy (last cs))"
proof (induction n arbitrary: c)
  case 0
  then show ?case using issuing_chain_shape [of lookup c "[]"] by auto
next
  case (Suc n)
  consider (self) "issuer_is_self c" | (stop) "\<not> issuer_is_self c" "Option.bind (issuer_digest c) lookup = None"
    | (up) i d where "\<not> issuer_is_self c" "issuer_digest c = Some d" "lookup d = Some i"
    by (cases "Option.bind (issuer_digest c) lookup") (auto simp: bind_eq_Some_conv)
  then show ?case
  proof cases
    case self
    then show ?thesis by (auto simp: issuing_chain_self trusted_def root_authentic_def split: option.splits)
  next
    case stop
    then show ?thesis by (auto simp: issuing_chain_stop bind_eq_None_conv split: option.splits)
  next
    case up
    let ?ok = "\<lambda>cs. trusted asn sha store (last cs) \<and> linked (link_authentic asn sha ecc pqc policy) cs
        \<and> root_authentic asn sha ecc pqc policy (last cs)"
    have chain: "issuing_chain lookup c cs \<longleftrightarrow> (\<exists>cs'. cs = c # cs' \<and> issuing_chain lookup i cs')" for cs
      using up by (intro issuing_chain_up) simp
    have ok: "?ok (c # cs) \<longleftrightarrow> link_authentic asn sha ecc pqc policy c i \<and> ?ok cs"
      if "issuing_chain lookup i cs" for cs
      using issuing_chain_shape [OF that] by (auto simp: linked_Cons)
    have "chain_authentic_within asn sha ecc pqc policy store lookup (Suc n) c
        \<longleftrightarrow> link_authentic asn sha ecc pqc policy c i \<and> (\<exists>cs. issuing_chain lookup i cs \<and> length cs \<le> n \<and> ?ok cs)"
      using up Suc.IH [of i] by (auto simp: link_authentic_def [of asn sha ecc pqc policy c i])
    also have "\<dots> \<longleftrightarrow> (\<exists>cs. issuing_chain lookup i cs \<and> length (c # cs) \<le> Suc n \<and> ?ok (c # cs))"
      using ok by (simp only: length_Cons Suc_le_mono) blast
    finally show ?thesis unfolding chain by blast
  qed
qed

lemma alternative_accepted_required:
  "alternative_signature_is_accepted asn sha ecc pqc HybridRequired s i \<longleftrightarrow>
     alternative_material_state asn s \<in> {Authority, EndEntity}
     \<and> (\<exists>p. pqc = Some p \<and> verify_alternative_certificate asn sha ecc p s i)"
  by (cases "alternative_material_state asn s")
    (auto simp: alternative_signature_is_accepted_def Let_def split: option.splits)

lemma alternative_accepted_mono:
  "alternative_signature_is_accepted asn sha ecc pqc HybridRequired s i \<Longrightarrow>
     alternative_signature_is_accepted asn sha ecc pqc HybridIfPresent s i"
  "alternative_signature_is_accepted asn sha ecc pqc ClassicalOnly s i"
  by (auto simp: alternative_signature_is_accepted_def Let_def split: if_splits)

lemma linked_mono: "linked R xs \<Longrightarrow> (\<And>x y. R x y \<Longrightarrow> S x y) \<Longrightarrow> linked S xs"
  by (simp add: linked_nth)

section \<open>Properties\<close>

text \<open>
  C5: issuing a hybrid certificate. If a certificate is signed with the alternative key of its
  issuer and then with the issuer's ECC key, and the result can be encoded with and without its
  alternative signature, then both signatures of the result verify against the issuer. The second
  signature does not invalidate the first.
\<close>

theorem hybrid_issuance:
  assumes "codec_ok asn"
    and "sign_alternative_certificate asn sha ecc pqc alternative_key c i = Inr c1"
    and "sign_primary_certificate asn sha ecc primary_key c1 i = Inr c2"
    and "encodable asn c2" and "encodable asn (clear_alternative_signature c2)"
    and "\<And>d sig. sign_digest ecc primary_key d = Inr sig \<Longrightarrow> sig_type sig = sk_type primary_key"
  shows "verify_primary_certificate asn sha ecc c2 i \<and> verify_alternative_certificate asn sha ecc pqc c2 i"
proof
  show "verify_primary_certificate asn sha ecc c2 i"
    using assms by (intro sign_primary_verifies)
  from sign_primaryD [OF assms(1,3)] obtain s d where p: "c2 = c1\<lparr>cert_signature := Some s\<rparr>"
    "make_signature_x_only s = Some s"
    "\<exists>alg. calculate_certificate_hash asn sha ecc alg c1 i Primary = Inr d" by metis
  then obtain b1 where "canonical_tbs asn c1 Primary = Inr b1" using certificate_hash_tbs by blast
  then have enc1: "encodable asn c1" by (simp add: canonical_tbs_iff [OF assms(1)])
  from sign_alternativeD [OF assms(1,2)] obtain sig e where a:
    "c1 = c\<lparr>toBeSigned := (toBeSigned c)\<lparr>altSignatureValue := Some (FnDsa512Signature sig)\<rparr>\<rparr>"
    "calculate_certificate_hash asn sha ecc SHA256 c i Alternative = Inr e" by metis
  then obtain b where b: "canonical_tbs asn c Alternative = Inr b" using certificate_hash_tbs by blast
  then have "canonical_tbs asn c1 Alternative = Inr b"
    using canonical_tbs_set_alternative [OF assms(1)] a(1) enc1 by simp
  then have "canonical_tbs asn c2 Alternative = Inr b"
    using canonical_tbs_with_signature [OF assms(1) _ p(2)] assms(4,5) p(1) by (simp add: signed_part_def)
  then show "verify_alternative_certificate asn sha ecc pqc c2 i"
    using b p(1) by (intro sign_alternative_verifies [OF assms(1,2,4)]) simp_all
qed

lemma issuing_chain_nonroot: "issuing_chain lookup c cs \<Longrightarrow> Suc k < length cs \<Longrightarrow> \<not> issuer_is_self (cs ! k)"
proof (induction arbitrary: k rule: issuing_chain.induct)
  case (link c d i cs)
  then show ?case using self_no_digest [of c] by (cases k) auto
qed simp

lemma linked_sources:
  assumes "linked R xs" and "x \<in> set xs"
  shows "x = last xs \<or> (\<exists>y. R x y)"
proof -
  obtain k where k: "k < length xs" "x = xs ! k" using assms(2) by (auto simp: in_set_conv_nth)
  show ?thesis
  proof (cases "Suc k < length xs")
    case True
    then show ?thesis using assms(1) k(2) linked_nth by blast
  next
    case False
    then have "k = length xs - 1" using k(1) by simp
    then show ?thesis using k by (cases xs rule: rev_cases) auto
  qed
qed

text \<open>
  C2: the hybrid validator accepts a certificate exactly if the policy checks accept it, lookup,
  trust store and backends are configured, and its chain of issuers is authentic: it ends within
  eight certificates in a trusted root; each certificate names its issuer by the issuer's digest;
  and for each certificate, against its issuer (the root against itself), the primary signature
  verifies and the alternative signature is acceptable under the policy.
\<close>

theorem hybrid_validator_accepts:
  "hybrid_valid_for_signing asn sha v c aid = Valid \<longleftrightarrow>
     valid_for_signing asn sha (h_policy_validator v) c aid = Valid
     \<and> (h_verification_policy v = ClassicalOnly \<or> (\<exists>pqc. h_pqc_backend v = Some pqc))
     \<and> (\<exists>lookup store ecc cs. h_issuer_lookup v = Some lookup \<and> h_trust_store v = Some store
          \<and> h_ecc_backend v = Some ecc
          \<and> issuing_chain lookup c cs \<and> length cs \<le> 8 \<and> trusted asn sha store (last cs)
          \<and> linked (link_authentic asn sha ecc (h_pqc_backend v) (h_verification_policy v)) cs
          \<and> root_authentic asn sha ecc (h_pqc_backend v) (h_verification_policy v) (last cs))"
  by (auto simp: hybrid_valid_for_signing_def chain_authentic_within_iff max_chain_depth_def Let_def
      split: option.splits if_splits)

lemma hybrid_required_chain:
  assumes "h_verification_policy v = HybridRequired" and "hybrid_valid_for_signing asn sha v c aid = Valid"
  shows "\<exists>lookup store ecc pqc cs. h_ecc_backend v = Some ecc \<and> h_pqc_backend v = Some pqc
    \<and> h_issuer_lookup v = Some lookup \<and> h_trust_store v = Some store
    \<and> issuing_chain lookup c cs \<and> trusted asn sha store (last cs)
    \<and> alternative_material_state asn ` set cs \<subseteq> {Authority, EndEntity}
    \<and> linked (\<lambda>s i. verify_alternative_certificate asn sha ecc pqc s (Some i)
                     \<and> get_alternative_public_key asn i \<noteq> None) cs
    \<and> verify_alternative_certificate asn sha ecc pqc (last cs) None"
proof -
  from assms obtain lookup store ecc cs where v: "h_issuer_lookup v = Some lookup" "h_trust_store v = Some store"
    "h_ecc_backend v = Some ecc" and cs: "issuing_chain lookup c cs" "trusted asn sha store (last cs)"
    and link: "linked (link_authentic asn sha ecc (h_pqc_backend v) HybridRequired) cs"
    and root: "root_authentic asn sha ecc (h_pqc_backend v) HybridRequired (last cs)"
    by (auto simp: hybrid_valid_for_signing_def chain_authentic_within_iff Let_def split: option.splits if_splits)
  from root obtain pqc where pqc: "h_pqc_backend v = Some pqc"
    "alternative_material_state asn (last cs) \<in> {Authority, EndEntity}"
    "verify_alternative_certificate asn sha ecc pqc (last cs) None"
    by (auto simp: root_authentic_def alternative_accepted_required)
  have ok: "alternative_material_state asn s \<in> {Authority, EndEntity}
      \<and> verify_alternative_certificate asn sha ecc pqc s (Some i)"
    if "link_authentic asn sha ecc (h_pqc_backend v) HybridRequired s i" for s i
    using that pqc(1) by (auto simp: link_authentic_def alternative_accepted_required)
  have key: "get_alternative_public_key asn i \<noteq> None"
    if "link_authentic asn sha ecc (h_pqc_backend v) HybridRequired s i" "\<not> issuer_is_self s" for s i
    using ok [OF that(1)] that(2)
    by (auto simp: verify_alternative_certificate_def signing_certificate_def or_throw_def caught_iff split: option.splits)
  have "\<not> issuer_is_self (cs ! k)" if "Suc k < length cs" for k
    using issuing_chain_nonroot [OF cs(1) that] .
  then have "linked (\<lambda>s i. verify_alternative_certificate asn sha ecc pqc s (Some i)
      \<and> get_alternative_public_key asn i \<noteq> None) cs"
    using link ok key unfolding linked_nth by blast
  moreover have "alternative_material_state asn x \<in> {Authority, EndEntity}" if "x \<in> set cs" for x
    using that ok pqc(2) linked_sources [OF link] by blast
  ultimately show ?thesis using v cs pqc by blast
qed

text \<open>
  C3: no downgrade. If the validator requires hybrid certificates and accepts a certificate, then
  every certificate of its chain carries complete alternative material, and its alternative
  signature verifies under the alternative key of its issuer, that of the root under its own key.
\<close>

theorem hybrid_required_no_downgrade:
  assumes "h_verification_policy v = HybridRequired" and "hybrid_valid_for_signing asn sha v c aid = Valid"
  shows "\<exists>lookup store ecc pqc cs. h_ecc_backend v = Some ecc \<and> h_pqc_backend v = Some pqc
    \<and> h_issuer_lookup v = Some lookup \<and> h_trust_store v = Some store
    \<and> issuing_chain lookup c cs \<and> trusted asn sha store (last cs)
    \<and> alternative_material_state asn ` set cs \<subseteq> {Authority, EndEntity}
    \<and> linked (\<lambda>s i. verify_alternative_certificate asn sha ecc pqc s (Some i)
                     \<and> get_alternative_public_key asn i \<noteq> None) cs
    \<and> verify_alternative_certificate asn sha ecc pqc (last cs) None"
  using assms by (rule hybrid_required_chain)

text \<open>
  C10: what the signatures cover. Two certificates that differ in their alternative signature only
  have the same input for the alternative signature, and different inputs for the primary one, if
  the encoding of the signed part is injective. So the alternative signature can be made first, and
  the primary signature protects it.
\<close>

theorem primary_covers_alternative:
  assumes "codec_ok asn" and "\<And>t t' b. encode_tbs asn t = Some b \<Longrightarrow> encode_tbs asn t' = Some b \<Longrightarrow> t = t'"
    and "c' = c\<lparr>toBeSigned := (toBeSigned c)\<lparr>altSignatureValue := x\<rparr>\<rparr>" and "altSignatureValue (toBeSigned c) \<noteq> x"
    and "encodable asn c" and "encodable asn c'"
  shows "canonical_tbs asn c Alternative = canonical_tbs asn c' Alternative
    \<and> (canonical_tbs asn c Primary = Inr b \<longrightarrow> canonical_tbs asn c' Primary \<noteq> Inr b)"
proof
  have copy: "copy_certificate_or_throw asn c = Inr c" "copy_certificate_or_throw asn c' = Inr c'"
    using assms(1,5,6) by (simp_all add: copy_certificate_or_throw_iff)
  have "clear_alternative_signature c' = clear_alternative_signature c"
    using assms(3) by (simp add: clear_alternative_signature_def)
  then show "canonical_tbs asn c Alternative = canonical_tbs asn c' Alternative"
    using copy by (simp add: canonical_tbs_def)
  have alt: "altSignatureValue (toBeSigned k) = altSignatureValue (toBeSigned d)" if "canonicalize_copy d = Some k" for d k
    using that by (elim canonicalize_copyD) simp
  show "canonical_tbs asn c Primary = Inr b \<longrightarrow> canonical_tbs asn c' Primary \<noteq> Inr b"
  proof (intro impI notI)
    assume "canonical_tbs asn c Primary = Inr b" "canonical_tbs asn c' Primary = Inr b"
    then obtain k k' where k: "canonicalize_copy c = Some k" "canonicalize_copy c' = Some k'"
      "encode_tbs asn (toBeSigned k) = Some b" "encode_tbs asn (toBeSigned k') = Some b"
      by (auto simp: canonical_tbs_iff [OF assms(1)] signed_part_def)
    then have "toBeSigned k = toBeSigned k'" using assms(2) by blast
    then show False using alt [OF k(1)] alt [OF k(2)] assms(3,4) by simp
  qed
qed

section \<open>A concrete root authority\<close>

definition zeros :: "nat \<Rightarrow> octets" where
  "zeros n = replicate n 0"

lemma length_zeros [simp]: "length (zeros n) = n"
  by (simp add: zeros_def)

definition hybrid_root :: "Asn1Signature option \<Rightarrow> Asn1Signature option \<Rightarrow> Certificate" where
  "hybrid_root alternative primary = root_certificate
     \<lparr>toBeSigned := (toBeSigned root_certificate)
        \<lparr>altVerificationKey := Some (FnDsa512 (zeros 897)), altSignatureValue := alternative\<rparr>,
      cert_signature := primary\<rparr>"

definition sample_alternative :: "Asn1Signature option" where
  "sample_alternative = Some (FnDsa512Signature (zeros 666))"

definition sample_primary :: "Asn1Signature option" where
  "sample_primary = Some (EcdsaNistP256Signature (X_only (zeros 32)) (zeros 32))"

abbreviation "unsigned_root \<equiv> hybrid_root None None"
abbreviation "inner_signed_root \<equiv> hybrid_root sample_alternative None"
abbreviation "signed_root \<equiv> hybrid_root sample_alternative sample_primary"
abbreviation "outer_signed_root \<equiv> hybrid_root None sample_primary"

definition hybrid_codec :: Asn1Codec where
  "hybrid_codec = list_codec [unsigned_root, inner_signed_root, signed_root, outer_signed_root]"

lemma hybrid_codec_ok: "codec_ok hybrid_codec"
  by (simp add: hybrid_codec_def codec_ok_list_codec)

lemma hybrid_root_fields:
  "issuer_is_self (hybrid_root a p)" "altSignatureValue (toBeSigned (hybrid_root a p)) = a"
  "altVerificationKey (toBeSigned (hybrid_root a p)) = Some (FnDsa512 (zeros 897))"
  "cert_signature (hybrid_root a p) = p" "\<not> is_at_certificate (hybrid_root a p)"
  "get_verification_key_type (hybrid_root a p) = NistP256" "valid_for_application (hybrid_root a p) 36"
  "clear_alternative_signature (hybrid_root a p) = hybrid_root None p"
  "get_public_key (hybrid_root a p) =
     Some \<lparr>pk_x = replicate 32 0, pk_y = [], pk_type = NistP256, pk_compression = Y0\<rparr>"
  by (simp_all add: hybrid_root_def sample_defs issuer_is_self_def is_at_certificate_def get_verification_key_type_def
      valid_for_application_def clear_alternative_signature_def get_public_key_def)

lemma hybrid_root_eq: "hybrid_root a p = hybrid_root a' p' \<longleftrightarrow> a = a' \<and> p = p'"
  by (metis hybrid_root_fields(2,4))

lemma canonicalize_hybrid_root: "p \<in> {None, sample_primary} \<Longrightarrow> canonicalize_copy (hybrid_root a p) = Some (hybrid_root a p)"
  by (auto simp: canonicalize_copy_def on_present_def hybrid_root_def sample_defs sample_primary_def)

lemma hybrid_encodable:
  "a \<in> {None, sample_alternative} \<Longrightarrow> p \<in> {None, sample_primary} \<Longrightarrow> encodable hybrid_codec (hybrid_root a p)"
  by (auto simp: encodable_def hybrid_codec_def encode_list_codec)

lemma list_position_None: "list_position cs c = None \<longleftrightarrow> c \<notin> set cs"
  by (induction cs) auto

lemma hybrid_tbs:
  assumes "a \<in> {None, sample_alternative}" and "p \<in> {None, sample_primary}"
  shows "\<exists>b. canonical_tbs hybrid_codec (hybrid_root a p) layer = Inr b"
proof -
  let ?a = "if layer = Alternative then None else a"
  have part: "signed_part layer (hybrid_root a p) = hybrid_root ?a p"
    by (simp add: signed_part_def hybrid_root_fields)
  have a: "?a \<in> {None, sample_alternative}" using assms(1) by simp
  have "encode_tbs hybrid_codec (toBeSigned (hybrid_root ?a p)) \<noteq> None"
    using a assms(2) by (auto simp: hybrid_codec_def list_codec_def list_position_None)
  then show ?thesis
    using hybrid_encodable [OF assms] hybrid_encodable [OF a assms(2)] canonicalize_hybrid_root [OF assms(2), of ?a]
    by (auto simp: canonical_tbs_iff [OF hybrid_codec_ok] part)
qed

definition trusting_ecc :: EccBackend where
  "trusting_ecc = \<lparr>calculate_hash = (\<lambda>_ _. []),
     sign_digest = (\<lambda>k d. Inr \<lparr>sig_r = zeros 32, sig_s = zeros 32, sig_type = sk_type k\<rparr>),
     verify_digest = (\<lambda>_ _ _. True)\<rparr>"

definition trusting_pqc :: PqcBackend where
  "trusting_pqc = \<lparr>pqc_sign = (\<lambda>_ _. Inr (zeros 666)), pqc_verify = (\<lambda>_ _ _. True)\<rparr>"

definition sample_key :: PrivateKey where
  "sample_key = \<lparr>sk_type = NistP256, sk_key = []\<rparr>"

lemma hybrid_hash:
  assumes "a \<in> {None, sample_alternative}" and "p \<in> {None, sample_primary}" and "alg \<noteq> Hash_Unspecified"
  shows "calculate_certificate_hash hybrid_codec identity_sha trusting_ecc alg (hybrid_root a p) None layer = Inr []"
  using hybrid_tbs [OF assms(1,2), of layer] assms(3)
  by (auto simp: calculate_certificate_hash_def check_or_throw_def canonical_issuer_def hybrid_root_fields trusting_ecc_def)

lemma hybrid_sign_alternative:
  "sign_alternative_certificate hybrid_codec identity_sha trusting_ecc trusting_pqc [] unsigned_root None
     = Inr inner_signed_root"
proof -
  have "get_alternative_public_key hybrid_codec unsigned_root = Some (zeros 897)"
    using hybrid_encodable [of None None] copy_certificate_eq [OF hybrid_codec_ok]
    by (simp add: get_alternative_public_key_def extract_alternative_public_key_def hybrid_root_fields
        fndsa512_public_key_size_def)
  then show ?thesis
    using hybrid_hash [of None None SHA256 Alternative]
    by (simp add: sign_alternative_certificate_def signing_certificate_def hybrid_root_fields or_throw_def
        check_or_throw_def trusting_pqc_def set_alternative_signature_def fndsa512_signature_size_def assign_octets_def)
      (simp add: hybrid_root_def sample_alternative_def)
qed

lemma hybrid_sign_primary:
  "sign_primary_certificate hybrid_codec identity_sha trusting_ecc sample_key inner_signed_root None = Inr signed_root"
proof -
  have "copy_certificate_or_throw hybrid_codec inner_signed_root = Inr inner_signed_root"
    using hybrid_encodable [of sample_alternative None] by (simp add: copy_certificate_or_throw_iff [OF hybrid_codec_ok])
  then show ?thesis
    using hybrid_hash [of sample_alternative None SHA256 Primary]
    by (simp add: sign_primary_certificate_def signing_certificate_def hybrid_root_fields or_throw_def
        check_or_throw_def sample_key_def trusting_ecc_def set_primary_signature_def assign_octets_def)
      (simp add: hybrid_root_def sample_primary_def)
qed

theorem hybrid_issuance_witness:
  "verify_primary_certificate hybrid_codec identity_sha trusting_ecc signed_root None
   \<and> verify_alternative_certificate hybrid_codec identity_sha trusting_ecc trusting_pqc signed_root None"
  using hybrid_issuance [OF hybrid_codec_ok hybrid_sign_alternative hybrid_sign_primary]
    hybrid_encodable [of sample_alternative sample_primary] hybrid_encodable [of None sample_primary]
  by (simp add: hybrid_root_fields trusting_ecc_def)

lemma list_codec_tbs_inj:
  "encode_tbs (list_codec cs) t = Some b \<Longrightarrow> encode_tbs (list_codec cs) t' = Some b \<Longrightarrow> t = t'"
  by (auto simp: list_codec_def dest!: list_position_SomeD dest: arg_cong [where f = length])

theorem primary_covers_alternative_witness:
  "canonical_tbs hybrid_codec unsigned_root Alternative = canonical_tbs hybrid_codec inner_signed_root Alternative
   \<and> canonical_tbs hybrid_codec unsigned_root Primary \<noteq> canonical_tbs hybrid_codec inner_signed_root Primary"
proof -
  have "inner_signed_root = unsigned_root\<lparr>toBeSigned := (toBeSigned unsigned_root)\<lparr>altSignatureValue := sample_alternative\<rparr>\<rparr>"
    by (simp add: hybrid_root_def)
  moreover have "encode_tbs hybrid_codec t = Some b \<Longrightarrow> encode_tbs hybrid_codec t' = Some b \<Longrightarrow> t = t'" for t t' b
    unfolding hybrid_codec_def by (rule list_codec_tbs_inj)
  ultimately show ?thesis
    using primary_covers_alternative [where asn = hybrid_codec and c' = inner_signed_root and c = unsigned_root
          and x = sample_alternative, OF hybrid_codec_ok]
      hybrid_encodable [of None None] hybrid_encodable [of sample_alternative None] hybrid_tbs [of None None Primary]
    by (auto simp: hybrid_root_fields sample_alternative_def)
qed

definition hybrid_validator :: HybridCertificateValidator where
  "hybrid_validator = h_use_backends (Some trusting_ecc) (Some trusting_pqc)
     (h_use_trust_store (Some \<lparr>trusted_certificates = [([0, 0], signed_root)]\<rparr>)
       (h_use_issuer_lookup (Some (\<lambda>_. None))
         (h_configure (disable_time_checks True) (h_configure (disable_location_checks True) hybrid_certificate_validator))))"

lemma hybrid_validator_fields:
  "h_verification_policy hybrid_validator = HybridRequired" "h_issuer_lookup hybrid_validator = Some (\<lambda>_. None)"
  "h_trust_store hybrid_validator = Some \<lparr>trusted_certificates = [([0, 0], signed_root)]\<rparr>"
  "h_ecc_backend hybrid_validator = Some trusting_ecc" "h_pqc_backend hybrid_validator = Some trusting_pqc"
  "h_policy_validator hybrid_validator = default_certificate_validator
     \<lparr>m_disable_time_checks := True, m_disable_location_checks := True, m_issuer_lookup := Some (\<lambda>_. None),
      m_trust_store := Some \<lparr>trusted_certificates = [([0, 0], signed_root)]\<rparr>\<rparr>"
  by (simp_all add: hybrid_validator_def h_use_backends_def h_use_trust_store_def h_use_issuer_lookup_def h_configure_def
      hybrid_certificate_validator_def disable_time_checks_def disable_location_checks_def use_issuer_lookup_def
      use_trust_store_def default_certificate_validator_def)

lemma signed_root_digest: "calculate_digest hybrid_codec identity_sha signed_root = Some [0, 0]"
proof -
  have "is_canonical signed_root"
    by (simp add: is_canonical_def hybrid_root_fields sample_primary_def)
      (simp add: hybrid_root_def sample_defs compressed_point_def)
  moreover have "encode_cert hybrid_codec signed_root = Some [0, 0]"
    by (simp add: hybrid_codec_def encode_list_codec hybrid_root_eq sample_alternative_def sample_primary_def numeral_2_eq_2)
  ultimately show ?thesis
    by (simp add: calculate_digest_def calculate_digest_internal_def hybrid_root_fields identity_sha_def
        create_hashed_id8_def last_octets_def)
qed

lemma signed_root_authority: "alternative_material_state hybrid_codec signed_root = Authority"
proof -
  have "copy_certificate hybrid_codec signed_root = Some signed_root"
    using hybrid_encodable [of sample_alternative sample_primary] copy_certificate_eq [OF hybrid_codec_ok] by simp
  then show ?thesis
    by (simp add: alternative_material_state_def Let_def hybrid_root_fields extract_alternative_public_key_def
        extract_alternative_signature_def sample_alternative_def fndsa512_public_key_size_def fndsa512_signature_size_def)
qed

lemma signed_root_accepted: "hybrid_valid_for_signing hybrid_codec identity_sha hybrid_validator signed_root 36 = Valid"
proof -
  have copy: "copy_certificate hybrid_codec signed_root = Some signed_root"
    using hybrid_encodable [of sample_alternative sample_primary] copy_certificate_eq [OF hybrid_codec_ok] by simp
  have "get_signature signed_root = Some \<lparr>sig_r = zeros 32, sig_s = zeros 32, sig_type = NistP256\<rparr>"
    by (simp add: get_signature_def hybrid_root_fields sample_primary_def)
  then have signed: "verify_primary_certificate hybrid_codec identity_sha trusting_ecc signed_root None"
    using copy hybrid_hash [of sample_alternative sample_primary SHA256 Primary]
    by (simp add: verify_primary_certificate_def copy_certificate_or_throw_def or_throw_def signing_certificate_def
        hybrid_root_fields caught_def) (simp add: trusting_ecc_def)
  have "verify_alternative_certificate hybrid_codec identity_sha trusting_ecc trusting_pqc signed_root None"
    using copy hybrid_hash [of sample_alternative sample_primary SHA256 Alternative]
    by (simp add: verify_alternative_certificate_def get_alternative_public_key_def get_alternative_signature_def
        extract_alternative_public_key_def extract_alternative_signature_def signing_certificate_def hybrid_root_fields
        sample_alternative_def fndsa512_public_key_size_def fndsa512_signature_size_def caught_def)
      (simp add: trusting_pqc_def)
  note signed = signed this
  have "trust_lookup \<lparr>trusted_certificates = [([0, 0], signed_root)]\<rparr> [0, 0] \<noteq> []"
    by (simp add: trust_lookup_def)
  then show ?thesis
    using signed signed_root_digest signed_root_authority
    by (simp add: hybrid_valid_for_signing_def hybrid_validator_fields valid_for_signing_def is_chain_anchored_def
        chain_is_consistent_def chain_is_revoked_def location_verdict_def default_certificate_validator_def
        hybrid_root_fields max_chain_depth_def numeral_eq_Suc alternative_signature_is_accepted_def)
qed

theorem hybrid_required_no_downgrade_witness:
  "\<exists>cs. issuing_chain (\<lambda>_. None) signed_root cs
     \<and> alternative_material_state hybrid_codec ` set cs \<subseteq> {Authority, EndEntity}
     \<and> verify_alternative_certificate hybrid_codec identity_sha trusting_ecc trusting_pqc (last cs) None"
  using hybrid_required_no_downgrade [OF hybrid_validator_fields(1) signed_root_accepted]
  by (auto simp: hybrid_validator_fields)

end
