(* ===== verification/Security_Entity.thy ===== *)
theory Security_Entity
  imports Btp
begin

text \<open>
  The security entity a router uses (\<^verbatim>\<open>security/security_entity.hpp\<close>,
  \<^verbatim>\<open>security/delegating_security_entity.*\<close>, \<^verbatim>\<open>security/encap_service.*\<close>,
  \<^verbatim>\<open>security/decap_service.*\<close>): requests and confirms of the SN-SIGN, SN-VERIFY, SN-ENCAP and
  SN-DECAP services and the entity that delegates to a sign and a verify service.

  The services are virtual interfaces with state: operations on a state \<open>'e\<close>. Secured messages are
  \<open>'sec\<close>; how their payload is copied is an operation too.
\<close>

section \<open>Reports\<close>

datatype VerificationReport =
    Success | False_Signature | Invalid_Certificate | Revoked_Certificate | Inconsistent_Chain
  | Invalid_Timestamp | Duplicate_Message | Invalid_Mobility_Data | Unsigned_Message
  | Signer_Certificate_Not_Found | Unsupported_Signer_Identifier_Type | Incompatible_Protocol
  | Configuration_Problem

datatype CertificateInvalidReason =
    Broken_Time_Period | Off_Time_Period | Unknown_Signer | Missing_Signature | Missing_Public_Key
  | Invalid_Signer | Invalid_Name | Excessive_Chain_Length | Off_Region | Inconsistent_With_Signer
  | Insufficient_ITS_AID | Missing_Subject_Assurance

text \<open>Valid certificates have no reason of invalidity. \<^const>\<open>None\<close> as a report is \<^verbatim>\<open>boost::blank\<close>.\<close>

type_synonym CertificateValidity = "CertificateInvalidReason option"

type_synonym DecapReport = "VerificationReport option"

fun report_matches :: "DecapReport \<Rightarrow> VerificationReport \<Rightarrow> bool" where
  "report_matches (Some report) expected = (report = expected)"
| "report_matches None expected = False"

definition is_successful :: "DecapReport \<Rightarrow> bool" where
  "is_successful report = report_matches report Success"

section \<open>Requests and confirms\<close>

record SignRequest =
  sr_plain_message :: ChunkPacket
  sr_its_aid :: ItsAid
  sr_permissions :: "byte list"
  sr_external_payload :: bool
  sr_self_signed :: bool

definition sign_request :: "ChunkPacket \<Rightarrow> ItsAid \<Rightarrow> byte list \<Rightarrow> SignRequest" where
  "sign_request packet aid ssp = \<lparr>sr_plain_message = packet, sr_its_aid = aid, sr_permissions = ssp,
     sr_external_payload = False, sr_self_signed = False\<rparr>"

datatype SignConfirmError = Sign_Unspecified | No_Certificate | No_Service

record 'sec SignConfirm =
  sign_error :: SignConfirmError
  sign_secured_message :: "'sec option"

definition sign_success :: "'sec \<Rightarrow> 'sec SignConfirm" where
  "sign_success message = \<lparr>sign_error = Sign_Unspecified, sign_secured_message = Some message\<rparr>"

definition sign_failure :: "SignConfirmError \<Rightarrow> 'sec SignConfirm" where
  "sign_failure error = \<lparr>sign_error = error, sign_secured_message = None\<rparr>"

type_synonym 'sec EncapConfirm = "SignConfirmError + 'sec"

definition encap_confirm_from :: "'sec SignConfirm \<Rightarrow> 'sec EncapConfirm" where
  "encap_confirm_from confirm =
     (case sign_secured_message confirm of Some message \<Rightarrow> Inr message | None \<Rightarrow> Inl (sign_error confirm))"

record VerifyConfirm =
  vc_report :: VerificationReport
  vc_its_aid :: ItsAid
  vc_permissions :: "byte list"
  vc_certificate_validity :: CertificateValidity
  vc_certificate_id :: "byte list option"

text \<open>
  A plaintext in chunks carries common and extended header as an object in its network layer, if a
  router created it.
\<close>

datatype Plaintext = Plain_Cohesive CohesivePacket | Plain_Chunk "(CommonHeader \<times> HeaderVariant) option" ChunkPacket

record DecapConfirm =
  dc_plaintext_payload :: Plaintext
  dc_report :: DecapReport
  dc_certificate_validity :: CertificateValidity
  dc_its_aid :: ItsAid
  dc_permissions :: "byte list"

definition decap_confirm_from :: "('sec \<Rightarrow> Plaintext) \<Rightarrow> VerifyConfirm \<Rightarrow> 'sec \<Rightarrow> DecapConfirm" where
  "decap_confirm_from get_payload_copy verify msg_view =
     \<lparr>dc_plaintext_payload = get_payload_copy msg_view, dc_report = Some (vc_report verify),
      dc_certificate_validity = vc_certificate_validity verify, dc_its_aid = vc_its_aid verify,
      dc_permissions = vc_permissions verify\<rparr>"

section \<open>Delegating entity\<close>

type_synonym ('sec, 'e) sign_service = "SignRequest \<Rightarrow> 'e \<Rightarrow> 'sec SignConfirm \<times> 'e"
type_synonym ('sec, 'e) verify_service = "'sec \<Rightarrow> 'e \<Rightarrow> VerifyConfirm \<times> 'e"

definition encap_dispatch :: "SignRequest \<Rightarrow> ('sec, 'e) sign_service option \<Rightarrow> 'e \<Rightarrow> 'sec EncapConfirm \<times> 'e" where
  "encap_dispatch request service e =
     (case service of
        Some sign \<Rightarrow> map_prod encap_confirm_from id (sign request e)
      | None \<Rightarrow> (encap_confirm_from (sign_failure No_Service), e))"

definition encapsulate_packet :: "('sec, 'e) sign_service \<Rightarrow> SignRequest \<Rightarrow> 'e \<Rightarrow> 'sec EncapConfirm \<times> 'e" where
  "encapsulate_packet sign request e = encap_dispatch request (Some sign) e"

definition decapsulate_packet ::
    "('sec \<Rightarrow> Plaintext) \<Rightarrow> ('sec, 'e) verify_service \<Rightarrow> 'sec \<Rightarrow> 'e \<Rightarrow> DecapConfirm \<times> 'e" where
  "decapsulate_packet get_payload_copy verify sec_packet e =
     map_prod (\<lambda>confirm. decap_confirm_from get_payload_copy confirm sec_packet) id (verify sec_packet e)"

section \<open>Lemmas\<close>

lemma is_successful_iff [simp]: "is_successful report \<longleftrightarrow> report = Some Success"
  by (cases report) (auto simp: is_successful_def)

lemma decap_report_verified: "dc_report (fst (decapsulate_packet copy verify msg e)) = Some (vc_report (fst (verify msg e)))"
  by (simp add: decapsulate_packet_def decap_confirm_from_def split: prod.split)

lemma decap_payload_copy: "dc_plaintext_payload (fst (decapsulate_packet copy verify msg e)) = copy msg"
  by (simp add: decapsulate_packet_def decap_confirm_from_def split: prod.split)

end
