(* ===== verification/Router_Forwarding.thy ===== *)
theory Router_Forwarding
  imports Cbf Recency Security_Entity Dcc_Flow_Control
begin

text \<open>
  The forwarding part of the GeoNetworking router (\<^verbatim>\<open>geonet/router.cpp\<close>): its state, the
  transmission of packets through security to the access layer, the forwarding algorithms of Annex
  D to F, and the processing of packets that waited in a buffer (\<^verbatim>\<open>geonet/next_hop.*\<close>).

  The code stores closures in pending packets. There is one constructor of \<open>gbc_transmit\<close>, of
  \<open>gbc_action\<close> and of \<open>buffer_packet\<close> for each closure, with what it captures, and one function
  that runs it. Pending packets of the router always have a PDU and a payload.

  Parameters, in the record \<open>RouterEnv\<close>: the geodesy functions (GeographicLib or haversine,
  chosen by the build), the sign and verify services, the readers, payload and size of secured
  messages, the
  random numbers, and \<^verbatim>\<open>boost::circular_buffer\<close>. What the router hands to other layers is
  recorded in logs, newest last: packets passed down and up, drop reasons, and reasons to stop
  forwarding.
\<close>

section \<open>State\<close>

record ControlInfo =
  ci_communication_profile :: CommunicationProfile
  ci_its_aid :: ItsAid
  ci_permissions :: "byte list"

record LinkLayer =
  ll_sender :: MacAddress
  ll_destination :: MacAddress

text \<open>
  The transmit closures of the source and of the forwarder operations, and the one that does
  nothing while contending.
\<close>

datatype gbc_transmit = Source_Transmit ControlInfo | Forwarder_Transmit | No_Transmit

text \<open>The closures of pending packets without further arguments.\<close>

datatype gbc_action =
    Source_Forwarding ControlInfo
  | Forwarder_Forwarding LinkLayer
  | Greedy_Action gbc_transmit
  | Bound_Transmit gbc_transmit MacAddress

datatype 'sec buffer_packet =
    Buffered_Shb "('sec, ShbHeader, ControlInfo) PendingPacket"
  | Buffered_Tsb "('sec, TsbHeader, unit) PendingPacket"
  | Buffered_Gbc "('sec, GeoBroadcastHeader, gbc_action) PendingPacket"

datatype PacketDropReason =
    Parse_Basic_Header | Parse_Common_Header | Parse_Secured_Header | Parse_Extended_Header
  | ITS_Protocol_Version | Decap_Unsuccessful_Non_Strict | Decap_Unsuccessful_Strict | Hop_Limit
  | Payload_Size | Security_Entity_Missing | Packet_Size | Internal_Error

fun stringify :: "PacketDropReason \<Rightarrow> string" where
  "stringify Parse_Basic_Header = ''Parse_Basic_Header''"
| "stringify Parse_Common_Header = ''Parse_Common_Header''"
| "stringify Parse_Secured_Header = ''Parse_Secured_Header''"
| "stringify Parse_Extended_Header = ''Parse_Extended_Header''"
| "stringify ITS_Protocol_Version = ''ITS_Protocol_Version''"
| "stringify Decap_Unsuccessful_Non_Strict = ''Decap_Unsuccessful_Non_Strict''"
| "stringify Decap_Unsuccessful_Strict = ''Decap_Unsuccessful_Strict''"
| "stringify Hop_Limit = ''Hop_Limit''"
| "stringify Payload_Size = ''Payload_Size''"
| "stringify Security_Entity_Missing = ''Security_Entity_Missing''"
| "stringify _ = ''UNKNOWN''"

datatype ForwardingStopReason = Stop_Hop_Limit | Source_PDR | Sender_PDR | Outside_Destination_Area

datatype router_exception =
    Secured_Not_Set | Illegal_Upper_Layer_Payload | Secured_Message_Missing
  | Invalid_GBC_Header_Type | Unhandled_Upper_Protocol | Casting_To_Pdu_Failed | Casting_To_SecuredPdu_Failed

text \<open>
  A packet of chunks carries the PDU object in its network layer, if a router created it.
\<close>

datatype 'sec UpPacket = Up_Cohesive CohesivePacket | Up_Chunk "'sec Pdu option" ChunkPacket

record ('sec, 'e, 'r) RouterEnv =
  env_mib :: MIB
  env_distance :: "GeodeticPosition \<Rightarrow> GeodeticPosition \<Rightarrow> real"
  env_local_cartesian :: "GeodeticPosition \<Rightarrow> GeodeticPosition \<Rightarrow> CartesianPosition"
  env_get_size :: "'sec \<Rightarrow> nat"
  env_v2_deserialize :: "'sec secured_reader"
  env_v3_deserialize :: "'sec secured_reader"
  env_sign :: "('sec, 'e) sign_service"
  env_verify :: "('sec, 'e) verify_service"
  env_get_payload_copy :: "'sec \<Rightarrow> Plaintext"
  env_jitter :: "'r \<Rightarrow> real \<times> 'r"
  env_octet :: "'r \<Rightarrow> u8 \<times> 'r"
  env_push_back :: "ListElement circular_push"

record ('sec, 'e, 'r) Router =
  rt_clock :: time_point
  m_local_position_vector :: LongPositionVector
  m_security_entity :: "'e option"
  m_transport_ifcs :: "UpperProtocol set"
  m_dcc_field :: DccField
  m_location_table :: LocationTable
  m_bc_forward_buffer :: "'sec buffer_packet PacketBuffer"
  m_uc_forward_buffer :: "'sec buffer_packet PacketBuffer"
  m_cbf_buffer :: "('sec, gbc_action) CbfPacketBuffer"
  m_local_sequence_number :: SequenceNumber
  m_repeater :: Repeater
  m_random_gen :: 'r
  m_gbc_memory :: GbcMemory
  beacon_timer :: "time_point option"
  passed_down :: "(DccDataRequest \<times> 'sec Pdu \<times> ChunkPacket) list"
  passed_up :: "(DecapReport GnDataIndication \<times> PacketVariant) list"
  dropped_packets :: "PacketDropReason list"
  stopped_forwarding :: "ForwardingStopReason list"

type_synonym ('sec, 'e, 'r) router_result = "router_exception + ('sec, 'e, 'r) Router"

fun buffered_length :: "('sec \<Rightarrow> nat) \<Rightarrow> 'sec buffer_packet \<Rightarrow> nat" where
  "buffered_length gs (Buffered_Shb p) = pending_length Shb_Header gs p"
| "buffered_length gs (Buffered_Tsb p) = pending_length Tsb_Header gs p"
| "buffered_length gs (Buffered_Gbc p) = pending_length Gbc_Header gs p"

fun buffered_reduce_lifetime :: "duration \<Rightarrow> 'sec buffer_packet \<Rightarrow> duration \<times> 'sec buffer_packet" where
  "buffered_reduce_lifetime d (Buffered_Shb p) = map_prod id Buffered_Shb (pending_reduce_lifetime d p)"
| "buffered_reduce_lifetime d (Buffered_Tsb p) = map_prod id Buffered_Tsb (pending_reduce_lifetime d p)"
| "buffered_reduce_lifetime d (Buffered_Gbc p) = map_prod id Buffered_Gbc (pending_reduce_lifetime d p)"

definition packet_dropped :: "PacketDropReason \<Rightarrow> ('sec, 'e, 'r) Router \<Rightarrow> ('sec, 'e, 'r) Router" where
  "packet_dropped reason r = r\<lparr>dropped_packets := dropped_packets r @ [reason]\<rparr>"

definition forwarding_stopped :: "ForwardingStopReason \<Rightarrow> ('sec, 'e, 'r) Router \<Rightarrow> ('sec, 'e, 'r) Router" where
  "forwarding_stopped reason r = r\<lparr>stopped_forwarding := stopped_forwarding r @ [reason]\<rparr>"

definition bc_forward_push ::
    "('sec, 'e, 'r) RouterEnv \<Rightarrow> 'sec buffer_packet \<Rightarrow> ('sec, 'e, 'r) Router \<Rightarrow> ('sec, 'e, 'r) Router" where
  "bc_forward_push env data r =
     r\<lparr>m_bc_forward_buffer := snd (buffer_push (buffered_length (env_get_size env)) buffered_reduce_lifetime data
         (rt_clock r) (m_bc_forward_buffer r))\<rparr>"

section \<open>Passing packets down\<close>

definition ether_type :: u16 where
  "ether_type = 0x8947"

definition pass_down_request ::
    "DccDataRequest \<Rightarrow> 'sec Pdu \<Rightarrow> ChunkPacket \<Rightarrow> ('sec, 'e, 'r) Router
       \<Rightarrow> ('sec, 'e, 'r) router_result" where
  "pass_down_request req pdu payload_packet r =
     ebind (if pdu_secured pdu \<noteq> None then
              if basic_next_header (pdu_basic pdu) \<noteq> Basic_Secured then Inl Secured_Not_Set
              else if chunk_size_range payload_packet Transport Application > 0 then Inl Illegal_Upper_Layer_Payload
              else Inr ()
            else if basic_next_header (pdu_basic pdu) = Basic_Secured then Inl Secured_Message_Missing
            else Inr ())
       (\<lambda>_. Inr (r\<lparr>passed_down := passed_down r @ [(req, pdu, payload_packet)]\<rparr>))"

definition pass_down ::
    "MacAddress \<Rightarrow> 'sec Pdu \<Rightarrow> ChunkPacket \<Rightarrow> ('sec, 'e, 'r) Router
       \<Rightarrow> ('sec, 'e, 'r) router_result" where
  "pass_down addr pdu payload_packet r =
     pass_down_request \<lparr>dr_ether_type = ether_type, dr_source = mid (gn_addr (m_local_position_vector r)),
         dr_destination = addr, dr_dcc_profile = map_tc_onto_profile (ch_traffic_class (pdu_common pdu)),
         dr_lifetime = clock_cast (lifetime_decode (lifetime (pdu_basic pdu)))\<rparr> pdu payload_packet r"

text \<open>What the forwarder operations request of the access layer.\<close>

definition pass_down_forwarded ::
    "MacAddress \<Rightarrow> 'sec Pdu \<Rightarrow> ChunkPacket \<Rightarrow> ('sec, 'e, 'r) Router
       \<Rightarrow> ('sec, 'e, 'r) router_result" where
  "pass_down_forwarded addr pdu payload_packet r =
     pass_down_request \<lparr>dr_ether_type = ether_type, dr_source = mid (gn_addr (m_local_position_vector r)),
         dr_destination = addr, dr_dcc_profile = DP3,
         dr_lifetime = clock_cast (lifetime_decode (lifetime (pdu_basic pdu)))\<rparr> pdu payload_packet r"

text \<open>
  The security entity signs common header, extended header and payload. On success the layers of
  the payload have moved into the secured message of the PDU.
\<close>

definition secured_pdu_bytes :: "'sec Pdu \<Rightarrow> byte list" where
  "secured_pdu_bytes pdu = serialize_common (pdu_common pdu) @ serialize_header (pdu_extended pdu)"

definition encap_packet ::
    "('sec, 'e, 'r) RouterEnv \<Rightarrow> ItsAid \<Rightarrow> byte list \<Rightarrow> 'sec Pdu \<Rightarrow> ChunkPacket
       \<Rightarrow> ('sec, 'e, 'r) Router \<Rightarrow> ('sec \<times> ChunkPacket) option \<times> ('sec, 'e, 'r) Router" where
  "encap_packet env aid ssp pdu packet r =
     (case m_security_entity r of
        None \<Rightarrow> (None, r)
      | Some entity \<Rightarrow>
          let (sec_payload, rest) = chunk_merge Transport Application
                (empty_chunk_packet(Network := secured_pdu_bytes pdu)) packet;
              (confirm, entity) = encapsulate_packet (env_sign env) (sign_request sec_payload aid ssp) entity
          in (case confirm of Inr msg \<Rightarrow> Some (msg, rest) | Inl _ \<Rightarrow> None,
              r\<lparr>m_security_entity := Some entity\<rparr>))"

fun execute_media_procedures :: "CommunicationProfile \<Rightarrow> ('sec, 'e, 'r) Router \<Rightarrow> ('sec, 'e, 'r) Router" where
  "execute_media_procedures ITS_G5 r = r"
| "execute_media_procedures Interface_Unspecified r = r"
| "execute_media_procedures LTE_V2X r = r"

section \<open>Beacon timer\<close>

text \<open>
  The timer is the only callback the router schedules for itself: cancelling by scope removes the
  previous one.
\<close>

definition reset_beacon_timer_in :: "duration \<Rightarrow> ('sec, 'e, 'r) Router \<Rightarrow> ('sec, 'e, 'r) Router" where
  "reset_beacon_timer_in next_beacon r = r\<lparr>beacon_timer := Some (rt_clock r + next_beacon)\<rparr>"

definition reset_beacon_timer ::
    "('sec, 'e, 'r) RouterEnv \<Rightarrow> ('sec, 'e, 'r) Router \<Rightarrow> ('sec, 'e, 'r) Router" where
  "reset_beacon_timer env r =
     (let (jitter, gen) = env_jitter env (m_random_gen r);
          next_beacon = itsGnBeaconServiceRetransmitTimer (env_mib env) + jitter * itsGnBeaconServiceMaxJitter (env_mib env)
      in reset_beacon_timer_in (clock_cast next_beacon) (r\<lparr>m_random_gen := gen\<rparr>))"

section \<open>Transmission\<close>

text \<open>
  The source operations of single-hop and of geo-broadcast differ in the header only. The flag tells
  that the packet was passed down, which does not happen when encapsulation fails.
\<close>

definition source_transmit ::
    "('sec, 'e, 'r) RouterEnv \<Rightarrow> ('h \<Rightarrow> HeaderVariant) \<Rightarrow> (LongPositionVector \<Rightarrow> 'h \<Rightarrow> 'h) \<Rightarrow> ControlInfo
       \<Rightarrow> ('sec, 'h) ExtendedPdu \<Rightarrow> ChunkPacket \<Rightarrow> MacAddress \<Rightarrow> ('sec, 'e, 'r) Router
       \<Rightarrow> router_exception + (bool \<times> ('sec, 'e, 'r) Router)" where
  "source_transmit env wrap set_source ctrl pdu0 payload_packet mac r =
     (let pdu = pdu0\<lparr>ep_extended := set_source (m_local_position_vector r) (ep_extended pdu0)\<rparr>
      in if itsGnSecurity (env_mib env) then
           let (encapsulated, r') = encap_packet env (ci_its_aid ctrl) (ci_permissions ctrl)
                 (pdu_of_extended wrap pdu) payload_packet r
           in case encapsulated of
                None \<Rightarrow> Inr (False, r')
              | Some (msg, rest) \<Rightarrow>
                  map_sum id (Pair True) (pass_down mac (pdu_of_extended wrap (pdu\<lparr>ep_secured := Some msg\<rparr>)) rest
                    (execute_media_procedures (ci_communication_profile ctrl) r'))
         else map_sum id (Pair True) (pass_down mac (pdu_of_extended wrap pdu) payload_packet
                (execute_media_procedures (ci_communication_profile ctrl) r)))"

definition shb_set_source :: "LongPositionVector \<Rightarrow> ShbHeader \<Rightarrow> ShbHeader" where
  "shb_set_source pv h = h\<lparr>shb_source_position := pv\<rparr>"

definition gbc_set_source :: "LongPositionVector \<Rightarrow> GeoBroadcastHeader \<Rightarrow> GeoBroadcastHeader" where
  "gbc_set_source pv h = h\<lparr>gbc_source_position := pv\<rparr>"

definition shb_transmit ::
    "('sec, 'e, 'r) RouterEnv \<Rightarrow> ControlInfo \<Rightarrow> ('sec, ShbHeader) ExtendedPdu \<Rightarrow> ChunkPacket
       \<Rightarrow> ('sec, 'e, 'r) Router \<Rightarrow> ('sec, 'e, 'r) router_result" where
  "shb_transmit env ctrl pdu payload_packet r =
     ebind (source_transmit env Shb_Header shb_set_source ctrl pdu payload_packet cBroadcastMacAddress r)
       (\<lambda>(sent, r). Inr (if sent then reset_beacon_timer env r else r))"

definition tsb_transmit ::
    "('sec, 'e, 'r) RouterEnv \<Rightarrow> ('sec, TsbHeader) ExtendedPdu \<Rightarrow> ChunkPacket
       \<Rightarrow> ('sec, 'e, 'r) Router \<Rightarrow> ('sec, 'e, 'r) router_result" where
  "tsb_transmit env pdu payload_packet r =
     pass_down_forwarded cBroadcastMacAddress (pdu_of_extended Tsb_Header pdu) payload_packet
       (execute_media_procedures (itsGnIfType (env_mib env)) r)"

fun transmit_gbc ::
    "('sec, 'e, 'r) RouterEnv \<Rightarrow> gbc_transmit \<Rightarrow> 'sec GbcPdu \<Rightarrow> ChunkPacket \<Rightarrow> MacAddress
       \<Rightarrow> ('sec, 'e, 'r) Router \<Rightarrow> ('sec, 'e, 'r) router_result" where
  "transmit_gbc env (Source_Transmit ctrl) pdu payload_packet mac r =
     map_sum id snd (source_transmit env Gbc_Header gbc_set_source ctrl pdu payload_packet mac r)"
| "transmit_gbc env Forwarder_Transmit pdu payload_packet mac r =
     pass_down_forwarded mac (pdu_of_extended Gbc_Header pdu) payload_packet
       (execute_media_procedures (itsGnIfType (env_mib env)) r)"
| "transmit_gbc env No_Transmit pdu payload_packet mac r = Inr r"

section \<open>Next hop\<close>

datatype NextHopState = NextHop_Valid | NextHop_Discarded | NextHop_Buffered

type_synonym 'sec pending_forwarding = "'sec GbcPdu \<times> ChunkPacket \<times> gbc_transmit"

record 'sec NextHop =
  nh_state :: NextHopState
  nh_destination :: MacAddress
  nh_packet :: "'sec pending_forwarding option"

definition next_hop :: "'sec NextHop" where
  "next_hop = \<lparr>nh_state = NextHop_Discarded, nh_destination = mac_zero, nh_packet = None\<rparr>"

definition nh_transmit :: "'sec pending_forwarding \<Rightarrow> MacAddress \<Rightarrow> 'sec NextHop \<Rightarrow> 'sec NextHop" where
  "nh_transmit packet destination nh =
     nh\<lparr>nh_state := NextHop_Valid, nh_packet := Some packet, nh_destination := destination\<rparr>"

definition nh_discard :: "'sec NextHop \<Rightarrow> 'sec NextHop" where
  "nh_discard nh = nh\<lparr>nh_state := NextHop_Discarded\<rparr>"

definition nh_buffer :: "'sec NextHop \<Rightarrow> 'sec NextHop" where
  "nh_buffer nh = nh\<lparr>nh_state := NextHop_Buffered\<rparr>"

definition nh_valid :: "'sec NextHop \<Rightarrow> bool" where
  "nh_valid nh \<longleftrightarrow> nh_state nh = NextHop_Valid"

definition nh_process ::
    "('sec, 'e, 'r) RouterEnv \<Rightarrow> 'sec NextHop \<Rightarrow> ('sec, 'e, 'r) Router \<Rightarrow> ('sec, 'e, 'r) router_result" where
  "nh_process env nh r =
     (if nh_valid nh then
        case nh_packet nh of
          Some (pdu, payload_packet, t) \<Rightarrow> transmit_gbc env t pdu payload_packet (nh_destination nh) r
        | None \<Rightarrow> Inr r
      else Inr r)"

section \<open>Greedy forwarding\<close>

fun greedy_search :: "(GeodeticPosition \<Rightarrow> GeodeticPosition \<Rightarrow> real) \<Rightarrow> GeodeticPosition \<Rightarrow> LocationTableEntry list
    \<Rightarrow> MacAddress \<times> real \<Rightarrow> MacAddress \<times> real" where
  "greedy_search distance dest [] mfr = mfr"
| "greedy_search distance dest (neighbour # rest) (mfr_addr, mfr_dist) =
     (if m_has_position_vector neighbour then
        let dist = distance dest (lpv_position (m_position_vector neighbour))
        in if dist < mfr_dist then greedy_search distance dest rest (link_layer_address neighbour, dist)
           else greedy_search distance dest rest (mfr_addr, mfr_dist)
      else greedy_search distance dest rest (mfr_addr, mfr_dist))"

definition greedy_forwarding ::
    "('sec, 'e, 'r) RouterEnv \<Rightarrow> 'sec pending_forwarding \<Rightarrow> ('sec, 'e, 'r) Router
       \<Rightarrow> 'sec NextHop \<times> ('sec, 'e, 'r) Router" where
  "greedy_forwarding env packet r =
     (let (pdu, payload_packet, t) = packet;
          dest = gbc_position (ep_extended pdu);
          own = env_distance env dest (lpv_position (m_local_position_vector r));
          (mfr_addr, mfr_dist) = greedy_search (env_distance env) dest
            (neighbours (rt_clock r) (m_location_table r)) (mac_zero, own)
      in if mfr_dist < own then (nh_transmit packet mfr_addr next_hop, r)
         else if store_carry_forward (ch_traffic_class (ep_common pdu)) then
           (nh_buffer next_hop,
            bc_forward_push env (Buffered_Gbc \<lparr>pp_pdu = Some pdu, pp_payload = Some payload_packet,
              pp_function = Greedy_Action t\<rparr>) r)
         else (nh_transmit packet cBroadcastMacAddress next_hop, r))"

section \<open>Contention-based forwarding\<close>

definition timeout_cbf :: "MIB \<Rightarrow> real \<Rightarrow> real" where
  "timeout_cbf mib prog =
     (let dist_max = itsGnDefaultMaxCommunicationRange mib;
          to_cbf_min = itsGnCbfMinTime mib;
          to_cbf_max = itsGnCbfMaxTime mib
      in if prog > dist_max then to_cbf_min
         else if prog > 0 then to_cbf_max + (to_cbf_min - to_cbf_max) / dist_max * prog
         else to_cbf_max)"

definition timeout_cbf_sender :: "('sec, 'e, 'r) RouterEnv \<Rightarrow> MacAddress \<Rightarrow> ('sec, 'e, 'r) Router \<Rightarrow> real" where
  "timeout_cbf_sender env sender r =
     (case get_position (rt_clock r) sender (m_location_table r) of
        Some pv_se \<Rightarrow>
          if position_accuracy_indicator pv_se
          then timeout_cbf (env_mib env) (env_distance env (lpv_position pv_se) (lpv_position (m_local_position_vector r)))
          else itsGnCbfMaxTime (env_mib env)
      | None \<Rightarrow> itsGnCbfMaxTime (env_mib env))"

definition make_cbf_packet :: "'sec pending_forwarding \<Rightarrow> MacAddress \<Rightarrow> ('sec, gbc_action) CbfPacket" where
  "make_cbf_packet packet sender =
     (let (pdu, payload_packet, t) = packet
      in \<lparr>cbf_pdu = pdu, cbf_payload = Some payload_packet,
          cbf_function = Bound_Transmit t cBroadcastMacAddress, m_sender = sender\<rparr>)"

definition cbf_buffer_add ::
    "('sec, 'e, 'r) RouterEnv \<Rightarrow> ('sec, gbc_action) CbfPacket \<Rightarrow> real \<Rightarrow> ('sec, 'e, 'r) Router
       \<Rightarrow> ('sec, 'e, 'r) Router" where
  "cbf_buffer_add env cbf timeout r =
     r\<lparr>m_cbf_buffer := cbf_add (env_get_size env) (rt_clock r) cbf (clock_cast timeout) (m_cbf_buffer r)\<rparr>"

definition gbc_identifier :: "GeoBroadcastHeader \<Rightarrow> CbfPacketIdentifier" where
  "gbc_identifier gbc = (gn_addr (gbc_source_position gbc), gbc_sequence_number gbc)"

definition cbf_buffer_remove ::
    "('sec, 'e, 'r) RouterEnv \<Rightarrow> CbfPacketIdentifier \<Rightarrow> ('sec, 'e, 'r) Router
       \<Rightarrow> bool \<times> ('sec, 'e, 'r) Router" where
  "cbf_buffer_remove env pid r =
     (let (removed, b) = cbf_remove (env_get_size env) pid (m_cbf_buffer r) in (removed, r\<lparr>m_cbf_buffer := b\<rparr>))"

definition non_area_contention_based_forwarding ::
    "('sec, 'e, 'r) RouterEnv \<Rightarrow> 'sec pending_forwarding \<Rightarrow> MacAddress option \<Rightarrow> ('sec, 'e, 'r) Router
       \<Rightarrow> router_exception + ('sec NextHop \<times> ('sec, 'e, 'r) Router)" where
  "non_area_contention_based_forwarding env packet sender r =
     (let pdu = fst packet; gbc = ep_extended pdu; cbf_id = gbc_identifier gbc
      in case sender of
           None \<Rightarrow> Inr (nh_transmit packet cBroadcastMacAddress next_hop, r)
         | Some s \<Rightarrow>
             let (removed, r) = cbf_buffer_remove env cbf_id r
             in if removed then Inr (nh_discard next_hop, r)
                else ebind (or_throw Invalid_GBC_Header_Type (gbc_destination gbc (header_type (ep_common pdu)))) (\<lambda>destination.
                  let epv = lpv_position (m_local_position_vector r);
                      fallback = (nh_buffer next_hop,
                        cbf_buffer_add env (make_cbf_packet packet s) (itsGnCbfMaxTime (env_mib env)) r)
                  in Inr (case get_position (rt_clock r) s (m_location_table r) of
                       Some pv_se \<Rightarrow>
                         if position_accuracy_indicator pv_se then
                           let dist_sender = env_distance env (area_position destination) (lpv_position pv_se);
                               dist_local = env_distance env (area_position destination) epv
                           in if dist_sender > dist_local then
                                (nh_buffer next_hop, cbf_buffer_add env (make_cbf_packet packet s)
                                   (timeout_cbf (env_mib env) (dist_sender - dist_local)) r)
                              else (nh_discard next_hop, r)
                         else fallback
                     | None \<Rightarrow> fallback)))"

definition area_contention_based_forwarding ::
    "('sec, 'e, 'r) RouterEnv \<Rightarrow> 'sec pending_forwarding \<Rightarrow> MacAddress option \<Rightarrow> ('sec, 'e, 'r) Router
       \<Rightarrow> 'sec NextHop \<times> ('sec, 'e, 'r) Router" where
  "area_contention_based_forwarding env packet sender r =
     (let cbf_id = gbc_identifier (ep_extended (fst packet))
      in case sender of
           None \<Rightarrow> (nh_transmit packet cBroadcastMacAddress next_hop, r)
         | Some s \<Rightarrow>
             let (removed, r) = cbf_buffer_remove env cbf_id r
             in if removed \<or> cbf_count (rt_clock r) cbf_id (m_cbf_buffer r) \<ge> vanetzaCbfMaxCounter (env_mib env)
                then (nh_discard next_hop, r)
                else (nh_buffer next_hop, cbf_buffer_add env (make_cbf_packet packet s) (timeout_cbf_sender env s r) r))"

definition outside_sectorial_contention_area ::
    "('sec, 'e, 'r) RouterEnv \<Rightarrow> MacAddress \<Rightarrow> MacAddress \<Rightarrow> ('sec, 'e, 'r) Router \<Rightarrow> bool" where
  "outside_sectorial_contention_area env sender forwarder r =
     (case (get_position (rt_clock r) sender (m_location_table r), get_position (rt_clock r) forwarder (m_location_table r)) of
        (Some position_sender, Some position_forwarder) \<Rightarrow>
          let local = lpv_position (m_local_position_vector r);
              dist_r = env_distance env (lpv_position position_sender) local;
              dist_f = env_distance env (lpv_position position_forwarder) (lpv_position position_sender);
              dist_max = itsGnDefaultMaxCommunicationRange (env_mib env);
              dist_rf = env_distance env (lpv_position position_forwarder) local;
              angle_fsr = (if dist_r > 0 \<and> dist_f > 0
                then arccos ((dist_rf * dist_rf - dist_r * dist_r - dist_f * dist_f) / (-2 * dist_r * dist_f)) else 0);
              angle_th = itsGnBroadcastCBFDefSectorAngle (env_mib env)
          in \<not> (dist_r < dist_f \<and> dist_f < dist_max \<and> angle_fsr < angle_th)
      | _ \<Rightarrow> True)"

definition duplicate_forwarding :: "'sec pending_forwarding \<Rightarrow> 'sec pending_forwarding" where
  "duplicate_forwarding packet =
     (let (pdu, payload_packet, t) = packet
      in (pdu, if ep_secured pdu \<noteq> None then empty_chunk_packet else payload_packet, t))"

definition area_advanced_forwarding ::
    "('sec, 'e, 'r) RouterEnv \<Rightarrow> 'sec pending_forwarding \<Rightarrow> LinkLayer option \<Rightarrow> ('sec, 'e, 'r) Router
       \<Rightarrow> 'sec NextHop \<times> ('sec, 'e, 'r) Router" where
  "area_advanced_forwarding env packet ll r =
     (case ll of
        None \<Rightarrow> (nh_transmit packet cBroadcastMacAddress next_hop, r)
      | Some ll \<Rightarrow>
          let cbf_id = gbc_identifier (ep_extended (fst packet));
              max_counter = vanetzaCbfMaxCounter (env_mib env)
          in case cbf_find cbf_id (m_cbf_buffer r) of
               Some cbf_packet \<Rightarrow>
                 if cbf_count (rt_clock r) cbf_id (m_cbf_buffer r) \<ge> max_counter
                 then (nh_discard next_hop, snd (cbf_buffer_remove env cbf_id r))
                 else if \<not> outside_sectorial_contention_area env (m_sender cbf_packet) (ll_sender ll) r
                 then (nh_discard next_hop, snd (cbf_buffer_remove env cbf_id r))
                 else (nh_buffer next_hop, r\<lparr>m_cbf_buffer :=
                   cbf_update (rt_clock r) cbf_id (clock_cast (timeout_cbf_sender env (ll_sender ll) r)) (m_cbf_buffer r)\<rparr>)
             | None \<Rightarrow>
                 if ll_destination ll = mid (gn_addr (m_local_position_vector r)) then
                   let (nh, r) = greedy_forwarding env (duplicate_forwarding packet) r;
                       packet = (if nh_valid nh \<and> nh_destination nh = cBroadcastMacAddress
                         then (fst packet, fst (snd packet), No_Transmit) else packet)
                   in (nh, cbf_buffer_add env (make_cbf_packet packet (ll_sender ll)) (itsGnCbfMaxTime (env_mib env)) r)
                 else (nh_buffer next_hop, cbf_buffer_add env (make_cbf_packet packet (ll_sender ll))
                         (timeout_cbf_sender env (ll_sender ll) r) r))"

section \<open>Selection of the forwarding algorithm\<close>

definition forwarding_algorithm_selection ::
    "('sec, 'e, 'r) RouterEnv \<Rightarrow> 'sec pending_forwarding \<Rightarrow> LinkLayer option \<Rightarrow> ('sec, 'e, 'r) Router
       \<Rightarrow> router_exception + ('sec NextHop \<times> ('sec, 'e, 'r) Router)" where
  "forwarding_algorithm_selection env packet ll r =
     (let pdu = fst packet
      in ebind (or_throw Invalid_GBC_Header_Type (gbc_destination (ep_extended pdu) (header_type (ep_common pdu)))) (\<lambda>destination.
        if inside_or_at_border (env_local_cartesian env) destination (lpv_position (m_local_position_vector r)) then
          (case itsGnAreaForwardingAlgorithm (env_mib env) of
             Broadcast_Unspecified \<Rightarrow> Inr (nh_transmit packet cBroadcastMacAddress next_hop, r)
           | Broadcast_SIMPLE \<Rightarrow> Inr (nh_transmit packet cBroadcastMacAddress next_hop, r)
           | Broadcast_CBF \<Rightarrow> Inr (area_contention_based_forwarding env packet (map_option ll_sender ll) r)
           | Broadcast_Advanced \<Rightarrow> Inr (area_advanced_forwarding env packet ll r))
        else
          let pv_se = Option.bind ll (\<lambda>ll. get_position (rt_clock r) (ll_sender ll) (m_location_table r));
              sender_inside = (case pv_se of
                Some pv \<Rightarrow> position_accuracy_indicator pv
                  \<and> inside_or_at_border (env_local_cartesian env) destination (lpv_position pv)
              | None \<Rightarrow> False)
          in if sender_inside then Inr (nh_discard next_hop, forwarding_stopped Outside_Destination_Area r)
             else (case itsGnNonAreaForwardingAlgorithm (env_mib env) of
                Unicast_Unspecified \<Rightarrow> Inr (greedy_forwarding env packet r)
              | Unicast_Greedy \<Rightarrow> Inr (greedy_forwarding env packet r)
              | Unicast_CBF \<Rightarrow> non_area_contention_based_forwarding env packet (map_option ll_sender ll) r)))"

section \<open>Processing of pending packets\<close>

fun process_gbc ::
    "('sec, 'e, 'r) RouterEnv \<Rightarrow> gbc_action \<Rightarrow> 'sec GbcPdu \<Rightarrow> ChunkPacket \<Rightarrow> ('sec, 'e, 'r) Router
       \<Rightarrow> ('sec, 'e, 'r) router_result" where
  "process_gbc env (Source_Forwarding ctrl) pdu payload_packet r =
     ebind (forwarding_algorithm_selection env (pdu, payload_packet, Source_Transmit ctrl) None r)
       (\<lambda>(nh, r). nh_process env nh r)"
| "process_gbc env (Forwarder_Forwarding ll) pdu payload_packet r =
     ebind (forwarding_algorithm_selection env (pdu, payload_packet, Forwarder_Transmit) (Some ll) r)
       (\<lambda>(nh, r). nh_process env nh r)"
| "process_gbc env (Greedy_Action t) pdu payload_packet r =
     (let (nh, r) = greedy_forwarding env (pdu, payload_packet, t) r in nh_process env nh r)"
| "process_gbc env (Bound_Transmit t mac) pdu payload_packet r = transmit_gbc env t pdu payload_packet mac r"

fun process_buffered ::
    "('sec, 'e, 'r) RouterEnv \<Rightarrow> 'sec buffer_packet \<Rightarrow> ('sec, 'e, 'r) Router
       \<Rightarrow> ('sec, 'e, 'r) router_result" where
  "process_buffered env (Buffered_Shb p) r =
     (case pending_process p of Some (ctrl, pdu, pl) \<Rightarrow> shb_transmit env ctrl pdu pl r | None \<Rightarrow> Inr r)"
| "process_buffered env (Buffered_Tsb p) r =
     (case pending_process p of Some (_, pdu, pl) \<Rightarrow> tsb_transmit env pdu pl r | None \<Rightarrow> Inr r)"
| "process_buffered env (Buffered_Gbc p) r =
     (case pending_process p of Some (action, pdu, pl) \<Rightarrow> process_gbc env action pdu pl r | None \<Rightarrow> Inr r)"

fun process_all ::
    "('sec, 'e, 'r) RouterEnv \<Rightarrow> 'sec buffer_packet list \<Rightarrow> ('sec, 'e, 'r) Router
       \<Rightarrow> ('sec, 'e, 'r) router_result" where
  "process_all env [] r = Inr r"
| "process_all env (p # ps) r = ebind (process_buffered env p r) (process_all env ps)"

definition flush_broadcast_forwarding_buffer ::
    "('sec, 'e, 'r) RouterEnv \<Rightarrow> ('sec, 'e, 'r) Router \<Rightarrow> ('sec, 'e, 'r) router_result" where
  "flush_broadcast_forwarding_buffer env r =
     (let (packets, b) = buffer_flush buffered_reduce_lifetime (rt_clock r) (m_bc_forward_buffer r)
      in process_all env packets (r\<lparr>m_bc_forward_buffer := b\<rparr>))"

definition flush_unicast_forwarding_buffer ::
    "('sec, 'e, 'r) RouterEnv \<Rightarrow> Address \<Rightarrow> ('sec, 'e, 'r) Router \<Rightarrow> ('sec, 'e, 'r) router_result" where
  "flush_unicast_forwarding_buffer env source r =
     (let (packets, b) = buffer_flush buffered_reduce_lifetime (rt_clock r) (m_uc_forward_buffer r)
      in process_all env packets (r\<lparr>m_uc_forward_buffer := b\<rparr>))"

text \<open>The callback of the contention timer: packets whose timer expired are processed.\<close>

fun process_cbf ::
    "('sec, 'e, 'r) RouterEnv \<Rightarrow> ('sec, gbc_action) CbfPacket list \<Rightarrow> ('sec, 'e, 'r) Router
       \<Rightarrow> ('sec, 'e, 'r) router_result" where
  "process_cbf env [] r = Inr r"
| "process_cbf env (p # ps) r =
     ebind (case pending_process (cbf_pending p) of
              Some (action, pdu, pl) \<Rightarrow> process_gbc env action pdu pl r
            | None \<Rightarrow> Inr r) (process_cbf env ps)"

definition cbf_timer_expired ::
    "('sec, 'e, 'r) RouterEnv \<Rightarrow> ('sec, 'e, 'r) Router \<Rightarrow> ('sec, 'e, 'r) router_result" where
  "cbf_timer_expired env r =
     (let (packets, b) = cbf_flush (env_get_size env) (rt_clock r) ((m_cbf_buffer r)\<lparr>cbf_scheduled := None\<rparr>)
      in process_cbf env packets (r\<lparr>m_cbf_buffer := b\<rparr>))"

end
