(* ===== verification/Router.thy ===== *)
theory Router
  imports Router_Forwarding
begin

text \<open>
  The GeoNetworking router (\<^verbatim>\<open>geonet/router.cpp\<close>): its creation, position updates, source
  operations, beaconing, repetitions, and the reception of packets with the parsing contexts of
  \<^verbatim>\<open>geonet/indication_context.cpp\<close>.

  An exception leaves an operation through \<open>Inl\<close>; the state it leaves behind is not modelled. A
  conversion of a floating-point number that does not fit its integer type is undefined in the
  source and wraps around here.
\<close>

section \<open>Creation and settings\<close>

definition create_cbf_counter :: "MIB \<Rightarrow> CbfCounter" where
  "create_cbf_counter mib =
     (if vanetzaFadingCbfCounter mib then cbf_counter_fading (clock_cast (vanetzaFadingCbfCounterLifetime mib))
      else Contending (\<lambda>_. None))"

text \<open>The generator of DCC fields is represented by the field it generates next, 0 by default.\<close>

definition make_router :: "('sec, 'e, 'r) RouterEnv \<Rightarrow> time_point \<Rightarrow> 'r \<Rightarrow> ('sec, 'e, 'r) Router" where
  "make_router env now gen =
     (let mib = env_mib env;
          r = \<lparr>rt_clock = now, m_local_position_vector = zero_position_vector, m_security_entity = None,
               m_transport_ifcs = {}, m_dcc_field = Dcc_Raw 0, m_location_table = location_table mib,
               m_bc_forward_buffer = packet_buffer (unat (itsGnBcForwardingPacketBufferSize mib * 1024)),
               m_uc_forward_buffer = packet_buffer (unat (itsGnUcForwardingPacketBufferSize mib * 1024)),
               m_cbf_buffer = cbf_packet_buffer (create_cbf_counter mib) (unat (itsGnCbfPacketBufferSize mib * 1024)),
               m_local_sequence_number = 0, m_repeater = [], m_random_gen = gen,
               m_gbc_memory = gbc_memory, beacon_timer = None, passed_down = [], passed_up = [],
               dropped_packets = [], stopped_forwarding = []\<rparr>;
          r = (if \<not> vanetzaDisableBeaconing mib then
                 if vanetzaDeferInitialBeacon mib > 0 then
                   let (jitter, gen) = env_jitter env (m_random_gen r)
                   in reset_beacon_timer_in
                        (vanetzaDeferInitialBeacon mib + clock_cast (jitter * itsGnBeaconServiceMaxJitter mib))
                        (r\<lparr>m_random_gen := gen\<rparr>)
                 else reset_beacon_timer_in 0 r
               else r)
      in r\<lparr>m_gbc_memory := memory_capacity (vanetzaGbcMemoryCapacity mib) (m_gbc_memory r)\<rparr>)"

text \<open>The semi-major axis of a position fix is \<^const>\<open>None\<close> when it is infinite.\<close>

record PositionUpdate =
  pf_latitude :: real
  pf_longitude :: real
  pf_semi_major :: "real option"
  pf_course :: real
  pf_speed :: real

definition update_position ::
    "('sec, 'e, 'r) RouterEnv \<Rightarrow> PositionUpdate \<Rightarrow> ('sec, 'e, 'r) Router \<Rightarrow> ('sec, 'e, 'r) Router" where
  "update_position env fix r =
     (let mobile = itsGnIsMobile (env_mib env)
      in r\<lparr>m_local_position_vector := (m_local_position_vector r)\<lparr>
           timestamp := timestamp_of_clock (rt_clock r),
           latitude := word_of_int (truncate_real (pf_latitude fix * 10 ^ 7)),
           longitude := word_of_int (truncate_real (pf_longitude fix * 10 ^ 7)),
           speed := (if mobile then word_of_int (truncate_real (pf_speed fix * 100)) else 0),
           heading := (if mobile then word_of_int (truncate_real (pf_course fix * 10)) else 0),
           position_accuracy_indicator := (case pf_semi_major fix of
               Some semi_major \<Rightarrow> semi_major * 2 < itsGnPaiInterval (env_mib env)
             | None \<Rightarrow> False)\<rparr>\<rparr>)"

definition set_transport_handler :: "UpperProtocol \<Rightarrow> bool \<Rightarrow> ('sec, 'e, 'r) Router \<Rightarrow> ('sec, 'e, 'r) Router" where
  "set_transport_handler proto registered r =
     r\<lparr>m_transport_ifcs := if registered then insert proto (m_transport_ifcs r) else m_transport_ifcs r - {proto}\<rparr>"

definition set_security_entity :: "'e option \<Rightarrow> ('sec, 'e, 'r) Router \<Rightarrow> ('sec, 'e, 'r) Router" where
  "set_security_entity entity r = r\<lparr>m_security_entity := entity\<rparr>"

definition set_dcc_field :: "DccField \<Rightarrow> ('sec, 'e, 'r) Router \<Rightarrow> ('sec, 'e, 'r) Router" where
  "set_dcc_field dcc r = r\<lparr>m_dcc_field := dcc\<rparr>"

definition set_address :: "Address \<Rightarrow> ('sec, 'e, 'r) Router \<Rightarrow> ('sec, 'e, 'r) Router" where
  "set_address addr r = r\<lparr>m_local_position_vector := (m_local_position_vector r)\<lparr>gn_addr := addr\<rparr>\<rparr>"

definition set_random_seed :: "'r \<Rightarrow> ('sec, 'e, 'r) Router \<Rightarrow> ('sec, 'e, 'r) Router" where
  "set_random_seed gen r = r\<lparr>m_random_gen := gen\<rparr>"

section \<open>Creation of PDUs\<close>

definition create_shb_pdu ::
    "('sec, 'e, 'r) RouterEnv \<Rightarrow> DataRequest \<Rightarrow> ('sec, 'e, 'r) Router \<Rightarrow> router_exception + ('sec, ShbHeader) ExtendedPdu" where
  "create_shb_pdu env req r =
     ebind (or_throw Unhandled_Upper_Protocol (common_header_request req (env_mib env))) (\<lambda>common.
       Inr \<lparr>ep_basic = (basic_header_request req (env_mib env))\<lparr>hop_limit := 1\<rparr>,
            ep_common = common\<lparr>header_type := TSB_Single_Hop, maximum_hop_limit := 1\<rparr>,
            ep_secured = None,
            ep_extended = \<lparr>shb_source_position = m_local_position_vector r, shb_dcc = m_dcc_field r\<rparr>\<rparr>)"

definition create_beacon_pdu ::
    "('sec, 'e, 'r) RouterEnv \<Rightarrow> ('sec, 'e, 'r) Router \<Rightarrow> ('sec, BeaconHeader) ExtendedPdu" where
  "create_beacon_pdu env r =
     \<lparr>ep_basic = (basic_header_mib (env_mib env))\<lparr>hop_limit := 1\<rparr>,
      ep_common = (common_header_mib (env_mib env))\<lparr>next_header := Common_Any, header_type := Beacon,
        maximum_hop_limit := 1, ch_traffic_class := itsGnDefaultTrafficClass (env_mib env)\<rparr>,
      ep_secured = None, ep_extended = \<lparr>beacon_source_position = m_local_position_vector r\<rparr>\<rparr>"

definition gbc_header_default :: GeoBroadcastHeader where
  "gbc_header_default = \<lparr>gbc_sequence_number = 0, gbc_reserved1 = 0, gbc_source_position = zero_position_vector,
     geo_area_pos_latitude = 0, geo_area_pos_longitude = 0, distance_a = 0, distance_b = 0, gbc_angle = 0,
     gbc_reserved2 = 0\<rparr>"

definition create_gbc_pdu ::
    "('sec, 'e, 'r) RouterEnv \<Rightarrow> DataRequest \<Rightarrow> Area \<Rightarrow> ('sec, 'e, 'r) Router
       \<Rightarrow> router_exception + ('sec GbcPdu \<times> ('sec, 'e, 'r) Router)" where
  "create_gbc_pdu env req area r =
     ebind (or_throw Unhandled_Upper_Protocol (common_header_request req (env_mib env))) (\<lambda>common.
       let (sn, next) = sequence_number_post_increment (m_local_sequence_number r)
       in Inr (\<lparr>ep_basic = basic_header_request req (env_mib env),
                ep_common = common\<lparr>header_type := gbc_header_type (area_shape area)\<rparr>,
                ep_secured = None,
                ep_extended = gbc_set_destination area (gbc_header_default\<lparr>gbc_sequence_number := sn,
                  gbc_source_position := m_local_position_vector r\<rparr>)\<rparr>,
               r\<lparr>m_local_sequence_number := next\<rparr>))"

section \<open>Source operations\<close>

definition control_info :: "DataRequest \<Rightarrow> ControlInfo" where
  "control_info req = \<lparr>ci_communication_profile = communication_profile req,
     ci_its_aid = req_its_aid req, ci_permissions = req_permissions req\<rparr>"

definition set_payload :: "ChunkPacket \<Rightarrow> ('sec, 'h) ExtendedPdu \<Rightarrow> ('sec, 'h) ExtendedPdu" where
  "set_payload payload_packet pdu = pdu\<lparr>ep_common := (ep_common pdu)\<lparr>payload := of_nat (chunk_size payload_packet)\<rparr>\<rparr>"

definition set_up_repetition ::
    "DataRequestVariant \<Rightarrow> ChunkPacket \<Rightarrow> ('sec, 'e, 'r) Router \<Rightarrow> ('sec, 'e, 'r) Router" where
  "set_up_repetition req payload_packet r =
     (if repetition (access_request req) \<noteq> None
      then r\<lparr>m_repeater := repeater_add (rt_clock r) req payload_packet (m_repeater r)\<rparr> else r)"

text \<open>Without neighbours, packets of the store-carry-forward class wait in the broadcast buffer.\<close>

definition store_or_process ::
    "('sec, 'e, 'r) RouterEnv \<Rightarrow> TrafficClass \<Rightarrow> 'sec buffer_packet \<Rightarrow> ('sec, 'e, 'r) Router
       \<Rightarrow> ('sec, 'e, 'r) router_result" where
  "store_or_process env tc packet r =
     (if store_carry_forward tc \<and> \<not> has_neighbours (rt_clock r) (m_location_table r)
      then Inr (bc_forward_push env packet r) else process_buffered env packet r)"

definition request_shb ::
    "('sec, 'e, 'r) RouterEnv \<Rightarrow> DataRequest \<Rightarrow> ChunkPacket option \<Rightarrow> ('sec, 'e, 'r) Router
       \<Rightarrow> router_exception + (ResultCode \<times> ('sec, 'e, 'r) Router)" where
  "request_shb env req payload_packet r =
     (let result = confirm_xor (confirm_xor Accepted (validate_data_request req (env_mib env)))
            (validate_payload payload_packet (env_mib env))
      in case payload_packet of
           Some packet \<Rightarrow>
             if result = Accepted then
               let r = set_up_repetition (Shb_Request req) packet r
               in ebind (create_shb_pdu env req r) (\<lambda>pdu.
                  map_sum id (Pair result) (store_or_process env (req_traffic_class req)
                    (Buffered_Shb \<lparr>pp_pdu = Some (set_payload packet pdu), pp_payload = Some packet,
                       pp_function = control_info req\<rparr>) r))
             else Inr (result, r)
         | None \<Rightarrow> Inr (result, r))"

definition request_gbc ::
    "('sec, 'e, 'r) RouterEnv \<Rightarrow> DataRequest \<Rightarrow> Area \<Rightarrow> ChunkPacket option \<Rightarrow> ('sec, 'e, 'r) Router
       \<Rightarrow> router_exception + (ResultCode \<times> ('sec, 'e, 'r) Router)" where
  "request_gbc env req area payload_packet r =
     (let result = confirm_xor (confirm_xor Accepted (validate_area_request req area (env_mib env)))
            (validate_payload payload_packet (env_mib env))
      in case payload_packet of
           Some packet \<Rightarrow>
             if result = Accepted then
               let r = set_up_repetition (Gbc_Request req area) packet r
               in ebind (create_gbc_pdu env req area r) (\<lambda>(pdu, r).
                  map_sum id (Pair result) (store_or_process env (req_traffic_class req)
                    (Buffered_Gbc \<lparr>pp_pdu = Some (set_payload packet pdu), pp_payload = Some packet,
                       pp_function = Source_Forwarding (control_info req)\<rparr>) r))
             else Inr (result, r)
         | None \<Rightarrow> Inr (result, r))"

fun router_request ::
    "('sec, 'e, 'r) RouterEnv \<Rightarrow> DataRequestVariant \<Rightarrow> ChunkPacket option \<Rightarrow> ('sec, 'e, 'r) Router
       \<Rightarrow> router_exception + (ResultCode \<times> ('sec, 'e, 'r) Router)" where
  "router_request env (Shb_Request req) p r = request_shb env req p r"
| "router_request env (Gbc_Request req area) p r = request_gbc env req area p r"
| "router_request env (Gac_Request _ _) p r = Inr (Rejected_Unspecified, r)"
| "router_request env (Guc_Request _ _) p r = Inr (Rejected_Unspecified, r)"
| "router_request env (Tsb_Request _) p r = Inr (Rejected_Unspecified, r)"

definition dispatch_repetition ::
    "('sec, 'e, 'r) RouterEnv \<Rightarrow> DataRequestVariant \<Rightarrow> ChunkPacket \<Rightarrow> ('sec, 'e, 'r) Router
       \<Rightarrow> ('sec, 'e, 'r) router_result" where
  "dispatch_repetition env req payload_packet r =
     map_sum id snd (router_request env req (Some payload_packet) r)"

section \<open>Beacons\<close>

definition GN_MGMT :: ItsAid where
  "GN_MGMT = 141"

definition on_beacon_timer_expired ::
    "('sec, 'e, 'r) RouterEnv \<Rightarrow> ('sec, 'e, 'r) Router \<Rightarrow> ('sec, 'e, 'r) router_result" where
  "on_beacon_timer_expired env r =
     (if vanetzaDisableBeaconing (env_mib env) then Inr r
      else if timestamp (m_local_position_vector r) = 0 then Inr (reset_beacon_timer env r)
      else
        let pdu = create_beacon_pdu env r
        in if itsGnSecurity (env_mib env) then
             let pdu = pdu\<lparr>ep_basic := (ep_basic pdu)\<lparr>basic_next_header := Basic_Secured\<rparr>\<rparr>;
                 (encapsulated, r) = encap_packet env GN_MGMT [] (pdu_of_extended Beacon_Header pdu) empty_chunk_packet r
             in case encapsulated of
                  None \<Rightarrow> Inr r
                | Some (msg, rest) \<Rightarrow>
                    map_sum id (reset_beacon_timer env) (pass_down cBroadcastMacAddress
                      (pdu_of_extended Beacon_Header (pdu\<lparr>ep_secured := Some msg\<rparr>)) rest
                      (execute_media_procedures (itsGnIfType (env_mib env)) r))
           else
             let pdu = pdu\<lparr>ep_basic := (ep_basic pdu)\<lparr>basic_next_header := Basic_Common\<rparr>\<rparr>
             in map_sum id (reset_beacon_timer env) (pass_down cBroadcastMacAddress
                  (pdu_of_extended Beacon_Header pdu) empty_chunk_packet
                  (execute_media_procedures (itsGnIfType (env_mib env)) r)))"

section \<open>Indication contexts\<close>

definition basic_header_default :: BasicHeader where
  "basic_header_default = \<lparr>version = 0, basic_next_header = Basic_Any, basic_reserved = 0,
     lifetime = lifetime_zero, hop_limit = 0\<rparr>"

definition common_header_default :: CommonHeader where
  "common_header_default = \<lparr>next_header = Common_Any, reserved1 = 0, header_type = HeaderType_Any,
     ch_traffic_class = traffic_class False False 0, flags = 0, payload = 0, maximum_hop_limit = 0, reserved2 = 0\<rparr>"

definition variant_pdu :: "'sec Pdu" where
  "variant_pdu = \<lparr>pdu_basic = basic_header_default, pdu_common = common_header_default, pdu_secured = None,
     pdu_extended = Beacon_Header \<lparr>beacon_source_position = zero_position_vector\<rparr>\<rparr>"

text \<open>
  The contexts with the packets, parsers and PDU they hold. A secured context shares the PDU of the
  context it was created from, which comes first in its arguments.
\<close>

datatype 'sec IndicationContext =
    Ctx_Deserialize "'sec Pdu" CohesivePacket Parser
  | Ctx_Cast "'sec Pdu" ChunkPacket
  | Ctx_Secured_Deserialize "'sec Pdu" CohesivePacket Parser
  | Ctx_Secured_Cast "'sec Pdu" PacketVariant

fun context_pdu :: "'sec IndicationContext \<Rightarrow> 'sec Pdu" where
  "context_pdu (Ctx_Deserialize pdu _ _) = pdu"
| "context_pdu (Ctx_Cast pdu _) = pdu"
| "context_pdu (Ctx_Secured_Deserialize pdu _ _) = pdu"
| "context_pdu (Ctx_Secured_Cast pdu _) = pdu"

definition context_deserialize :: "CohesivePacket \<Rightarrow> 'sec IndicationContext" where
  "context_deserialize packet =
     Ctx_Deserialize variant_pdu packet (make_parser (cohesive_layer packet Network))"

definition context_cast :: "'sec Pdu option \<Rightarrow> ChunkPacket \<Rightarrow> router_exception + 'sec IndicationContext" where
  "context_cast casted_pdu packet =
     ebind (or_throw Casting_To_Pdu_Failed casted_pdu) (\<lambda>pdu. Inr (Ctx_Cast pdu packet))"

definition accepted_header :: "nat \<times> 'h option \<Rightarrow> 'h option" where
  "accepted_header result = (if fst result > 0 then snd result else None)"

fun context_parse_basic :: "'sec IndicationContext \<Rightarrow> BasicHeader option \<times> 'sec IndicationContext" where
  "context_parse_basic (Ctx_Deserialize pdu packet parser) =
     (let (result, parser) = parse_basic parser
      in (accepted_header result,
          Ctx_Deserialize (case snd result of Some basic \<Rightarrow> pdu\<lparr>pdu_basic := basic\<rparr> | None \<Rightarrow> pdu) packet parser))"
| "context_parse_basic (Ctx_Cast pdu packet) = (Some (pdu_basic pdu), Ctx_Cast pdu packet)"
| "context_parse_basic (Ctx_Secured_Deserialize pdu packet parser) = (None, Ctx_Secured_Deserialize pdu packet parser)"
| "context_parse_basic (Ctx_Secured_Cast pdu packet) = (None, Ctx_Secured_Cast pdu packet)"

definition with_common :: "CommonHeader option \<Rightarrow> 'sec Pdu \<Rightarrow> 'sec Pdu" where
  "with_common common pdu = (case common of Some common \<Rightarrow> pdu\<lparr>pdu_common := common\<rparr> | None \<Rightarrow> pdu)"

definition with_extended :: "HeaderVariant option \<Rightarrow> 'sec Pdu \<Rightarrow> 'sec Pdu" where
  "with_extended extended pdu = (case extended of Some extended \<Rightarrow> pdu\<lparr>pdu_extended := extended\<rparr> | None \<Rightarrow> pdu)"

fun context_parse_common :: "'sec IndicationContext \<Rightarrow> CommonHeader option \<times> 'sec IndicationContext" where
  "context_parse_common (Ctx_Deserialize pdu packet parser) =
     (let (result, parser) = parse_common parser
      in (accepted_header result, Ctx_Deserialize (with_common (snd result) pdu) packet parser))"
| "context_parse_common (Ctx_Cast pdu packet) = (Some (pdu_common pdu), Ctx_Cast pdu packet)"
| "context_parse_common (Ctx_Secured_Deserialize pdu packet parser) =
     (let (result, parser) = parse_common parser
      in (accepted_header result, Ctx_Secured_Deserialize (with_common (snd result) pdu) packet parser))"
| "context_parse_common (Ctx_Secured_Cast pdu packet) = (Some (pdu_common pdu), Ctx_Secured_Cast pdu packet)"

fun context_parse_secured ::
    "'sec secured_reader \<Rightarrow> 'sec secured_reader \<Rightarrow> 'sec IndicationContext \<Rightarrow> 'sec option \<times> 'sec IndicationContext" where
  "context_parse_secured v2_deserialize v3_deserialize (Ctx_Deserialize pdu packet parser) =
     (let (result, parser) = parse_secured v2_deserialize v3_deserialize parser
      in case accepted_header result of
           Some msg \<Rightarrow> (Some msg, Ctx_Deserialize (pdu\<lparr>pdu_secured := Some msg\<rparr>) packet parser)
         | None \<Rightarrow> (None, Ctx_Deserialize pdu packet parser))"
| "context_parse_secured _ _ (Ctx_Cast pdu packet) = (pdu_secured pdu, Ctx_Cast pdu packet)"
| "context_parse_secured _ _ (Ctx_Secured_Deserialize pdu packet parser) = (None, Ctx_Secured_Deserialize pdu packet parser)"
| "context_parse_secured _ _ (Ctx_Secured_Cast pdu packet) = (None, Ctx_Secured_Cast pdu packet)"

fun context_parse_extended :: "HeaderType \<Rightarrow> 'sec IndicationContext \<Rightarrow> HeaderVariant option \<times> 'sec IndicationContext" where
  "context_parse_extended ht (Ctx_Deserialize pdu packet parser) =
     (let (result, parser) = parse_extended ht parser
      in (accepted_header result, Ctx_Deserialize (with_extended (snd result) pdu) packet parser))"
| "context_parse_extended ht (Ctx_Cast pdu packet) = (Some (pdu_extended pdu), Ctx_Cast pdu packet)"
| "context_parse_extended ht (Ctx_Secured_Deserialize pdu packet parser) =
     (let (result, parser) = parse_extended ht parser
      in (accepted_header result, Ctx_Secured_Deserialize (with_extended (snd result) pdu) packet parser))"
| "context_parse_extended ht (Ctx_Secured_Cast pdu packet) = (Some (pdu_extended pdu), Ctx_Secured_Cast pdu packet)"

fun context_finish :: "'sec IndicationContext \<Rightarrow> PacketVariant" where
  "context_finish (Ctx_Deserialize pdu packet parser) =
     Cohesive (trim Transport (unat (payload (pdu_common pdu))) (set_boundary Network (parsed_bytes parser) packet))"
| "context_finish (Ctx_Cast pdu packet) = Chunk packet"
| "context_finish (Ctx_Secured_Deserialize pdu packet parser) =
     Cohesive (set_boundary Network (parsed_bytes parser) packet)"
| "context_finish (Ctx_Secured_Cast pdu packet) = packet"

definition context_secured_deserialize :: "'sec IndicationContext \<Rightarrow> CohesivePacket \<Rightarrow> 'sec IndicationContext" where
  "context_secured_deserialize parent packet =
     Ctx_Secured_Deserialize (context_pdu parent) packet (make_parser (cohesive_layer packet Network))"

text \<open>Casting from a cohesive packet puts zero octets before the layers it copies.\<close>

definition context_secured_cast ::
    "'sec IndicationContext \<Rightarrow> (CommonHeader \<times> HeaderVariant) option \<Rightarrow> ChunkPacket
       \<Rightarrow> router_exception + 'sec IndicationContext" where
  "context_secured_cast parent secured_pdu packet =
     ebind (or_throw Casting_To_SecuredPdu_Failed secured_pdu) (\<lambda>(common, extended).
       Inr (Ctx_Secured_Cast ((context_pdu parent)\<lparr>pdu_common := common, pdu_extended := extended\<rparr>)
         (case context_finish parent of
            Chunk parent_packet \<Rightarrow> Chunk (fst (chunk_merge Transport Application parent_packet packet))
          | Cohesive _ \<Rightarrow> Cohesive (cohesive_packet
              (replicate (chunk_size packet) 0 @ concat (map packet (osi_layer_range Transport Application))) Transport))))"

section \<open>Reception\<close>

fun packet_size_range :: "PacketVariant \<Rightarrow> OsiLayer \<Rightarrow> OsiLayer \<Rightarrow> nat" where
  "packet_size_range (Cohesive p) from to = cohesive_size_range p from to"
| "packet_size_range (Chunk p) from to = chunk_size_range p from to"

fun packet_duplicate :: "PacketVariant \<Rightarrow> ChunkPacket" where
  "packet_duplicate (Cohesive p) = cohesive_layer p"
| "packet_duplicate (Chunk p) = p"

definition create_forwarding_duplicate ::
    "('sec, 'h) ExtendedPdu \<Rightarrow> PacketVariant \<Rightarrow> ('sec, 'h) ExtendedPdu \<times> ChunkPacket" where
  "create_forwarding_duplicate pdu packet =
     (pdu, if ep_secured pdu \<noteq> None then empty_chunk_packet else packet_duplicate packet)"

definition decrement_hop_limit :: "('sec, 'h) ExtendedPdu \<Rightarrow> ('sec, 'h) ExtendedPdu" where
  "decrement_hop_limit pdu = pdu\<lparr>ep_basic := (ep_basic pdu)\<lparr>hop_limit := hop_limit (ep_basic pdu) - 1\<rparr>\<rparr>"

definition detect_duplicate_address ::
    "('sec, 'e, 'r) RouterEnv \<Rightarrow> Address \<Rightarrow> MacAddress \<Rightarrow> ('sec, 'e, 'r) Router \<Rightarrow> ('sec, 'e, 'r) Router" where
  "detect_duplicate_address env source sender r =
     (let local = gn_addr (m_local_position_vector r)
      in if itsGnLocalAddrConfMethod (env_mib env) = Auto \<and> (source = local \<or> sender = mid local) then
           let (o1, g) = env_octet env (m_random_gen r); (o2, g) = env_octet env g; (o3, g) = env_octet env g;
               (o4, g) = env_octet env g; (o5, g) = env_octet env g; (o6, g) = env_octet env g
           in r\<lparr>m_random_gen := g, m_local_position_vector := (m_local_position_vector r)
                \<lparr>gn_addr := local\<lparr>mid := MacAddress o1 o2 o3 o4 o5 o6\<rparr>\<rparr>\<rparr>
         else r)"

definition detect_duplicate_packet ::
    "('sec, 'e, 'r) RouterEnv \<Rightarrow> Address \<Rightarrow> SequenceNumber \<Rightarrow> ('sec, 'e, 'r) Router
       \<Rightarrow> bool \<times> ('sec, 'e, 'r) Router" where
  "detect_duplicate_packet env addr_so sn r =
     (let (entry, table) = get_or_create_entry (rt_clock r) (mid addr_so) (m_location_table r);
          dpl = (case ext_dpl entry of Some dpl \<Rightarrow> dpl | None \<Rightarrow> duplicate_packet_list (unat (itsGnDPLLength (env_mib env))));
          (is_duplicate, dpl) = dpl_check (env_push_back env) sn dpl
      in (is_duplicate, r\<lparr>m_location_table := modify_entry (mid addr_so) (\<lambda>entry. entry\<lparr>ext_dpl := Some dpl\<rparr>) table\<rparr>))"

definition update_source_entry ::
    "LongPositionVector \<Rightarrow> (LocationTableEntry \<Rightarrow> LocationTableEntry) \<Rightarrow> ('sec, 'e, 'r) Router \<Rightarrow> ('sec, 'e, 'r) Router" where
  "update_source_entry pv f r = r\<lparr>m_location_table :=
     modify_entry (mid (gn_addr pv)) f (lt_update (rt_clock r) pv (m_location_table r))\<rparr>"

definition process_extended_shb ::
    "('sec, 'e, 'r) RouterEnv \<Rightarrow> ('sec, ShbHeader) ExtendedPdu \<Rightarrow> PacketVariant \<Rightarrow> LinkLayer \<Rightarrow> ('sec, 'e, 'r) Router
       \<Rightarrow> bool \<times> ('sec, 'e, 'r) Router" where
  "process_extended_shb env pdu packet ll r =
     (let mib = env_mib env; shb = ep_extended pdu; pv = shb_source_position shb; now = rt_clock r;
          r = detect_duplicate_address env (gn_addr pv) (ll_sender ll) r;
          r = update_source_entry pv (\<lambda>entry.
            let entry = update_pdr now (packet_size_range packet Network Application) (itsGnMaxPacketDataRateEmaBeta mib) entry;
                entry = set_neighbour_expiry now True (vanetzaNeighbourFlagExpiry mib) entry
            in if itsGnIfType mib = ITS_G5 then
                 case get_dcc_mco (shb_dcc shb) of
                   Some mco \<Rightarrow> entry\<lparr>ext_loctex := Some \<lparr>local_update = timestamp_of_clock now,
                     source_update = timestamp pv, dcc_mco = mco\<rparr>\<rparr>
                 | None \<Rightarrow> entry
               else entry) r
      in (True, r))"

definition process_extended_beacon ::
    "('sec, 'e, 'r) RouterEnv \<Rightarrow> ('sec, BeaconHeader) ExtendedPdu \<Rightarrow> PacketVariant \<Rightarrow> LinkLayer \<Rightarrow> ('sec, 'e, 'r) Router
       \<Rightarrow> bool \<times> ('sec, 'e, 'r) Router" where
  "process_extended_beacon env pdu packet ll r =
     (let mib = env_mib env; pv = beacon_source_position (ep_extended pdu); now = rt_clock r;
          r = detect_duplicate_address env (gn_addr pv) (ll_sender ll) r;
          r = update_source_entry pv (\<lambda>entry. set_neighbour_expiry now True (vanetzaNeighbourFlagExpiry mib)
            (update_pdr now (packet_size_range packet Network Application) (itsGnMaxPacketDataRateEmaBeta mib) entry)) r
      in (False, r))"

text \<open>The reason to stop forwarding, if there is one: hop limit or packet data rate (Annex B.2).\<close>

definition exceeds_pdr :: "MIB \<Rightarrow> LocationTableEntry option \<Rightarrow> bool" where
  "exceeds_pdr mib entry \<longleftrightarrow> (case entry of
      Some entry \<Rightarrow> (case m_pdr entry of Some pdr \<Rightarrow> pdr > real (unat (itsGnMaxPacketDataRate mib)) * 1000 | None \<Rightarrow> False)
    | None \<Rightarrow> False)"

definition forwarding_stop_reason ::
    "('sec, 'e, 'r) RouterEnv \<Rightarrow> BasicHeader \<Rightarrow> LongPositionVector \<Rightarrow> LinkLayer \<Rightarrow> ('sec, 'e, 'r) Router
       \<Rightarrow> ForwardingStopReason option" where
  "forwarding_stop_reason env basic pv ll r =
     (let mib = env_mib env
      in if hop_limit basic \<le> 1 then Some Stop_Hop_Limit
         else if itsGnMaxPacketDataRate mib < - 1 then
           if exceeds_pdr mib (get_data_ptr (mid (gn_addr pv)) (m_location_table r)) then Some Source_PDR
           else if exceeds_pdr mib (get_entry (rt_clock r) (ll_sender ll) (m_location_table r)) then Some Sender_PDR
           else None
         else None)"

definition process_extended_tsb ::
    "('sec, 'e, 'r) RouterEnv \<Rightarrow> ('sec, TsbHeader) ExtendedPdu \<Rightarrow> PacketVariant \<Rightarrow> LinkLayer \<Rightarrow> ('sec, 'e, 'r) Router
       \<Rightarrow> router_exception + (bool \<times> ('sec, 'e, 'r) Router)" where
  "process_extended_tsb env pdu packet ll r =
     (let mib = env_mib env; tsb = ep_extended pdu; pv = tsb_source_position tsb; source_addr = gn_addr pv;
          locte_exists = has_entry (rt_clock r) source_addr (m_location_table r);
          (duplicate_packet, r) = detect_duplicate_packet env source_addr (tsb_sequence_number tsb) r
      in if duplicate_packet then Inr (False, r)
         else
           let r = (if vanetzaMultiHopDuplicateAddressDetection mib
                    then detect_duplicate_address env source_addr (ll_sender ll) r else r);
               r = update_source_entry pv (\<lambda>entry. update_pdr (rt_clock r) (packet_size_range packet Network Application)
                 (itsGnMaxPacketDataRateEmaBeta mib) (if \<not> locte_exists then set_neighbour False entry else entry)) r
           in ebind (flush_unicast_forwarding_buffer env source_addr r) (\<lambda>r.
              case forwarding_stop_reason env (ep_basic pdu) pv ll r of
                Some reason \<Rightarrow> Inr (True, forwarding_stopped reason r)
              | None \<Rightarrow>
                  let (fwd_pdu, fwd_payload) = create_forwarding_duplicate pdu packet
                  in map_sum id (Pair True) (store_or_process env (ch_traffic_class (ep_common pdu))
                       (Buffered_Tsb \<lparr>pp_pdu = Some (decrement_hop_limit fwd_pdu), pp_payload = Some fwd_payload,
                          pp_function = ()\<rparr>) r)))"

definition decide_pass_up ::
    "('sec, 'e, 'r) RouterEnv \<Rightarrow> bool \<Rightarrow> GeoBroadcastHeader \<Rightarrow> ('sec, 'e, 'r) Router \<Rightarrow> bool \<times> ('sec, 'e, 'r) Router" where
  "decide_pass_up env within_destination gbc r =
     (let mib = env_mib env;
          accept = within_destination \<or> vanetzaGbcPassUpOutsideDestination mib
      in if vanetzaGbcMemoryCapacity mib = 0 then (accept, r)
         else if accept then
           let (known, memory) = remember (gbc_identifier gbc) (m_gbc_memory r)
           in (\<not> known, r\<lparr>m_gbc_memory := memory\<rparr>)
         else (False, r))"

definition detects_duplicates :: "MIB \<Rightarrow> bool \<Rightarrow> bool" where
  "detects_duplicates mib within_destination =
     (if \<not> within_destination
      then itsGnNonAreaForwardingAlgorithm mib = Unicast_Unspecified \<or> itsGnNonAreaForwardingAlgorithm mib = Unicast_Greedy
      else itsGnAreaForwardingAlgorithm mib = Broadcast_Unspecified \<or> itsGnAreaForwardingAlgorithm mib = Broadcast_SIMPLE)"

definition detect_gbc_duplicate ::
    "('sec, 'e, 'r) RouterEnv \<Rightarrow> bool \<Rightarrow> GeoBroadcastHeader \<Rightarrow> ('sec, 'e, 'r) Router \<Rightarrow> bool \<times> ('sec, 'e, 'r) Router" where
  "detect_gbc_duplicate env within_destination gbc r =
     (if detects_duplicates (env_mib env) within_destination
      then detect_duplicate_packet env (gn_addr (gbc_source_position gbc)) (gbc_sequence_number gbc) r else (False, r))"

definition update_gbc_source ::
    "('sec, 'e, 'r) RouterEnv \<Rightarrow> GeoBroadcastHeader \<Rightarrow> PacketVariant \<Rightarrow> LinkLayer \<Rightarrow> bool \<Rightarrow> ('sec, 'e, 'r) Router
       \<Rightarrow> ('sec, 'e, 'r) Router" where
  "update_gbc_source env gbc packet ll locte_exists r =
     (let mib = env_mib env; pv = gbc_source_position gbc;
          r = (if vanetzaMultiHopDuplicateAddressDetection mib
               then detect_duplicate_address env (gn_addr pv) (ll_sender ll) r else r)
      in update_source_entry pv (\<lambda>entry.
           let entry = update_pdr (rt_clock r) (packet_size_range packet Network Application)
                 (itsGnMaxPacketDataRateEmaBeta mib) entry
           in if \<not> locte_exists then set_neighbour False entry else entry) r)"

definition process_extended_gbc ::
    "('sec, 'e, 'r) RouterEnv \<Rightarrow> 'sec GbcPdu \<Rightarrow> PacketVariant \<Rightarrow> LinkLayer \<Rightarrow> ('sec, 'e, 'r) Router
       \<Rightarrow> router_exception + (bool \<times> ('sec, 'e, 'r) Router)" where
  "process_extended_gbc env pdu packet ll r =
     (let gbc = ep_extended pdu; pv = gbc_source_position gbc; source_addr = gn_addr pv
      in ebind (or_throw Invalid_GBC_Header_Type (gbc_destination gbc (header_type (ep_common pdu)))) (\<lambda>dest_area.
        let locte_exists = has_entry (rt_clock r) source_addr (m_location_table r);
            within_destination = inside_or_at_border (env_local_cartesian env) dest_area (lpv_position (m_local_position_vector r));
            (duplicate_packet, r) = detect_gbc_duplicate env within_destination gbc r
        in if duplicate_packet then Inr (False, r)
           else ebind (flush_unicast_forwarding_buffer env source_addr (update_gbc_source env gbc packet ll locte_exists r)) (\<lambda>r.
                case forwarding_stop_reason env (ep_basic pdu) pv ll r of
                  Some reason \<Rightarrow> Inr (decide_pass_up env within_destination gbc (forwarding_stopped reason r))
                | None \<Rightarrow>
                    let (fwd_pdu, fwd_payload) = create_forwarding_duplicate pdu packet
                    in map_sum id (decide_pass_up env within_destination gbc)
                         (store_or_process env (ch_traffic_class (ep_common pdu))
                           (Buffered_Gbc \<lparr>pp_pdu = Some (decrement_hop_limit fwd_pdu), pp_payload = Some fwd_payload,
                              pp_function = Forwarder_Forwarding ll\<rparr>) r))))"

definition pass_up ::
    "DecapReport GnDataIndication \<Rightarrow> PacketVariant \<Rightarrow> ('sec, 'e, 'r) Router \<Rightarrow> ('sec, 'e, 'r) Router" where
  "pass_up ind packet r =
     (if gn_upper_protocol ind \<in> m_transport_ifcs r then r\<lparr>passed_up := passed_up r @ [(ind, packet)]\<rparr> else r)"

definition extended_pdu :: "'sec Pdu \<Rightarrow> 'h \<Rightarrow> ('sec, 'h) ExtendedPdu" where
  "extended_pdu pdu header = \<lparr>ep_basic = pdu_basic pdu, ep_common = pdu_common pdu, ep_secured = pdu_secured pdu,
     ep_extended = header\<rparr>"

fun visit_extended ::
    "('sec, 'e, 'r) RouterEnv \<Rightarrow> 'sec Pdu \<Rightarrow> PacketVariant \<Rightarrow> LinkLayer \<Rightarrow> HeaderVariant \<Rightarrow> DecapReport GnDataIndication
       \<Rightarrow> ('sec, 'e, 'r) Router
       \<Rightarrow> router_exception + (DecapReport GnDataIndication \<times> bool \<times> ('sec, 'e, 'r) Router)" where
  "visit_extended env pdu packet ll (Shb_Header shb) ind r =
     Inr (ind\<lparr>gn_transport_type := SHB, gn_source_position := spv_of_lpv (shb_source_position shb)\<rparr>,
          process_extended_shb env (extended_pdu pdu shb) packet ll r)"
| "visit_extended env pdu packet ll (Tsb_Header tsb) ind r =
     map_sum id (Pair (ind\<lparr>gn_transport_type := TSB, gn_source_position := spv_of_lpv (tsb_source_position tsb)\<rparr>))
       (process_extended_tsb env (extended_pdu pdu tsb) packet ll r)"
| "visit_extended env pdu packet ll (Gbc_Header gbc) ind r =
     ebind (or_throw Invalid_GBC_Header_Type (gbc_destination gbc (header_type (pdu_common pdu)))) (\<lambda>destination.
       map_sum id (Pair (ind\<lparr>gn_transport_type := GBC, gn_source_position := spv_of_lpv (gbc_source_position gbc),
           gn_destination := Dest_Area destination\<rparr>))
         (process_extended_gbc env (extended_pdu pdu gbc) packet ll r))"
| "visit_extended env pdu packet ll (Beacon_Header beacon) ind r =
     Inr (ind, process_extended_beacon env (extended_pdu pdu beacon) packet ll r)"

definition indicate_extended ::
    "('sec, 'e, 'r) RouterEnv \<Rightarrow> LinkLayer \<Rightarrow> DecapReport GnDataIndication \<Rightarrow> 'sec IndicationContext \<Rightarrow> CommonHeader
       \<Rightarrow> ('sec, 'e, 'r) Router \<Rightarrow> ('sec, 'e, 'r) router_result" where
  "indicate_extended env ll ind ctx common r =
     (let (extended, ctx) = context_parse_extended (header_type common) ctx;
          packet = context_finish ctx
      in case extended of
           None \<Rightarrow> Inr (packet_dropped Parse_Extended_Header r)
         | Some extended \<Rightarrow>
             if unat (payload common) \<noteq> packet_size_range packet Transport Application
             then Inr (packet_dropped Payload_Size r)
             else ebind (visit_extended env (context_pdu ctx) packet ll extended ind r) (\<lambda>(ind, up, r).
               Inr (if up then pass_up ind packet r else r)))"

fun upper_protocol_of :: "NextHeaderCommon \<Rightarrow> UpperProtocol" where
  "upper_protocol_of Common_BTP_A = BTP_A"
| "upper_protocol_of Common_BTP_B = BTP_B"
| "upper_protocol_of Common_IPv6 = IPv6"
| "upper_protocol_of _ = Upper_Unknown"

definition indicate_common ::
    "('sec, 'e, 'r) RouterEnv \<Rightarrow> LinkLayer \<Rightarrow> DecapReport GnDataIndication \<Rightarrow> 'sec IndicationContext \<Rightarrow> BasicHeader
       \<Rightarrow> ('sec, 'e, 'r) Router \<Rightarrow> ('sec, 'e, 'r) router_result" where
  "indicate_common env ll ind ctx basic r =
     (case context_parse_common ctx of
        (None, ctx) \<Rightarrow> Inr (packet_dropped Parse_Common_Header r)
      | (Some common, ctx) \<Rightarrow>
          if maximum_hop_limit common < hop_limit basic then Inr (packet_dropped Hop_Limit r)
          else
            let ind = ind\<lparr>gn_traffic_class := ch_traffic_class common,
                          gn_upper_protocol := upper_protocol_of (next_header common)\<rparr>;
                r = r\<lparr>m_location_table := drop_expired (rt_clock r) (m_location_table r)\<rparr>
            in ebind (flush_broadcast_forwarding_buffer env r) (indicate_extended env ll ind ctx common))"

fun indicate_plaintext ::
    "('sec, 'e, 'r) RouterEnv \<Rightarrow> LinkLayer \<Rightarrow> DecapReport GnDataIndication \<Rightarrow> 'sec IndicationContext \<Rightarrow> BasicHeader
       \<Rightarrow> Plaintext \<Rightarrow> ('sec, 'e, 'r) Router \<Rightarrow> ('sec, 'e, 'r) router_result" where
  "indicate_plaintext env ll ind ctx basic (Plain_Chunk secured_pdu packet) r =
     ebind (context_secured_cast ctx secured_pdu packet) (\<lambda>ctx. indicate_common env ll ind ctx basic r)"
| "indicate_plaintext env ll ind ctx basic (Plain_Cohesive packet) r =
     indicate_common env ll ind (context_secured_deserialize ctx packet) basic r"

text \<open>
  The check for an empty plaintext in the source is that of \<^verbatim>\<open>boost::variant\<close>, which is never
  empty: the drop reason for an empty plaintext is never reported.
\<close>

definition indicate_secured ::
    "('sec, 'e, 'r) RouterEnv \<Rightarrow> LinkLayer \<Rightarrow> DecapReport GnDataIndication \<Rightarrow> 'sec IndicationContext \<Rightarrow> BasicHeader
       \<Rightarrow> ('sec, 'e, 'r) Router \<Rightarrow> ('sec, 'e, 'r) router_result" where
  "indicate_secured env ll ind ctx basic r =
     (case context_parse_secured (env_v2_deserialize env) (env_v3_deserialize env) ctx of
        (None, ctx) \<Rightarrow> Inr (packet_dropped Parse_Secured_Header r)
      | (Some secured_message, ctx) \<Rightarrow>
          (case m_security_entity r of
             None \<Rightarrow> Inr (packet_dropped Security_Entity_Missing r)
           | Some entity \<Rightarrow>
               let (confirm, entity) = decapsulate_packet (env_get_payload_copy env) (env_verify env) secured_message entity;
                   r = r\<lparr>m_security_entity := Some entity\<rparr>;
                   ind = ind\<lparr>gn_security_report := dc_report confirm, gn_its_aid := Some (dc_its_aid confirm),
                     gn_permissions := Some (dc_permissions confirm)\<rparr>
               in if is_successful (dc_report confirm) then
                    indicate_plaintext env ll ind ctx basic (dc_plaintext_payload confirm) r
                  else if itsGnSnDecapResultHandling (env_mib env) = Non_Strict then
                    indicate_plaintext env ll ind ctx basic (dc_plaintext_payload confirm) r
                  else Inr (packet_dropped Decap_Unsuccessful_Strict r)))"

definition data_indication :: "DecapReport GnDataIndication" where
  "data_indication = \<lparr>gn_upper_protocol = Upper_Unknown, gn_transport_type = SHB,
     gn_destination = Dest_Address (gn_addr zero_position_vector), gn_source_position = spv_of_lpv zero_position_vector,
     gn_security_report = None, gn_its_aid = None, gn_permissions = None, gn_traffic_class = traffic_class False False 0,
     gn_remaining_packet_lifetime = None, gn_remaining_hop_limit = None\<rparr>"

definition indicate_basic ::
    "('sec, 'e, 'r) RouterEnv \<Rightarrow> LinkLayer \<Rightarrow> 'sec IndicationContext \<Rightarrow> ('sec, 'e, 'r) Router
       \<Rightarrow> ('sec, 'e, 'r) router_result" where
  "indicate_basic env ll ctx r =
     (let mib = env_mib env
      in case context_parse_basic ctx of
           (None, ctx) \<Rightarrow> Inr (packet_dropped Parse_Basic_Header r)
         | (Some basic, ctx) \<Rightarrow>
             if ucast (version basic) \<noteq> itsGnProtocolVersion mib then Inr (packet_dropped ITS_Protocol_Version r)
             else
               let ind = data_indication\<lparr>gn_remaining_packet_lifetime := Some (lifetime basic),
                           gn_remaining_hop_limit := Some (ucast (hop_limit basic))\<rparr>
               in if basic_next_header basic = Basic_Secured then indicate_secured env ll ind ctx basic r
                  else if basic_next_header basic = Basic_Common then
                    if \<not> itsGnSecurity mib \<or> itsGnSnDecapResultHandling mib = Non_Strict
                    then indicate_common env ll (ind\<lparr>gn_security_report := None\<rparr>) ctx basic r
                    else Inr (packet_dropped Decap_Unsuccessful_Strict r)
                  else Inr r)"

fun router_indicate ::
    "('sec, 'e, 'r) RouterEnv \<Rightarrow> 'sec UpPacket \<Rightarrow> MacAddress \<Rightarrow> MacAddress \<Rightarrow> ('sec, 'e, 'r) Router
       \<Rightarrow> ('sec, 'e, 'r) router_result" where
  "router_indicate env (Up_Cohesive packet) sender destination r =
     indicate_basic env \<lparr>ll_sender = sender, ll_destination = destination\<rparr> (context_deserialize packet) r"
| "router_indicate env (Up_Chunk casted_pdu packet) sender destination r =
     ebind (context_cast casted_pdu packet) (\<lambda>ctx.
       indicate_basic env \<lparr>ll_sender = sender, ll_destination = destination\<rparr> ctx r)"

section \<open>Events\<close>

text \<open>
  What happens to a router: calls of the upper and lower layers and of the position provider, and
  the callbacks of the runtime, which are due when the clock has reached their deadline.
\<close>

datatype 'sec router_event =
    Request DataRequestVariant "ChunkPacket option"
  | Indication "'sec UpPacket" MacAddress MacAddress
  | Position PositionUpdate
  | Beacon_Due
  | Contention_Due
  | Repetition_Due PendingRepetition
  | Clock_Advances duration

fun router_handle ::
    "('sec, 'e, 'r) RouterEnv \<Rightarrow> 'sec router_event \<Rightarrow> ('sec, 'e, 'r) Router \<Rightarrow> ('sec, 'e, 'r) router_result" where
  "router_handle env (Request req p) r = map_sum id snd (router_request env req p r)"
| "router_handle env (Indication packet sender destination) r = router_indicate env packet sender destination r"
| "router_handle env (Position fix) r = Inr (update_position env fix r)"
| "router_handle env Beacon_Due r =
     (case beacon_timer r of
        Some t \<Rightarrow> if t \<le> rt_clock r then on_beacon_timer_expired env (r\<lparr>beacon_timer := None\<rparr>) else Inr r
      | None \<Rightarrow> Inr r)"
| "router_handle env Contention_Due r =
     (case cbf_scheduled (m_cbf_buffer r) of
        Some t \<Rightarrow> if t \<le> rt_clock r then cbf_timer_expired env r else Inr r
      | None \<Rightarrow> Inr r)"
| "router_handle env (Repetition_Due rep) r =
     (if rep \<in> set (m_repeater r) \<and> rp_deadline rep \<le> rt_clock r then
        let ((req, p), repetitions) = repeater_trigger (rt_clock r) rep (m_repeater r)
        in dispatch_repetition env req p (r\<lparr>m_repeater := repetitions\<rparr>)
      else Inr r)"
| "router_handle env (Clock_Advances d) r = Inr (r\<lparr>rt_clock := rt_clock r + (if d > 0 then d else 0)\<rparr>)"

end
