(* ===== verification/Router_Correctness.thy ===== *)
theory Router_Correctness
  imports Router
begin

text \<open>
  Correctness of the router: an invariant of its state that every operation keeps, and what it
  gives. The proofs use a small program logic for operations that may throw: \<open>returns P x\<close> says
  that \<open>x\<close> is a result that satisfies \<open>P\<close>.
\<close>

section \<open>Program logic\<close>

definition returns :: "('a \<Rightarrow> bool) \<Rightarrow> 'x + 'a \<Rightarrow> bool" where
  "returns P x \<longleftrightarrow> (\<exists>a. x = Inr a \<and> P a)"

lemma returns_simps [simp]:
  "returns P (Inr a) \<longleftrightarrow> P a" "\<not> returns P (Inl e)"
  "returns P (map_sum g h x) \<longleftrightarrow> returns (\<lambda>a. P (h a)) x"
  "returns P (or_throw e y) \<longleftrightarrow> (\<exists>a. y = Some a \<and> P a)"
  by (cases x; cases y; auto simp: returns_def or_throw_def)+

lemma returns_ebind [simp]: "returns P (ebind x f) \<longleftrightarrow> returns (\<lambda>a. returns P (f a)) x"
  by (cases x) (auto simp: returns_def)

lemma returns_mono: "returns P x \<Longrightarrow> (\<And>a. P a \<Longrightarrow> Q a) \<Longrightarrow> returns Q x"
  by (auto simp: returns_def)

lemma returns_result: "returns P x \<Longrightarrow> x = Inr a \<Longrightarrow> P a"
  by (auto simp: returns_def)

section \<open>Packets that can be sent\<close>

text \<open>
  A packet of the router itself gets its secured message right before transmission. A forwarded
  packet has one exactly if its basic header announces it, and then no plain payload.
\<close>

definition source_ready :: "('sec, 'e, 'r) RouterEnv \<Rightarrow> ('sec, 'h) ExtendedPdu \<Rightarrow> bool" where
  "source_ready env pdu \<longleftrightarrow> ep_secured pdu = None
     \<and> basic_next_header (ep_basic pdu) = (if itsGnSecurity (env_mib env) then Basic_Secured else Basic_Common)"

definition forward_ready :: "('sec, 'h) ExtendedPdu \<Rightarrow> ChunkPacket \<Rightarrow> bool" where
  "forward_ready pdu p \<longleftrightarrow> (ep_secured pdu \<noteq> None \<longleftrightarrow> basic_next_header (ep_basic pdu) = Basic_Secured)
     \<and> (ep_secured pdu \<noteq> None \<longrightarrow> chunk_size_range p Transport Application = 0)"

fun transmit_ready :: "('sec, 'e, 'r) RouterEnv \<Rightarrow> gbc_transmit \<Rightarrow> 'sec GbcPdu \<Rightarrow> ChunkPacket \<Rightarrow> bool" where
  "transmit_ready env (Source_Transmit _) pdu p \<longleftrightarrow> source_ready env pdu"
| "transmit_ready env Forwarder_Transmit pdu p \<longleftrightarrow> forward_ready pdu p"
| "transmit_ready env No_Transmit pdu p \<longleftrightarrow> True"

definition has_destination :: "'sec GbcPdu \<Rightarrow> bool" where
  "has_destination pdu \<longleftrightarrow> gbc_destination (ep_extended pdu) (header_type (ep_common pdu)) \<noteq> None"

fun action_ready :: "('sec, 'e, 'r) RouterEnv \<Rightarrow> gbc_action \<Rightarrow> 'sec GbcPdu \<Rightarrow> ChunkPacket \<Rightarrow> bool" where
  "action_ready env (Source_Forwarding _) pdu p \<longleftrightarrow> source_ready env pdu \<and> has_destination pdu"
| "action_ready env (Forwarder_Forwarding _) pdu p \<longleftrightarrow> forward_ready pdu p \<and> has_destination pdu"
| "action_ready env (Greedy_Action t) pdu p \<longleftrightarrow> transmit_ready env t pdu p"
| "action_ready env (Bound_Transmit t _) pdu p \<longleftrightarrow> transmit_ready env t pdu p"

fun packet_ready :: "('sec, 'e, 'r) RouterEnv \<Rightarrow> 'sec buffer_packet \<Rightarrow> bool" where
  "packet_ready env (Buffered_Shb q) \<longleftrightarrow> (\<forall>f pdu p. pending_process q = Some (f, pdu, p) \<longrightarrow> source_ready env pdu)"
| "packet_ready env (Buffered_Tsb q) \<longleftrightarrow> (\<forall>f pdu p. pending_process q = Some (f, pdu, p) \<longrightarrow> forward_ready pdu p)"
| "packet_ready env (Buffered_Gbc q) \<longleftrightarrow> (\<forall>f pdu p. pending_process q = Some (f, pdu, p) \<longrightarrow> action_ready env f pdu p)"

definition cbf_ready :: "('sec, 'e, 'r) RouterEnv \<Rightarrow> ('sec, gbc_action) CbfPacket \<Rightarrow> bool" where
  "cbf_ready env q \<longleftrightarrow> (\<forall>p. cbf_payload q = Some p \<longrightarrow> action_ready env (cbf_function q) (cbf_pdu q) p)"

section \<open>Invariant\<close>

definition strict_security :: "MIB \<Rightarrow> bool" where
  "strict_security mib \<longleftrightarrow> itsGnSecurity mib \<and> itsGnSnDecapResultHandling mib = Strict"

text \<open>
  An indication comes from a message that the verify service accepted: it has the application and the
  permissions the service reported, and \<open>conveys\<close> holds of the payload of that message.
\<close>

definition verified :: "('sec, 'e, 'r) RouterEnv \<Rightarrow> (Plaintext \<Rightarrow> bool) \<Rightarrow> DecapReport GnDataIndication \<Rightarrow> bool" where
  "verified env conveys ind \<longleftrightarrow> (\<exists>msg e. vc_report (fst (env_verify env msg e)) = Success
     \<and> gn_security_report ind = Some Success \<and> gn_its_aid ind = Some (vc_its_aid (fst (env_verify env msg e)))
     \<and> gn_permissions ind = Some (vc_permissions (fst (env_verify env msg e)))
     \<and> conveys (env_get_payload_copy env msg))"

text \<open>What is left of a cohesive plaintext is its octets after the headers.\<close>

fun packet_conveys :: "PacketVariant \<Rightarrow> Plaintext \<Rightarrow> bool" where
  "packet_conveys packet (Plain_Cohesive p) \<longleftrightarrow> (\<exists>n. packet = Cohesive (set_boundary Network n p))"
| "packet_conveys packet (Plain_Chunk _ _) \<longleftrightarrow> True"

fun context_conveys :: "'sec IndicationContext \<Rightarrow> Plaintext \<Rightarrow> bool" where
  "context_conveys (Ctx_Secured_Deserialize pdu packet parser) plain \<longleftrightarrow> plain = Plain_Cohesive packet"
| "context_conveys _ (Plain_Chunk _ _) \<longleftrightarrow> True"
| "context_conveys _ (Plain_Cohesive _) \<longleftrightarrow> False"

definition same_security :: "DecapReport GnDataIndication \<Rightarrow> DecapReport GnDataIndication \<Rightarrow> bool" where
  "same_security ind ind' \<longleftrightarrow> gn_security_report ind' = gn_security_report ind \<and> gn_its_aid ind' = gn_its_aid ind
     \<and> gn_permissions ind' = gn_permissions ind"

lemma same_security_updates [simp]:
  "same_security ind (ind\<lparr>gn_transport_type := t, gn_source_position := p\<rparr>)"
  "same_security ind (ind\<lparr>gn_transport_type := t, gn_source_position := p, gn_destination := d\<rparr>)"
  "same_security ind (ind\<lparr>gn_traffic_class := tc, gn_upper_protocol := u\<rparr>)"
  "same_security ind ind"
  by (simp_all add: same_security_def)

lemma verified_same: "verified env P ind \<Longrightarrow> same_security ind ind' \<Longrightarrow> (\<And>plain. P plain \<Longrightarrow> Q plain) \<Longrightarrow> verified env Q ind'"
  unfolding verified_def same_security_def by auto

definition beaconing :: "('sec, 'e, 'r) RouterEnv \<Rightarrow> ('sec, 'e, 'r) Router \<Rightarrow> bool" where
  "beaconing env r \<longleftrightarrow> \<not> vanetzaDisableBeaconing (env_mib env)
     \<and> (itsGnSecurity (env_mib env) \<longrightarrow> m_security_entity r \<noteq> None
          \<and> (\<forall>req e. sign_secured_message (fst (env_sign env req e)) \<noteq> None))"

definition buffers_inv :: "('sec, 'e, 'r) RouterEnv \<Rightarrow> ('sec, 'e, 'r) Router \<Rightarrow> bool" where
  "buffers_inv env r \<longleftrightarrow>
     buffer_inv (buffered_length (env_get_size env)) (m_bc_forward_buffer r)
   \<and> list_all (packet_ready env \<circ> snd) (m_nodes (m_bc_forward_buffer r))
   \<and> m_nodes (m_uc_forward_buffer r) = []
   \<and> cbf_inv (env_get_size env) (m_cbf_buffer r) \<and> list_all (cbf_ready env) (cbf_packets (m_cbf_buffer r))"

text \<open>
  Lists of recent packets have the configured length, if \<^verbatim>\<open>boost::circular_buffer\<close> works as
  documented.
\<close>

definition entry_dpl_ok :: "('sec, 'e, 'r) RouterEnv \<Rightarrow> DuplicatePacketList option \<Rightarrow> bool" where
  "entry_dpl_ok env d \<longleftrightarrow> (circular (env_push_back env) \<longrightarrow>
     (\<forall>dpl. d = Some dpl \<longrightarrow> dpl_capacity dpl = unat (itsGnDPLLength (env_mib env)) \<and> dpl_inv dpl))"

definition table_inv :: "('sec, 'e, 'r) RouterEnv \<Rightarrow> LocationTable \<Rightarrow> bool" where
  "table_inv env lt \<longleftrightarrow> lt_inv lt \<and> (\<forall>k e. get_data_ptr k lt = Some e \<longrightarrow> entry_dpl_ok env (ext_dpl e))"

definition router_inv :: "('sec, 'e, 'r) RouterEnv \<Rightarrow> ('sec, 'e, 'r) Router \<Rightarrow> bool" where
  "router_inv env r \<longleftrightarrow> buffers_inv env r \<and> table_inv env (m_location_table r) \<and> memory_inv (m_gbc_memory r)
   \<and> list_all (\<lambda>rep. upper_protocol (access_request (rp_request rep)) \<noteq> Upper_Unknown) (m_repeater r)
   \<and> (strict_security (env_mib env) \<longrightarrow> list_all (\<lambda>(ind, packet). verified env (packet_conveys packet) ind) (passed_up r))"

text \<open>The flag tells whether the router has a security entity. Operations do not change that.\<close>

definition beacon_pending :: "bool \<Rightarrow> ('sec, 'e, 'r) RouterEnv \<Rightarrow> ('sec, 'e, 'r) Router \<Rightarrow> bool" where
  "beacon_pending sec env r \<longleftrightarrow> (m_security_entity r \<noteq> None \<longleftrightarrow> sec) \<and> (beaconing env r \<longrightarrow> beacon_timer r \<noteq> None)"

text \<open>Operations that touch none of the parts the invariant is about.\<close>

definition router_view where
  "router_view r = (m_bc_forward_buffer r, m_uc_forward_buffer r, m_cbf_buffer r, m_location_table r, m_gbc_memory r,
     m_repeater r, passed_up r)"

lemma router_inv_view: "router_view r = router_view r' \<Longrightarrow> router_inv env r = router_inv env r'"
  by (simp add: router_inv_def buffers_inv_def router_view_def)

lemma router_inv_updates [simp]:
  "router_inv env (r\<lparr>rt_clock := a\<rparr>) = router_inv env r"
  "router_inv env (r\<lparr>m_local_position_vector := b\<rparr>) = router_inv env r"
  "router_inv env (r\<lparr>m_security_entity := c\<rparr>) = router_inv env r"
  "router_inv env (r\<lparr>m_local_sequence_number := d\<rparr>) = router_inv env r"
  "router_inv env (r\<lparr>m_random_gen := e\<rparr>) = router_inv env r"
  "router_inv env (r\<lparr>beacon_timer := f\<rparr>) = router_inv env r"
  "router_inv env (r\<lparr>passed_down := g\<rparr>) = router_inv env r"
  "router_inv env (r\<lparr>dropped_packets := h\<rparr>) = router_inv env r"
  "router_inv env (r\<lparr>stopped_forwarding := i\<rparr>) = router_inv env r"
  by (rule router_inv_view, simp add: router_view_def)+

lemma execute_media_procedures_id [simp]: "execute_media_procedures p r = r"
  by (cases p) auto

lemma router_inv_logs [simp]:
  "router_inv env (packet_dropped reason r) = router_inv env r"
  "router_inv env (forwarding_stopped stop r) = router_inv env r"
  "router_inv env (reset_beacon_timer_in t r) = router_inv env r"
  "router_inv env (reset_beacon_timer env' r) = router_inv env r"
  by (simp_all add: packet_dropped_def forwarding_stopped_def reset_beacon_timer_in_def reset_beacon_timer_def
      split: prod.split)

section \<open>Transmission\<close>

lemma pass_down_request_simps:
  "pdu_secured pdu = None \<Longrightarrow> basic_next_header (pdu_basic pdu) \<noteq> Basic_Secured
    \<Longrightarrow> pass_down_request req pdu p r = Inr (r\<lparr>passed_down := passed_down r @ [(req, pdu, p)]\<rparr>)"
  "pdu_secured pdu = Some msg \<Longrightarrow> basic_next_header (pdu_basic pdu) = Basic_Secured
    \<Longrightarrow> chunk_size_range p Transport Application = 0
    \<Longrightarrow> pass_down_request req pdu p r = Inr (r\<lparr>passed_down := passed_down r @ [(req, pdu, p)]\<rparr>)"
  by (simp_all add: pass_down_request_def)

lemma chunk_merge_empties: "chunk_size_range (snd (chunk_merge Transport Application p q)) Transport Application = 0"
  by (auto simp: chunk_merge_eq chunk_size_range_def sum_list_eq_0_iff)

text \<open>Sending changes the log of sent packets and the state of the security entity.\<close>

definition sends :: "('sec, 'e, 'r) Router \<Rightarrow> ('sec, 'e, 'r) Router \<Rightarrow> bool" where
  "sends r r' \<longleftrightarrow> (\<exists>e xs. r' = r\<lparr>m_security_entity := e, passed_down := passed_down r @ xs\<rparr>
     \<and> (e = None \<longleftrightarrow> m_security_entity r = None))"

lemma sends_refl [simp]: "sends r r"
  unfolding sends_def by (intro exI [of _ "m_security_entity r"] exI [of _ "[]"]) simp

lemma sends_passed_down [simp]: "sends r (r\<lparr>passed_down := passed_down r @ xs\<rparr>)"
  unfolding sends_def by (intro exI [of _ "m_security_entity r"] exI [of _ xs]) simp

lemma sends_inv: "sends r r' \<Longrightarrow> router_inv env r' = router_inv env r"
  by (auto simp: sends_def)

lemma sends_beacon: "sends r r' \<Longrightarrow> beacon_pending sec env r' = beacon_pending sec env r"
  by (auto simp: sends_def beacon_pending_def beaconing_def)

lemma sends_entity: "sends r r' \<Longrightarrow> m_security_entity r' = None \<longleftrightarrow> m_security_entity r = None"
  by (auto simp: sends_def)

lemma encap_packet_entity:
  assumes "encap_packet env aid ssp pdu p r = (result, r')"
  shows "\<exists>e. r' = r\<lparr>m_security_entity := e\<rparr> \<and> (e = None \<longleftrightarrow> m_security_entity r = None)"
    and "result = Some (msg, rest) \<Longrightarrow> chunk_size_range rest Transport Application = 0"
proof -
  show "\<exists>e. r' = r\<lparr>m_security_entity := e\<rparr> \<and> (e = None \<longleftrightarrow> m_security_entity r = None)"
  proof (cases "m_security_entity r")
    case None
    with assms show ?thesis by (intro exI [of _ None]) (auto simp: encap_packet_def)
  qed (use assms in \<open>auto simp: encap_packet_def split: prod.splits\<close>)
  show "chunk_size_range rest Transport Application = 0" if "result = Some (msg, rest)"
    using assms that chunk_merge_empties
    by (auto simp: encap_packet_def split: option.splits prod.splits sum.splits) (metis snd_conv)
qed

lemma source_transmit_sends:
  assumes "source_ready env pdu"
  shows "returns (\<lambda>(_, r'). sends r r') (source_transmit env wrap set_source ctrl pdu p mac r)"
proof (cases "itsGnSecurity (env_mib env)")
  case False
  with assms show ?thesis
    by (simp add: source_transmit_def source_ready_def pass_down_def pass_down_request_simps pdu_of_extended_def Let_def)
next
  case True
  define pdu' where "pdu' = pdu\<lparr>ep_extended := set_source (m_local_position_vector r) (ep_extended pdu)\<rparr>"
  obtain result r' where enc: "encap_packet env (ci_its_aid ctrl) (ci_permissions ctrl) (pdu_of_extended wrap pdu') p r
      = (result, r')" by (meson surj_pair)
  obtain e where e: "r' = r\<lparr>m_security_entity := e\<rparr>" "e = None \<longleftrightarrow> m_security_entity r = None"
    using encap_packet_entity(1) [OF enc] by (elim exE conjE)
  have sends: "sends r (r\<lparr>m_security_entity := e, passed_down := passed_down r @ xs\<rparr>)"
    "sends r (r\<lparr>m_security_entity := e\<rparr>)" for xs
    unfolding sends_def
    by (rule exI [of _ e], rule exI [of _ xs], simp add: e(2))
      (rule exI [of _ e], rule exI [of _ "[]"], simp add: e(2))
  show ?thesis
  proof (cases result)
    case None
    then show ?thesis using True enc sends(2) by (simp add: source_transmit_def Let_def pdu'_def e(1))
  next
    case (Some q)
    then obtain msg rest where q: "result = Some (msg, rest)" by (cases q) auto
    note rest = encap_packet_entity(2) [OF enc q]
    have "basic_next_header (ep_basic pdu) = Basic_Secured" using assms True by (simp add: source_ready_def)
    then show ?thesis using enc sends(1) rest
      by (simp add: source_transmit_def Let_def True pdu'_def [symmetric] q e(1) pass_down_def)
        (simp add: pass_down_request_simps pdu_of_extended_def pdu'_def)
  qed
qed

definition router_ok :: "bool \<Rightarrow> ('sec, 'e, 'r) RouterEnv \<Rightarrow> ('sec, 'e, 'r) Router \<Rightarrow> bool" where
  "router_ok sec env r \<longleftrightarrow> router_inv env r \<and> beacon_pending sec env r"

lemma sends_ok: "sends r r' \<Longrightarrow> router_ok sec env r' = router_ok sec env r"
  by (simp add: router_ok_def sends_inv sends_beacon)

lemma beacon_pending_reset: "beacon_pending sec env (reset_beacon_timer env' r) \<longleftrightarrow> (m_security_entity r \<noteq> None \<longleftrightarrow> sec)"
  by (simp add: beacon_pending_def reset_beacon_timer_def reset_beacon_timer_in_def split: prod.split)

lemma beacon_pending_entity: "beacon_pending sec env r \<Longrightarrow> m_security_entity r = None \<longleftrightarrow> \<not> sec"
  by (auto simp: beacon_pending_def)

lemma shb_transmit_ok:
  assumes "source_ready env pdu" and "router_ok sec env r"
  shows "returns (router_ok sec env) (shb_transmit env ctrl pdu p r)"
  unfolding shb_transmit_def returns_ebind
  by (rule returns_mono [OF source_transmit_sends [OF assms(1)]])
    (use assms(2) in \<open>auto simp: sends_inv sends_beacon beacon_pending_reset router_ok_def sends_entity beacon_pending_entity\<close>)

lemma pass_down_forwarded_sends:
  "forward_ready pdu p \<Longrightarrow> returns (sends r) (pass_down_forwarded mac (pdu_of_extended wrap pdu) p r)"
  by (cases "ep_secured pdu")
    (simp_all add: pass_down_forwarded_def pass_down_request_simps pdu_of_extended_def forward_ready_def)

lemma tsb_transmit_ok:
  assumes "forward_ready pdu p" and "router_ok sec env r"
  shows "returns (router_ok sec env) (tsb_transmit env pdu p r)"
  unfolding tsb_transmit_def
  by (rule returns_mono [OF pass_down_forwarded_sends]) (use assms in \<open>simp_all add: sends_ok\<close>)

lemma transmit_gbc_sends:
  "transmit_ready env t pdu p \<Longrightarrow> returns (sends r) (transmit_gbc env t pdu p mac r)"
proof (cases t)
  case (Source_Transmit ctrl)
  assume "transmit_ready env t pdu p"
  then have "source_ready env pdu" by (simp add: Source_Transmit)
  then show ?thesis using source_transmit_sends [of env pdu r Gbc_Header gbc_set_source ctrl p mac]
    by (auto simp: Source_Transmit elim: returns_mono)
qed (simp_all add: pass_down_forwarded_sends)

definition next_hop_ready :: "('sec, 'e, 'r) RouterEnv \<Rightarrow> 'sec NextHop \<Rightarrow> bool" where
  "next_hop_ready env nh \<longleftrightarrow> (\<forall>pdu p t. nh_packet nh = Some (pdu, p, t) \<longrightarrow> transmit_ready env t pdu p)"

lemma nh_process_ok:
  assumes "next_hop_ready env nh" and "router_ok sec env r"
  shows "returns (router_ok sec env) (nh_process env nh r)"
proof -
  have "returns (router_ok sec env) (transmit_gbc env t pdu p mac r)" if "transmit_ready env t pdu p" for pdu p t mac
    by (rule returns_mono [OF transmit_gbc_sends [OF that]]) (use assms(2) in \<open>simp add: sends_ok\<close>)
  with assms show ?thesis by (auto simp: nh_process_def next_hop_ready_def split: option.split)
qed

section \<open>Buffers\<close>

lemma ready_lifetime [simp]:
  "source_ready env (pdu\<lparr>ep_basic := (ep_basic pdu)\<lparr>lifetime := l\<rparr>\<rparr>) = source_ready env pdu"
  "forward_ready (pdu\<lparr>ep_basic := (ep_basic pdu)\<lparr>lifetime := l\<rparr>\<rparr>) p = forward_ready pdu p"
  by (simp_all add: source_ready_def forward_ready_def)

lemma transmit_ready_lifetime [simp]:
  "transmit_ready env t (pdu\<lparr>ep_basic := (ep_basic pdu)\<lparr>lifetime := l\<rparr>\<rparr>) p = transmit_ready env t pdu p"
  by (cases t) simp_all

lemma action_ready_lifetime [simp]:
  "action_ready env f (pdu\<lparr>ep_basic := (ep_basic pdu)\<lparr>lifetime := l\<rparr>\<rparr>) p = action_ready env f pdu p"
  by (cases f) (simp_all add: has_destination_def)

lemma pending_process_reduced:
  assumes "pending_process (snd (pending_reduce_lifetime d q)) = Some (f, pdu, p)"
  obtains pdu' l where "pending_process q = Some (f, pdu', p)" "pdu = pdu'\<lparr>ep_basic := (ep_basic pdu')\<lparr>lifetime := l\<rparr>\<rparr>"
proof (cases "pp_pdu q")
  case (Some pdu')
  have "\<exists>l. pdu = pdu'\<lparr>ep_basic := (ep_basic pdu')\<lparr>lifetime := l\<rparr>\<rparr>"
    using assms Some
    by (auto simp: pending_reduce_lifetime_def pending_process_def Let_def split: option.splits if_splits
        intro: exI [of _ "lifetime (ep_basic pdu')"])
  then show ?thesis using assms Some that [of pdu']
    by (auto simp: pending_reduce_lifetime_def pending_process_def Let_def split: option.splits if_splits)
qed (use assms in \<open>simp add: pending_reduce_lifetime_def pending_process_def\<close>)

lemma packet_ready_reduced: "packet_ready env q \<Longrightarrow> packet_ready env (snd (buffered_reduce_lifetime d q))"
  by (cases q) (fastforce elim!: pending_process_reduced)+

interpretation buffered: buffer_data "buffered_length get_size"
  "buffered_reduce_lifetime :: duration \<Rightarrow> 'sec buffer_packet \<Rightarrow> _" for get_size
proof
  fix d and x :: "'sec buffer_packet"
  show "buffered_length get_size (snd (buffered_reduce_lifetime d x)) = buffered_length get_size x"
    by (cases x) (simp_all add: pending.len_reduce)
  show "0 \<le> fst (buffered_reduce_lifetime d x)" by (cases x) (simp_all add: pending.reduce_nonneg)
  show "snd (buffered_reduce_lifetime 0 x) = x" by (cases x) (simp_all add: pending.reduce_zero)
qed

lemma bc_forward_push_inv:
  assumes "packet_ready env q" and "router_inv env r"
  shows "router_inv env (bc_forward_push env q r)"
proof -
  let ?len = "buffered_length (env_get_size env)"
  obtain pushed b where push: "buffer_push ?len buffered_reduce_lifetime q (rt_clock r) (m_bc_forward_buffer r) = (pushed, b)"
    by (meson surj_pair)
  have inv: "buffer_inv ?len (m_bc_forward_buffer r)" "list_all (packet_ready env \<circ> snd) (m_nodes (m_bc_forward_buffer r))"
    using assms(2) by (simp_all add: router_inv_def buffers_inv_def)
  note spec = buffered.buffer_push_spec [OF inv(1) push]
  have "list_all (packet_ready env \<circ> snd) (m_nodes b)"
    using spec inv(2) assms(1)
    by (cases pushed) (fastforce simp: Let_def list_all_iff dest!: in_set_dropD)+
  with spec assms(2) show ?thesis
    by (simp add: router_inv_def buffers_inv_def bc_forward_push_def push)
qed

lemma cbf_ready_reduced [simp]: "cbf_ready env (snd (timer_reduce_lifetime now t q)) = cbf_ready env q"
  by (rule exE [OF timer_reduce_basic [of now t q]]) (simp add: cbf_ready_def)

lemma cbf_packets_remove: "set (cbf_packets (snd (cbf_remove gs pid b))) \<subseteq> set (cbf_packets b)"
  by (auto simp: cbf_remove_def erase_packet_def remove_timer_def Let_def split: option.splits if_splits)

lemma cbf_packets_add:
  assumes "cbf_inv gs b"
  shows "set (cbf_packets (cbf_add gs now q timeout b)) \<subseteq> insert q (set (cbf_packets b))"
proof -
  let ?b = "b\<lparr>cbf_stored := cbf_stored b + cbf_length gs q\<rparr>"
  have "cbf_linked ?b" "cbf_stored ?b = packets_length gs (cbf_packets ?b) + cbf_length gs q"
    using assms by (simp_all add: cbf_inv_def cbf_linked_def)
  from head_drop_spec [OF this] obtain k where "cbf_packets (head_drop gs ?b) = drop k (cbf_packets b)" by auto
  then show ?thesis by (auto simp: cbf_add_def Let_def schedule_timer_simps dest: in_set_dropD)
qed

lemma router_inv_cbf:
  assumes "router_inv env r" and "cbf_inv (env_get_size env) b" and "\<And>q. q \<in> set (cbf_packets b) \<Longrightarrow> cbf_ready env q"
  shows "router_inv env (r\<lparr>m_cbf_buffer := b\<rparr>)"
  using assms by (simp add: router_inv_def buffers_inv_def list_all_iff)

lemma router_inv_cbfD:
  assumes "router_inv env r"
  shows "cbf_inv (env_get_size env) (m_cbf_buffer r)" and "q \<in> set (cbf_packets (m_cbf_buffer r)) \<Longrightarrow> cbf_ready env q"
  using assms by (simp_all add: router_inv_def buffers_inv_def list_all_iff)

lemma cbf_buffer_add_inv:
  assumes "cbf_ready env q" and "router_inv env r"
  shows "router_inv env (cbf_buffer_add env q timeout r)"
  unfolding cbf_buffer_add_def
  using assms router_inv_cbfD [OF assms(2)]
    cbf_packets_add [OF router_inv_cbfD(1) [OF assms(2)], of "rt_clock r" q "clock_cast timeout"]
  by (intro router_inv_cbf cbf_add_inv) auto

lemma cbf_buffer_remove_inv:
  assumes "router_inv env r"
  shows "router_inv env (snd (cbf_buffer_remove env pid r))"
proof -
  have "snd (cbf_buffer_remove env pid r) = r\<lparr>m_cbf_buffer := snd (cbf_remove (env_get_size env) pid (m_cbf_buffer r))\<rparr>"
    by (simp add: cbf_buffer_remove_def split: prod.split)
  then show ?thesis
    using assms cbf_packets_remove [of "env_get_size env" pid "m_cbf_buffer r"] router_inv_cbfD [OF assms]
    by (simp only:) (intro router_inv_cbf cbf_remove_inv, auto)
qed

lemma cbf_update_ready:
  "list_all (cbf_ready env) (cbf_packets b) \<Longrightarrow> list_all (cbf_ready env) (cbf_packets (cbf_update now pid timeout b))"
  by (auto simp: cbf_update_def list_all_iff split: option.splits)

lemma router_inv_cbf_update:
  "router_inv env r \<Longrightarrow> router_inv env (r\<lparr>m_cbf_buffer := cbf_update now pid timeout (m_cbf_buffer r)\<rparr>)"
  by (simp add: router_inv_def buffers_inv_def cbf_update_inv cbf_update_ready)

lemma beacon_pending_frames [simp]:
  "beacon_pending sec env (packet_dropped reason r) = beacon_pending sec env r"
  "beacon_pending sec env (forwarding_stopped stop r) = beacon_pending sec env r"
  "beacon_pending sec env (bc_forward_push env' q r) = beacon_pending sec env r"
  "beacon_pending sec env (cbf_buffer_add env' c t r) = beacon_pending sec env r"
  "beacon_pending sec env (snd (cbf_buffer_remove env' pid r)) = beacon_pending sec env r"
  "beacon_pending sec env (r\<lparr>m_cbf_buffer := b\<rparr>) = beacon_pending sec env r"
  "beacon_pending sec env (r\<lparr>m_bc_forward_buffer := f\<rparr>) = beacon_pending sec env r"
  "beacon_pending sec env (r\<lparr>m_uc_forward_buffer := f\<rparr>) = beacon_pending sec env r"
  "beacon_pending sec env (r\<lparr>m_location_table := lt\<rparr>) = beacon_pending sec env r"
  "beacon_pending sec env (r\<lparr>m_gbc_memory := g\<rparr>) = beacon_pending sec env r"
  "beacon_pending sec env (r\<lparr>m_repeater := rep\<rparr>) = beacon_pending sec env r"
  "beacon_pending sec env (r\<lparr>m_local_sequence_number := sn\<rparr>) = beacon_pending sec env r"
  "beacon_pending sec env (r\<lparr>m_local_position_vector := pv\<rparr>) = beacon_pending sec env r"
  "beacon_pending sec env (r\<lparr>m_random_gen := rg\<rparr>) = beacon_pending sec env r"
  "beacon_pending sec env (r\<lparr>passed_up := ups\<rparr>) = beacon_pending sec env r"
  "beacon_pending sec env (r\<lparr>rt_clock := now\<rparr>) = beacon_pending sec env r"
  by (simp_all add: beacon_pending_def beaconing_def packet_dropped_def forwarding_stopped_def bc_forward_push_def
      cbf_buffer_add_def cbf_buffer_remove_def split: prod.split)

lemma router_ok_frames [simp]:
  "router_ok sec env (packet_dropped reason r) = router_ok sec env r"
  "router_ok sec env (forwarding_stopped stop r) = router_ok sec env r"
  "router_ok sec env r \<Longrightarrow> router_ok sec env (snd (cbf_buffer_remove env pid r))"
  "router_ok sec env r \<Longrightarrow> packet_ready env q \<Longrightarrow> router_ok sec env (bc_forward_push env q r)"
  "router_ok sec env r \<Longrightarrow> cbf_ready env c \<Longrightarrow> router_ok sec env (cbf_buffer_add env c t r)"
  "router_ok sec env r \<Longrightarrow> router_ok sec env (r\<lparr>m_cbf_buffer := cbf_update now pid timeout (m_cbf_buffer r)\<rparr>)"
  by (simp_all add: router_ok_def cbf_buffer_remove_inv bc_forward_push_inv cbf_buffer_add_inv router_inv_cbf_update)

section \<open>Forwarding algorithms\<close>

lemma next_hop_ready_simps [simp]:
  "next_hop_ready env next_hop"
  "next_hop_ready env (nh_discard nh) = next_hop_ready env nh"
  "next_hop_ready env (nh_buffer nh) = next_hop_ready env nh"
  "next_hop_ready env (nh_transmit (pdu, p, t) mac nh) = transmit_ready env t pdu p"
  by (simp_all add: next_hop_ready_def next_hop_def nh_discard_def nh_buffer_def nh_transmit_def)

lemma make_cbf_packet_ready [simp]: "cbf_ready env (make_cbf_packet (pdu, p, t) s) = transmit_ready env t pdu p"
  by (simp add: cbf_ready_def make_cbf_packet_def)

text \<open>A forwarding algorithm yields a next hop it can send to and keeps the invariant.\<close>

abbreviation forwards_ok where
  "forwards_ok sec env \<equiv> (\<lambda>(nh, r). next_hop_ready env nh \<and> router_ok sec env r)"

lemma greedy_forwarding_ok:
  assumes "transmit_ready env t pdu p" and "router_ok sec env r"
  shows "forwards_ok sec env (greedy_forwarding env (pdu, p, t) r)"
  using assms by (auto simp: greedy_forwarding_def Let_def pending_process_def split: prod.split)

lemma duplicate_forwarding_ready:
  assumes "transmit_ready env t pdu p"
  shows "\<exists>p'. duplicate_forwarding (pdu, p, t) = (pdu, p', t) \<and> transmit_ready env t pdu p'"
  using assms
  by (cases t) (auto simp: duplicate_forwarding_def forward_ready_def empty_chunk_packet_def chunk_size_range_def osi_layers_def)

lemma non_area_contention_based_forwarding_ok:
  assumes "transmit_ready env t pdu p" and "has_destination pdu" and "router_ok sec env r"
  shows "returns (forwards_ok sec env) (non_area_contention_based_forwarding env (pdu, p, t) sender r)"
proof (cases sender)
  case (Some s)
  obtain removed r' where rem: "cbf_buffer_remove env (gbc_identifier (ep_extended pdu)) r = (removed, r')"
    by (meson surj_pair)
  from assms(3) have "router_ok sec env r'" using router_ok_frames(3) [of sec env r "gbc_identifier (ep_extended pdu)"] rem by simp
  with assms(1,2) show ?thesis
    by (auto simp: non_area_contention_based_forwarding_def Some rem Let_def has_destination_def split: option.split)
qed (use assms in \<open>simp add: non_area_contention_based_forwarding_def\<close>)

lemma area_contention_based_forwarding_ok:
  assumes "transmit_ready env t pdu p" and "router_ok sec env r"
  shows "forwards_ok sec env (area_contention_based_forwarding env (pdu, p, t) sender r)"
proof (cases sender)
  case (Some s)
  obtain removed r' where rem: "cbf_buffer_remove env (gbc_identifier (ep_extended pdu)) r = (removed, r')"
    by (meson surj_pair)
  from assms(2) have "router_ok sec env r'" using router_ok_frames(3) [of sec env r "gbc_identifier (ep_extended pdu)"] rem by simp
  with assms(1) show ?thesis by (simp add: area_contention_based_forwarding_def Some rem Let_def)
qed (use assms in \<open>simp add: area_contention_based_forwarding_def\<close>)

lemma area_advanced_forwarding_ok:
  assumes "transmit_ready env t pdu p" and "router_ok sec env r"
  shows "forwards_ok sec env (area_advanced_forwarding env (pdu, p, t) ll r)"
proof (cases ll)
  case (Some l)
  from duplicate_forwarding_ready [OF assms(1)]
  obtain p' where dup: "duplicate_forwarding (pdu, p, t) = (pdu, p', t)" "transmit_ready env t pdu p'" by blast
  obtain nh r' where gr: "greedy_forwarding env (pdu, p', t) r = (nh, r')" by (meson surj_pair)
  have "next_hop_ready env nh" "router_ok sec env r'"
    using greedy_forwarding_ok [OF dup(2) assms(2)] by (simp_all add: gr)
  with assms show ?thesis
    by (auto simp: area_advanced_forwarding_def Some Let_def dup gr split: option.split)
qed (use assms in \<open>simp add: area_advanced_forwarding_def\<close>)

lemma forwarding_algorithm_selection_ok:
  assumes "transmit_ready env t pdu p" and "has_destination pdu" and "router_ok sec env r"
  shows "returns (forwards_ok sec env) (forwarding_algorithm_selection env (pdu, p, t) ll r)"
proof -
  from assms(2) obtain d where d: "gbc_destination (ep_extended pdu) (header_type (ep_common pdu)) = Some d"
    by (auto simp: has_destination_def)
  show ?thesis
    using assms area_contention_based_forwarding_ok [OF assms(1,3)] area_advanced_forwarding_ok [OF assms(1,3)]
      greedy_forwarding_ok [OF assms(1,3)] non_area_contention_based_forwarding_ok [OF assms]
    by (auto simp: forwarding_algorithm_selection_def d Let_def or_throw_def
        split: BroadcastForwarding.split UnicastForwarding.split)
qed

section \<open>Processing of pending packets\<close>

lemma process_gbc_ok:
  assumes "action_ready env f pdu p" and "router_ok sec env r"
  shows "returns (router_ok sec env) (process_gbc env f pdu p r)"
proof (cases f)
  case (Source_Forwarding ctrl)
  with assms have "returns (forwards_ok sec env)
      (forwarding_algorithm_selection env (pdu, p, Source_Transmit ctrl) None r)"
    by (intro forwarding_algorithm_selection_ok) simp_all
  then show ?thesis by (auto simp: Source_Forwarding intro!: nh_process_ok elim!: returns_mono)
next
  case (Forwarder_Forwarding ll)
  with assms have "returns (forwards_ok sec env)
      (forwarding_algorithm_selection env (pdu, p, Forwarder_Transmit) (Some ll) r)"
    by (intro forwarding_algorithm_selection_ok) simp_all
  then show ?thesis by (auto simp: Forwarder_Forwarding intro!: nh_process_ok elim!: returns_mono)
next
  case (Greedy_Action t)
  with assms greedy_forwarding_ok [of env t pdu p sec r] show ?thesis
    by (auto simp: Greedy_Action intro!: nh_process_ok split: prod.split)
next
  case (Bound_Transmit t mac)
  with assms show ?thesis
    using returns_mono [OF transmit_gbc_sends [of env t pdu p r mac], of "router_ok sec env"] by (simp add: sends_ok)
qed

lemma process_buffered_ok:
  assumes "packet_ready env q" and "router_ok sec env r"
  shows "returns (router_ok sec env) (process_buffered env q r)"
  using assms
  by (cases q) (auto simp: shb_transmit_ok tsb_transmit_ok process_gbc_ok split: option.split)

lemma process_all_ok:
  "\<forall>q \<in> set qs. packet_ready env q \<Longrightarrow> router_ok sec env r \<Longrightarrow> returns (router_ok sec env) (process_all env qs r)"
proof (induction qs arbitrary: r)
  case (Cons q qs)
  have "returns (router_ok sec env) (process_buffered env q r)" using Cons.prems by (simp add: process_buffered_ok)
  from returns_mono [OF this] Cons show ?case by simp
qed simp

lemma router_inv_bc_flush:
  assumes "router_inv env r"
  shows "router_inv env (r\<lparr>m_bc_forward_buffer := snd (buffer_flush buffered_reduce_lifetime now (m_bc_forward_buffer r))\<rparr>)"
  using assms by (simp add: router_inv_def buffers_inv_def buffer_flush_def buffer_inv_def)

lemma flush_broadcast_forwarding_buffer_ok:
  assumes "router_ok sec env r"
  shows "returns (router_ok sec env) (flush_broadcast_forwarding_buffer env r)"
proof -
  let ?f = "buffer_flush buffered_reduce_lifetime (rt_clock r) (m_bc_forward_buffer r)"
  have "\<forall>q \<in> set (fst ?f). packet_ready env q"
    using assms by (auto simp: router_ok_def router_inv_def buffers_inv_def buffer_flush_def list_all_iff packet_ready_reduced)
  moreover have "router_ok sec env (r\<lparr>m_bc_forward_buffer := snd ?f\<rparr>)"
    using assms by (simp add: router_ok_def router_inv_bc_flush)
  ultimately show ?thesis
    by (simp add: flush_broadcast_forwarding_buffer_def case_prod_beta process_all_ok)
qed

lemma flush_unicast_forwarding_buffer_ok:
  assumes "router_ok sec env r"
  shows "flush_unicast_forwarding_buffer env source r
      = Inr (r\<lparr>m_uc_forward_buffer := (m_uc_forward_buffer r)\<lparr>m_nodes := [], m_stored := 0\<rparr>\<rparr>)"
    and "router_ok sec env (r\<lparr>m_uc_forward_buffer := (m_uc_forward_buffer r)\<lparr>m_nodes := [], m_stored := 0\<rparr>\<rparr>)"
  using assms
  by (simp_all add: router_ok_def router_inv_def buffers_inv_def flush_unicast_forwarding_buffer_def buffer_flush_def)

lemma process_cbf_ok:
  "\<forall>q \<in> set qs. cbf_ready env q \<Longrightarrow> router_ok sec env r \<Longrightarrow> returns (router_ok sec env) (process_cbf env qs r)"
proof (induction qs arbitrary: r)
  case (Cons q qs)
  have "returns (router_ok sec env) (case pending_process (cbf_pending q) of
      Some (action, pdu, pl) \<Rightarrow> process_gbc env action pdu pl r | None \<Rightarrow> Inr r)"
    using Cons.prems by (auto simp: pending_process_def cbf_pending_def cbf_ready_def process_gbc_ok split: option.split)
  from returns_mono [OF this] Cons show ?case by simp
qed simp

lemma cbf_timer_expired_ok:
  assumes "router_ok sec env r"
  shows "returns (router_ok sec env) (cbf_timer_expired env r)"
proof -
  let ?b = "(m_cbf_buffer r)\<lparr>cbf_scheduled := None\<rparr>"
  obtain sent b where fl: "cbf_flush (env_get_size env) (rt_clock r) ?b = (sent, b)" by (meson surj_pair)
  have inv: "router_inv env r" using assms by (simp add: router_ok_def)
  have binv: "cbf_inv (env_get_size env) ?b" using router_inv_cbfD(1) [OF inv] by simp
  note spec = cbf_flush_spec [OF binv fl]
  have "\<forall>q \<in> set sent. cbf_ready env q"
  proof
    fix q assume "q \<in> set sent"
    then obtain t i p where p: "packet_of i ?b = Some p" "q = snd (timer_reduce_lifetime (rt_clock r) t p)"
      unfolding spec(5) by (auto simp: sent_packet_def Let_def split: option.splits if_splits prod.splits) (metis snd_conv)
    have "p \<in> set (cbf_packets (m_cbf_buffer r))" using p(1) by (auto simp: packet_of_def find_Some_iff)
    then show "cbf_ready env q" using router_inv_cbfD(2) [OF inv] by (simp add: p(2))
  qed
  moreover have "router_ok sec env (r\<lparr>m_cbf_buffer := b\<rparr>)"
    using assms spec(1) router_inv_cbfD(2) [OF inv]
    by (auto simp: router_ok_def spec(4) intro!: router_inv_cbf)
  ultimately show ?thesis by (simp add: cbf_timer_expired_def fl process_cbf_ok)
qed

section \<open>Source operations\<close>

lemma common_header_request_known:
  "upper_protocol req \<noteq> Upper_Unknown \<Longrightarrow> \<exists>common. common_header_request req mib = Some common"
  by (cases "upper_protocol req") (auto simp: common_header_request_def)

lemma gbc_destination_set [simp]:
  "gbc_destination (gbc_set_destination area h) (gbc_header_type (area_shape area)) \<noteq> None"
  by (cases "area_shape area") (auto simp: gbc_destination_def gbc_shape_def gbc_set_destination_def)

lemma store_or_process_ok:
  "packet_ready env q \<Longrightarrow> router_ok sec env r \<Longrightarrow> returns (router_ok sec env) (store_or_process env tc q r)"
  by (simp add: store_or_process_def process_buffered_ok)

lemma set_up_repetition_ok:
  assumes "upper_protocol (access_request req) \<noteq> Upper_Unknown" and "router_ok sec env r"
  shows "router_ok sec env (set_up_repetition req p r)"
  using assms
  by (auto simp: set_up_repetition_def router_ok_def router_inv_def buffers_inv_def repeater_add_def split: option.split)

lemma request_shb_ok:
  assumes "upper_protocol req \<noteq> Upper_Unknown" and "router_ok sec env r"
  shows "returns (\<lambda>(_, r). router_ok sec env r) (request_shb env req p r)"
proof -
  obtain common where common: "common_header_request req (env_mib env) = Some common"
    using common_header_request_known [OF assms(1)] by blast
  have ok: "router_ok sec env (set_up_repetition (Shb_Request req) q r)" for q
    using assms by (simp add: set_up_repetition_ok)
  show ?thesis using assms(2)
    by (auto simp: request_shb_def Let_def create_shb_pdu_def common set_payload_def source_ready_def basic_header_request_def
        pending_process_def intro!: store_or_process_ok ok split: option.split)
qed

lemma request_gbc_ok:
  assumes "upper_protocol req \<noteq> Upper_Unknown" and "router_ok sec env r"
  shows "returns (\<lambda>(_, r). router_ok sec env r) (request_gbc env req area p r)"
proof -
  obtain common where common: "common_header_request req (env_mib env) = Some common"
    using common_header_request_known [OF assms(1)] by blast
  have ok: "router_ok sec env ((set_up_repetition (Gbc_Request req area) q r)\<lparr>m_local_sequence_number := n\<rparr>)" for q n
    using assms set_up_repetition_ok [of "Gbc_Request req area" sec env r q] by (simp add: router_ok_def)
  show ?thesis using assms(2)
    by (auto simp: request_gbc_def Let_def create_gbc_pdu_def common set_payload_def source_ready_def basic_header_request_def
        pending_process_def has_destination_def sequence_number_post_increment_def
        intro!: store_or_process_ok ok split: option.split)
qed

lemma router_request_ok:
  assumes "upper_protocol (access_request req) \<noteq> Upper_Unknown" and "router_ok sec env r"
  shows "returns (\<lambda>(_, r). router_ok sec env r) (router_request env req p r)"
  using assms by (cases req) (simp_all add: request_shb_ok request_gbc_ok)

lemma dispatch_repetition_ok:
  assumes "upper_protocol (access_request req) \<noteq> Upper_Unknown" and "router_ok sec env r"
  shows "returns (router_ok sec env) (dispatch_repetition env req p r)"
  using router_request_ok [OF assms, of "Some p"] by (auto simp: dispatch_repetition_def elim!: returns_mono)

section \<open>Beacons\<close>

lemma encap_packet_signs:
  assumes "encap_packet env aid ssp pdu p r = (result, r')" and "beaconing env r" and "itsGnSecurity (env_mib env)"
  shows "result \<noteq> None"
proof -
  obtain e where e: "m_security_entity r = Some e" using assms(2,3) by (auto simp: beaconing_def)
  have "\<exists>msg. fst (encapsulate_packet (env_sign env) req e) = Inr msg" for req
    using assms(2,3)
    by (auto simp: beaconing_def encapsulate_packet_def encap_dispatch_def encap_confirm_from_def split: option.split)
  with assms(1) e show ?thesis
    by (auto simp: encap_packet_def split: prod.splits sum.splits) (metis Inl_Inr_False fst_conv)
qed

lemma on_beacon_timer_expired_ok:
  assumes "router_inv env r" and "m_security_entity r \<noteq> None \<longleftrightarrow> sec"
  shows "returns (router_ok sec env) (on_beacon_timer_expired env r)"
proof (cases "vanetzaDisableBeaconing (env_mib env) \<or> timestamp (m_local_position_vector r) = 0 \<or> \<not> itsGnSecurity (env_mib env)")
  case True
  with assms show ?thesis
    by (auto simp: on_beacon_timer_expired_def router_ok_def beacon_pending_def [of _ _ r] beaconing_def beacon_pending_reset
        pass_down_def pass_down_request_simps pdu_of_extended_def create_beacon_pdu_def Let_def)
next
  case False
  define pdu where "pdu = (create_beacon_pdu env r)\<lparr>ep_basic := (ep_basic (create_beacon_pdu env r))\<lparr>basic_next_header := Basic_Secured\<rparr>\<rparr>"
  obtain result r' where enc: "encap_packet env GN_MGMT [] (pdu_of_extended Beacon_Header pdu) empty_chunk_packet r = (result, r')"
    by (meson surj_pair)
  obtain e where e: "r' = r\<lparr>m_security_entity := e\<rparr>" "e = None \<longleftrightarrow> m_security_entity r = None"
    using encap_packet_entity(1) [OF enc] by (elim exE conjE)
  have nh: "basic_next_header (ep_basic pdu) = Basic_Secured" by (simp add: pdu_def)
  show ?thesis
  proof (cases result)
    case None
    then have "\<not> beaconing env r'" using encap_packet_signs [OF enc] False e by (auto simp: beaconing_def)
    moreover have "m_security_entity r' \<noteq> None \<longleftrightarrow> sec" using assms(2) e by auto
    ultimately show ?thesis using None False enc assms e(1)
      by (simp add: on_beacon_timer_expired_def Let_def pdu_def [symmetric] router_ok_def beacon_pending_def)
  next
    case (Some q)
    then obtain msg rest where q: "result = Some (msg, rest)" by (cases q) auto
    note rest = encap_packet_entity(2) [OF enc q]
    have "m_security_entity r' \<noteq> None \<longleftrightarrow> sec" using assms(2) e by auto
    with False enc assms e(1) nh rest show ?thesis
      by (simp add: on_beacon_timer_expired_def Let_def pdu_def [symmetric] q pass_down_def)
        (simp add: pass_down_request_simps pdu_of_extended_def router_ok_def beacon_pending_reset)
  qed
qed

section \<open>Reception\<close>

lemma router_ok_table:
  "router_ok sec env r \<Longrightarrow> table_inv env lt \<Longrightarrow> router_ok sec env (r\<lparr>m_location_table := lt\<rparr>)"
  by (simp add: router_ok_def router_inv_def buffers_inv_def)

lemma router_ok_table_inv: "router_ok sec env r \<Longrightarrow> table_inv env (m_location_table r)"
  by (simp add: router_ok_def router_inv_def)

lemma entry_ok_fields [simp]:
  "lt_entry_ok k (update_pdr now n b e) = lt_entry_ok k e"
  "lt_entry_ok k (set_neighbour flag e) = lt_entry_ok k e"
  "lt_entry_ok k (set_neighbour_expiry now flag d e) = lt_entry_ok k e"
  "lt_entry_ok k (e\<lparr>ext_loctex := x\<rparr>) = lt_entry_ok k e"
  "lt_entry_ok k (e\<lparr>ext_dpl := y\<rparr>) = lt_entry_ok k e"
  "ext_dpl (update_pdr now n b e) = ext_dpl e"
  "ext_dpl (set_neighbour flag e) = ext_dpl e"
  "ext_dpl (set_neighbour_expiry now flag d e) = ext_dpl e"
  "ext_dpl (snd (update_position_vector pv e)) = ext_dpl e"
  by (auto simp: lt_entry_ok_def update_pdr_def set_neighbour_def set_neighbour_expiry_def update_position_vector_def
      set_position_vector_def Let_def split: option.split)

lemma entry_dpl_ok_None [simp]: "entry_dpl_ok env None"
  by (simp add: entry_dpl_ok_def)

lemma table_inv_modify:
  assumes "table_inv env lt"
    and "\<And>e. lt_entry_ok mac e \<Longrightarrow> lt_entry_ok mac (f e)" and "\<And>e. entry_dpl_ok env (ext_dpl e) \<Longrightarrow> entry_dpl_ok env (ext_dpl (f e))"
  shows "table_inv env (modify_entry mac f lt)"
proof (cases "get_data_ptr mac lt")
  case (Some e)
  have "lt_entry_ok mac e" using assms(1) Some by (auto simp: table_inv_def intro: lt_inv_data)
  with assms Some show ?thesis by (auto simp: modify_entry_def table_inv_def lt_inv_write ss_write_simps)
qed (use assms(1) in \<open>simp add: modify_entry_def\<close>)

lemma get_or_create_lookup:
  assumes "ss_inv lt"
  shows "fst (get_or_create_entry now key lt) = (case get_data_ptr key lt of Some e \<Rightarrow> e | None \<Rightarrow> location_table_entry now)"
    and "get_data_ptr k (snd (get_or_create_entry now key lt)) =
      (if k = key then Some (case get_data_ptr key lt of Some e \<Rightarrow> e | None \<Rightarrow> location_table_entry now) else get_data_ptr k lt)"
proof -
  obtain v lt' where r: "get_data now (location_table_entry now) key lt = (v, lt')" by (meson surj_pair)
  note R = get_data_lookup [OF assms r]
  show "fst (get_or_create_entry now key lt) = (case get_data_ptr key lt of Some e \<Rightarrow> e | None \<Rightarrow> location_table_entry now)"
    and "get_data_ptr k (snd (get_or_create_entry now key lt)) =
      (if k = key then Some (case get_data_ptr key lt of Some e \<Rightarrow> e | None \<Rightarrow> location_table_entry now) else get_data_ptr k lt)"
    using R(1) R(2) [of k] by (simp_all add: get_or_create_entry_def get_value_def r)
qed

lemma table_inv_get: "table_inv env lt \<Longrightarrow> table_inv env (snd (get_or_create_entry now key lt))"
  using get_or_create_lookup [where lt = lt and now = now and key = key] lt_inv_get [of lt now key]
  by (auto simp: table_inv_def location_table_entry_def split: option.splits if_splits)

lemma table_inv_drop: "table_inv env lt \<Longrightarrow> table_inv env (drop_expired now lt)"
  using drop_expired_lookup [of lt now] lt_inv_drop [of lt now]
  by (auto simp: table_inv_def split: option.splits if_splits)

text \<open>An update of the position keeps the list of recent packets.\<close>

lemma lt_update_ext_dpl:
  assumes "ss_inv lt"
  shows "map_option ext_dpl (get_data_ptr k (lt_update now pv lt)) =
    (if k = mid (gn_addr pv) then Some (Option.bind (get_data_ptr k lt) ext_dpl) else map_option ext_dpl (get_data_ptr k lt))"
proof -
  let ?key = "mid (gn_addr pv)"
  obtain v lt' where r: "ss_refresh now (location_table_entry now) ?key lt = (v, lt')" by (meson surj_pair)
  note R = ss_refresh_lookup [OF assms r]
  show ?thesis
  proof (cases "\<exists>e. get_value_ptr now ?key lt = Some e \<and> m_has_position_vector e")
    case True
    then obtain e where e: "get_value_ptr now ?key lt = Some e" "m_has_position_vector e" by blast
    have d: "get_data_ptr ?key lt = Some e" using get_value_ptr_data [OF e(1)] .
    obtain upd e' where u: "update_position_vector pv e = (upd, e')" by (meson surj_pair)
    have e': "ext_dpl e' = ext_dpl e" using entry_ok_fields(9) [of pv e] by (simp add: u)
    let ?lt = "ss_write ?key e' lt"
    obtain w lt2 where r2: "ss_refresh now (location_table_entry now) ?key ?lt = (w, lt2)" by (meson surj_pair)
    note R2 = ss_refresh_lookup [OF ss_write_simps(3) [OF assms] r2]
    show ?thesis
      using d e' R2(1) R2(2) [of k] by (cases "k = ?key") (simp_all add: lt_update_def Let_def e u r2 ss_write_simps)
  next
    case False
    then have "lt_update now pv lt = ss_write ?key (snd (update_position_vector pv v)) lt'"
      by (auto simp: lt_update_def Let_def r split: option.split)
    then show ?thesis using R(1) R(2) [of k]
      by (auto simp: ss_write_simps location_table_entry_def split: option.split)
  qed
qed

lemma table_inv_update: "table_inv env lt \<Longrightarrow> table_inv env (lt_update now pv lt)"
proof -
  assume inv: "table_inv env lt"
  have "entry_dpl_ok env (ext_dpl e)" if e: "get_data_ptr k (lt_update now pv lt) = Some e" for k e
  proof -
    have "ss_inv lt" using inv by (simp add: table_inv_def)
    from lt_update_ext_dpl [OF this, of k now pv] e inv show ?thesis
      by (cases "get_data_ptr k lt") (auto simp: table_inv_def split: if_splits)
  qed
  then show ?thesis using inv by (simp add: table_inv_def lt_inv_update)
qed

lemma update_source_entry_table:
  assumes "table_inv env (m_location_table r)" and "\<And>e. lt_entry_ok (mid (gn_addr pv)) e \<Longrightarrow> lt_entry_ok (mid (gn_addr pv)) (f e)"
    and "\<And>e. ext_dpl (f e) = ext_dpl e"
  shows "table_inv env (m_location_table (update_source_entry pv f r))"
  using table_inv_modify [of env "lt_update (rt_clock r) pv (m_location_table r)" "mid (gn_addr pv)" f] table_inv_update [OF assms(1)] assms(2,3)
  by (simp add: update_source_entry_def)

lemma update_source_entry_ok:
  assumes "router_ok sec env r" and "\<And>e. lt_entry_ok (mid (gn_addr pv)) e \<Longrightarrow> lt_entry_ok (mid (gn_addr pv)) (f e)"
    and "\<And>e. ext_dpl (f e) = ext_dpl e"
  shows "router_ok sec env (update_source_entry pv f r)"
  using router_ok_table [OF assms(1) update_source_entry_table [OF router_ok_table_inv [OF assms(1)] assms(2,3)]]
  by (simp add: update_source_entry_def)

lemma detect_duplicate_packet_table:
  assumes "table_inv env (m_location_table r)"
  shows "table_inv env (m_location_table (snd (detect_duplicate_packet env addr sn r)))"
proof -
  let ?g = "get_or_create_entry (rt_clock r) (mid addr) (m_location_table r)"
  let ?d = "case ext_dpl (fst ?g) of Some dpl \<Rightarrow> dpl | None \<Rightarrow> duplicate_packet_list (unat (itsGnDPLLength (env_mib env)))"
  have inv: "table_inv env (snd ?g)" using table_inv_get [OF assms] .
  have "get_data_ptr (mid addr) (snd ?g) = Some (fst ?g)"
    using get_or_create_lookup(2) [of "m_location_table r" "mid addr" "rt_clock r" "mid addr"]
      get_or_create_lookup(1) [of "m_location_table r" "rt_clock r" "mid addr"] assms by (simp add: table_inv_def)
  then have "entry_dpl_ok env (ext_dpl (fst ?g))" using inv by (simp add: table_inv_def)
  then have "entry_dpl_ok env (Some ?d)"
    by (cases "ext_dpl (fst ?g)") (auto simp: entry_dpl_ok_def duplicate_packet_list_def dpl_inv_def)
  then have "entry_dpl_ok env (Some (snd (dpl_check (env_push_back env) sn ?d)))"
    using dpl_check_inv dpl_check_result(2) by (auto simp: entry_dpl_ok_def) (metis prod.collapse)
  then show ?thesis using inv
    by (auto simp: detect_duplicate_packet_def Let_def case_prod_beta intro!: table_inv_modify)
qed

lemma detect_duplicate_packet_ok: "router_ok sec env r \<Longrightarrow> router_ok sec env (snd (detect_duplicate_packet env addr sn r))"
  using router_ok_table [OF _ detect_duplicate_packet_table [OF router_ok_table_inv]]
  by (simp add: detect_duplicate_packet_def Let_def case_prod_beta)

lemma detect_duplicate_address_ok [simp]:
  "router_ok sec env (detect_duplicate_address env' source sender r) = router_ok sec env r"
  by (simp add: detect_duplicate_address_def router_ok_def Let_def case_prod_beta)

lemma decide_pass_up_ok: "router_ok sec env r \<Longrightarrow> case decide_pass_up env' inside gbc r of (_, r) \<Rightarrow> router_ok sec env r"
  using memory.inv_use [of "m_gbc_memory r" "gbc_identifier gbc"]
  by (auto simp: decide_pass_up_def Let_def case_prod_beta router_ok_def router_inv_def buffers_inv_def)

lemma extended_pdu_simps [simp]:
  "ep_basic (extended_pdu pdu h) = pdu_basic pdu" "ep_common (extended_pdu pdu h) = pdu_common pdu"
  "ep_secured (extended_pdu pdu h) = pdu_secured pdu" "ep_extended (extended_pdu pdu h) = h"
  by (simp_all add: extended_pdu_def)

text \<open>What forwarding requires of a received packet.\<close>

definition received_ok :: "'sec Pdu \<Rightarrow> bool" where
  "received_ok pdu \<longleftrightarrow> (pdu_secured pdu \<noteq> None \<longleftrightarrow> basic_next_header (pdu_basic pdu) = Basic_Secured)"

lemma empty_chunk_packet_size [simp]: "chunk_size_range empty_chunk_packet from to = 0"
  by (simp add: empty_chunk_packet_def chunk_size_range_def osi_layers_def)

lemma forwarding_duplicate_ready:
  assumes "received_ok pdu" and "create_forwarding_duplicate (extended_pdu pdu h) packet = (fwd, p)"
  shows "forward_ready (decrement_hop_limit fwd) p"
proof -
  have "fwd = extended_pdu pdu h" "p = (if pdu_secured pdu \<noteq> None then empty_chunk_packet else packet_duplicate packet)"
    using assms(2) by (simp_all add: create_forwarding_duplicate_def split: if_splits)
  with assms(1) show ?thesis by (simp add: forward_ready_def decrement_hop_limit_def received_ok_def)
qed

lemma process_extended_shb_ok:
  "router_ok sec env r \<Longrightarrow> router_ok sec env (snd (process_extended_shb env pdu packet ll r))"
  by (auto simp: process_extended_shb_def Let_def intro!: update_source_entry_ok split: option.split)

lemma process_extended_beacon_ok:
  "router_ok sec env r \<Longrightarrow> router_ok sec env (snd (process_extended_beacon env pdu packet ll r))"
  by (auto simp: process_extended_beacon_def Let_def intro!: update_source_entry_ok)

lemma process_extended_tsb_ok:
  assumes "router_ok sec env r" and "received_ok pdu"
  shows "returns (\<lambda>(_, r). router_ok sec env r) (process_extended_tsb env (extended_pdu pdu tsb) packet ll r)"
proof -
  let ?pv = "tsb_source_position tsb"
  obtain dup r1 where dup: "detect_duplicate_packet env (gn_addr ?pv) (tsb_sequence_number tsb) r = (dup, r1)"
    by (meson surj_pair)
  have r1: "router_ok sec env r1" using detect_duplicate_packet_ok [OF assms(1)] dup by (metis snd_conv)
  obtain fwd p where fwd: "create_forwarding_duplicate (extended_pdu pdu tsb) packet = (fwd, p)" by (meson surj_pair)
  have src: "router_ok sec env (update_source_entry ?pv (\<lambda>entry. update_pdr now n b
      (if c then set_neighbour False entry else entry)) r2)" if "router_ok sec env r2" for now n b c r2
    using that by (intro update_source_entry_ok) simp_all
  show ?thesis using r1
    by (auto simp: process_extended_tsb_def Let_def dup src fwd pending_process_def
        flush_unicast_forwarding_buffer_ok [where sec = sec] forwarding_duplicate_ready [OF assms(2) fwd]
        intro!: store_or_process_ok split: option.split)
qed

lemma update_gbc_source_ok: "router_ok sec env r \<Longrightarrow> router_ok sec env (update_gbc_source env gbc packet ll known r)"
  by (auto simp: update_gbc_source_def Let_def intro!: update_source_entry_ok)

lemma process_extended_gbc_ok:
  assumes "router_ok sec env r" and "received_ok pdu"
    and "gbc_destination gbc (header_type (pdu_common pdu)) = Some area"
  shows "returns (\<lambda>(_, r). router_ok sec env r) (process_extended_gbc env (extended_pdu pdu gbc) packet ll r)"
proof -
  define inside where "inside = inside_or_at_border (env_local_cartesian env) area (lpv_position (m_local_position_vector r))"
  obtain dup r1 where dup: "detect_gbc_duplicate env inside gbc r = (dup, r1)" by (meson surj_pair)
  have r1: "router_ok sec env r1"
    using detect_duplicate_packet_ok [OF assms(1), of "gn_addr (gbc_source_position gbc)" "gbc_sequence_number gbc"] assms(1) dup
    by (auto simp: detect_gbc_duplicate_def split: if_splits)
  obtain fwd p where fwd: "create_forwarding_duplicate (extended_pdu pdu gbc) packet = (fwd, p)" by (meson surj_pair)
  have "fwd = extended_pdu pdu gbc" using fwd by (simp add: create_forwarding_duplicate_def)
  then have ready: "action_ready env (Forwarder_Forwarding ll) (decrement_hop_limit fwd) p"
    using forwarding_duplicate_ready [OF assms(2) fwd] assms(3)
    by (simp add: has_destination_def decrement_hop_limit_def)
  have stored: "returns (\<lambda>r. case decide_pass_up env inside gbc r of (_, r) \<Rightarrow> router_ok sec env r) (store_or_process env tc
      (Buffered_Gbc \<lparr>pp_pdu = Some (decrement_hop_limit fwd), pp_payload = Some p, pp_function = Forwarder_Forwarding ll\<rparr>) r2)"
    if "router_ok sec env r2" for tc r2
    using store_or_process_ok [of env "Buffered_Gbc \<lparr>pp_pdu = Some (decrement_hop_limit fwd), pp_payload = Some p,
        pp_function = Forwarder_Forwarding ll\<rparr>" sec r2 tc] ready that
    by (simp add: pending_process_def) (erule returns_mono, erule decide_pass_up_ok)
  show ?thesis using r1
    by (simp add: process_extended_gbc_def Let_def assms(3) or_throw_def inside_def [symmetric] dup update_gbc_source_ok fwd
        flush_unicast_forwarding_buffer_ok [where sec = sec] decide_pass_up_ok stored
        split: option.split)
qed

lemma visit_extended_ok:
  assumes "router_ok sec env r" and "received_ok pdu" and "extended_matches (header_type (pdu_common pdu)) ext"
  shows "returns (\<lambda>(ind', _, r). router_ok sec env r \<and> same_security ind ind')
    (visit_extended env pdu packet ll ext ind r)"
proof (cases ext)
  case (Gbc_Header gbc)
  then obtain area where area: "gbc_destination gbc (header_type (pdu_common pdu)) = Some area"
    using assms(3) by (auto simp: gbc_destination_def gbc_shape_def)
  from process_extended_gbc_ok [OF assms(1,2) this] show ?thesis
    by (auto simp: Gbc_Header area elim!: returns_mono)
next
  case (Tsb_Header tsb)
  from process_extended_tsb_ok [OF assms(1,2)] show ?thesis
    by (auto simp: Tsb_Header elim!: returns_mono)
qed (use assms(1) process_extended_shb_ok process_extended_beacon_ok in \<open>auto simp: case_prod_beta\<close>)

fun context_ok :: "'sec IndicationContext \<Rightarrow> bool" where
  "context_ok (Ctx_Cast pdu _) = extended_matches (header_type (pdu_common pdu)) (pdu_extended pdu)"
| "context_ok (Ctx_Secured_Cast pdu _) = extended_matches (header_type (pdu_common pdu)) (pdu_extended pdu)"
| "context_ok _ = True"

lemma accepted_header_Some: "accepted_header result = Some h \<longleftrightarrow> fst result > 0 \<and> snd result = Some h"
  by (simp add: accepted_header_def)

lemma context_parse_extended_spec:
  assumes "context_ok ctx" and "context_parse_extended (header_type (pdu_common (context_pdu ctx))) ctx = (Some ext, ctx')"
  shows "extended_matches (header_type (pdu_common (context_pdu ctx))) ext"
    and "context_pdu ctx' = (context_pdu ctx)\<lparr>pdu_extended := ext\<rparr>"
  using assms parse_extended_sound(3)
  by (cases ctx; fastforce simp: accepted_header_Some with_extended_def split: prod.splits)+

lemma context_parse_extended_conveys:
  assumes "context_parse_extended ht ctx = (ext, ctx')" and "context_conveys ctx plain"
  shows "packet_conveys (context_finish ctx') plain"
  using assms by (cases ctx; cases plain) (auto split: prod.splits)

lemma context_parse_common_spec:
  assumes "context_ok ctx" and "context_parse_common ctx = (Some common, ctx')"
  shows "context_ok ctx' \<and> context_pdu ctx' = (context_pdu ctx)\<lparr>pdu_common := common\<rparr>
    \<and> (context_conveys ctx plain \<longrightarrow> context_conveys ctx' plain)"
  using assms by (cases ctx; cases plain) (auto simp: accepted_header_Some with_common_def split: prod.splits)

lemma pass_up_ok:
  assumes "router_ok sec env r" and "strict_security (env_mib env) \<Longrightarrow> verified env (packet_conveys packet) ind"
  shows "router_ok sec env (pass_up ind packet r)"
  using assms by (auto simp: pass_up_def router_ok_def router_inv_def buffers_inv_def)

lemma indicate_extended_ok:
  assumes "router_ok sec env r" and "context_ok ctx" and "received_ok (context_pdu ctx)"
    and "pdu_common (context_pdu ctx) = common"
    and "strict_security (env_mib env) \<Longrightarrow> verified env (context_conveys ctx) ind"
  shows "returns (router_ok sec env) (indicate_extended env ll ind ctx common r)"
proof -
  obtain ext ctx' where parse: "context_parse_extended (header_type common) ctx = (ext, ctx')" by (meson surj_pair)
  show ?thesis
  proof (cases ext)
    case (Some h)
    have parse': "context_parse_extended (header_type (pdu_common (context_pdu ctx))) ctx = (Some h, ctx')"
      using parse Some assms(4) by simp
    note spec = context_parse_extended_spec [OF assms(2) parse']
    have "returns (\<lambda>(ind', _, r). router_ok sec env r \<and> same_security ind ind')
        (visit_extended env (context_pdu ctx') (context_finish ctx') ll h ind r)"
      using assms(1,3,4) spec by (intro visit_extended_ok) (simp_all add: received_ok_def)
    moreover have "verified env (packet_conveys (context_finish ctx')) ind'"
      if "strict_security (env_mib env)" "same_security ind ind'" for ind'
      by (rule verified_same [OF assms(5) [OF that(1)] that(2)]) (rule context_parse_extended_conveys [OF parse])
    ultimately show ?thesis using assms(1)
      by (auto simp: indicate_extended_def parse Some Let_def pass_up_ok elim!: returns_mono)
  qed (use assms(1) parse in \<open>simp add: indicate_extended_def Let_def\<close>)
qed

lemma indicate_common_ok:
  assumes "router_ok sec env r" and "context_ok ctx" and "received_ok (context_pdu ctx)"
    and "strict_security (env_mib env) \<Longrightarrow> verified env (context_conveys ctx) ind"
  shows "returns (router_ok sec env) (indicate_common env ll ind ctx basic r)"
proof -
  obtain result ctx' where parse: "context_parse_common ctx = (result, ctx')" by (meson surj_pair)
  show ?thesis
  proof (cases result)
    case (Some common)
    note spec = context_parse_common_spec [OF assms(2) parse [unfolded Some]]
    let ?r = "r\<lparr>m_location_table := drop_expired (rt_clock r) (m_location_table r)\<rparr>"
    have "returns (router_ok sec env) (flush_broadcast_forwarding_buffer env ?r)"
      by (intro flush_broadcast_forwarding_buffer_ok router_ok_table table_inv_drop router_ok_table_inv [OF assms(1)] assms(1))
    then have "returns (\<lambda>r. returns (router_ok sec env) (indicate_extended env ll ind' ctx' common r))
        (flush_broadcast_forwarding_buffer env ?r)" if same: "same_security ind ind'" for ind'
    proof (rule returns_mono)
      have "verified env (context_conveys ctx') ind'" if "strict_security (env_mib env)"
        by (rule verified_same [OF assms(4) [OF that] same]) (use spec in blast)
      then show "returns (router_ok sec env) (indicate_extended env ll ind' ctx' common r)" if "router_ok sec env r" for r
        by (intro indicate_extended_ok that) (use spec assms(3) in \<open>auto simp: received_ok_def\<close>)
    qed
    with assms(1) show ?thesis by (simp add: indicate_common_def parse Some Let_def)
  qed (use assms(1) parse in \<open>simp add: indicate_common_def\<close>)
qed

text \<open>
  Chunks whose network layer is not what a router put there make the casts throw. Serialized
  packets have no such condition.
\<close>

fun plaintext_ok :: "Plaintext \<Rightarrow> bool" where
  "plaintext_ok (Plain_Cohesive _) = True"
| "plaintext_ok (Plain_Chunk secured_pdu _) =
     (case secured_pdu of Some (common, ext) \<Rightarrow> extended_matches (header_type common) ext | None \<Rightarrow> False)"

definition env_ok :: "('sec, 'e, 'r) RouterEnv \<Rightarrow> bool" where
  "env_ok env \<longleftrightarrow> (\<forall>msg. plaintext_ok (env_get_payload_copy env msg))"

fun packet_ok :: "'sec UpPacket \<Rightarrow> bool" where
  "packet_ok (Up_Cohesive _) = True"
| "packet_ok (Up_Chunk casted_pdu _) =
     (case casted_pdu of
        Some pdu \<Rightarrow> received_ok pdu \<and> extended_matches (header_type (pdu_common pdu)) (pdu_extended pdu)
      | None \<Rightarrow> False)"

lemma indicate_plaintext_ok:
  assumes "router_ok sec env r" and "received_ok (context_pdu ctx)" and "plaintext_ok plain"
    and "strict_security (env_mib env) \<Longrightarrow> verified env (\<lambda>p. p = plain) ind"
  shows "returns (router_ok sec env) (indicate_plaintext env ll ind ctx basic plain r)"
proof (cases plain)
  case (Plain_Cohesive packet)
  have "verified env (context_conveys (context_secured_deserialize ctx packet)) ind" if "strict_security (env_mib env)"
    by (rule verified_same [OF assms(4) [OF that]]) (simp_all add: Plain_Cohesive context_secured_deserialize_def)
  then show ?thesis using assms(1,2)
    by (auto intro!: indicate_common_ok simp: Plain_Cohesive context_secured_deserialize_def)
next
  case (Plain_Chunk secured_pdu packet)
  with assms(3) obtain common ext where sec: "secured_pdu = Some (common, ext)" "extended_matches (header_type common) ext"
    by (auto split: option.splits)
  have "verified env (context_conveys (Ctx_Secured_Cast pdu p)) ind" if "strict_security (env_mib env)" for pdu :: "'a Pdu" and p
    by (rule verified_same [OF assms(4) [OF that]]) (simp_all add: Plain_Chunk)
  then show ?thesis using assms(1,2) sec
    by (auto intro!: indicate_common_ok simp: Plain_Chunk context_secured_cast_def or_throw_def received_ok_def)
qed

text \<open>A context whose basic header was parsed, before the secured message is.\<close>

definition basic_parsed :: "BasicHeader \<Rightarrow> 'sec IndicationContext \<Rightarrow> bool" where
  "basic_parsed basic ctx \<longleftrightarrow> pdu_basic (context_pdu ctx) = basic \<and> context_ok ctx
     \<and> (case ctx of Ctx_Deserialize pdu _ _ \<Rightarrow> pdu_secured pdu = None | _ \<Rightarrow> received_ok (context_pdu ctx))"

lemma context_parse_secured_spec:
  assumes "basic_parsed basic ctx" and "basic_next_header basic = Basic_Secured"
    and "context_parse_secured v2 v3 ctx = (Some msg, ctx')"
  shows "received_ok (context_pdu ctx')"
  using assms
  by (cases ctx) (auto simp: basic_parsed_def received_ok_def split: prod.splits option.splits)

lemma indicate_secured_ok:
  assumes "env_ok env" and "router_ok sec env r" and "basic_parsed basic ctx" and "basic_next_header basic = Basic_Secured"
  shows "returns (router_ok sec env) (indicate_secured env ll ind ctx basic r)"
proof -
  obtain result ctx' where parse: "context_parse_secured (env_v2_deserialize env) (env_v3_deserialize env) ctx = (result, ctx')"
    by (meson surj_pair)
  show ?thesis
  proof (cases "result = None \<or> m_security_entity r = None")
    case True
    then show ?thesis using parse assms(2) by (auto simp: indicate_secured_def split: option.split)
  next
    case False
    then obtain msg entity where me: "result = Some msg" "m_security_entity r = Some entity" by auto
    note rec = context_parse_secured_spec [OF assms(3,4) parse [unfolded me(1)]]
    obtain confirm entity' where dec:
      "decapsulate_packet (env_get_payload_copy env) (env_verify env) msg entity = (confirm, entity')" by (meson surj_pair)
    have plain: "plaintext_ok (dc_plaintext_payload confirm)"
      using decap_payload_copy [of "env_get_payload_copy env" "env_verify env" msg entity] assms(1) by (simp add: dec env_ok_def)
    have "verified env (\<lambda>p. p = dc_plaintext_payload confirm) (ind\<lparr>gn_security_report := Some Success,
        gn_its_aid := Some (dc_its_aid confirm), gn_permissions := Some (dc_permissions confirm)\<rparr>)"
      if "dc_report confirm = Some Success"
      using that dec [symmetric] unfolding verified_def
      by (intro exI [of _ msg] exI [of _ entity])
        (simp add: decapsulate_packet_def decap_confirm_from_def case_prod_beta map_prod_def)
    moreover have "router_ok sec env (r\<lparr>m_security_entity := Some entity'\<rparr>)"
      using assms(2) me(2) by (simp add: router_ok_def beacon_pending_def beaconing_def)
    ultimately show ?thesis using plain rec
      by (auto simp: indicate_secured_def parse me dec Let_def strict_security_def intro!: indicate_plaintext_ok)
  qed
qed

lemma indicate_basic_ok:
  assumes "env_ok env" and "router_ok sec env r"
    and "\<And>basic ctx'. context_parse_basic ctx = (Some basic, ctx') \<Longrightarrow> basic_parsed basic ctx'"
  shows "returns (router_ok sec env) (indicate_basic env ll ctx r)"
proof -
  obtain result ctx' where parse: "context_parse_basic ctx = (result, ctx')" by (meson surj_pair)
  show ?thesis
  proof (cases result)
    case (Some basic)
    have parsed: "basic_parsed basic ctx'" using assms(3) parse Some by simp
    have "received_ok (context_pdu ctx')" if "basic_next_header basic = Basic_Common"
      using parsed that by (cases ctx') (auto simp: basic_parsed_def received_ok_def)
    moreover have "context_ok ctx'" using parsed by (simp add: basic_parsed_def)
    ultimately show ?thesis using assms(1,2) parsed
      by (auto simp: indicate_basic_def parse Some Let_def strict_security_def
          intro!: indicate_secured_ok indicate_common_ok)
  qed (use assms(2) parse in \<open>simp add: indicate_basic_def\<close>)
qed

lemma router_indicate_ok:
  assumes "env_ok env" and "router_ok sec env r" and "packet_ok packet"
  shows "returns (router_ok sec env) (router_indicate env packet sender destination r)"
proof (cases packet)
  case (Up_Cohesive p)
  have "basic_parsed basic ctx'" if "context_parse_basic (context_deserialize p :: 'a IndicationContext) = (Some basic, ctx')"
    for basic and ctx' :: "'a IndicationContext"
    using that by (auto simp: context_deserialize_def accepted_header_Some basic_parsed_def variant_pdu_def split: prod.splits)
  with assms show ?thesis by (simp add: Up_Cohesive indicate_basic_ok)
next
  case (Up_Chunk casted_pdu p)
  with assms(3) obtain pdu where pdu: "casted_pdu = Some pdu" "received_ok pdu"
    "extended_matches (header_type (pdu_common pdu)) (pdu_extended pdu)" by (auto split: option.splits)
  with assms show ?thesis
    by (auto simp: Up_Chunk context_cast_def or_throw_def basic_parsed_def intro!: indicate_basic_ok)
qed

section \<open>Runs\<close>

fun event_ok :: "'sec router_event \<Rightarrow> bool" where
  "event_ok (Request req _) = (upper_protocol (access_request req) \<noteq> Upper_Unknown)"
| "event_ok (Indication packet _ _) = packet_ok packet"
| "event_ok _ = True"

lemma repeated_request_protocol:
  "upper_protocol (access_request (repeated_request d req)) = upper_protocol (access_request req)"
  by (cases req) (auto simp: repeated_request_def Let_def)

lemma router_handle_ok:
  assumes "env_ok env" and "event_ok ev" and "router_ok sec env r"
  shows "returns (router_ok sec env) (router_handle env ev r)"
proof (cases ev)
  case (Request req p)
  with assms router_request_ok [of req sec env r p] show ?thesis by (auto elim!: returns_mono)
next
  case Beacon_Due
  have "m_security_entity r \<noteq> None \<longleftrightarrow> sec" "router_inv env r"
    using assms(3) by (auto simp: router_ok_def beacon_pending_def)
  then have "returns (router_ok sec env) (on_beacon_timer_expired env (r\<lparr>beacon_timer := None\<rparr>))"
    by (intro on_beacon_timer_expired_ok) simp_all
  with assms(3) Beacon_Due show ?thesis by (auto split: option.split)
next
  case (Repetition_Due rep)
  have "router_ok sec env (r\<lparr>m_repeater := remove1 rep (m_repeater r)\<rparr>)"
    using assms(3) by (auto simp: router_ok_def router_inv_def buffers_inv_def list_all_iff dest: notin_set_remove1)
  moreover have "upper_protocol (access_request (rp_request rep)) \<noteq> Upper_Unknown" if "rep \<in> set (m_repeater r)"
    using assms(3) that by (auto simp: router_ok_def router_inv_def list_all_iff)
  ultimately show ?thesis using assms(3)
    by (auto simp: Repetition_Due repeater_trigger_def repeated_request_protocol intro!: dispatch_repetition_ok)
qed (use assms in \<open>auto simp: router_indicate_ok cbf_timer_expired_ok router_ok_def update_position_def Let_def split: option.split\<close>)

fun router_events ::
    "('sec, 'e, 'r) RouterEnv \<Rightarrow> 'sec router_event list \<Rightarrow> ('sec, 'e, 'r) Router \<Rightarrow> ('sec, 'e, 'r) router_result" where
  "router_events env [] r = Inr r"
| "router_events env (ev # evs) r = ebind (router_handle env ev r) (router_events env evs)"

lemma router_events_ok:
  "env_ok env \<Longrightarrow> list_all event_ok evs \<Longrightarrow> router_ok sec env r \<Longrightarrow> returns (router_ok sec env) (router_events env evs r)"
proof (induction evs arbitrary: r)
  case (Cons ev evs)
  have "returns (router_ok sec env) (router_handle env ev r)" using Cons.prems by (simp add: router_handle_ok)
  then show ?case using Cons by (auto elim!: returns_mono)
qed simp

text \<open>A router after its creation, with its address, security entity and transport handlers.\<close>

definition start_router ::
    "('sec, 'e, 'r) RouterEnv \<Rightarrow> time_point \<Rightarrow> 'r \<Rightarrow> Address \<Rightarrow> 'e option \<Rightarrow> UpperProtocol list \<Rightarrow> ('sec, 'e, 'r) Router" where
  "start_router env now gen addr entity protocols =
     foldr (\<lambda>proto. set_transport_handler proto True) protocols
       (set_security_entity entity (set_address addr (make_router env now gen)))"

lemma start_router_ok:
  assumes "0 \<le> itsGnLifetimeLocTE (env_mib env)"
  shows "router_ok (entity \<noteq> None) env (start_router env now gen addr entity protocols)"
proof -
  have "router_ok (entity \<noteq> None) env (set_security_entity entity (set_address addr (make_router env now gen)))"
    using assms lt_inv_create [of "env_mib env"] cbf_create_inv(1)
    by (auto simp: router_ok_def table_inv_def location_table_def soft_state_map_def set_lifetime_def get_data_ptr_def router_inv_def buffers_inv_def beacon_pending_def beaconing_def make_router_def Let_def
        set_security_entity_def set_address_def reset_beacon_timer_in_def packet_buffer_def buffer_inv_def cbf_packet_buffer_def
        memory_capacity_def gbc_memory_def memory_inv_def memory_size_def case_prod_beta)
  then show ?thesis unfolding start_router_def
    by (induction protocols)
      (simp_all add: set_transport_handler_def router_ok_def router_inv_def buffers_inv_def beacon_pending_def beaconing_def)
qed

section \<open>What is sent\<close>

text \<open>Deciding on a next hop sends nothing and does not change the packet.\<close>

definition decides :: "'sec pending_forwarding \<Rightarrow> ('sec, 'e, 'r) Router \<Rightarrow> 'sec NextHop \<times> ('sec, 'e, 'r) Router \<Rightarrow> bool" where
  "decides packet r = (\<lambda>(nh, r'). passed_down r' = passed_down r \<and> m_local_position_vector r' = m_local_position_vector r
     \<and> m_location_table r' = m_location_table r \<and> (nh_packet nh = None \<or> nh_packet nh = Some packet))"

lemma decides_frames [simp]:
  "passed_down (bc_forward_push env q r) = passed_down r"
  "passed_down (cbf_buffer_add env c t r) = passed_down r"
  "passed_down (snd (cbf_buffer_remove env pid r)) = passed_down r"
  "passed_down (forwarding_stopped stop r) = passed_down r"
  "m_local_position_vector (bc_forward_push env q r) = m_local_position_vector r"
  "m_local_position_vector (cbf_buffer_add env c t r) = m_local_position_vector r"
  "m_local_position_vector (snd (cbf_buffer_remove env pid r)) = m_local_position_vector r"
  "m_local_position_vector (forwarding_stopped stop r) = m_local_position_vector r"
  "m_location_table (bc_forward_push env q r) = m_location_table r"
  "m_location_table (cbf_buffer_add env c t r) = m_location_table r"
  "m_location_table (snd (cbf_buffer_remove env pid r)) = m_location_table r"
  "m_location_table (forwarding_stopped stop r) = m_location_table r"
  by (simp_all add: bc_forward_push_def cbf_buffer_add_def cbf_buffer_remove_def forwarding_stopped_def split: prod.split)

lemma next_hop_packets [simp]:
  "nh_packet next_hop = None" "nh_packet (nh_discard nh) = nh_packet nh" "nh_packet (nh_buffer nh) = nh_packet nh"
  "nh_packet (nh_transmit packet mac nh) = Some packet"
  by (simp_all add: next_hop_def nh_discard_def nh_buffer_def nh_transmit_def)

lemma greedy_forwarding_decides: "decides packet r (greedy_forwarding env packet r)"
  by (auto simp: decides_def greedy_forwarding_def Let_def split: prod.split)

lemma area_advanced_forwarding_decides:
  assumes "ep_secured (fst packet) \<noteq> None \<Longrightarrow> fst (snd packet) = empty_chunk_packet"
  shows "decides packet r (area_advanced_forwarding env packet ll r)"
proof -
  have "duplicate_forwarding packet = packet"
    using assms by (auto simp: duplicate_forwarding_def split: prod.split)
  with greedy_forwarding_decides [of packet r env] show ?thesis
    by (auto simp: decides_def area_advanced_forwarding_def Let_def split: option.split prod.split)
qed

lemma forwarding_algorithm_selection_decides:
  assumes "ep_secured (fst packet) \<noteq> None \<Longrightarrow> fst (snd packet) = empty_chunk_packet"
    and "forwarding_algorithm_selection env packet ll r = Inr result"
  shows "decides packet r result"
proof -
  have cbf: "decides packet r (area_contention_based_forwarding env packet sender r)" for sender
    by (auto simp: decides_def area_contention_based_forwarding_def Let_def case_prod_beta split: option.split)
  have non: "decides packet r result" if "non_area_contention_based_forwarding env packet sender r = Inr result" for sender
    using that
    by (auto simp: decides_def non_area_contention_based_forwarding_def Let_def case_prod_beta or_throw_def
        split: option.splits if_splits)
  have direct: "decides packet r (nh_transmit packet mac next_hop, r)" "decides packet r (nh_discard next_hop, forwarding_stopped stop r)"
    for mac stop by (simp_all add: decides_def)
  show ?thesis using assms(2) non
    by (auto simp: forwarding_algorithm_selection_def Let_def or_throw_def cbf direct greedy_forwarding_decides
        area_advanced_forwarding_decides [OF assms(1)]
        split: option.splits if_splits BroadcastForwarding.splits UnicastForwarding.splits)
qed

lemma pass_down_request_Inr:
  "pass_down_request req pdu p r = Inr r' \<Longrightarrow> r' = r\<lparr>passed_down := passed_down r @ [(req, pdu, p)]\<rparr>"
  by (auto simp: pass_down_request_def split: if_splits)

text \<open>What the access layer is asked for when a packet is forwarded: profile DP3 and the remaining lifetime.\<close>

definition forwarding_request :: "MacAddress \<Rightarrow> MacAddress \<Rightarrow> BasicHeader \<Rightarrow> DccDataRequest" where
  "forwarding_request source destination basic = \<lparr>dr_ether_type = 0x8947, dr_source = source, dr_destination = destination,
     dr_dcc_profile = DP3, dr_lifetime = clock_cast (lifetime_decode (lifetime basic))\<rparr>"

lemma process_forwarded:
  assumes "ep_secured pdu \<noteq> None \<Longrightarrow> p = empty_chunk_packet"
    and "process_gbc env (Forwarder_Forwarding ll) pdu p r = Inr r'"
  shows "m_local_position_vector r' = m_local_position_vector r \<and> m_location_table r' = m_location_table r \<and> (\<exists>xs. passed_down r' = passed_down r @ xs \<and> (xs = [] \<or> (\<exists>mac.
    xs = [(forwarding_request (mid (gn_addr (m_local_position_vector r))) mac (ep_basic pdu), pdu_of_extended Gbc_Header pdu, p)])))"
proof -
  obtain nh r1 where sel: "forwarding_algorithm_selection env (pdu, p, Forwarder_Transmit) (Some ll) r = Inr (nh, r1)"
      and proc: "nh_process env nh r1 = Inr r'"
    using assms(2) by (cases "forwarding_algorithm_selection env (pdu, p, Forwarder_Transmit) (Some ll) r") auto
  have dec: "decides (pdu, p, Forwarder_Transmit) r (nh, r1)"
    by (rule forwarding_algorithm_selection_decides [OF _ sel]) (use assms(1) in simp)
  show ?thesis
  proof (cases "nh_valid nh \<and> nh_packet nh \<noteq> None")
    case True
    with dec have "nh_packet nh = Some (pdu, p, Forwarder_Transmit)" by (simp add: decides_def)
    with proc True have "r' = r1\<lparr>passed_down := passed_down r1 @ [(forwarding_request (mid (gn_addr (m_local_position_vector r1)))
        (nh_destination nh) (ep_basic pdu), pdu_of_extended Gbc_Header pdu, p)]\<rparr>"
      by (auto simp: nh_process_def pass_down_forwarded_def forwarding_request_def ether_type_def pdu_of_extended_def
          dest!: pass_down_request_Inr)
    then show ?thesis using dec by (simp add: decides_def) blast
  next
    case False
    with proc have "r' = r1" by (auto simp: nh_process_def split: if_splits option.splits)
    then show ?thesis using dec by (simp add: decides_def)
  qed
qed

lemma update_source_entry_frame [simp]:
  "passed_down (update_source_entry pv f r) = passed_down r" "m_bc_forward_buffer (update_source_entry pv f r) = m_bc_forward_buffer r"
  "m_cbf_buffer (update_source_entry pv f r) = m_cbf_buffer r" "m_uc_forward_buffer (update_source_entry pv f r) = m_uc_forward_buffer r"
  by (simp_all add: update_source_entry_def)

lemma detect_duplicate_frame [simp]:
  "passed_down (detect_duplicate_address env source sender r) = passed_down r"
  "m_bc_forward_buffer (detect_duplicate_address env source sender r) = m_bc_forward_buffer r"
  "m_cbf_buffer (detect_duplicate_address env source sender r) = m_cbf_buffer r"
  "m_uc_forward_buffer (detect_duplicate_address env source sender r) = m_uc_forward_buffer r"
  "passed_down (snd (detect_duplicate_packet env addr sn r)) = passed_down r"
  "m_bc_forward_buffer (snd (detect_duplicate_packet env addr sn r)) = m_bc_forward_buffer r"
  "m_cbf_buffer (snd (detect_duplicate_packet env addr sn r)) = m_cbf_buffer r"
  "m_uc_forward_buffer (snd (detect_duplicate_packet env addr sn r)) = m_uc_forward_buffer r"
  by (simp_all add: detect_duplicate_address_def detect_duplicate_packet_def Let_def case_prod_beta)

lemma decide_pass_up_frame [simp]:
  "passed_down (snd (decide_pass_up env inside gbc r)) = passed_down r"
  "m_bc_forward_buffer (snd (decide_pass_up env inside gbc r)) = m_bc_forward_buffer r"
  "m_cbf_buffer (snd (decide_pass_up env inside gbc r)) = m_cbf_buffer r"
  "m_local_position_vector (snd (decide_pass_up env inside gbc r)) = m_local_position_vector r"
  "m_location_table (snd (decide_pass_up env inside gbc r)) = m_location_table r"
  by (simp_all add: decide_pass_up_def Let_def case_prod_beta)

lemma flush_unicast_empty:
  "m_nodes (m_uc_forward_buffer r) = [] \<Longrightarrow> flush_unicast_forwarding_buffer env source r
     = Inr (r\<lparr>m_uc_forward_buffer := (m_uc_forward_buffer r)\<lparr>m_nodes := [], m_stored := 0\<rparr>\<rparr>)"
  by (simp add: flush_unicast_forwarding_buffer_def buffer_flush_def)

text \<open>
  The three ways through the operation: a duplicate, a packet that is not forwarded, and one that is.
\<close>

lemma process_extended_gbc_cases:
  assumes "process_extended_gbc env pdu packet ll r = Inr (up, r')" and "m_nodes (m_uc_forward_buffer r) = []"
  obtains (duplicate) r1 inside where "up = False" "r' = r1" "passed_down r1 = passed_down r"
      "m_bc_forward_buffer r1 = m_bc_forward_buffer r" "m_cbf_buffer r1 = m_cbf_buffer r"
      "r1 = snd (detect_gbc_duplicate env inside (ep_extended pdu) r)"
    | (stopped) r1 inside stop known where "(up, r') = decide_pass_up env inside (ep_extended pdu) (forwarding_stopped stop r1)"
      "passed_down r1 = passed_down r" "m_bc_forward_buffer r1 = m_bc_forward_buffer r" "m_cbf_buffer r1 = m_cbf_buffer r"
      "m_location_table r1 = m_location_table (update_gbc_source env (ep_extended pdu) packet ll known
         (snd (detect_gbc_duplicate env inside (ep_extended pdu) r)))"
    | (forwarded) r1 inside r2 known where "1 < hop_limit (ep_basic pdu)" "(up, r') = decide_pass_up env inside (ep_extended pdu) r2"
      "passed_down r1 = passed_down r"
      "m_location_table r1 = m_location_table (update_gbc_source env (ep_extended pdu) packet ll known
         (snd (detect_gbc_duplicate env inside (ep_extended pdu) r)))"
      "store_or_process env (ch_traffic_class (ep_common pdu)) (Buffered_Gbc \<lparr>pp_pdu = Some (decrement_hop_limit pdu),
         pp_payload = Some (snd (create_forwarding_duplicate pdu packet)), pp_function = Forwarder_Forwarding ll\<rparr>) r1 = Inr r2"
proof -
  let ?gbc = "ep_extended pdu"
  obtain area where area: "gbc_destination ?gbc (header_type (ep_common pdu)) = Some area"
    using assms(1) by (cases "gbc_destination ?gbc (header_type (ep_common pdu))")
      (auto simp: process_extended_gbc_def Let_def or_throw_def)
  define inside where "inside = inside_or_at_border (env_local_cartesian env) area (lpv_position (m_local_position_vector r))"
  obtain dup r1 where dup: "detect_gbc_duplicate env inside ?gbc r = (dup, r1)" by (meson surj_pair)
  define r2 where "r2 = update_gbc_source env ?gbc packet ll
    (has_entry (rt_clock r) (gn_addr (gbc_source_position ?gbc)) (m_location_table r)) r1"
  define r3 where "r3 = r2\<lparr>m_uc_forward_buffer := (m_uc_forward_buffer r2)\<lparr>m_nodes := [], m_stored := 0\<rparr>\<rparr>"
  have r1: "r1 = snd (detect_gbc_duplicate env inside ?gbc r)" by (simp add: dup)
  then have f1: "passed_down r1 = passed_down r" "m_bc_forward_buffer r1 = m_bc_forward_buffer r" "m_cbf_buffer r1 = m_cbf_buffer r"
    "m_uc_forward_buffer r1 = m_uc_forward_buffer r"
    by (simp_all add: detect_gbc_duplicate_def)
  with r1 have f3: "m_location_table r3 = m_location_table (update_gbc_source env ?gbc packet ll
      (has_entry (rt_clock r) (gn_addr (gbc_source_position ?gbc)) (m_location_table r)) (snd (detect_gbc_duplicate env inside ?gbc r)))"
    by (simp add: r3_def r2_def)
  from f1 have f3': "passed_down r3 = passed_down r" "m_bc_forward_buffer r3 = m_bc_forward_buffer r" "m_cbf_buffer r3 = m_cbf_buffer r"
    and empty: "m_nodes (m_uc_forward_buffer r2) = []"
    using assms(2) by (simp_all add: r3_def r2_def update_gbc_source_def Let_def)
  have eq: "process_extended_gbc env pdu packet ll r = (if dup then Inr (False, r1)
     else case forwarding_stop_reason env (ep_basic pdu) (gbc_source_position ?gbc) ll r3 of
        Some stop \<Rightarrow> Inr (decide_pass_up env inside ?gbc (forwarding_stopped stop r3))
      | None \<Rightarrow> map_sum id (decide_pass_up env inside ?gbc) (store_or_process env (ch_traffic_class (ep_common pdu))
          (Buffered_Gbc \<lparr>pp_pdu = Some (decrement_hop_limit pdu), pp_payload = Some (snd (create_forwarding_duplicate pdu packet)),
             pp_function = Forwarder_Forwarding ll\<rparr>) r3))"
    by (simp add: process_extended_gbc_def Let_def area or_throw_def inside_def [symmetric] dup r2_def [symmetric]
        flush_unicast_empty [OF empty] r3_def create_forwarding_duplicate_def split: option.split)
  show ?thesis
  proof (cases dup)
    case True
    with eq assms(1) f1 r1 show ?thesis by (intro duplicate [of r1 inside]) (simp_all add: r1)
  next
    case False
    show ?thesis
    proof (cases "forwarding_stop_reason env (ep_basic pdu) (gbc_source_position ?gbc) ll r3")
      case (Some stop)
      with False eq assms(1) f3 f3' show ?thesis
        by (intro stopped [of inside stop r3 "has_entry (rt_clock r) (gn_addr (gbc_source_position ?gbc)) (m_location_table r)"]) simp_all
    next
      case None
      then have "1 < hop_limit (ep_basic pdu)" by (auto simp: forwarding_stop_reason_def Let_def split: if_splits)
      with None False eq assms(1) f3 f3'(1) show ?thesis
        by (auto intro: forwarded simp: map_sum_def split: sum.splits)
    qed
  qed
qed

text \<open>Packets of a source the location table has seen.\<close>

definition known_packet :: "MacAddress \<Rightarrow> SequenceNumber \<Rightarrow> LocationTable \<Rightarrow> bool" where
  "known_packet mac sn lt \<longleftrightarrow> (case Option.bind (get_data_ptr mac lt) ext_dpl of Some dpl \<Rightarrow> sn \<in> set (stored dpl) | None \<Rightarrow> False)"

lemma known_packet_detected:
  assumes "ss_inv (m_location_table r)" and "known_packet (mid addr) sn (m_location_table r)"
  shows "fst (detect_duplicate_packet env addr sn r)"
proof -
  obtain e dpl where e: "get_data_ptr (mid addr) (m_location_table r) = Some e" "ext_dpl e = Some dpl" "sn \<in> set (stored dpl)"
    using assms(2) by (auto simp: known_packet_def split: option.splits bind_splits)
  have "fst (get_or_create_entry (rt_clock r) (mid addr) (m_location_table r)) = e"
    using get_or_create_lookup(1) [OF assms(1)] e(1) by simp
  then show ?thesis
    using e dpl_check_result(1) [of "env_push_back env" sn dpl "fst (dpl_check (env_push_back env) sn dpl)"]
    by (simp add: detect_duplicate_packet_def Let_def case_prod_beta prod_eq_iff)
qed

lemma dpl_check_stored:
  assumes "circular push" and "dpl_inv dpl" and "0 < dpl_capacity dpl"
  shows "sn \<in> set (stored (snd (dpl_check push sn dpl)))"
proof -
  obtain dup dpl' where r: "dpl_check push sn dpl = (dup, dpl')" by (meson surj_pair)
  note R = dpl_check_result [OF r]
  show ?thesis
  proof (cases dup)
    case True
    with R(1,3) r show ?thesis by simp
  next
    case False
    then have "list_element sn \<in> set (m_elements dpl')"
      using R(4) assms by (auto simp: circular_def dpl_inv_def)
    then show ?thesis using r by (auto simp: list_element_def image_iff) force
  qed
qed

lemma detected_packet_known:
  assumes "table_inv env (m_location_table r)" and "circular (env_push_back env)" and "0 < itsGnDPLLength (env_mib env)"
  shows "known_packet (mid addr) sn (m_location_table (snd (detect_duplicate_packet env addr sn r)))"
proof -
  let ?g = "get_or_create_entry (rt_clock r) (mid addr) (m_location_table r)"
  let ?d = "case ext_dpl (fst ?g) of Some dpl \<Rightarrow> dpl | None \<Rightarrow> duplicate_packet_list (unat (itsGnDPLLength (env_mib env)))"
  have ss: "ss_inv (m_location_table r)" using assms(1) by (simp add: table_inv_def)
  have g: "get_data_ptr (mid addr) (snd ?g) = Some (fst ?g)"
    using get_or_create_lookup(2) [OF ss, of "mid addr" "rt_clock r" "mid addr"] get_or_create_lookup(1) [OF ss] by simp
  then have "entry_dpl_ok env (ext_dpl (fst ?g))" using table_inv_get [OF assms(1)] by (simp add: table_inv_def)
  then have "dpl_inv ?d \<and> dpl_capacity ?d = unat (itsGnDPLLength (env_mib env))"
    using assms(2) by (cases "ext_dpl (fst ?g)") (auto simp: entry_dpl_ok_def duplicate_packet_list_def dpl_inv_def)
  then have "sn \<in> set (stored (snd (dpl_check (env_push_back env) sn ?d)))"
    using assms(3) by (intro dpl_check_stored assms(2)) (simp_all add: unat_gt_0)
  then show ?thesis using g
    by (simp add: detect_duplicate_packet_def Let_def case_prod_beta modify_entry_def ss_write_simps known_packet_def)
qed

lemma known_packet_update:
  assumes "ss_inv (m_location_table r)" and "known_packet mac sn (m_location_table r)" and "\<And>e. ext_dpl (f e) = ext_dpl e"
  shows "known_packet mac sn (m_location_table (update_source_entry pv f r))"
proof -
  let ?lt = "lt_update (rt_clock r) pv (m_location_table r)"
  have "map_option ext_dpl (get_data_ptr mac (modify_entry (mid (gn_addr pv)) f ?lt)) = map_option ext_dpl (get_data_ptr mac ?lt)"
    using assms(3) by (auto simp: modify_entry_def ss_write_simps split: option.split)
  moreover have "Option.bind x g = Option.bind (map_option g x) id" for x :: "LocationTableEntry option" and g :: "_ \<Rightarrow> DuplicatePacketList option"
    by (cases x) simp_all
  ultimately have "Option.bind (get_data_ptr mac (modify_entry (mid (gn_addr pv)) f ?lt)) ext_dpl = Option.bind (get_data_ptr mac ?lt) ext_dpl"
    by metis
  moreover have "Option.bind (get_data_ptr mac ?lt) ext_dpl = Option.bind (get_data_ptr mac (m_location_table r)) ext_dpl"
    using lt_update_ext_dpl [OF assms(1), of mac "rt_clock r" pv] assms(2)
    by (cases "get_data_ptr mac (m_location_table r)"; cases "get_data_ptr mac ?lt") (auto simp: known_packet_def split: if_splits)
  ultimately show ?thesis using assms(2) by (simp add: known_packet_def update_source_entry_def)
qed

end
