(* ===== verification/Router_Properties.thy ===== *)
theory Router_Properties
  imports Router_Correctness
begin

text \<open>
  What a router does for its users: what it forwards and to whom, how long it contends, that it
  processes whatever arrives, never passes unverified packets up when security is strict, keeps
  sending beacons, and that a payload travels from the transport layer of one router to that of
  another.
\<close>

section \<open>Forwarding of geo-broadcast packets\<close>

lemma store_or_process_forwarded:
  assumes "store_or_process env tc (Buffered_Gbc \<lparr>pp_pdu = Some (decrement_hop_limit pdu),
     pp_payload = Some (snd (create_forwarding_duplicate pdu packet)), pp_function = Forwarder_Forwarding ll\<rparr>) r = Inr r'"
  shows "m_local_position_vector r' = m_local_position_vector r \<and> m_location_table r' = m_location_table r
    \<and> (\<exists>xs. passed_down r' = passed_down r @ xs \<and> (xs = [] \<or> (\<exists>mac. xs =
      [(forwarding_request (mid (gn_addr (m_local_position_vector r))) mac (ep_basic (decrement_hop_limit pdu)),
        pdu_of_extended Gbc_Header (decrement_hop_limit pdu), snd (create_forwarding_duplicate pdu packet))])))"
proof (cases "store_carry_forward tc \<and> \<not> has_neighbours (rt_clock r) (m_location_table r)")
  case False
  with assms have "process_gbc env (Forwarder_Forwarding ll) (decrement_hop_limit pdu) (snd (create_forwarding_duplicate pdu packet)) r = Inr r'"
    by (auto simp: store_or_process_def pending_process_def)
  then show ?thesis
    by (intro process_forwarded) (simp_all add: create_forwarding_duplicate_def decrement_hop_limit_def)
qed (use assms in \<open>auto simp: store_or_process_def\<close>)


section \<open>Greedy forwarding\<close>

lemma detect_duplicate_keeps: "passed_up (snd (detect_duplicate_packet env addr sn r)) = passed_up r"
  "m_location_table (detect_duplicate_address env source sender r) = m_location_table r"
  by (simp_all add: detect_duplicate_packet_def detect_duplicate_address_def Let_def case_prod_beta)

lemma process_extended_gbc_known:
  assumes "router_inv env r" and "circular (env_push_back env)" and "0 < itsGnDPLLength (env_mib env)"
    and detects: "\<And>inside. detects_duplicates (env_mib env) inside"
    and "process_extended_gbc env pdu packet ll r = Inr (up, r')" and "m_nodes (m_uc_forward_buffer r) = []"
  shows "ss_inv (m_location_table r') \<and> known_packet (mid (gn_addr (gbc_source_position (ep_extended pdu))))
    (gbc_sequence_number (ep_extended pdu)) (m_location_table r')"
    (is "_ \<and> ?known (m_location_table r')")
proof -
  let ?gbc = "ep_extended pdu"
  have inv: "table_inv env (m_location_table r)" using assms(1) by (simp add: router_inv_def)
  have detected: "table_inv env (m_location_table (snd (detect_gbc_duplicate env inside ?gbc r)))
      \<and> ?known (m_location_table (snd (detect_gbc_duplicate env inside ?gbc r)))" for inside
    using detected_packet_known [OF inv assms(2,3)] detect_duplicate_packet_table [OF inv]
    by (simp add: detect_gbc_duplicate_def detects)
  have updated: "table_inv env (m_location_table (update_gbc_source env ?gbc packet ll known s))
      \<and> ?known (m_location_table (update_gbc_source env ?gbc packet ll known s))"
    if "table_inv env (m_location_table s) \<and> ?known (m_location_table s)" for known s
    using that by (auto simp: update_gbc_source_def Let_def detect_duplicate_keeps table_inv_def [of _ "m_location_table s"]
      intro!: known_packet_update update_source_entry_table)
  show ?thesis using assms(5,6)
  proof (cases rule: process_extended_gbc_cases)
    case (duplicate r1 inside)
    with detected [of inside] show ?thesis by (simp add: table_inv_def)
  next
    case (stopped r1 inside stop known)
    then have "r' = snd (decide_pass_up env inside ?gbc (forwarding_stopped stop r1))" by (metis snd_conv)
    with stopped updated [OF detected [of inside]] show ?thesis by (simp add: table_inv_def)
  next
    case (forwarded r1 inside r2 known)
    then have "r' = snd (decide_pass_up env inside ?gbc r2)" by (metis snd_conv)
    moreover have "m_location_table r2 = m_location_table r1" using store_or_process_forwarded [OF forwarded(5)] by simp
    ultimately show ?thesis using forwarded updated [OF detected [of inside]] by (simp add: table_inv_def)
  qed
qed

text \<open>
  C19: with greedy and simple forwarding, a geo-broadcast packet whose source and sequence number have
  been processed before is not processed again: it is neither passed up nor sent nor stored, whatever
  else has happened to the router but for its location table.
\<close>

theorem gbc_duplicate_discarded:
  assumes "router_inv env r" and "circular (env_push_back env)" and "0 < itsGnDPLLength (env_mib env)"
    and "detects_duplicates (env_mib env) True" and "detects_duplicates (env_mib env) False"
    and "process_extended_gbc env pdu packet ll r = Inr (up, r1)" and "m_nodes (m_uc_forward_buffer r) = []"
    and "m_location_table r2 = m_location_table r1" and "gbc_destination (ep_extended pdu') (header_type (ep_common pdu')) = Some area"
    and "mid (gn_addr (gbc_source_position (ep_extended pdu'))) = mid (gn_addr (gbc_source_position (ep_extended pdu)))"
    and "gbc_sequence_number (ep_extended pdu') = gbc_sequence_number (ep_extended pdu)"
  shows "\<exists>r3. process_extended_gbc env pdu' packet' ll' r2 = Inr (False, r3) \<and> passed_down r3 = passed_down r2
    \<and> m_bc_forward_buffer r3 = m_bc_forward_buffer r2 \<and> m_cbf_buffer r3 = m_cbf_buffer r2 \<and> passed_up r3 = passed_up r2"
proof -
  have detects: "detects_duplicates (env_mib env) inside" for inside using assms(4,5) by (cases inside) simp_all
  have "ss_inv (m_location_table r1) \<and> known_packet (mid (gn_addr (gbc_source_position (ep_extended pdu))))
      (gbc_sequence_number (ep_extended pdu)) (m_location_table r1)"
    by (rule process_extended_gbc_known [OF assms(1-3) detects assms(6,7)])
  then have "fst (detect_gbc_duplicate env inside (ep_extended pdu') r2)" for inside
    using assms(8,10,11) known_packet_detected [of r2 "gn_addr (gbc_source_position (ep_extended pdu'))"]
    by (simp add: detect_gbc_duplicate_def detects)
  then have "process_extended_gbc env pdu' packet' ll' r2 = Inr (False, snd (detect_gbc_duplicate env
      (inside_or_at_border (env_local_cartesian env) area (lpv_position (m_local_position_vector r2))) (ep_extended pdu') r2))"
    using assms(9) by (simp add: process_extended_gbc_def Let_def or_throw_def case_prod_beta)
  then show ?thesis by (simp add: detect_gbc_duplicate_def detects detect_duplicate_keeps)
qed

lemma greedy_search_le: "snd (greedy_search d dest ns (addr, m)) \<le> m"
proof (induction ns arbitrary: addr m)
  case (Cons n ns)
  show ?case
    using Cons.IH [of addr m] Cons.IH [of "link_layer_address n" "d dest (lpv_position (m_position_vector n))"]
    by (auto simp: Let_def)
qed simp

lemma greedy_search_keeps: "greedy_search d dest ns (addr, m) = (addr', m) \<Longrightarrow> addr' = addr"
proof (induction ns arbitrary: addr)
  case (Cons n ns)
  have "snd (greedy_search d dest ns (link_layer_address n, v)) \<le> v" for v by (rule greedy_search_le)
  with Cons show ?case by (auto simp: Let_def split: if_splits) (metis leD snd_conv)
qed simp

lemma greedy_search_spec:
  assumes "greedy_search d dest ns (addr, m) = (addr', m')"
  shows "m' \<le> m \<and> (\<forall>n \<in> set ns. m_has_position_vector n \<longrightarrow> m' \<le> d dest (lpv_position (m_position_vector n)))
    \<and> (m' < m \<longrightarrow> (\<exists>n \<in> set ns. m_has_position_vector n \<and> addr' = link_layer_address n
         \<and> m' = d dest (lpv_position (m_position_vector n))))"
  using assms
proof (induction ns arbitrary: addr m)
  case (Cons n ns)
  let ?dn = "d dest (lpv_position (m_position_vector n))"
  show ?case
  proof (cases "m_has_position_vector n \<and> ?dn < m")
    case True
    then have "greedy_search d dest ns (link_layer_address n, ?dn) = (addr', m')" using Cons.prems by (simp add: Let_def)
    note IH = Cons.IH [OF this]
    then have "m' < m" using True by linarith
    moreover have "\<exists>k \<in> set (n # ns). m_has_position_vector k \<and> addr' = link_layer_address k
        \<and> m' = d dest (lpv_position (m_position_vector k))"
    proof (cases "m' < ?dn")
      case False
      then have "m' = ?dn" "greedy_search d dest ns (link_layer_address n, ?dn) = (addr', ?dn)"
        using IH Cons.prems True by (auto simp: Let_def)
      then show ?thesis using True greedy_search_keeps by fastforce
    qed (use IH in auto)
    ultimately show ?thesis using IH by auto
  next
    case False
    then have "greedy_search d dest ns (addr, m) = (addr', m')" using Cons.prems by (auto simp: Let_def split: if_splits)
    from Cons.IH [OF this] False show ?thesis by auto
  qed
qed simp

text \<open>
  C20: greedy forwarding sends to a neighbour that makes progress towards the destination and is the
  closest to it of all neighbours with a known position. Without such a neighbour the packet waits
  in the broadcast buffer if its traffic class allows that and is broadcast otherwise.
\<close>

theorem greedy_next_hop:
  "let (nh, r') = greedy_forwarding env (pdu, p, t) r;
      dest = gbc_position (ep_extended pdu);
      away = (\<lambda>n :: LocationTableEntry. env_distance env dest (lpv_position (m_position_vector n)));
      own = env_distance env dest (lpv_position (m_local_position_vector r));
      candidates = filter m_has_position_vector (neighbours (rt_clock r) (m_location_table r))
    in if \<exists>n. n \<in> set candidates \<and> away n < own
       then nh_state nh = NextHop_Valid \<and> nh_packet nh = Some (pdu, p, t) \<and> r' = r
         \<and> (\<exists>n. n \<in> set candidates \<and> nh_destination nh = link_layer_address n \<and> away n < own
              \<and> away n = Min (away ` set candidates))
       else if store_carry_forward (ch_traffic_class (ep_common pdu))
       then nh_state nh = NextHop_Buffered \<and> r' = bc_forward_push env (Buffered_Gbc \<lparr>pp_pdu = Some pdu, pp_payload = Some p,
         pp_function = Greedy_Action t\<rparr>) r
       else nh_state nh = NextHop_Valid \<and> nh_packet nh = Some (pdu, p, t) \<and> nh_destination nh = cBroadcastMacAddress \<and> r' = r"
proof -
  obtain nh r' where decision: "greedy_forwarding env (pdu, p, t) r = (nh, r')" by (meson surj_pair)
  define dest where "dest = gbc_position (ep_extended pdu)"
  define away where "away = (\<lambda>n :: LocationTableEntry. env_distance env dest (lpv_position (m_position_vector n)))"
  define own where "own = env_distance env dest (lpv_position (m_local_position_vector r))"
  let ?ns = "neighbours (rt_clock r) (m_location_table r)"
  obtain addr m where search: "greedy_search (env_distance env) dest ?ns (mac_zero, own) = (addr, m)" by (meson surj_pair)
  have spec: "m \<le> own" "\<forall>n \<in> set ?ns. m_has_position_vector n \<longrightarrow> m \<le> away n"
    "m < own \<longrightarrow> (\<exists>n \<in> set ?ns. m_has_position_vector n \<and> addr = link_layer_address n \<and> m = away n)"
    using greedy_search_spec [OF search] by (simp_all add: away_def)
  have iff: "(\<exists>n. n \<in> set (filter m_has_position_vector ?ns) \<and> away n < own) \<longleftrightarrow> m < own"
    using spec by fastforce
  have eq: "(nh, r') = (if m < own then (nh_transmit (pdu, p, t) addr next_hop, r)
     else if store_carry_forward (ch_traffic_class (ep_common pdu)) then (nh_buffer next_hop, bc_forward_push env
       (Buffered_Gbc \<lparr>pp_pdu = Some pdu, pp_payload = Some p, pp_function = Greedy_Action t\<rparr>) r)
     else (nh_transmit (pdu, p, t) cBroadcastMacAddress next_hop, r))"
    using decision by (simp add: greedy_forwarding_def Let_def search dest_def [symmetric] own_def [symmetric] split: if_splits)
  have closest: "m = Min (away ` set (filter m_has_position_vector ?ns))" if "m < own"
    using spec that by (intro Min_eqI [symmetric]) auto
  have "if \<exists>n. n \<in> set (filter m_has_position_vector ?ns) \<and> away n < own
     then nh_state nh = NextHop_Valid \<and> nh_packet nh = Some (pdu, p, t) \<and> r' = r
       \<and> (\<exists>n. n \<in> set (filter m_has_position_vector ?ns) \<and> nh_destination nh = link_layer_address n \<and> away n < own
            \<and> away n = Min (away ` set (filter m_has_position_vector ?ns)))
     else if store_carry_forward (ch_traffic_class (ep_common pdu))
     then nh_state nh = NextHop_Buffered \<and> r' = bc_forward_push env (Buffered_Gbc \<lparr>pp_pdu = Some pdu, pp_payload = Some p,
       pp_function = Greedy_Action t\<rparr>) r
     else nh_state nh = NextHop_Valid \<and> nh_packet nh = Some (pdu, p, t) \<and> nh_destination nh = cBroadcastMacAddress \<and> r' = r"
    unfolding iff using eq spec(3) closest
    by (auto simp: nh_transmit_def nh_buffer_def next_hop_def split: if_splits)
  then show ?thesis by (simp only: Let_def decision prod.case away_def own_def dest_def)
qed

text \<open>
   a contending packet waits between the minimum and the maximum time, and not longer than a packet
  with less progress: of the receivers of a packet the one with the largest progress sends first.
\<close>

theorem contention_timeout:
  assumes "0 < itsGnDefaultMaxCommunicationRange mib" and "itsGnCbfMinTime mib \<le> itsGnCbfMaxTime mib"
  shows "itsGnCbfMinTime mib \<le> timeout_cbf mib d \<and> timeout_cbf mib d \<le> itsGnCbfMaxTime mib
    \<and> (d' \<le> d \<longrightarrow> timeout_cbf mib d \<le> timeout_cbf mib d')"
proof -
  let ?range = "itsGnDefaultMaxCommunicationRange mib" and ?lo = "itsGnCbfMinTime mib" and ?hi = "itsGnCbfMaxTime mib"
  define x where "x e = max 0 (min 1 (e / ?range))" for e
  have eq: "timeout_cbf mib e = ?hi - (?hi - ?lo) * x e" for e
  proof -
    have "(?lo - ?hi) / ?range * e = - ((?hi - ?lo) * (e / ?range))" using assms(1) by (simp add: field_simps)
    then show ?thesis using assms(1) by (auto simp: timeout_cbf_def Let_def x_def max_def min_def field_simps)
  qed
  have x: "0 \<le> x e" "x e \<le> 1" for e by (simp_all add: x_def)
  have mono: "x d' \<le> x d" if "d' \<le> d" using divide_right_mono [OF that, of ?range] assms(1)
    unfolding x_def by (intro max.mono min.mono) auto
  have "(?hi - ?lo) * x d \<le> ?hi - ?lo" "0 \<le> (?hi - ?lo) * x d"
    using assms(2) mult_left_mono [OF x(2) [of d], of "?hi - ?lo"] x(1) [of d] by simp_all
  moreover have "(?hi - ?lo) * x d' \<le> (?hi - ?lo) * x d" if "d' \<le> d" using mono [OF that] assms(2) by (intro mult_left_mono) auto
  ultimately show ?thesis unfolding eq by auto
qed

theorem contention_timeout_witness:
  "timeout_cbf default_mib 500 \<le> timeout_cbf default_mib 200 \<and> timeout_cbf default_mib 500 \<ge> itsGnCbfMinTime default_mib"
proof -
  have "0 < itsGnDefaultMaxCommunicationRange default_mib" "itsGnCbfMinTime default_mib \<le> itsGnCbfMaxTime default_mib"
    by (simp_all add: default_mib_def)
  from contention_timeout [OF this, of 500 200] show ?thesis by simp
qed

section \<open>Runs of a router\<close>


lemma passed_up_verified:
  assumes "env_ok env" and "0 \<le> itsGnLifetimeLocTE (env_mib env)" and "list_all event_ok evs"
    and "itsGnSecurity (env_mib env)" and "itsGnSnDecapResultHandling (env_mib env) = Strict"
    and "router_events env evs (start_router env now gen addr entity protocols) = Inr r"
    and "(ind, packet) \<in> set (passed_up r)"
  shows "verified env (packet_conveys packet) ind"
proof -
  have "router_inv env r"
    using router_events_ok [OF assms(1,3) start_router_ok [OF assms(2), of entity now gen addr protocols]] assms(6)
    by (simp add: router_ok_def)
  then show ?thesis using assms(4,5,7) by (auto simp: router_inv_def strict_security_def list_all_iff)
qed

text \<open>
  C9: with security and strict handling of decapsulation results, every packet a router ever passes
  up comes from a message that its verify service accepted. The indication has the application and
  the permissions the service reported, and the packet is the payload of that message, if it
  was serialized, with a boundary after the network header.
\<close>

theorem strict_security_pass_up:
  assumes "env_ok env" and "0 \<le> itsGnLifetimeLocTE (env_mib env)" and "list_all event_ok evs"
    and "itsGnSecurity (env_mib env)" and "itsGnSnDecapResultHandling (env_mib env) = Strict"
    and "router_events env evs (start_router env now gen addr entity protocols) = Inr r"
    and "(ind, packet) \<in> set (passed_up r)"
  shows "\<exists>msg e confirm. fst (env_verify env msg e) = confirm \<and> vc_report confirm = Success
    \<and> gn_security_report ind = Some Success \<and> gn_its_aid ind = Some (vc_its_aid confirm)
    \<and> gn_permissions ind = Some (vc_permissions confirm)
    \<and> (\<forall>p. env_get_payload_copy env msg = Plain_Cohesive p \<longrightarrow> (\<exists>n. packet = Cohesive (set_boundary Network n p)))"
proof -
  from passed_up_verified [OF assms] obtain msg e where "packet_conveys packet (env_get_payload_copy env msg)"
    "vc_report (fst (env_verify env msg e)) = Success" "gn_security_report ind = Some Success"
    "gn_its_aid ind = Some (vc_its_aid (fst (env_verify env msg e)))"
    "gn_permissions ind = Some (vc_permissions (fst (env_verify env msg e)))" unfolding verified_def by blast
  moreover from this(1) have "\<exists>n. packet = Cohesive (set_boundary Network n p)"
    if "env_get_payload_copy env msg = Plain_Cohesive p" for p using that by simp
  ultimately show ?thesis by blast
qed

text \<open>
  C23: beaconing never stops: unless it is disabled, and as long as signing succeeds if security is on,
  the next beacon is scheduled after every sequence of events.
\<close>

theorem beacon_scheduled:
  assumes "env_ok env" and "0 \<le> itsGnLifetimeLocTE (env_mib env)" and "list_all event_ok evs"
    and "\<not> vanetzaDisableBeaconing (env_mib env)"
    and "itsGnSecurity (env_mib env) \<Longrightarrow> entity \<noteq> None \<and> (\<forall>req e. sign_secured_message (fst (env_sign env req e)) \<noteq> None)"
    and "router_events env evs (start_router env now gen addr entity protocols) = Inr r"
  shows "\<exists>t. beacon_timer r = Some t"
proof -
  have "beacon_pending (entity \<noteq> None) env r"
    using router_events_ok [OF assms(1,3) start_router_ok [OF assms(2), of entity now gen addr protocols]] assms(6)
    by (simp add: router_ok_def)
  then show ?thesis using assms(4,5) by (auto simp: beacon_pending_def beaconing_def)
qed


section \<open>From one router to another\<close>

lemma cohesive_network:
  "cohesive_layer (cohesive_packet frame Network) Network = frame"
  "n \<le> length frame \<Longrightarrow> cohesive_layer (set_boundary Network n (cohesive_packet frame Network)) Transport = drop n frame"
  "n \<le> length frame \<Longrightarrow> cohesive_size_range (set_boundary Network n (cohesive_packet frame Network)) Transport Application
     = length frame - n"
  by (simp_all add: cohesive_packet_def reset_iterators_def cohesive_layer_def cohesive_get_def set_boundary_def
      cohesive_size_range_def Let_def numeral_nat)

lemma flush_broadcast_empty:
  assumes "m_nodes (m_bc_forward_buffer r) = []"
  shows "\<exists>b. flush_broadcast_forwarding_buffer env r = Inr (r\<lparr>m_bc_forward_buffer := b\<rparr>)"
  using assms by (auto simp: flush_broadcast_forwarding_buffer_def buffer_flush_def)

lemma indicated_frame [simp]:
  "fst (process_extended_shb env pdu packet ll r)"
  "passed_up (snd (process_extended_shb env pdu packet ll r)) = passed_up r"
  "m_transport_ifcs (snd (process_extended_shb env pdu packet ll r)) = m_transport_ifcs r"
  by (simp_all add: process_extended_shb_def Let_def update_source_entry_def detect_duplicate_address_def case_prod_beta)

text \<open>
  The headers of a single-hop broadcast after its basic header, in a context that deserializes.
\<close>

lemma indicate_common_shb:
  assumes wf: "wf_common common" "wf_shb shb" "header_type common = TSB_Single_Hop"
    and "unat (payload common) = length pay" and "hop_limit basic \<le> maximum_hop_limit common"
    and "upper_protocol_of (next_header common) \<in> m_transport_ifcs r" and "m_nodes (m_bc_forward_buffer r) = []"
    and ctx: "ctx = Ctx_Deserialize pdu (cohesive_packet frame Network) parser
            \<or> ctx = Ctx_Secured_Deserialize pdu (cohesive_packet frame Network) parser"
    and parser: "parser = \<lparr>m_archive = \<lparr>stream = serialize_common common @ serialize_shb shb @ pay, error_code = Ok\<rparr>, m_read_bytes = n\<rparr>"
    and len: "length frame = n + 36 + length pay"
  shows "\<exists>r'. indicate_common env ll ind ctx basic r = Inr r' \<and> passed_up r' = passed_up r @
    [(ind\<lparr>gn_traffic_class := ch_traffic_class common, gn_upper_protocol := upper_protocol_of (next_header common),
        gn_transport_type := SHB, gn_source_position := spv_of_lpv (shb_source_position shb)\<rparr>,
      Cohesive (set_boundary Network (n + 36) (cohesive_packet frame Network)))]"
proof -
  have ext: "parse_extended TSB_Single_Hop \<lparr>m_archive = \<lparr>stream = serialize_shb shb @ pay, error_code = Ok\<rparr>, m_read_bytes = n + 8\<rparr>
      = ((28, Some (Shb_Header shb)), \<lparr>m_archive = \<lparr>stream = pay, error_code = Ok\<rparr>, m_read_bytes = n + 36\<rparr>)"
    using parse_extended_serialized [of "Shb_Header shb" TSB_Single_Hop pay Ok "n + 8"] wf(2)
    by (simp add: LongPositionVector_length_bytes_def)
  obtain b where flush: "flush_broadcast_forwarding_buffer env (r\<lparr>m_location_table := drop_expired (rt_clock r) (m_location_table r)\<rparr>)
      = Inr (r\<lparr>m_location_table := drop_expired (rt_clock r) (m_location_table r), m_bc_forward_buffer := b\<rparr>)"
    using flush_broadcast_empty [of "r\<lparr>m_location_table := drop_expired (rt_clock r) (m_location_table r)\<rparr>" env] assms(7) by auto
  have size: "cohesive_size_range (set_boundary Network (n + 36) (cohesive_packet frame Network)) Transport Application = length pay"
    using cohesive_network(3) [of "n + 36" frame] by (simp add: len)
  then have fin: "trim Transport (length pay) (set_boundary Network (n + 36) (cohesive_packet frame Network))
      = set_boundary Network (n + 36) (cohesive_packet frame Network)"
    by (simp add: trim_def)
  have "\<not> maximum_hop_limit common < hop_limit basic" using assms(5) by simp
  then show ?thesis using ctx
    by (elim disjE)
      (simp_all add: indicate_common_def parser parse_common_serialized [OF wf(1)] accepted_header_def with_common_def Let_def flush
        indicate_extended_def wf(3) ext with_extended_def parsed_bytes_def assms(4,6) fin size case_prod_beta pass_up_def)
qed

lemma parse_basic_frame:
  assumes "wf_basic basic" and "frame = serialize_basic basic @ rest"
  shows "context_parse_basic (context_deserialize (cohesive_packet frame Network)) = (Some basic,
    Ctx_Deserialize (variant_pdu\<lparr>pdu_basic := basic\<rparr>) (cohesive_packet frame Network)
      \<lparr>m_archive = \<lparr>stream = rest, error_code = Ok\<rparr>, m_read_bytes = 4\<rparr>)"
  using parse_basic_serialized [OF assms(1), of rest Ok 0]
  by (simp add: context_deserialize_def make_parser_def cohesive_network assms(2) accepted_header_def)

lemma indicate_shb:
  assumes wf: "wf_basic basic" "wf_common common" "wf_shb shb" "header_type common = TSB_Single_Hop"
    and "unat (payload common) = length pay" and "hop_limit basic \<le> maximum_hop_limit common"
    and "ucast (version basic) = itsGnProtocolVersion (env_mib env)" and "basic_next_header basic = Basic_Common"
    and "\<not> itsGnSecurity (env_mib env) \<or> itsGnSnDecapResultHandling (env_mib env) = Non_Strict"
    and "upper_protocol_of (next_header common) \<in> m_transport_ifcs r" and "m_nodes (m_bc_forward_buffer r) = []"
    and frame: "frame = serialize_basic basic @ serialize_common common @ serialize_shb shb @ pay"
  shows "\<exists>r'. router_indicate env (Up_Cohesive (cohesive_packet frame Network)) sender destination r = Inr r'
    \<and> passed_up r' = passed_up r @ [(data_indication\<lparr>gn_remaining_packet_lifetime := Some (lifetime basic),
         gn_remaining_hop_limit := Some (ucast (hop_limit basic)), gn_security_report := None,
         gn_traffic_class := ch_traffic_class common,
         gn_upper_protocol := upper_protocol_of (next_header common), gn_transport_type := SHB,
         gn_source_position := spv_of_lpv (shb_source_position shb)\<rparr>,
       Cohesive (set_boundary Network 40 (cohesive_packet frame Network)))]"
proof -
  have len: "length frame = 40 + length pay"
    using length_serialize_header [of "Shb_Header shb"]
    by (simp add: frame basic_codec.ser_length common_codec.ser_length header_lengths LongPositionVector_length_bytes_def)
  show ?thesis
    using assms(7-9) indicate_common_shb [OF wf(2-4) assms(5,6,10,11) disjI1 [OF refl] refl, of frame 4, simplified len]
    by (simp add: indicate_basic_def parse_basic_frame [OF wf(1) frame] Let_def)
qed

lemma indicate_secured_shb:
  assumes wf: "wf_basic basic" "wf_common common" "wf_shb shb" "header_type common = TSB_Single_Hop"
    and "unat (payload common) = length pay" and "hop_limit basic \<le> maximum_hop_limit common"
    and "ucast (version basic) = itsGnProtocolVersion (env_mib env)" and "basic_next_header basic = Basic_Secured"
    and "upper_protocol_of (next_header common) \<in> m_transport_ifcs r" and "m_nodes (m_bc_forward_buffer r) = []"
    and "parse_secured (env_v2_deserialize env) (env_v3_deserialize env)
           \<lparr>m_archive = \<lparr>stream = message, error_code = Ok\<rparr>, m_read_bytes = 4\<rparr> = ((Suc k, Some msg), parser)"
    and "m_security_entity r = Some e" and "vc_report (fst (env_verify env msg e)) = Success"
    and "env_get_payload_copy env msg = Plain_Cohesive (cohesive_packet plain Network)"
    and plain: "plain = serialize_common common @ serialize_shb shb @ pay"
  shows "\<exists>r' ind. router_indicate env (Up_Cohesive (cohesive_packet (serialize_basic basic @ message) Network)) sender destination r = Inr r'
    \<and> passed_up r' = passed_up r @ [(ind, Cohesive (set_boundary Network 36 (cohesive_packet plain Network)))]"
proof -
  have len: "length plain = 0 + 36 + length pay"
    using length_serialize_header [of "Shb_Header shb"]
    by (simp add: plain common_codec.ser_length header_lengths LongPositionVector_length_bytes_def)
  have common: "\<exists>r'. indicate_common env ll ind (context_secured_deserialize ctx (cohesive_packet plain Network)) basic
        (r\<lparr>m_security_entity := x\<rparr>) = Inr r'
      \<and> (\<exists>ind'. passed_up r' = passed_up r @ [(ind', Cohesive (set_boundary Network 36 (cohesive_packet plain Network)))])"
    for ll ind ctx x
    using indicate_common_shb [OF wf(2-4) assms(5,6), of "r\<lparr>m_security_entity := x\<rparr>"
        "context_secured_deserialize ctx (cohesive_packet plain Network)" "context_pdu ctx" plain
        "make_parser plain" 0 env ll ind] assms(9,10) len
    by (auto simp: context_secured_deserialize_def cohesive_network make_parser_def plain)
  show ?thesis
    using common assms(7,8,12-14)
    by (simp add: indicate_basic_def parse_basic_frame [OF wf(1) refl] Let_def indicate_secured_def assms(11) accepted_header_def
        decapsulate_packet_def decap_confirm_from_def case_prod_beta)
qed

lemma reset_frame: "passed_down (reset_beacon_timer env (r\<lparr>passed_down := xs\<rparr>)) = xs"
  by (simp add: reset_beacon_timer_def reset_beacon_timer_in_def split: prod.split)

text \<open>What a router without security sends for a single-hop broadcast.\<close>

definition plain_shb :: "MIB \<Rightarrow> DataRequest \<Rightarrow> CommonHeader \<Rightarrow> ShbHeader \<Rightarrow> ChunkPacket \<Rightarrow> 'sec Pdu" where
  "plain_shb mib req common shb p = \<lparr>pdu_basic = (basic_header_request req mib)\<lparr>hop_limit := 1\<rparr>,
     pdu_common = common\<lparr>header_type := TSB_Single_Hop, maximum_hop_limit := 1, payload := of_nat (chunk_size p)\<rparr>,
     pdu_secured = None, pdu_extended = Shb_Header shb\<rparr>"

lemma request_shb_plain:
  fixes env :: "('sec, 'e, 'r) RouterEnv"
  assumes "\<not> itsGnSecurity (env_mib env)" and "common_header_request req (env_mib env) = Some common"
    and "\<not> store_carry_forward (req_traffic_class req) \<or> has_neighbours (rt_clock r) (m_location_table r)"
    and "validate_data_request req (env_mib env) = Accepted" "validate_payload (Some p) (env_mib env) = Accepted" "repetition req = None"
  shows "\<exists>sent rq. request_shb env req (Some p) r = Inr (Accepted, sent)
    \<and> passed_down sent = passed_down r @ [(rq, plain_shb (env_mib env) req common
        \<lparr>shb_source_position = m_local_position_vector r, shb_dcc = m_dcc_field r\<rparr> p, p)]
    \<and> dr_destination rq = cBroadcastMacAddress"
proof -
  define pdu :: "'sec Pdu" where "pdu = plain_shb (env_mib env) req common
    \<lparr>shb_source_position = m_local_position_vector r, shb_dcc = m_dcc_field r\<rparr> p"
  obtain rq where rq: "pass_down cBroadcastMacAddress pdu p r = Inr (r\<lparr>passed_down := passed_down r @ [(rq, pdu, p)]\<rparr>)"
    "dr_destination rq = cBroadcastMacAddress"
    using assms(1) by (simp add: pass_down_def pass_down_request_simps pdu_def plain_shb_def basic_header_request_def)
  then have "request_shb env req (Some p) r = Inr (Accepted, reset_beacon_timer env (r\<lparr>passed_down := passed_down r @ [(rq, pdu, p)]\<rparr>))"
    using assms
    by (auto simp: request_shb_def confirm_xor_def Let_def set_up_repetition_def create_shb_pdu_def or_throw_def store_or_process_def
        pending_process_def shb_transmit_def source_transmit_def set_payload_def shb_set_source_def pdu_def plain_shb_def pdu_of_extended_def)
  then show ?thesis using rq(2) reset_frame by (auto simp: pdu_def)
qed

lemma plain_shb_wire:
  assumes "common_header_request req mib = Some common" and "wf_address (gn_addr (shb_source_position shb))"
    and pdu_def: "pdu = plain_shb mib req common shb p" and air_def: "air = shb\<lparr>shb_dcc := Dcc_Raw (dcc_field_raw (shb_dcc shb))\<rparr>"
  shows "wf_basic (pdu_basic pdu)" and "wf_common (pdu_common pdu)" and "wf_shb air"
    and "serialize_pdu ser pdu = serialize_basic (pdu_basic pdu) @ serialize_common (pdu_common pdu) @ serialize_shb air"
    and "length (serialize_pdu ser pdu) = 40"
    and "upper_protocol_of (next_header (pdu_common pdu)) = upper_protocol req"
    and "ch_traffic_class (pdu_common pdu) = req_traffic_class req"
proof -
  have "wf_common common" using wf_common_header_request(1) [OF assms(1)] .
  then show "wf_basic (pdu_basic pdu)" "wf_common (pdu_common pdu)" "wf_shb air"
    using wf_basic_header_request(1) [of req mib] assms(2)
    by (auto simp: pdu_def plain_shb_def air_def wf_shb_def wf_lpv_def wf_basic_def wf_common_def header_type_cast_def)
  show "serialize_pdu ser pdu = serialize_basic (pdu_basic pdu) @ serialize_common (pdu_common pdu) @ serialize_shb air"
    by (simp add: serialize_pdu_def pdu_def plain_shb_def air_def serialize_shb_def serialize_dcc_field_def)
  show "length (serialize_pdu ser pdu) = 40"
    using length_serialize_header [of "Shb_Header shb"]
    by (simp add: serialize_pdu_def pdu_def plain_shb_def basic_codec.ser_length common_codec.ser_length header_lengths
        LongPositionVector_length_bytes_def)
  show "upper_protocol_of (next_header (pdu_common pdu)) = upper_protocol req"
    "ch_traffic_class (pdu_common pdu) = req_traffic_class req"
    using assms(1) by (cases "upper_protocol req"; auto simp: pdu_def plain_shb_def common_header_request_def)+
qed

lemma version_fits: "v < 16 \<Longrightarrow> ucast (bit_number v :: 4 word) = (v :: u32)"
proof -
  assume "v < 16"
  then have "unat v < 2 ^ 4" by (simp add: word_less_nat_alt)
  then show ?thesis
    by (intro word_unat_eq_iff [THEN iffD2]) (simp add: bit_number_def unsigned_ucast_eq unsigned_take_bit_eq take_bit_nat_eq_self)
qed


section \<open>Witnesses\<close>

text \<open>A plaintext: the headers of a single-hop broadcast of BTP-B and four octets of payload.\<close>

definition sample_position :: LongPositionVector where
  "sample_position = zero_position_vector\<lparr>gn_addr := address_of_mac (MacAddress 1 2 3 4 5 6), timestamp := 1000, latitude := 10\<rparr>"

definition sample_common :: CommonHeader where
  "sample_common = (common_header_mib default_mib)\<lparr>next_header := Common_BTP_B, header_type := TSB_Single_Hop,
     payload := 4, maximum_hop_limit := 1\<rparr>"

definition sample_plaintext :: "byte list" where
  "sample_plaintext = serialize_common sample_common
     @ serialize_shb \<lparr>shb_source_position = sample_position, shb_dcc = Dcc_Raw 0\<rparr> @ [7, 209, 0, 0]"

definition sample_env :: "MIB \<Rightarrow> bool \<Rightarrow> (unit, unit, unit) RouterEnv" where
  "sample_env mib signs = \<lparr>env_mib = mib, env_distance = (\<lambda>p q. \<bar>geo_latitude p - geo_latitude q\<bar>),
     env_local_cartesian = (\<lambda>_ _. \<lparr>pos_x = 0, pos_y = 0\<rparr>), env_get_size = (\<lambda>_. 0),
     env_v2_deserialize = (\<lambda>ar. (None, ar)), env_v3_deserialize = (\<lambda>ar. (Some (1, ()), ar)),
     env_sign = (\<lambda>_ e. (if signs then sign_success () else sign_failure No_Certificate, e)),
     env_verify = (\<lambda>_ e. (\<lparr>vc_report = Success, vc_its_aid = 36, vc_permissions = [], vc_certificate_validity = None,
        vc_certificate_id = None\<rparr>, e)),
     env_get_payload_copy = (\<lambda>_. Plain_Cohesive (cohesive_packet sample_plaintext Network)),
     env_jitter = (\<lambda>g. (0, g)), env_octet = (\<lambda>g. (0, g)),
     env_push_back = (\<lambda>n xs x. drop (Suc (length xs) - n) (xs @ [x]))\<rparr>"

definition sample_address :: Address where
  "sample_address = address_of_mac (MacAddress 2 0 0 0 0 1)"

definition sample_payload :: ChunkPacket where
  "sample_payload = (\<lambda>l. if l = Transport then [7, 209, 0, 0] else [])"

definition sample_link :: LinkLayer where
  "sample_link = \<lparr>ll_sender = MacAddress 1 2 3 4 5 6, ll_destination = cBroadcastMacAddress\<rparr>"

definition sample_gbc :: "unit GbcPdu" where
  "sample_gbc = \<lparr>ep_basic = (basic_header_mib default_mib)\<lparr>basic_next_header := Basic_Common, hop_limit := 2\<rparr>,
     ep_common = sample_common\<lparr>header_type := GeoBroadcast_Circle, maximum_hop_limit := 10\<rparr>, ep_secured = None,
     ep_extended = gbc_header_default\<lparr>gbc_source_position := sample_position, distance_a := 100\<rparr>\<rparr>"

definition secure_mib :: MIB where
  "secure_mib = default_mib\<lparr>itsGnSecurity := True, itsGnSnDecapResultHandling := Strict\<rparr>"

definition secured_frame :: "byte list" where
  "secured_frame = serialize_basic ((basic_header_mib secure_mib)\<lparr>basic_next_header := Basic_Secured, hop_limit := 1\<rparr>) @ [3]"

abbreviation "plain_env \<equiv> sample_env default_mib True"

abbreviation "secure_env \<equiv> sample_env secure_mib True"

abbreviation "simple_env \<equiv> sample_env (default_mib\<lparr>itsGnAreaForwardingAlgorithm := Broadcast_SIMPLE\<rparr>) True"

lemma sample_env_ok [simp]: "env_ok (sample_env mib signs)"
  by (simp add: env_ok_def sample_env_def)

lemma sample_env_mib [simp]: "env_mib (sample_env mib signs) = mib"
  by (simp add: sample_env_def)

lemma sample_lifetime [simp]: "0 \<le> itsGnLifetimeLocTE default_mib" "0 \<le> itsGnLifetimeLocTE secure_mib"
  by (simp_all add: default_mib_def secure_mib_def)

lemma start_router_fields [simp]:
  "m_nodes (m_bc_forward_buffer (start_router env now gen addr entity ps)) = []"
  "m_nodes (m_uc_forward_buffer (start_router env now gen addr entity ps)) = []"
  "m_transport_ifcs (start_router env now gen addr entity ps) = set ps"
  "m_security_entity (start_router env now gen addr entity ps) = entity"
  "passed_up (start_router env now gen addr entity ps) = []"
  "passed_down (start_router env now gen addr entity ps) = []"
  "m_local_position_vector (start_router env now gen addr entity ps) = zero_position_vector\<lparr>gn_addr := addr\<rparr>"
  "rt_clock (start_router env now gen addr entity ps) = now"
  unfolding start_router_def
  by (induction ps; simp add: set_transport_handler_def set_security_entity_def set_address_def make_router_def Let_def
      reset_beacon_timer_in_def packet_buffer_def case_prod_beta)+

lemma sample_gbc_processed:
  assumes "router_ok False (sample_env mib True) r"
  shows "\<exists>up r'. process_extended_gbc (sample_env mib True) sample_gbc (Chunk sample_payload) sample_link r = Inr (up, r')"
proof -
  have pdu: "sample_gbc = extended_pdu (pdu_of_extended Gbc_Header sample_gbc) (ep_extended sample_gbc)"
    by (simp add: extended_pdu_def pdu_of_extended_def)
  obtain area where "gbc_destination (ep_extended sample_gbc) (header_type (pdu_common (pdu_of_extended Gbc_Header sample_gbc))) = Some area"
    by (simp add: sample_gbc_def gbc_destination_def gbc_shape_def pdu_of_extended_def)
  from process_extended_gbc_ok [OF assms _ this, of "Chunk sample_payload" sample_link, folded pdu] show ?thesis
    by (auto simp: returns_def received_ok_def pdu_of_extended_def sample_gbc_def)
qed


theorem gbc_duplicate_discarded_witness:
  "\<exists>up r1 r3. process_extended_gbc simple_env sample_gbc (Chunk sample_payload) sample_link
      (start_router simple_env 0 () sample_address None []) = Inr (up, r1)
    \<and> process_extended_gbc simple_env sample_gbc (Chunk sample_payload) sample_link (r1\<lparr>rt_clock := 5\<rparr>) = Inr (False, r3)
    \<and> passed_down r3 = passed_down r1 \<and> passed_up r3 = passed_up r1"
proof -
  let ?r = "start_router simple_env 0 () sample_address None []"
  have ok: "router_ok False simple_env ?r"
    using start_router_ok [of simple_env None 0 "()" sample_address "[]"] by (simp add: default_mib_def)
  then obtain up r1 where run: "process_extended_gbc simple_env sample_gbc (Chunk sample_payload) sample_link ?r = Inr (up, r1)"
    using sample_gbc_processed by blast
  have inv: "router_inv simple_env ?r" using ok by (simp add: router_ok_def)
  have push: "circular (env_push_back simple_env)"
    by (auto simp: circular_def sample_env_def drop_Suc Suc_diff_le)
  obtain area where area: "gbc_destination (ep_extended sample_gbc) (header_type (ep_common sample_gbc)) = Some area"
    by (simp add: sample_gbc_def gbc_destination_def gbc_shape_def)
  have "\<exists>r3. process_extended_gbc simple_env sample_gbc (Chunk sample_payload) sample_link (r1\<lparr>rt_clock := 5\<rparr>) = Inr (False, r3)
      \<and> passed_down r3 = passed_down (r1\<lparr>rt_clock := 5\<rparr>) \<and> m_bc_forward_buffer r3 = m_bc_forward_buffer (r1\<lparr>rt_clock := 5\<rparr>)
      \<and> m_cbf_buffer r3 = m_cbf_buffer (r1\<lparr>rt_clock := 5\<rparr>) \<and> passed_up r3 = passed_up (r1\<lparr>rt_clock := 5\<rparr>)"
    by (rule gbc_duplicate_discarded [OF inv push _ _ _ run _ _ area]) (simp_all add: default_mib_def detects_duplicates_def)
  with run show ?thesis by auto
qed


theorem strict_security_pass_up_witness:
  "\<exists>r ind packet. router_events secure_env [Indication (Up_Cohesive (cohesive_packet secured_frame Network)) mac_zero mac_zero]
      (start_router secure_env 0 () sample_address (Some ()) [BTP_B]) = Inr r
    \<and> passed_up r = [(ind, packet)] \<and> gn_security_report ind = Some Success"
proof -
  let ?r = "start_router secure_env 0 () sample_address (Some ()) [BTP_B]"
  let ?basic = "(basic_header_mib secure_mib)\<lparr>basic_next_header := Basic_Secured, hop_limit := 1\<rparr>"
  let ?shb = "\<lparr>shb_source_position = sample_position, shb_dcc = Dcc_Raw 0\<rparr>"
  have wf: "wf_basic ?basic" "wf_common sample_common" "wf_shb ?shb"
    by (simp_all add: wf_basic_def next_header_basic_cast_def wf_common_def sample_common_def next_header_common_cast_def
        header_type_cast_def wf_shb_def wf_lpv_def sample_position_def wf_address_def wf_station_type_def address_of_mac_def station_type_cast_def)
  have parse: "parse_secured (env_v2_deserialize secure_env) (env_v3_deserialize secure_env)
      \<lparr>m_archive = \<lparr>stream = [3], error_code = Ok\<rparr>, m_read_bytes = 4\<rparr> = ((Suc 0, Some ()),
        \<lparr>m_archive = \<lparr>stream = [3], error_code = Ok\<rparr>, m_read_bytes = 5\<rparr>)"
    by (simp add: parse_secured_def sample_env_def is_good_def peek_byte_def)
  obtain r' ind packet where run: "router_indicate secure_env (Up_Cohesive (cohesive_packet secured_frame Network)) mac_zero mac_zero ?r = Inr r'"
    "passed_up r' = [(ind, packet)]"
    using indicate_secured_shb [OF wf _ _ _ _ _ _ _ parse, of "[7, 209, 0, 0]" ?r "()" sample_plaintext mac_zero mac_zero]
    by (auto simp: secured_frame_def sample_plaintext_def sample_common_def common_header_mib_def basic_header_mib_def sample_env_def
        secure_mib_def default_mib_def bit_number_def)
  have "\<exists>msg e confirm. fst (env_verify secure_env msg e) = confirm \<and> vc_report confirm = Success
    \<and> gn_security_report ind = Some Success \<and> gn_its_aid ind = Some (vc_its_aid confirm)
    \<and> gn_permissions ind = Some (vc_permissions confirm)
    \<and> (\<forall>p. env_get_payload_copy secure_env msg = Plain_Cohesive p \<longrightarrow> (\<exists>n. packet = Cohesive (set_boundary Network n p)))"
    by (rule strict_security_pass_up [of secure_env "[Indication (Up_Cohesive (cohesive_packet secured_frame Network)) mac_zero mac_zero]"
          0 "()" sample_address "Some ()" "[BTP_B]" r' ind packet])
      (use run in \<open>simp_all add: secure_mib_def\<close>)
  with run show ?thesis by auto
qed

theorem beacon_scheduled_witness:
  "\<exists>r t. router_events secure_env [Clock_Advances 10, Position \<lparr>pf_latitude = 48, pf_longitude = 11, pf_semi_major = None, pf_course = 0,
       pf_speed = 0\<rparr>, Beacon_Due] (start_router secure_env 0 () sample_address (Some ()) []) = Inr r \<and> beacon_timer r = Some t"
proof -
  let ?evs = "[Clock_Advances 10, Position \<lparr>pf_latitude = 48, pf_longitude = 11, pf_semi_major = None, pf_course = 0,
       pf_speed = 0\<rparr>, Beacon_Due] :: unit router_event list"
  let ?r = "start_router secure_env 0 () sample_address (Some ()) []"
  have "returns (router_ok True secure_env) (router_events secure_env ?evs ?r)"
    using start_router_ok [of secure_env "Some ()" 0 "()" sample_address "[]"] by (intro router_events_ok) simp_all
  then obtain r where r: "router_events secure_env ?evs ?r = Inr r" by (auto simp: returns_def)
  have "\<exists>t. beacon_timer r = Some t"
    by (rule beacon_scheduled [OF _ _ _ _ _ r])
      (simp_all add: secure_mib_def default_mib_def sample_env_def sign_success_def env_ok_def)
  with r show ?thesis by blast
qed



end
