(* ===== verification/Secured_Messages.thy ===== *)
theory Secured_Messages
  imports Hybrid_Certificates Security_Entity
begin

text \<open>
  Secured messages of the present protocol generation (\<^verbatim>\<open>security/v3/secured_message.*\<close>,
  \<^verbatim>\<open>security/v3/asn1_conversions.*\<close>, \<^verbatim>\<open>security/ecc_point.*\<close>) and the variant over both
  generations (\<^verbatim>\<open>security/secured_message.*\<close>).

  The ASN.1 structures are datatypes and records with the names of the generated ones; a pointer to
  an optional member is an option. Members the decoder always fills (\<^verbatim>\<open>content\<close>,
  \<^verbatim>\<open>tbsData\<close>, \<^verbatim>\<open>payload\<close>) are never null; identifiers have the length of their type.
  The codec of messages is a parameter, like that of certificates. Operations that assert the kind
  of a message leave messages of another kind alone here. Messages of the older generation are
  a type parameter, together with their operations.
\<close>

section \<open>Structure\<close>

record ThreeDLocation =
  td_latitude :: int
  td_longitude :: int
  td_elevation :: int

text \<open>The header fields that no code reads are kept as their encodings.\<close>

record HeaderInfo =
  hi_psid :: u64
  generationTime :: "u64 option"
  expiryTime :: "u64 option"
  generationLocation :: "ThreeDLocation option"
  p2pcdLearningRequest :: "HashedId3 option"
  inlineP2pcdRequest :: "HashedId3 list option"
  requestedCertificate :: "Certificate option"
  other_header_fields :: octets

datatype SignerIdentifier =
  Signer_NOTHING | Signer_digest HashedId8 | Signer_certificate "Certificate list" | Signer_self

datatype HashedData =
  HashedData_NOTHING | Sha256HashedData octets | Sha384HashedData octets | Sm3HashedData octets

record EciesP256EncryptedKey =
  ecies_v :: EccCurvePoint
  ecies_c :: octets
  ecies_t :: octets

datatype EncryptedDataEncryptionKey =
  EncDataKey_NOTHING | EncDataKey_EciesNistP256 EciesP256EncryptedKey
| EncDataKey_EciesBrainpoolP256r1 EciesP256EncryptedKey | EncDataKey_EcencSm2 octets

record PKRecipientInfo =
  recipientId :: HashedId8
  recip_encKey :: EncryptedDataEncryptionKey

datatype RecipientInfo =
  RecipientInfo_NOTHING | PskRecipInfo HashedId8 | SymmRecipInfo octets | CertRecipInfo PKRecipientInfo
| SignedDataRecipInfo PKRecipientInfo | RekRecipInfo PKRecipientInfo

record AesCcmCiphertext =
  ccm_nonce :: octets
  ccmCiphertext :: octets

datatype SymmetricCiphertext = Ciphertext_NOTHING | Aes128ccm AesCcmCiphertext | Sm4ccm AesCcmCiphertext

record EncryptedData =
  recipients :: "RecipientInfo list"
  ciphertext :: SymmetricCiphertext

text \<open>A hash identifier is \<open>None\<close> if its number names no algorithm.\<close>

datatype Ieee1609Dot2Data = Ieee1609Dot2Data (protocolVersion: u8) (data_content: Ieee1609Dot2Content)
and Ieee1609Dot2Content =
  Content_NOTHING | UnsecuredData octets | SignedContent SignedData | EncryptedContent EncryptedData
| SignedCertificateRequest octets | SignedX509CertificateRequest octets
and SignedData = SignedData (hashId: "Asn1HashAlgorithm option") (tbsData: ToBeSignedData)
  (signer: SignerIdentifier) (sd_signature: Asn1Signature)
and ToBeSignedData = ToBeSignedData (tbs_payload: SignedDataPayload) (headerInfo: HeaderInfo)
and SignedDataPayload = SignedDataPayload (payload_data: "Ieee1609Dot2Data option")
  (extDataHash: "HashedData option") (payload_omitted: bool)

type_synonym SecuredMessage = Ieee1609Dot2Data

text \<open>The asn1c codec: \<open>None\<close> is a failed encoding (an exception) or decoding.\<close>

record MessageCodec =
  encode_msg :: "SecuredMessage \<Rightarrow> octets option"
  decode_msg :: "octets \<Rightarrow> SecuredMessage option"
  encode_tbs_data :: "ToBeSignedData \<Rightarrow> octets option"
  encode_aes_key :: "octets \<Rightarrow> octets option"

definition message_codec_ok :: "MessageCodec \<Rightarrow> bool" where
  "message_codec_ok mc \<longleftrightarrow> (\<forall>m b. encode_msg mc m = Some b \<longrightarrow> decode_msg mc b = Some m)"

section \<open>Points\<close>

datatype EccPoint = X_Coordinate_Only octets | Compressed_Lsb_Y_0 octets | Compressed_Lsb_Y_1 octets
| Uncompressed octets octets

record EcdsaSignature =
  ecdsa_R :: EccPoint
  ecdsa_s :: octets

fun to_asn1 :: "EccPoint \<Rightarrow> EccCurvePoint" where
  "to_asn1 (X_Coordinate_Only x) = X_only x"
| "to_asn1 (Compressed_Lsb_Y_0 x) = Compressed_y_0 x"
| "to_asn1 (Compressed_Lsb_Y_1 x) = Compressed_y_1 x"
| "to_asn1 (Uncompressed x y) = Uncompressed_point x y"

fun convert_for_signing :: "EccPoint \<Rightarrow> octets" where
  "convert_for_signing (X_Coordinate_Only x) = x"
| "convert_for_signing (Compressed_Lsb_Y_0 x) = x"
| "convert_for_signing (Compressed_Lsb_Y_1 x) = x"
| "convert_for_signing (Uncompressed x y) = x"

fun point_length :: "EccPoint \<Rightarrow> nat" where
  "point_length (X_Coordinate_Only x) = length x"
| "point_length (Compressed_Lsb_Y_0 x) = length x"
| "point_length (Compressed_Lsb_Y_1 x) = length x"
| "point_length (Uncompressed x y) = length x + length y"

definition compress_public_key :: "PublicKey \<Rightarrow> EccPoint" where
  "compress_public_key key =
     (case pk_compression key of
        NoCompression \<Rightarrow>
          if pk_y key \<noteq> [] \<and> odd (unat (last (pk_y key))) then Compressed_Lsb_Y_1 (pk_x key)
          else Compressed_Lsb_Y_0 (pk_x key)
      | Y0 \<Rightarrow> Compressed_Lsb_Y_0 (pk_x key)
      | Y1 \<Rightarrow> Compressed_Lsb_Y_1 (pk_x key))"

definition make_ecc_point :: "PublicKey \<Rightarrow> EccPoint" where
  "make_ecc_point key =
     (case pk_compression key of
        NoCompression \<Rightarrow> Uncompressed (pk_x key) (pk_y key)
      | Y0 \<Rightarrow> Compressed_Lsb_Y_0 (pk_x key)
      | Y1 \<Rightarrow> Compressed_Lsb_Y_1 (pk_x key))"

section \<open>Construction\<close>

definition empty_header_info :: HeaderInfo where
  "empty_header_info = \<lparr>hi_psid = 0, generationTime = None, expiryTime = None, generationLocation = None,
     p2pcdLearningRequest = None, inlineP2pcdRequest = None, requestedCertificate = None, other_header_fields = []\<rparr>"

text \<open>Structures are allocated with zeros: hash algorithm zero is SHA-256, choices are absent.\<close>

definition signed_data_with :: "SignedDataPayload \<Rightarrow> SecuredMessage" where
  "signed_data_with p = Ieee1609Dot2Data 3 (SignedContent
     (SignedData (Some Asn1_sha256) (ToBeSignedData p empty_header_info) Signer_NOTHING Signature_NOTHING))"

definition with_signed_data :: SecuredMessage where
  "with_signed_data = signed_data_with
     (SignedDataPayload (Some (Ieee1609Dot2Data 3 (UnsecuredData []))) None False)"

definition with_signed_data_hash :: SecuredMessage where
  "with_signed_data_hash = signed_data_with (SignedDataPayload None (Some (Sha256HashedData [])) False)"

definition with_encrypted_data :: SecuredMessage where
  "with_encrypted_data = Ieee1609Dot2Data 3 (EncryptedContent \<lparr>recipients = [], ciphertext = Ciphertext_NOTHING\<rparr>)"

section \<open>Access to signed data\<close>

definition protocol_version :: "SecuredMessage \<Rightarrow> u8" where
  "protocol_version msg = protocolVersion msg"

definition is_signed :: "SecuredMessage \<Rightarrow> bool" where
  "is_signed msg = (case data_content msg of SignedContent _ \<Rightarrow> True | _ \<Rightarrow> False)"

definition is_encrypted :: "SecuredMessage \<Rightarrow> bool" where
  "is_encrypted msg = (case data_content msg of EncryptedContent _ \<Rightarrow> True | _ \<Rightarrow> False)"

definition get_signed_data :: "SecuredMessage \<Rightarrow> SignedData option" where
  "get_signed_data msg = (case data_content msg of SignedContent sd \<Rightarrow> Some sd | _ \<Rightarrow> None)"

definition get_header_info :: "SecuredMessage \<Rightarrow> HeaderInfo option" where
  "get_header_info msg = map_option (\<lambda>sd. headerInfo (tbsData sd)) (get_signed_data msg)"

definition on_signed_data :: "(SignedData \<Rightarrow> SignedData) \<Rightarrow> SecuredMessage \<Rightarrow> SecuredMessage" where
  "on_signed_data f msg =
     (case data_content msg of
        SignedContent sd \<Rightarrow> Ieee1609Dot2Data (protocolVersion msg) (SignedContent (f sd))
      | _ \<Rightarrow> msg)"

definition on_header_info :: "(HeaderInfo \<Rightarrow> HeaderInfo) \<Rightarrow> SecuredMessage \<Rightarrow> SecuredMessage" where
  "on_header_info f = on_signed_data (\<lambda>sd. SignedData (hashId sd)
     (ToBeSignedData (tbs_payload (tbsData sd)) (f (headerInfo (tbsData sd)))) (signer sd) (sd_signature sd))"

definition make_hashed_id8 :: "octets \<Rightarrow> HashedId8" where
  "make_hashed_id8 asn = take 8 asn"

definition create_hashed_id3 :: "octets \<Rightarrow> HashedId3" where
  "create_hashed_id3 asn = take 3 asn"

text \<open>
  \<^verbatim>\<open>convert\<close> copies into an array that is not initialized: \<open>uninit\<close> are the octets it happens to
  hold. An identifier of eight octets overwrites them all.
\<close>

definition convert_id :: "octets \<Rightarrow> octets \<Rightarrow> HashedId8" where
  "convert_id uninit asn = take 8 asn @ drop (length asn) (take 8 uninit)"

section \<open>Header fields\<close>

text \<open>An application identifier of a message has 64 bits, the stack keeps 32 of them.\<close>

definition its_aid :: "SecuredMessage \<Rightarrow> ItsAid" where
  "its_aid msg = (case get_header_info msg of None \<Rightarrow> 0 | Some h \<Rightarrow> ucast (hi_psid h))"

definition set_its_aid :: "ItsAid \<Rightarrow> SecuredMessage \<Rightarrow> SecuredMessage" where
  "set_its_aid aid = on_header_info (\<lambda>h. h\<lparr>hi_psid := ucast aid\<rparr>)"

definition generation_time :: "SecuredMessage \<Rightarrow> u64 option" where
  "generation_time msg = Option.bind (get_header_info msg) generationTime"

definition set_generation_time :: "u64 \<Rightarrow> SecuredMessage \<Rightarrow> SecuredMessage" where
  "set_generation_time time = on_header_info (\<lambda>h. h\<lparr>generationTime := Some time\<rparr>)"

definition set_generation_location :: "ThreeDLocation \<Rightarrow> SecuredMessage \<Rightarrow> SecuredMessage" where
  "set_generation_location location = on_header_info (\<lambda>h. h\<lparr>generationLocation := Some location\<rparr>)"

definition get_inline_p2pcd_request :: "octets \<Rightarrow> SecuredMessage \<Rightarrow> HashedId3 list" where
  "get_inline_p2pcd_request uninit msg =
     (case Option.bind (get_header_info msg) inlineP2pcdRequest of
        None \<Rightarrow> []
      | Some requests \<Rightarrow> map (\<lambda>r. truncate_hashed_id (convert_id uninit r)) requests)"

definition add_inline_p2pcd_request :: "HashedId3 \<Rightarrow> SecuredMessage \<Rightarrow> SecuredMessage" where
  "add_inline_p2pcd_request digest = on_header_info (\<lambda>h. h\<lparr>inlineP2pcdRequest :=
     Some ((case inlineP2pcdRequest h of None \<Rightarrow> [] | Some requests \<Rightarrow> requests) @ [digest])\<rparr>)"

definition set_inline_p2pcd_request :: "HashedId3 list \<Rightarrow> SecuredMessage \<Rightarrow> SecuredMessage" where
  "set_inline_p2pcd_request requests msg =
     fold add_inline_p2pcd_request requests
       (on_header_info (\<lambda>h. h\<lparr>inlineP2pcdRequest := map_option (\<lambda>_. []) (inlineP2pcdRequest h)\<rparr>) msg)"

definition set_requested_certificate :: "Asn1Codec \<Rightarrow> Certificate \<Rightarrow> SecuredMessage \<Rightarrow> cert_exception + SecuredMessage" where
  "set_requested_certificate asn cert msg =
     (if is_signed msg then
        ebind (or_throw (Runtime_error ''copy failed'') (asn1_copy asn cert)) (\<lambda>copy.
          Inr (on_header_info (\<lambda>h. h\<lparr>requestedCertificate := Some copy\<rparr>) msg))
      else Inr msg)"

section \<open>Hash algorithm and signature\<close>

definition hash_id :: "SecuredMessage \<Rightarrow> HashAlgorithm" where
  "hash_id msg =
     (case get_signed_data msg of
        None \<Rightarrow> Hash_Unspecified
      | Some sd \<Rightarrow>
          (case hashId sd of Some Asn1_sha256 \<Rightarrow> SHA256 | Some Asn1_sha384 \<Rightarrow> SHA384 | _ \<Rightarrow> Hash_Unspecified))"

definition set_hash_id :: "HashAlgorithm \<Rightarrow> SecuredMessage \<Rightarrow> SecuredMessage" where
  "set_hash_id hash = on_signed_data (\<lambda>sd. SignedData
     (case hash of SHA256 \<Rightarrow> Some Asn1_sha256 | SHA384 \<Rightarrow> Some Asn1_sha384 | Hash_Unspecified \<Rightarrow> None)
     (tbsData sd) (signer sd) (sd_signature sd))"

definition put_signature :: "Asn1Signature \<Rightarrow> SecuredMessage \<Rightarrow> SecuredMessage" where
  "put_signature sig = on_signed_data (\<lambda>sd. SignedData (hashId sd) (tbsData sd) (signer sd) sig)"

definition set_dummy_signature :: "SecuredMessage \<Rightarrow> SecuredMessage" where
  "set_dummy_signature = put_signature (EcdsaNistP256Signature (X_only (replicate 32 0)) (replicate 32 0))"

definition set_signature :: "Signature \<Rightarrow> SecuredMessage \<Rightarrow> SecuredMessage" where
  "set_signature sig msg =
     (case sig_type sig of
        NistP256 \<Rightarrow> put_signature (EcdsaNistP256Signature (X_only (sig_r sig)) (sig_s sig)) msg
      | BrainpoolP256r1 \<Rightarrow> put_signature (EcdsaBrainpoolP256r1Signature (X_only (sig_r sig)) (sig_s sig)) msg
      | BrainpoolP384r1 \<Rightarrow> put_signature (EcdsaBrainpoolP384r1Signature (X_only (sig_r sig)) (sig_s sig)) msg
      | Unspecified \<Rightarrow> set_dummy_signature msg)"

definition set_ecdsa_signature :: "EcdsaSignature \<Rightarrow> SecuredMessage \<Rightarrow> SecuredMessage" where
  "set_ecdsa_signature sig = put_signature (EcdsaNistP256Signature (to_asn1 (ecdsa_R sig)) (ecdsa_s sig))"

definition message_signature :: "SecuredMessage \<Rightarrow> Signature option" where
  "message_signature msg =
     (case get_signed_data msg of
        None \<Rightarrow> None
      | Some sd \<Rightarrow>
          (case sd_signature sd of
             EcdsaNistP256Signature r s \<Rightarrow> Some \<lparr>sig_r = get_x_coordinate r, sig_s = s, sig_type = NistP256\<rparr>
           | EcdsaBrainpoolP256r1Signature r s \<Rightarrow>
               Some \<lparr>sig_r = get_x_coordinate r, sig_s = s, sig_type = BrainpoolP256r1\<rparr>
           | EcdsaBrainpoolP384r1Signature r s \<Rightarrow>
               Some \<lparr>sig_r = get_x_coordinate r, sig_s = s, sig_type = BrainpoolP384r1\<rparr>
           | _ \<Rightarrow> None))"

definition signing_payload :: "MessageCodec \<Rightarrow> SecuredMessage \<Rightarrow> cert_exception + octets" where
  "signing_payload mc msg =
     (case get_signed_data msg of
        None \<Rightarrow> Inr []
      | Some sd \<Rightarrow> or_throw (Runtime_error ''OER encoding failed'') (encode_tbs_data mc (tbsData sd)))"

section \<open>Payload\<close>

definition signed_payload :: "SignedData \<Rightarrow> octets" where
  "signed_payload sd =
     (case payload_data (tbs_payload (tbsData sd)) of
        Some (Ieee1609Dot2Data _ (UnsecuredData bytes)) \<Rightarrow> bytes
      | _ \<Rightarrow> [])"

definition message_payload :: "SecuredMessage \<Rightarrow> octets" where
  "message_payload msg =
     (case data_content msg of UnsecuredData bytes \<Rightarrow> bytes | SignedContent sd \<Rightarrow> signed_payload sd | _ \<Rightarrow> [])"

definition payload_packet :: "SecuredMessage \<Rightarrow> Plaintext" where
  "payload_packet msg = Plain_Cohesive (cohesive_packet (message_payload msg) Network)"

definition serialize_packet :: "ChunkPacket \<Rightarrow> octets" where
  "serialize_packet packet = concat (map packet osi_layers)"

definition convert_to_payload :: "ChunkPacket \<Rightarrow> octets" where
  "convert_to_payload packet = serialize_packet packet"

text \<open>Signed data of this stack holds unsecured data; the setter writes there.\<close>

definition set_unsecured :: "octets \<Rightarrow> Ieee1609Dot2Data \<Rightarrow> Ieee1609Dot2Data" where
  "set_unsecured bytes d =
     (case data_content d of UnsecuredData _ \<Rightarrow> Ieee1609Dot2Data (protocolVersion d) (UnsecuredData bytes) | _ \<Rightarrow> d)"

definition set_message_payload :: "octets \<Rightarrow> SecuredMessage \<Rightarrow> SecuredMessage" where
  "set_message_payload bytes msg =
     (case data_content msg of
        UnsecuredData _ \<Rightarrow> set_unsecured bytes msg
      | SignedContent _ \<Rightarrow> on_signed_data (\<lambda>sd. let p = tbs_payload (tbsData sd) in SignedData (hashId sd)
            (ToBeSignedData (SignedDataPayload (map_option (set_unsecured bytes) (payload_data p)) (extDataHash p)
               (payload_omitted p)) (headerInfo (tbsData sd))) (signer sd) (sd_signature sd)) msg
      | _ \<Rightarrow> msg)"

definition set_external_payload_hash :: "octets \<Rightarrow> SecuredMessage \<Rightarrow> SecuredMessage" where
  "set_external_payload_hash hash = on_signed_data (\<lambda>sd. let p = tbs_payload (tbsData sd) in SignedData (hashId sd)
     (ToBeSignedData (SignedDataPayload (payload_data p) (map_option (\<lambda>_. Sha256HashedData hash) (extDataHash p))
        (payload_omitted p)) (headerInfo (tbsData sd))) (signer sd) (sd_signature sd))"

section \<open>Signer\<close>

definition put_signer :: "SignerIdentifier \<Rightarrow> SecuredMessage \<Rightarrow> SecuredMessage" where
  "put_signer s = on_signed_data (\<lambda>sd. SignedData (hashId sd) (tbsData sd) s (sd_signature sd))"

definition set_signer_identifier_self :: "SecuredMessage \<Rightarrow> SecuredMessage" where
  "set_signer_identifier_self = put_signer Signer_self"

definition set_signer_identifier_digest :: "HashedId8 \<Rightarrow> SecuredMessage \<Rightarrow> SecuredMessage" where
  "set_signer_identifier_digest digest = put_signer (Signer_digest digest)"

definition set_signer_identifier :: "Asn1Codec \<Rightarrow> Certificate \<Rightarrow> SecuredMessage \<Rightarrow> cert_exception + SecuredMessage" where
  "set_signer_identifier asn cert msg =
     ebind (or_throw (Runtime_error ''copy failed'') (asn1_copy asn cert)) (\<lambda>copy.
       Inr (put_signer (Signer_certificate [copy]) msg))"

text \<open>Who signed: the digest of a certificate, which may be missing, or a certificate.\<close>

datatype SignerView = Digest_View "HashedId8 option" | Certificate_View Certificate

definition signer_identifier :: "SecuredMessage \<Rightarrow> SignerView" where
  "signer_identifier msg =
     (case get_signed_data msg of
        None \<Rightarrow> Digest_View None
      | Some sd \<Rightarrow>
          (case signer sd of
             Signer_digest digest \<Rightarrow> Digest_View (Some digest)
           | Signer_certificate [cert] \<Rightarrow> Certificate_View cert
           | _ \<Rightarrow> Digest_View None))"

fun get_certificate_id :: "Asn1Codec \<Rightarrow> ShaFunctions \<Rightarrow> SignerView \<Rightarrow> HashedId8 option" where
  "get_certificate_id asn sha (Digest_View digest) = map_option make_hashed_id8 digest"
| "get_certificate_id asn sha (Certificate_View cert) = calculate_digest asn sha cert"

fun contains_certificate :: "SignerView \<Rightarrow> bool" where
  "contains_certificate (Digest_View _) = False"
| "contains_certificate (Certificate_View _) = True"

fun get_certificate :: "SignerView \<Rightarrow> Certificate option" where
  "get_certificate (Digest_View _) = None"
| "get_certificate (Certificate_View cert) = Some cert"

definition certificate_id :: "Asn1Codec \<Rightarrow> ShaFunctions \<Rightarrow> SecuredMessage \<Rightarrow> HashedId8 option" where
  "certificate_id asn sha msg = get_certificate_id asn sha (signer_identifier msg)"

section \<open>Encrypted data\<close>

definition get_aes_ccm_ciphertext :: "SecuredMessage \<Rightarrow> (octets \<times> octets) option" where
  "get_aes_ccm_ciphertext msg =
     (case data_content msg of
        EncryptedContent e \<Rightarrow>
          (case ciphertext e of Aes128ccm c \<Rightarrow> Some (ccmCiphertext c, take 12 (ccm_nonce c)) | _ \<Rightarrow> None)
      | _ \<Rightarrow> None)"

definition on_encrypted_data :: "(EncryptedData \<Rightarrow> EncryptedData) \<Rightarrow> SecuredMessage \<Rightarrow> SecuredMessage" where
  "on_encrypted_data f msg =
     (case data_content msg of
        EncryptedContent e \<Rightarrow> Ieee1609Dot2Data (protocolVersion msg) (EncryptedContent (f e))
      | _ \<Rightarrow> msg)"

definition set_aes_ccm_ciphertext :: "octets \<Rightarrow> octets \<Rightarrow> SecuredMessage \<Rightarrow> SecuredMessage" where
  "set_aes_ccm_ciphertext ccm nonce =
     on_encrypted_data (\<lambda>e. e\<lparr>ciphertext := Aes128ccm \<lparr>ccm_nonce = nonce, ccmCiphertext = ccm\<rparr>\<rparr>)"

definition set_cert_recip_info ::
    "HashedId8 \<Rightarrow> octets \<Rightarrow> octets \<Rightarrow> PublicKey \<Rightarrow> SecuredMessage \<Rightarrow> cert_exception + SecuredMessage" where
  "set_cert_recip_info recipient ecies_ciphertext ecies_tag key msg =
     (let ecies = \<lparr>ecies_v = to_asn1 (make_ecc_point key), ecies_c = ecies_ciphertext, ecies_t = ecies_tag\<rparr>
      in ebind (case pk_type key of
                  NistP256 \<Rightarrow> Inr (EncDataKey_EciesNistP256 ecies)
                | BrainpoolP256r1 \<Rightarrow> Inr (EncDataKey_EciesBrainpoolP256r1 ecies)
                | _ \<Rightarrow> Inl (Invalid_argument ''Unsupported EC curve'')) (\<lambda>enc_key.
           Inr (on_encrypted_data (\<lambda>e. e\<lparr>recipients := recipients e @
             [CertRecipInfo \<lparr>recipientId = recipient, recip_encKey = enc_key\<rparr>]\<rparr>) msg)))"

definition check_psk_match ::
    "MessageCodec \<Rightarrow> (octets \<Rightarrow> octets) \<Rightarrow> octets \<Rightarrow> SecuredMessage \<Rightarrow> cert_exception + bool" where
  "check_psk_match mc sha256 psk msg =
     ebind (or_throw (Runtime_error ''OER encoding failed'') (encode_aes_key mc psk)) (\<lambda>bytes.
       Inr (case data_content msg of
              EncryptedContent e \<Rightarrow>
                list_ex (\<lambda>r. case r of PskRecipInfo digest \<Rightarrow> take 8 digest = last_octets 8 (sha256 bytes) | _ \<Rightarrow> False)
                  (recipients e)
            | _ \<Rightarrow> False))"

section \<open>Encoding\<close>

definition message_size :: "MessageCodec \<Rightarrow> SecuredMessage \<Rightarrow> cert_exception + nat" where
  "message_size mc msg = or_throw (Runtime_error ''OER encoding failed'') (map_option length (encode_msg mc msg))"

definition serialize_message :: "MessageCodec \<Rightarrow> SecuredMessage \<Rightarrow> cert_exception + octets" where
  "serialize_message mc msg = or_throw (Runtime_error ''OER encoding failed'') (encode_msg mc msg)"

text \<open>The result of a failed decoding is length zero, which the parser takes for a failure.\<close>

definition deserialize_message :: "MessageCodec \<Rightarrow> InputArchive \<Rightarrow> (nat \<times> SecuredMessage) option \<times> InputArchive" where
  "deserialize_message mc ar =
     (let len = remaining_bytes ar
      in case load_binary len ar of
           (Inr buffer, ar) \<Rightarrow> (map_option (\<lambda>msg. (len, msg)) (decode_msg mc buffer), ar)
         | (Inl _, ar) \<Rightarrow> (None, ar))"

section \<open>Both generations\<close>

datatype 'v2 SecuredMessageVariant = V2_Message 'v2 | V3_Message SecuredMessage

record 'v2 V2Operations =
  v2_its_aid :: "'v2 \<Rightarrow> ItsAid"
  v2_size :: "'v2 \<Rightarrow> nat"
  v2_serialize :: "'v2 \<Rightarrow> octets"
  v2_deserialize :: "InputArchive \<Rightarrow> (nat \<times> 'v2) option \<times> InputArchive"
  v2_payload :: "'v2 \<Rightarrow> Plaintext"

fun variant_its_aid :: "'v2 V2Operations \<Rightarrow> 'v2 SecuredMessageVariant \<Rightarrow> ItsAid" where
  "variant_its_aid v2 (V2_Message msg) = v2_its_aid v2 msg"
| "variant_its_aid v2 (V3_Message msg) = its_aid msg"

fun variant_size :: "'v2 V2Operations \<Rightarrow> MessageCodec \<Rightarrow> 'v2 SecuredMessageVariant \<Rightarrow> cert_exception + nat" where
  "variant_size v2 mc (V2_Message msg) = Inr (v2_size v2 msg)"
| "variant_size v2 mc (V3_Message msg) = message_size mc msg"

fun variant_serialize :: "'v2 V2Operations \<Rightarrow> MessageCodec \<Rightarrow> 'v2 SecuredMessageVariant \<Rightarrow> cert_exception + octets" where
  "variant_serialize v2 mc (V2_Message msg) = Inr (v2_serialize v2 msg)"
| "variant_serialize v2 mc (V3_Message msg) = serialize_message mc msg"

definition variant_deserialize_v2 ::
    "'v2 V2Operations \<Rightarrow> InputArchive \<Rightarrow> (nat \<times> 'v2 SecuredMessageVariant) option \<times> InputArchive" where
  "variant_deserialize_v2 v2 ar = map_prod (map_option (map_prod id V2_Message)) id (v2_deserialize v2 ar)"

definition variant_deserialize_v3 ::
    "MessageCodec \<Rightarrow> InputArchive \<Rightarrow> (nat \<times> 'v2 SecuredMessageVariant) option \<times> InputArchive" where
  "variant_deserialize_v3 mc ar = map_prod (map_option (map_prod id V3_Message)) id (deserialize_message mc ar)"

fun variant_payload_copy :: "'v2 V2Operations \<Rightarrow> 'v2 SecuredMessageVariant \<Rightarrow> Plaintext" where
  "variant_payload_copy v2 (V2_Message msg) = v2_payload v2 msg"
| "variant_payload_copy v2 (V3_Message msg) = payload_packet msg"

section \<open>What the setters change\<close>

named_theorems message_simps \<open>effects of setters on accessors of secured messages\<close>

lemma get_signed_data_on [message_simps]: "get_signed_data (on_signed_data f msg) = map_option f (get_signed_data msg)"
  by (simp add: get_signed_data_def on_signed_data_def split: Ieee1609Dot2Content.split)

lemma is_signed_on [message_simps]: "is_signed (on_signed_data f msg) = is_signed msg"
  by (simp add: is_signed_def on_signed_data_def split: Ieee1609Dot2Content.split)

lemma protocol_version_on [message_simps]: "protocol_version (on_signed_data f msg) = protocol_version msg"
  by (simp add: protocol_version_def on_signed_data_def split: Ieee1609Dot2Content.split)

lemma is_signed_iff: "is_signed msg \<longleftrightarrow> get_signed_data msg \<noteq> None"
  by (simp add: is_signed_def get_signed_data_def split: Ieee1609Dot2Content.split)

lemma message_payload_signed: "get_signed_data msg = Some sd \<Longrightarrow> message_payload msg = signed_payload sd"
  by (auto simp: get_signed_data_def message_payload_def split: Ieee1609Dot2Content.splits)

lemma get_header_info_on [message_simps]:
  "get_header_info (on_header_info f msg) = map_option f (get_header_info msg)"
  "get_header_info (put_signature sig msg) = get_header_info msg"
  "get_header_info (put_signer s msg) = get_header_info msg"
  "get_header_info (set_hash_id hash msg) = get_header_info msg"
  by (simp_all add: get_header_info_def on_header_info_def put_signature_def put_signer_def set_hash_id_def
      message_simps option.map_comp comp_def)

lemma message_signature_on [message_simps]:
  "message_signature (on_header_info f msg) = message_signature msg"
  "message_signature (put_signer s msg) = message_signature msg"
  "message_signature (set_hash_id hash msg) = message_signature msg"
  by (simp_all add: message_signature_def on_header_info_def put_signer_def set_hash_id_def message_simps
      split: option.split)

lemma signer_identifier_on [message_simps]:
  "signer_identifier (on_header_info f msg) = signer_identifier msg"
  "signer_identifier (put_signature sig msg) = signer_identifier msg"
  "signer_identifier (set_hash_id hash msg) = signer_identifier msg"
  by (simp_all add: signer_identifier_def on_header_info_def put_signature_def set_hash_id_def message_simps
      split: option.split)

lemma hash_id_on [message_simps]:
  "hash_id (on_header_info f msg) = hash_id msg"
  "hash_id (put_signature sig msg) = hash_id msg"
  "hash_id (put_signer s msg) = hash_id msg"
  by (simp_all add: hash_id_def on_header_info_def put_signature_def put_signer_def message_simps split: option.split)

lemma message_payload_on [message_simps]:
  "message_payload (on_header_info f msg) = message_payload msg"
  "message_payload (put_signature sig msg) = message_payload msg"
  "message_payload (put_signer s msg) = message_payload msg"
  "message_payload (set_hash_id hash msg) = message_payload msg"
  by (simp_all add: message_payload_def on_signed_data_def on_header_info_def put_signature_def put_signer_def
      set_hash_id_def signed_payload_def split: Ieee1609Dot2Content.split)

lemma signing_payload_on [message_simps]:
  "signing_payload mc (put_signature sig msg) = signing_payload mc msg"
  "signing_payload mc (put_signer s msg) = signing_payload mc msg"
  by (simp_all add: signing_payload_def put_signature_def put_signer_def message_simps split: option.split)

lemma is_signed_keep [message_simps]:
  "is_signed (on_header_info f msg) = is_signed msg" "is_signed (put_signature sig msg) = is_signed msg"
  "is_signed (put_signer s msg) = is_signed msg" "is_signed (set_hash_id hash msg) = is_signed msg"
  by (simp_all add: on_header_info_def put_signature_def put_signer_def set_hash_id_def message_simps)

lemma protocol_version_keep [message_simps]:
  "protocol_version (on_header_info f msg) = protocol_version msg"
  "protocol_version (put_signature sig msg) = protocol_version msg"
  "protocol_version (put_signer s msg) = protocol_version msg"
  "protocol_version (set_hash_id hash msg) = protocol_version msg"
  by (simp_all add: on_header_info_def put_signature_def put_signer_def set_hash_id_def message_simps)

lemma get_header_info_signed: "is_signed msg \<Longrightarrow> \<exists>h. get_header_info msg = Some h"
  by (auto simp: is_signed_iff get_header_info_def)

lemma set_inline_eq:
  "set_inline_p2pcd_request requests msg = on_header_info (\<lambda>h. h\<lparr>inlineP2pcdRequest :=
     if requests = [] then map_option (\<lambda>_. []) (inlineP2pcdRequest h) else Some requests\<rparr>) msg"
proof -
  have comp: "on_header_info f (on_header_info g msg) = on_header_info (\<lambda>h. f (g h)) msg" for f g msg
    by (simp add: on_header_info_def on_signed_data_def split: Ieee1609Dot2Content.split)
  have adds: "fold add_inline_p2pcd_request requests (on_header_info (\<lambda>h. h\<lparr>inlineP2pcdRequest := i h\<rparr>) msg)
      = on_header_info (\<lambda>h. h\<lparr>inlineP2pcdRequest := if requests = [] then i h
          else Some ((case i h of None \<Rightarrow> [] | Some l \<Rightarrow> l) @ requests)\<rparr>) msg" for i
  proof (induction requests arbitrary: i)
    case (Cons r requests)
    have "add_inline_p2pcd_request r (on_header_info (\<lambda>h. h\<lparr>inlineP2pcdRequest := i h\<rparr>) msg)
        = on_header_info (\<lambda>h. h\<lparr>inlineP2pcdRequest := Some ((case i h of None \<Rightarrow> [] | Some l \<Rightarrow> l) @ [r])\<rparr>) msg"
      by (simp add: add_inline_p2pcd_request_def comp)
    then show ?case by (cases "requests = []") (simp_all add: Cons.IH)
  qed simp
  have fresh: "(\<lambda>h. h\<lparr>inlineP2pcdRequest := if requests = [] then map_option (\<lambda>_. []) (inlineP2pcdRequest h)
        else Some ((case map_option (\<lambda>_. []) (inlineP2pcdRequest h) of None \<Rightarrow> [] | Some l \<Rightarrow> l) @ requests)\<rparr>)
      = (\<lambda>h. h\<lparr>inlineP2pcdRequest :=
          if requests = [] then map_option (\<lambda>_. []) (inlineP2pcdRequest h) else Some requests\<rparr>)"
    by (rule ext) (simp split: option.split)
  show ?thesis unfolding set_inline_p2pcd_request_def adds fresh ..
qed

lemmas setter_defs = set_its_aid_def set_generation_time_def set_generation_location_def set_inline_eq
  set_dummy_signature_def set_ecdsa_signature_def set_signer_identifier_self_def set_signer_identifier_digest_def

section \<open>Round trips\<close>

lemma set_signature_roundtrip:
  assumes "is_signed msg" and "sig_type sig \<noteq> Unspecified"
  shows "message_signature (set_signature sig msg) = Some sig"
  using assms by (cases "sig_type sig")
    (auto simp: set_signature_def message_signature_def put_signature_def message_simps is_signed_iff)

lemma set_payload_roundtrip:
  "message_payload (set_message_payload bytes with_signed_data) = bytes"
  by (simp add: set_message_payload_def with_signed_data_def signed_data_with_def on_signed_data_def message_payload_def
      signed_payload_def set_unsecured_def Let_def)

lemma message_aid_roundtrip: "is_signed msg \<Longrightarrow> its_aid (set_its_aid aid msg) = aid"
  using get_header_info_signed [of msg]
  by (auto simp: its_aid_def set_its_aid_def message_simps ucast_up_ucast_id is_up)

lemma aes_ccm_roundtrip:
  "is_encrypted msg \<Longrightarrow> length nonce = 12 \<Longrightarrow>
     get_aes_ccm_ciphertext (set_aes_ccm_ciphertext ccm nonce msg) = Some (ccm, nonce)"
  by (auto simp: is_encrypted_def get_aes_ccm_ciphertext_def set_aes_ccm_ciphertext_def on_encrypted_data_def
      split: Ieee1609Dot2Content.splits)

lemma deserialize_message_roundtrip:
  assumes "message_codec_ok mc" and "serialize_message mc msg = Inr bytes" and "stream ar = bytes"
  shows "deserialize_message mc ar = (Some (length bytes, msg), ar\<lparr>stream := []\<rparr>)"
  using assms by (simp add: serialize_message_def or_throw_Inr deserialize_message_def load_binary_def
      remaining_bytes_def message_codec_ok_def Let_def)

text \<open>
  The requests read back from a header are not the ones it has: an identifier of three octets is
  copied to the front of eight, and then the last three of the eight are taken.
\<close>

lemma inline_requests_uninitialized:
  assumes "is_signed msg" and "length uninit = 8" and "list_all (\<lambda>r. length r = 3) requests" and "requests \<noteq> []"
  shows "get_inline_p2pcd_request uninit (set_inline_p2pcd_request requests msg)
    = replicate (length requests) (drop 5 uninit)"
proof -
  from assms(1) obtain h where "get_header_info msg = Some h" using get_header_info_signed by blast
  then have "get_inline_p2pcd_request uninit (set_inline_p2pcd_request requests msg)
      = map (\<lambda>r. truncate_hashed_id (convert_id uninit r)) requests"
    using assms(4) by (simp add: get_inline_p2pcd_request_def set_inline_eq message_simps)
  also have "\<dots> = map (\<lambda>r. drop 5 uninit) requests"
    using assms(2,3) by (auto simp: list_all_iff truncate_hashed_id_def convert_id_def last_octets_def)
  finally show ?thesis by (simp add: map_replicate_const)
qed

end
