(* ===== verification/Peer_Requests.thy ===== *)
theory Peer_Requests
  imports Prelude
begin

text \<open>
  Pending certificate requests of peers (\<^verbatim>\<open>security/peer_request_tracker.*\<close>): a bounded queue
  of certificate hashes without duplicates. The hash map from a request to its place in the queue is
  the set of its keys: a request occurs once in the queue, so that its place is determined.
\<close>

record 'id PeerRequestTracker =
  pr_limit :: nat
  pr_fifo :: "'id list"
  pr_lookup :: "'id set"

definition peer_request_tracker :: "nat \<Rightarrow> 'id PeerRequestTracker" where
  "peer_request_tracker limit = \<lparr>pr_limit = limit, pr_fifo = [], pr_lookup = {}\<rparr>"

definition is_pending :: "'id \<Rightarrow> 'id PeerRequestTracker \<Rightarrow> bool" where
  "is_pending i t = (i \<in> pr_lookup t)"

definition drop_oldest :: "'id PeerRequestTracker \<Rightarrow> 'id PeerRequestTracker" where
  "drop_oldest t =
     (case pr_fifo t of
        oldest # fifo \<Rightarrow>
          if length (pr_fifo t) \<ge> pr_limit t
          then t\<lparr>pr_lookup := pr_lookup t - {oldest}, pr_fifo := fifo\<rparr> else t
      | [] \<Rightarrow> t)"

definition add_request :: "'id \<Rightarrow> 'id PeerRequestTracker \<Rightarrow> 'id PeerRequestTracker" where
  "add_request i t =
     (if is_pending i t then t
      else let t = drop_oldest t
           in t\<lparr>pr_fifo := pr_fifo t @ [i], pr_lookup := insert i (pr_lookup t)\<rparr>)"

definition discard_request :: "'id \<Rightarrow> 'id PeerRequestTracker \<Rightarrow> 'id PeerRequestTracker" where
  "discard_request i t =
     (if i \<in> pr_lookup t then t\<lparr>pr_fifo := remove1 i (pr_fifo t), pr_lookup := pr_lookup t - {i}\<rparr> else t)"

definition next_one :: "'id PeerRequestTracker \<Rightarrow> 'id option \<times> 'id PeerRequestTracker" where
  "next_one t =
     (case pr_fifo t of
        [] \<Rightarrow> (None, t)
      | i # fifo \<Rightarrow> (Some i, t\<lparr>pr_fifo := fifo, pr_lookup := pr_lookup t - {i}\<rparr>))"

definition all_requests :: "'id PeerRequestTracker \<Rightarrow> 'id list \<times> 'id PeerRequestTracker" where
  "all_requests t = (pr_fifo t, t\<lparr>pr_lookup := {}, pr_fifo := []\<rparr>)"

definition next_n :: "nat \<Rightarrow> 'id PeerRequestTracker \<Rightarrow> 'id list \<times> 'id PeerRequestTracker" where
  "next_n n t =
     (if n \<ge> length (pr_fifo t) then all_requests t
      else let requests = take n (pr_fifo t)
           in (requests, t\<lparr>pr_fifo := drop n (pr_fifo t), pr_lookup := pr_lookup t - set requests\<rparr>))"

section \<open>Invariant and abstract queue\<close>

text \<open>
  The set is that of the queued requests. A tracker with limit zero holds one request: it makes
  room only if there is something to drop.
\<close>

definition tracker_inv :: "'id PeerRequestTracker \<Rightarrow> bool" where
  "tracker_inv t \<longleftrightarrow> distinct (pr_fifo t) \<and> pr_lookup t = set (pr_fifo t) \<and> length (pr_fifo t) \<le> max 1 (pr_limit t)"

lemma tracker_inv_new: "tracker_inv (peer_request_tracker limit)"
  by (simp add: tracker_inv_def peer_request_tracker_def)

lemma drop_oldest_fifo:
  "tracker_inv t \<Longrightarrow> drop_oldest t = t\<lparr>pr_fifo := drop (length (pr_fifo t) + 1 - max 1 (pr_limit t)) (pr_fifo t),
     pr_lookup := set (drop (length (pr_fifo t) + 1 - max 1 (pr_limit t)) (pr_fifo t))\<rparr>"
  by (cases t; cases "pr_fifo t") (auto simp: drop_oldest_def tracker_inv_def max_def Suc_diff_le split: if_splits)

text \<open>
  What the operations do to the queue: a new request is appended, and the queue keeps as many of the
  latest requests as fit; a known one changes nothing.
\<close>

lemma add_request_fifo:
  "tracker_inv t \<Longrightarrow> pr_fifo (add_request i t) =
     (if i \<in> set (pr_fifo t) then pr_fifo t
      else drop (length (pr_fifo t) + 1 - max 1 (pr_limit t)) (pr_fifo t) @ [i])"
  by (simp add: add_request_def is_pending_def drop_oldest_fifo tracker_inv_def Let_def)

lemma discard_request_fifo: "tracker_inv t \<Longrightarrow> pr_fifo (discard_request i t) = remove1 i (pr_fifo t)"
  by (simp add: discard_request_def tracker_inv_def remove1_idem)

lemma next_one_fifo:
  "tracker_inv t \<Longrightarrow> fst (next_one t) = (case pr_fifo t of [] \<Rightarrow> None | i # _ \<Rightarrow> Some i)
     \<and> pr_fifo (snd (next_one t)) = tl (pr_fifo t)"
  by (cases "pr_fifo t") (simp_all add: next_one_def)

lemma next_n_fifo:
  "fst (next_n n t) = take n (pr_fifo t) \<and> pr_fifo (snd (next_n n t)) = drop n (pr_fifo t)"
  by (simp add: next_n_def all_requests_def Let_def)

lemma is_pending_iff: "tracker_inv t \<Longrightarrow> is_pending i t \<longleftrightarrow> i \<in> set (pr_fifo t)"
  by (simp add: is_pending_def tracker_inv_def)

lemma add_request_inv: "tracker_inv t \<Longrightarrow> tracker_inv (add_request i t)"
  using distinct_drop [of "pr_fifo t"] set_drop_subset [of _ "pr_fifo t"]
  by (auto simp: add_request_def is_pending_def drop_oldest_fifo Let_def tracker_inv_def dest: in_set_dropD)

lemma discard_request_inv: "tracker_inv t \<Longrightarrow> tracker_inv (discard_request i t)"
  using length_remove1 [of i "pr_fifo t"] by (auto simp: discard_request_def tracker_inv_def)

lemma next_one_inv: "tracker_inv t \<Longrightarrow> tracker_inv (snd (next_one t))"
  by (cases "pr_fifo t") (auto simp: next_one_def tracker_inv_def)

lemma all_requests_inv: "tracker_inv t \<Longrightarrow> tracker_inv (snd (all_requests t))"
  by (simp add: all_requests_def tracker_inv_def)

lemma next_n_inv: "tracker_inv t \<Longrightarrow> tracker_inv (snd (next_n n t))"
proof -
  assume inv: "tracker_inv t"
  have "set (pr_fifo t) - set (take n (pr_fifo t)) = set (drop n (pr_fifo t))"
    using inv set_take_disj_set_drop_if_distinct [of "pr_fifo t" n n] set_append [of "take n (pr_fifo t)" "drop n (pr_fifo t)"]
    unfolding append_take_drop_id tracker_inv_def by blast
  with inv show ?thesis by (auto simp: next_n_def Let_def all_requests_inv) (auto simp: tracker_inv_def)
qed

lemmas tracker_invs = add_request_inv discard_request_inv next_one_inv all_requests_inv next_n_inv

lemma pr_limit_ops [simp]:
  "pr_limit (add_request i t) = pr_limit t" "pr_limit (discard_request i t) = pr_limit t"
  "pr_limit (snd (next_one t)) = pr_limit t" "pr_limit (snd (all_requests t)) = pr_limit t"
  "pr_limit (snd (next_n n t)) = pr_limit t"
  by (simp_all add: add_request_def drop_oldest_def discard_request_def next_one_def all_requests_def next_n_def Let_def
      split: list.split)

end
