(* ===== verification/Security_Services.thy ===== *)
theory Security_Services
  imports Secured_Messages Peer_Requests
begin

text \<open>
  Signing and verification of messages: the message hash (\<^verbatim>\<open>security/v3/hash.*\<close>), the header
  policy (\<^verbatim>\<open>security/v3/sign_header_policy.*\<close>), the sign services (\<^verbatim>\<open>security/v3/sign_service.*\<close>),
  the verify services (\<^verbatim>\<open>security/straight_verify_service.*\<close>, \<^verbatim>\<open>security/verify_service.*\<close>) and
  the static certificate provider (\<^verbatim>\<open>security/v3/static_certificate_provider.*\<close>).

  The services of a station share the header policy and the certificate cache of the certificate
  provider: they are the state. An operation returns an exception or a result, and the state in
  either case. Validators are functions, as they stand at the time of the call.
\<close>

section \<open>Hashes\<close>

text \<open>\<^verbatim>\<open>calculate_hash\<close> of the two cryptographic backends: no octets for another algorithm.\<close>

fun backend_hash :: "ShaFunctions \<Rightarrow> HashAlgorithm \<Rightarrow> octets \<Rightarrow> octets" where
  "backend_hash sha SHA256 data = calculate_sha256_digest sha data"
| "backend_hash sha SHA384 data = calculate_sha384_digest sha data"
| "backend_hash sha Hash_Unspecified data = []"

definition calculate_message_hash ::
    "Asn1Codec \<Rightarrow> EccBackend \<Rightarrow> HashAlgorithm \<Rightarrow> octets \<Rightarrow> Certificate \<Rightarrow> cert_exception + octets" where
  "calculate_message_hash asn backend hash_algo tbs_bytes signing_cert =
     ebind (if is_canonical signing_cert
            then or_throw (Runtime_error ''OER encoding failed'') (encode_cert asn signing_cert)
            else (case cert_canonicalize asn signing_cert of
                    Some canonical \<Rightarrow> or_throw (Runtime_error ''OER encoding failed'') (encode_cert asn canonical)
                  | None \<Rightarrow> Inr [])) (\<lambda>encoded_cert.
       let data_hash = calculate_hash backend hash_algo tbs_bytes;
           cert_hash = calculate_hash backend hash_algo encoded_cert
       in Inr (calculate_hash backend hash_algo (data_hash @ cert_hash)))"

section \<open>Certificate provider and header policy\<close>

record CertificateProvider =
  authorization_ticket :: Certificate
  authorization_ticket_key :: PrivateKey

definition own_certificate :: "CertificateProvider \<Rightarrow> Certificate" where
  "own_certificate provider = authorization_ticket provider"

definition own_private_key :: "CertificateProvider \<Rightarrow> PrivateKey" where
  "own_private_key provider = authorization_ticket_key provider"

definition aid_CA :: ItsAid where "aid_CA = 36"
definition aid_DEN :: ItsAid where "aid_DEN = 37"
definition aid_SCR :: ItsAid where "aid_SCR = 623"

record SignHeaderPolicy =
  cam_next_certificate :: time_point
  cert_requested :: bool
  incoming_requests :: "HashedId3 PeerRequestTracker"
  outgoing_requests :: "HashedId3 PeerRequestTracker"

definition default_sign_header_policy :: "time_point \<Rightarrow> SignHeaderPolicy" where
  "default_sign_header_policy now = \<lparr>cam_next_certificate = now, cert_requested = False,
     incoming_requests = peer_request_tracker 16, outgoing_requests = peer_request_tracker 16\<rparr>"

text \<open>A position has finite coordinates in degrees and may have an altitude in metres.\<close>

definition build_location :: "real \<Rightarrow> real \<Rightarrow> real option \<Rightarrow> ThreeDLocation" where
  "build_location fix_lat fix_lon altitude =
     (let lat = lround (fix_lat / 90 * 900000000); lon = lround (fix_lon / 180 * 1800000000)
      in \<lparr>td_latitude = (if ninety_degree_min \<le> lat \<and> lat \<le> ninety_degree_max then lat else 900000001),
          td_longitude = (if one_eighty_degree_min \<le> lon \<and> lon \<le> one_eighty_degree_max then lon else 1800000001),
          td_elevation = (case altitude of
             None \<Rightarrow> 4096
           | Some a \<Rightarrow> let elev_dm = lround (a * 10)
                       in if -4095 \<le> elev_dm \<and> elev_dm \<le> 61439 then elev_dm + 4096 else 4096)\<rparr>)"

definition convert_time64 :: "time_point \<Rightarrow> u64" where
  "convert_time64 tp = word_of_int tp"

definition request_unrecognized_certificate :: "HashedId8 \<Rightarrow> SignHeaderPolicy \<Rightarrow> SignHeaderPolicy" where
  "request_unrecognized_certificate i p =
     p\<lparr>outgoing_requests := add_request (truncate_hashed_id i) (outgoing_requests p)\<rparr>"

definition request_certificate :: "SignHeaderPolicy \<Rightarrow> SignHeaderPolicy" where
  "request_certificate p = p\<lparr>cert_requested := True\<rparr>"

definition enqueue_p2p_request :: "HashedId3 \<Rightarrow> SignHeaderPolicy \<Rightarrow> SignHeaderPolicy" where
  "enqueue_p2p_request i p = p\<lparr>incoming_requests := add_request i (incoming_requests p)\<rparr>"

definition discard_p2p_request :: "HashedId3 \<Rightarrow> SignHeaderPolicy \<Rightarrow> SignHeaderPolicy" where
  "discard_p2p_request i p = p\<lparr>incoming_requests := discard_request i (incoming_requests p)\<rparr>"

text \<open>The loop that takes requests from the queue up to the first for a known authority.\<close>

function next_ca_certificate ::
    "CertificateCache \<Rightarrow> HashedId3 PeerRequestTracker \<Rightarrow> Certificate option \<times> HashedId3 PeerRequestTracker" where
  "next_ca_certificate cache t =
     (case next_one t of
        (None, t) \<Rightarrow> (None, t)
      | (Some hid, t) \<Rightarrow>
          (case cache_lookup_short cache hid of
             Some cert \<Rightarrow> if is_ca_certificate cert then (Some cert, t) else next_ca_certificate cache t
           | None \<Rightarrow> next_ca_certificate cache t))"
  by pat_completeness auto
termination
  by (relation "measure (\<lambda>(_, t). length (pr_fifo t))") (auto simp: next_one_def split: list.splits)

declare next_ca_certificate.simps [simp del]

definition note_own_request :: "HashedId8 option \<Rightarrow> SignHeaderPolicy \<Rightarrow> SignHeaderPolicy" where
  "note_own_request at_digest p =
     (case at_digest of
        Some d \<Rightarrow>
          if is_pending (truncate_hashed_id d) (incoming_requests p)
          then p\<lparr>cert_requested := True, incoming_requests := discard_request (truncate_hashed_id d) (incoming_requests p)\<rparr>
          else p
      | None \<Rightarrow> p)"

definition prepare_cam_header ::
    "Asn1Codec \<Rightarrow> ShaFunctions \<Rightarrow> Certificate \<Rightarrow> CertificateCache \<Rightarrow> time_point \<Rightarrow> SecuredMessage \<Rightarrow> SignHeaderPolicy
       \<Rightarrow> (cert_exception + SecuredMessage) \<times> SignHeaderPolicy" where
  "prepare_cam_header asn sha at_cert cache now msg p =
     (let at_digest = calculate_digest asn sha at_cert; p = note_own_request at_digest p
      in if now < cam_next_certificate p \<and> \<not> cert_requested p then
           let msg = (case at_digest of Some d \<Rightarrow> set_signer_identifier_digest d msg | None \<Rightarrow> msg);
               (requests, outgoing) = all_requests (outgoing_requests p);
               msg = set_inline_p2pcd_request requests msg;
               (p2p_cert, incoming) = next_ca_certificate cache (incoming_requests p);
               p = p\<lparr>outgoing_requests := outgoing, incoming_requests := incoming\<rparr>
           in (case p2p_cert of Some c \<Rightarrow> set_requested_certificate asn c msg | None \<Rightarrow> Inr msg, p)
         else
           let p = p\<lparr>cert_requested := False\<rparr>
           in (case set_signer_identifier asn at_cert msg of
                 Inl e \<Rightarrow> (Inl e, p)
               | Inr msg \<Rightarrow>
                   let (requests, outgoing) = all_requests (outgoing_requests p)
                   in (Inr (set_inline_p2pcd_request requests msg),
                       p\<lparr>cam_next_certificate := now + 1000000 - 50000, outgoing_requests := outgoing\<rparr>)))"

definition prepare_header ::
    "Asn1Codec \<Rightarrow> ShaFunctions \<Rightarrow> CertificateProvider \<Rightarrow> CertificateCache \<Rightarrow> time_point \<Rightarrow> ThreeDLocation
       \<Rightarrow> SignRequest \<Rightarrow> SecuredMessage \<Rightarrow> SignHeaderPolicy \<Rightarrow> (cert_exception + SecuredMessage) \<times> SignHeaderPolicy" where
  "prepare_header asn sha provider cache now location req msg p =
     (let msg = set_generation_time (convert_time64 now) (set_its_aid (sr_its_aid req) msg);
          at_cert = own_certificate provider
      in if sr_its_aid req = aid_CA then prepare_cam_header asn sha at_cert cache now msg p
         else if sr_its_aid req = aid_DEN then
           (ebind (set_signer_identifier asn at_cert msg) (\<lambda>msg. Inr (set_generation_location location msg)), p)
         else if sr_its_aid req = aid_SCR then
           (if sr_self_signed req then (Inr (set_signer_identifier_self msg), p)
            else (case calculate_digest asn sha at_cert of
                    Some d \<Rightarrow> (Inr (set_signer_identifier_digest d msg), p)
                  | None \<Rightarrow> (Inr msg, p)))
         else (set_signer_identifier asn at_cert msg, p))"

section \<open>Sign services\<close>

record SecurityState =
  header_policy :: SignHeaderPolicy
  cert_cache :: CertificateCache

type_synonym CertificateValidator = "Certificate \<Rightarrow> ItsAid \<Rightarrow> Verdict"

definition straight_sign ::
    "Asn1Codec \<Rightarrow> ShaFunctions \<Rightarrow> MessageCodec \<Rightarrow> EccBackend \<Rightarrow> CertificateValidator \<Rightarrow> CertificateProvider \<Rightarrow> time_point
       \<Rightarrow> ThreeDLocation \<Rightarrow> SignRequest \<Rightarrow> SecurityState \<Rightarrow> (cert_exception + SecuredMessage SignConfirm) \<times> SecurityState" where
  "straight_sign asn sha mc backend validator provider now location req st =
     (let signing_cert = own_certificate provider;
          hash_algo = specified_hash_algorithm (get_verification_key_type signing_cert);
          msg = set_message_payload (convert_to_payload (sr_plain_message req)) (set_hash_id hash_algo with_signed_data);
          (prepared, p) = prepare_header asn sha provider (cert_cache st) now location req msg (header_policy st)
      in (ebind prepared (\<lambda>msg.
            if validator signing_cert (sr_its_aid req) \<noteq> Valid then Inr (sign_failure No_Certificate)
            else ebind (signing_payload mc msg) (\<lambda>tbs_bytes.
                 ebind (calculate_message_hash asn backend hash_algo tbs_bytes signing_cert) (\<lambda>digest.
                 ebind (sign_digest backend (own_private_key provider) digest) (\<lambda>sig.
                   Inr (sign_success (set_signature sig msg)))))),
          st\<lparr>header_policy := p\<rparr>))"

definition dummy_sign :: "time_point \<Rightarrow> SignRequest \<Rightarrow> SecuredMessage SignConfirm" where
  "dummy_sign now req =
     (let msg = set_message_payload (convert_to_payload (sr_plain_message req)) with_signed_data;
          msg = set_generation_time (convert_time64 now) (set_its_aid (sr_its_aid req) (set_dummy_signature msg))
      in sign_success (put_signer Signer_self msg))"

section \<open>Verify services\<close>

text \<open>
  Of the verify service's pointers, those to cache and policy are null or point to the shared
  state. A confirm is created without a value for the application identifier; \<open>unset_its_aid\<close> is
  the one it happens to have.
\<close>

record VerifyContext =
  uses_cert_cache :: bool
  cert_validator :: "CertificateValidator option"
  uses_sign_policy :: bool
  unset_its_aid :: ItsAid

definition verify_context :: "ItsAid \<Rightarrow> VerifyContext" where
  "verify_context unset = \<lparr>uses_cert_cache = False, cert_validator = None, uses_sign_policy = False, unset_its_aid = unset\<rparr>"

definition use_certificate_cache :: "bool \<Rightarrow> VerifyContext \<Rightarrow> VerifyContext" where
  "use_certificate_cache present ctx = ctx\<lparr>uses_cert_cache := present\<rparr>"

definition use_certificate_provider :: "bool \<Rightarrow> VerifyContext \<Rightarrow> VerifyContext" where
  "use_certificate_provider present ctx = (if present then use_certificate_cache True ctx else ctx)"

definition use_certificate_validator :: "CertificateValidator option \<Rightarrow> VerifyContext \<Rightarrow> VerifyContext" where
  "use_certificate_validator validator ctx = ctx\<lparr>cert_validator := validator\<rparr>"

definition use_sign_header_policy :: "bool \<Rightarrow> VerifyContext \<Rightarrow> VerifyContext" where
  "use_sign_header_policy present ctx = ctx\<lparr>uses_sign_policy := present\<rparr>"

definition on_policy :: "VerifyContext \<Rightarrow> (SignHeaderPolicy \<Rightarrow> SignHeaderPolicy) \<Rightarrow> SecurityState \<Rightarrow> SecurityState" where
  "on_policy ctx f st = (if uses_sign_policy ctx then st\<lparr>header_policy := f (header_policy st)\<rparr> else st)"

definition verify_failed :: "VerifyContext \<Rightarrow> VerificationReport \<Rightarrow> VerifyConfirm" where
  "verify_failed ctx report = \<lparr>vc_report = report, vc_its_aid = unset_its_aid ctx, vc_permissions = [],
     vc_certificate_validity = None, vc_certificate_id = None\<rparr>"

fun lookup_signer :: "VerifyContext \<Rightarrow> CertificateCache \<Rightarrow> SignerView \<Rightarrow> Certificate option" where
  "lookup_signer ctx cache (Digest_View (Some digest)) =
     (if uses_cert_cache ctx then cache_lookup cache (make_hashed_id8 digest) else None)"
| "lookup_signer ctx cache (Digest_View None) = None"
| "lookup_signer ctx cache (Certificate_View cert) = Some cert"

definition track_station :: "VerifyContext \<Rightarrow> SecuredMessage \<Rightarrow> HashedId8 option \<Rightarrow> SecurityState \<Rightarrow> SecurityState" where
  "track_station ctx msg maybe_digest st =
     (case maybe_digest of
        Some digest \<Rightarrow>
          if uses_cert_cache ctx then
            let (was_unknown, cache) = cache_announce digest (cert_cache st); st = st\<lparr>cert_cache := cache\<rparr>
            in if was_unknown \<and> its_aid msg = aid_CA then on_policy ctx request_certificate st else st
          else st
      | None \<Rightarrow> st)"

definition handle_p2p_header :: "Asn1Codec \<Rightarrow> ShaFunctions \<Rightarrow> HeaderInfo \<Rightarrow> SignHeaderPolicy \<Rightarrow> SignHeaderPolicy" where
  "handle_p2p_header asn sha header p =
     (let p = (case inlineP2pcdRequest header of
                 Some requests \<Rightarrow> fold (\<lambda>r. enqueue_p2p_request (create_hashed_id3 r)) requests p
               | None \<Rightarrow> p)
      in case requestedCertificate header of
           Some included \<Rightarrow>
             (case calculate_digest asn sha included of
                Some digest \<Rightarrow> discard_p2p_request (truncate_hashed_id digest) p
              | None \<Rightarrow> p)
         | None \<Rightarrow> p)"

definition handle_p2p ::
    "Asn1Codec \<Rightarrow> ShaFunctions \<Rightarrow> VerifyContext \<Rightarrow> SecuredMessage \<Rightarrow> SecurityState \<Rightarrow> SecurityState" where
  "handle_p2p asn sha ctx msg st =
     (case get_header_info msg of
        Some header \<Rightarrow> if its_aid msg = aid_CA then on_policy ctx (handle_p2p_header asn sha header) st else st
      | None \<Rightarrow> st)"

definition request_unknown_signer :: "VerifyContext \<Rightarrow> SecuredMessage \<Rightarrow> HashedId8 option \<Rightarrow> SecurityState \<Rightarrow> SecurityState" where
  "request_unknown_signer ctx msg maybe_digest st =
     (case maybe_digest of
        Some digest \<Rightarrow> if its_aid msg = aid_CA then on_policy ctx (request_unrecognized_certificate digest) st else st
      | None \<Rightarrow> st)"

definition request_unknown_issuer :: "VerifyContext \<Rightarrow> Certificate \<Rightarrow> SecurityState \<Rightarrow> SecurityState" where
  "request_unknown_issuer ctx cert st =
     (case issuer_digest cert of
        Some aa_digest \<Rightarrow>
          if uses_cert_cache ctx \<and> \<not> cache_is_known (cert_cache st) aa_digest
          then on_policy ctx (request_unrecognized_certificate aa_digest) st else st
      | None \<Rightarrow> st)"

definition message_is_authentic ::
    "Asn1Codec \<Rightarrow> MessageCodec \<Rightarrow> EccBackend \<Rightarrow> SecuredMessage \<Rightarrow> Certificate \<Rightarrow> PublicKey \<Rightarrow> Signature \<Rightarrow> cert_exception + bool" where
  "message_is_authentic asn mc backend msg cert public_key sig =
     ebind (signing_payload mc msg) (\<lambda>tbs_bytes.
     ebind (calculate_message_hash asn backend (hash_id msg) tbs_bytes cert) (\<lambda>msg_hash.
       Inr (verify_digest backend public_key msg_hash sig)))"

text \<open>The end of a successful verification: unless a copy of the certificate fails, it is stored.\<close>

definition store_signer ::
    "Asn1Codec \<Rightarrow> ShaFunctions \<Rightarrow> VerifyContext \<Rightarrow> SignerView \<Rightarrow> Certificate \<Rightarrow> VerifyConfirm \<Rightarrow> SecurityState
       \<Rightarrow> (cert_exception + VerifyConfirm) \<times> SecurityState" where
  "store_signer asn sha ctx identifier cert confirm st =
     (case vc_certificate_id confirm of
        Some digest \<Rightarrow>
          if uses_cert_cache ctx then
            let already_cached = cache_lookup (cert_cache st) digest \<noteq> None;
                st = (if \<not> already_cached \<and> vc_its_aid confirm = aid_CA then on_policy ctx request_certificate st else st)
            in if contains_certificate identifier then
                 (case asn1_copy asn cert of
                    None \<Rightarrow> (Inl (Runtime_error ''OER encoding failed''), st)
                  | Some copy \<Rightarrow> (Inr confirm, st\<lparr>cert_cache := cache_store asn sha copy (cert_cache st)\<rparr>))
               else (Inr confirm, st)
          else (Inr confirm, st)
      | None \<Rightarrow> (Inr confirm, st))"

definition verify_signed_by ::
    "Asn1Codec \<Rightarrow> ShaFunctions \<Rightarrow> MessageCodec \<Rightarrow> EccBackend \<Rightarrow> VerifyContext \<Rightarrow> SecuredMessage \<Rightarrow> Signature
       \<Rightarrow> HashedId8 option \<Rightarrow> Certificate \<Rightarrow> SecurityState \<Rightarrow> (cert_exception + VerifyConfirm) \<times> SecurityState" where
  "verify_signed_by asn sha mc backend ctx msg sig maybe_digest cert st =
     (if (case cert_validator ctx of Some valid \<Rightarrow> valid cert (its_aid msg) \<noteq> Valid | None \<Rightarrow> False)
      then (Inr (verify_failed ctx Invalid_Certificate), st)
      else let st = request_unknown_issuer ctx cert st
           in case get_public_key cert of
                None \<Rightarrow>
                  (Inr ((verify_failed ctx Invalid_Certificate)\<lparr>vc_certificate_validity := Some Missing_Public_Key\<rparr>), st)
              | Some public_key \<Rightarrow>
                  (case message_is_authentic asn mc backend msg cert public_key sig of
                     Inl _ \<Rightarrow> (Inr (verify_failed ctx Incompatible_Protocol), st)
                   | Inr authentic \<Rightarrow>
                       if \<not> authentic then (Inr (verify_failed ctx False_Signature), st)
                       else store_signer asn sha ctx (signer_identifier msg) cert
                              \<lparr>vc_report = Success, vc_its_aid = its_aid msg,
                               vc_permissions = get_app_permissions cert (its_aid msg),
                               vc_certificate_validity = None, vc_certificate_id = maybe_digest\<rparr> st))"

definition straight_verify ::
    "Asn1Codec \<Rightarrow> ShaFunctions \<Rightarrow> MessageCodec \<Rightarrow> EccBackend \<Rightarrow> VerifyContext \<Rightarrow> SecuredMessage \<Rightarrow> SecurityState
       \<Rightarrow> (cert_exception + VerifyConfirm) \<times> SecurityState" where
  "straight_verify asn sha mc backend ctx msg st =
     (if \<not> is_signed msg then (Inr (verify_failed ctx Unsigned_Message), st)
      else if protocol_version msg \<noteq> 3 then (Inr (verify_failed ctx Incompatible_Protocol), st)
      else if generation_time msg = None then (Inr (verify_failed ctx Invalid_Timestamp), st)
      else (case message_signature msg of
              None \<Rightarrow> (Inr (verify_failed ctx Unsigned_Message), st)
            | Some sig \<Rightarrow>
                let maybe_digest = get_certificate_id asn sha (signer_identifier msg);
                    st = handle_p2p asn sha ctx msg (track_station ctx msg maybe_digest st)
                in case lookup_signer ctx (cert_cache st) (signer_identifier msg) of
                     None \<Rightarrow> (Inr (verify_failed ctx Signer_Certificate_Not_Found), request_unknown_signer ctx msg maybe_digest st)
                   | Some cert \<Rightarrow> verify_signed_by asn sha mc backend ctx msg sig maybe_digest cert st))"

text \<open>The service for both generations: a parameter verifies messages of the older one, on a state of its own.\<close>

fun straight_verify_variant ::
    "('v2 \<Rightarrow> 'w \<Rightarrow> (cert_exception + VerifyConfirm) \<times> 'w)
       \<Rightarrow> Asn1Codec \<Rightarrow> ShaFunctions \<Rightarrow> MessageCodec \<Rightarrow> EccBackend \<Rightarrow> VerifyContext \<Rightarrow> 'v2 SecuredMessageVariant
       \<Rightarrow> SecurityState \<times> 'w \<Rightarrow> (cert_exception + VerifyConfirm) \<times> SecurityState \<times> 'w" where
  "straight_verify_variant v2_verify asn sha mc backend ctx (V2_Message msg) (st, w) =
     (let (confirm, w) = v2_verify msg w in (confirm, st, w))"
| "straight_verify_variant v2_verify asn sha mc backend ctx (V3_Message msg) (st, w) =
     (let (confirm, st) = straight_verify asn sha mc backend ctx msg st in (confirm, st, w))"

text \<open>The dummy service reports what it is told, and the permissions of the certificate it finds.\<close>

definition dummy_verify ::
    "Asn1Codec \<Rightarrow> ShaFunctions \<Rightarrow> VerificationReport \<Rightarrow> CertificateValidity \<Rightarrow> SecuredMessage \<Rightarrow> CertificateCache option
       \<Rightarrow> (cert_exception + VerifyConfirm) \<times> CertificateCache option" where
  "dummy_verify asn sha report validity msg cache =
     (let identifier = signer_identifier msg; digest = get_certificate_id asn sha identifier;
          confirm = \<lparr>vc_report = report, vc_its_aid = its_aid msg, vc_permissions = [],
            vc_certificate_validity = validity, vc_certificate_id = digest\<rparr>;
          permitted = (\<lambda>cert. confirm\<lparr>vc_permissions := get_app_permissions cert (its_aid msg)\<rparr>)
      in case digest of
           None \<Rightarrow> (Inr confirm, cache)
         | Some d \<Rightarrow>
             (case (cache, get_certificate identifier) of
                (Some c, Some cert) \<Rightarrow>
                  (case asn1_copy asn cert of
                     None \<Rightarrow> (Inl (Runtime_error ''OER encoding failed''), cache)
                   | Some copy \<Rightarrow> (Inr (permitted cert), Some (cache_store asn sha copy c)))
              | (Some c, None) \<Rightarrow>
                  (Inr (case cache_lookup c d of Some cert \<Rightarrow> permitted cert | None \<Rightarrow> confirm), cache)
              | (None, Some cert) \<Rightarrow> (Inr (permitted cert), cache)
              | (None, None) \<Rightarrow> (Inr confirm, cache)))"

end
