(* ===== verification/Services_Correctness.thy ===== *)
theory Services_Correctness
  imports Security_Services
begin

text \<open>
  What the security services do: a message is accepted exactly if it is signed under an acceptable
  certificate; a signed message says who signed it and for what; requests for certificates travel
  in the headers of messages; the state of a station is well formed in every run.
\<close>

section \<open>Verification\<close>

lemma digest_encodable: "codec_ok asn \<Longrightarrow> calculate_digest asn sha c = Some d \<Longrightarrow> \<exists>b. encode_cert asn c = Some b"
  by (auto simp: calculate_digest_def calculate_digest_internal_def cert_canonicalize_def Let_def bind_eq_Some_conv
      split: if_splits option.splits dest: asn1_copy_SomeD)

lemma store_signer_cases:
  assumes "codec_ok asn" and "vc_certificate_id confirm = get_certificate_id asn sha view"
    and "lookup_signer ctx (cert_cache st0) view = Some cert"
  shows "fst (store_signer asn sha ctx view cert confirm st) = Inr confirm"
proof (cases view)
  case (Certificate_View c)
  then have "c = cert" using assms(3) by simp
  moreover have "\<exists>b. encode_cert asn cert = Some b" if "calculate_digest asn sha cert = Some d" for d
    using that assms(1) by (rule digest_encodable [rotated])
  ultimately show ?thesis using assms(1,2) Certificate_View
    by (auto simp: store_signer_def Let_def asn1_copy_ok split: option.splits)
qed (simp add: store_signer_def Let_def split: option.split)

text \<open>The certificate's key verifies the signature of the message over the hash of its signed part.\<close>

definition signed_under :: "Asn1Codec \<Rightarrow> MessageCodec \<Rightarrow> EccBackend \<Rightarrow> SecuredMessage \<Rightarrow> Certificate \<Rightarrow> bool" where
  "signed_under asn mc backend msg cert \<longleftrightarrow> (\<exists>sig public_key tbs_bytes digest. message_signature msg = Some sig
     \<and> get_public_key cert = Some public_key \<and> signing_payload mc msg = Inr tbs_bytes
     \<and> calculate_message_hash asn backend (hash_id msg) tbs_bytes cert = Inr digest
     \<and> verify_digest backend public_key digest sig)"

definition accepted_by :: "VerifyContext \<Rightarrow> ItsAid \<Rightarrow> Certificate \<Rightarrow> bool" where
  "accepted_by ctx aid cert = (case cert_validator ctx of Some valid \<Rightarrow> valid cert aid = Valid | None \<Rightarrow> True)"

definition success_confirm :: "Asn1Codec \<Rightarrow> ShaFunctions \<Rightarrow> SecuredMessage \<Rightarrow> Certificate \<Rightarrow> VerifyConfirm" where
  "success_confirm asn sha msg cert = \<lparr>vc_report = Success, vc_its_aid = its_aid msg,
     vc_permissions = get_app_permissions cert (its_aid msg), vc_certificate_validity = None,
     vc_certificate_id = get_certificate_id asn sha (signer_identifier msg)\<rparr>"

lemma on_policy_cache [simp]: "cert_cache (on_policy ctx f st) = cert_cache st"
  by (simp add: on_policy_def)

lemma track_station_lookup: "cache_lookup (cert_cache (track_station ctx msg d st)) h = cache_lookup (cert_cache st) h"
  by (simp add: track_station_def cache_announce_def cache_lookup_def Let_def split: option.split)

lemma handle_p2p_cache [simp]: "cert_cache (handle_p2p asn sha ctx msg st) = cert_cache st"
  by (simp add: handle_p2p_def split: option.split)

lemma lookup_signer_tracked:
  "lookup_signer ctx (cert_cache (track_station ctx msg d st)) v = lookup_signer ctx (cert_cache st) v"
  by (induction ctx "cert_cache st" v rule: lookup_signer.induct) (simp_all add: track_station_lookup)

lemma verify_signed_by_report:
  assumes "codec_ok asn" and "message_signature msg = Some sig"
    and "lookup_signer ctx (cert_cache st0) (signer_identifier msg) = Some cert"
  shows "\<exists>c. fst (verify_signed_by asn sha mc backend ctx msg sig (get_certificate_id asn sha (signer_identifier msg)) cert st) = Inr c
     \<and> (vc_report c = Success \<longleftrightarrow> accepted_by ctx (its_aid msg) cert \<and> signed_under asn mc backend msg cert)
     \<and> (vc_report c = Success \<longrightarrow> c = success_confirm asn sha msg cert)"
proof (cases "accepted_by ctx (its_aid msg) cert")
  case True
  let ?v = "verify_signed_by asn sha mc backend ctx msg sig (get_certificate_id asn sha (signer_identifier msg)) cert st"
  have ok: "\<not> (case cert_validator ctx of Some valid \<Rightarrow> valid cert (its_aid msg) \<noteq> Valid | None \<Rightarrow> False)"
    using True by (simp add: accepted_by_def split: option.splits)
  show ?thesis
  proof (cases "\<exists>pk. get_public_key cert = Some pk \<and> message_is_authentic asn mc backend msg cert pk sig = Inr True")
    case auth: True
    then have "fst ?v = Inr (success_confirm asn sha msg cert)"
      using ok store_signer_cases [OF assms(1) _ assms(3), where confirm = "success_confirm asn sha msg cert"]
      by (auto simp: verify_signed_by_def Let_def success_confirm_def)
    moreover have "signed_under asn mc backend msg cert"
      using auth assms(2) by (auto simp: signed_under_def message_is_authentic_def ebind_Inr)
    ultimately show ?thesis using True by (simp add: success_confirm_def)
  next
    case False
    then have "\<exists>c. fst ?v = Inr c \<and> vc_report c \<noteq> Success"
      using ok by (auto simp: verify_signed_by_def Let_def verify_failed_def split: option.split sum.split)
    moreover have "\<not> signed_under asn mc backend msg cert"
      using False assms(2) by (auto simp: signed_under_def message_is_authentic_def ebind_Inr)
    ultimately show ?thesis by blast
  qed
qed (auto simp: verify_signed_by_def accepted_by_def verify_failed_def split: option.splits)

lemma straight_verify_report:
  assumes "codec_ok asn"
  shows "\<exists>c. fst (straight_verify asn sha mc backend ctx msg st) = Inr c
     \<and> (vc_report c = Success \<longleftrightarrow> is_signed msg \<and> protocol_version msg = 3 \<and> generation_time msg \<noteq> None
          \<and> (\<exists>cert. lookup_signer ctx (cert_cache st) (signer_identifier msg) = Some cert
               \<and> accepted_by ctx (its_aid msg) cert \<and> signed_under asn mc backend msg cert))
     \<and> (\<forall>cert. vc_report c = Success \<longrightarrow> lookup_signer ctx (cert_cache st) (signer_identifier msg) = Some cert
          \<longrightarrow> c = success_confirm asn sha msg cert)"
proof (cases "is_signed msg \<and> protocol_version msg = 3 \<and> generation_time msg \<noteq> None \<and> message_signature msg \<noteq> None")
  case True
  then obtain sig t where sig: "message_signature msg = Some sig" and t: "generation_time msg = Some t" by auto
  show ?thesis
  proof (cases "lookup_signer ctx (cert_cache st) (signer_identifier msg)")
    case None
    then show ?thesis using True sig t by (simp add: straight_verify_def Let_def lookup_signer_tracked verify_failed_def)
  next
    case (Some cert)
    from verify_signed_by_report [OF assms sig Some] show ?thesis using True sig t Some
      by (simp add: straight_verify_def Let_def lookup_signer_tracked)
  qed
next
  case False
  then show ?thesis
    by (auto simp: straight_verify_def verify_failed_def signed_under_def)
qed


section \<open>Signing\<close>

text \<open>What a header policy may change of a message, and what the message then says about its signer.\<close>

definition signer_ok :: "Asn1Codec \<Rightarrow> ShaFunctions \<Rightarrow> Certificate \<Rightarrow> SecuredMessage \<Rightarrow> bool" where
  "signer_ok asn sha cert msg \<longleftrightarrow> signer_identifier msg = Certificate_View cert
     \<or> (\<exists>d. signer_identifier msg = Digest_View (Some d) \<and> calculate_digest asn sha cert = Some d)"

definition header_only :: "SecuredMessage \<Rightarrow> SecuredMessage \<Rightarrow> bool" where
  "header_only msg msg' \<longleftrightarrow> is_signed msg' = is_signed msg \<and> protocol_version msg' = protocol_version msg
     \<and> message_payload msg' = message_payload msg \<and> hash_id msg' = hash_id msg"

lemma put_signer_view:
  "is_signed msg \<Longrightarrow> signer_identifier (put_signer (Signer_certificate [cert]) msg) = Certificate_View cert"
  "is_signed msg \<Longrightarrow> signer_identifier (put_signer (Signer_digest d) msg) = Digest_View (Some d)"
  by (auto simp: signer_identifier_def put_signer_def message_simps is_signed_iff)

lemma set_signer_identifier_Inr:
  "codec_ok asn \<Longrightarrow> set_signer_identifier asn cert msg = Inr msg' \<longleftrightarrow>
     (\<exists>b. encode_cert asn cert = Some b) \<and> msg' = put_signer (Signer_certificate [cert]) msg"
  by (auto simp: set_signer_identifier_def ebind_Inr or_throw_Inr asn1_copy_ok dest: asn1_copy_SomeD)

lemma set_requested_certificate_Inr:
  "set_requested_certificate asn cert msg = Inr msg' \<Longrightarrow> \<exists>f. msg' = on_header_info (requestedCertificate_update f) msg \<or> msg' = msg"
  by (auto simp: set_requested_certificate_def ebind_Inr split: if_splits)

definition stamped :: "SignRequest \<Rightarrow> SecuredMessage \<Rightarrow> bool" where
  "stamped req msg \<longleftrightarrow> its_aid msg = sr_its_aid req \<and> generation_time msg \<noteq> None"

lemma stamped_set: "is_signed msg \<Longrightarrow> stamped req (set_generation_time t (set_its_aid (sr_its_aid req) msg))"
  using get_header_info_signed [of msg]
  by (auto simp: stamped_def its_aid_def generation_time_def setter_defs message_simps ucast_up_ucast_id is_up)

lemma stamped_keep [message_simps]:
  "stamped req (put_signer s msg) = stamped req msg"
  "stamped req (put_signature sig msg) = stamped req msg"
  "(\<And>h. hi_psid (f h) = hi_psid h) \<Longrightarrow> (\<And>h. generationTime (f h) = generationTime h) \<Longrightarrow>
     stamped req (on_header_info f msg) = stamped req msg"
  by (auto simp: stamped_def its_aid_def generation_time_def message_simps split: option.split bind_splits)


lemma signer_ok_keep [message_simps]:
  "signer_ok asn sha cert (on_header_info f msg) = signer_ok asn sha cert msg"
  "signer_ok asn sha cert (put_signature sig msg) = signer_ok asn sha cert msg"
  by (simp_all add: signer_ok_def message_simps)

lemmas header_only_simps = header_only_def setter_defs message_simps

lemma signer_ok_put:
  "is_signed msg \<Longrightarrow> signer_ok asn sha cert (put_signer (Signer_certificate [cert]) msg)"
  "is_signed msg \<Longrightarrow> calculate_digest asn sha cert = Some d \<Longrightarrow> signer_ok asn sha cert (put_signer (Signer_digest d) msg)"
  by (simp_all add: signer_ok_def put_signer_view)

lemma prepare_cam_header_spec:
  assumes "codec_ok asn" and "is_signed msg" and "stamped req msg"
    and "prepare_cam_header asn sha at_cert cache now msg p = (Inr msg', p')"
  shows "header_only msg msg' \<and> stamped req msg'
    \<and> (calculate_digest asn sha at_cert \<noteq> None \<longrightarrow> signer_ok asn sha at_cert msg')"
proof -
  let ?p = "note_own_request (calculate_digest asn sha at_cert) p"
  show ?thesis
  proof (cases "now < cam_next_certificate ?p \<and> \<not> cert_requested ?p")
    case True
    let ?m = "set_inline_p2pcd_request (pr_fifo (outgoing_requests ?p))
      (case calculate_digest asn sha at_cert of Some d \<Rightarrow> set_signer_identifier_digest d msg | None \<Rightarrow> msg)"
    have "header_only msg ?m" "stamped req ?m" "calculate_digest asn sha at_cert \<noteq> None \<longrightarrow> signer_ok asn sha at_cert ?m"
      using assms(2,3) by (auto simp: header_only_simps signer_ok_put split: option.split)
    moreover have "msg' = ?m \<or> (\<exists>f. msg' = on_header_info (requestedCertificate_update f) ?m)"
      using assms(4) True
      by (auto simp: prepare_cam_header_def Let_def all_requests_def split: prod.splits option.splits
          dest: set_requested_certificate_Inr)
    ultimately show ?thesis by (auto simp: header_only_simps)
  next
    case False
    then have "\<exists>rs. msg' = set_inline_p2pcd_request rs (put_signer (Signer_certificate [at_cert]) msg)"
      using assms(4)
      by (auto simp: prepare_cam_header_def Let_def all_requests_def set_signer_identifier_Inr [OF assms(1)] split: sum.splits)
    then show ?thesis using assms(2,3) by (auto simp: header_only_simps signer_ok_put)
  qed
qed

lemma prepare_header_spec:
  assumes "codec_ok asn" and "is_signed msg"
    and "prepare_header asn sha provider cache now location req msg p = (Inr msg', p')"
  shows "header_only msg msg'" and "stamped req msg'"
    and "calculate_digest asn sha (own_certificate provider) \<noteq> None \<Longrightarrow> \<not> sr_self_signed req \<Longrightarrow>
      signer_ok asn sha (own_certificate provider) msg'"
proof -
  let ?c = "own_certificate provider" and ?m = "set_generation_time (convert_time64 now) (set_its_aid (sr_its_aid req) msg)"
  have m: "header_only msg ?m" "is_signed ?m" "stamped req ?m"
    using assms(2) stamped_set by (simp_all add: header_only_simps)
  have "header_only ?m msg' \<and> stamped req msg'
    \<and> (calculate_digest asn sha ?c \<noteq> None \<longrightarrow> \<not> sr_self_signed req \<longrightarrow> signer_ok asn sha ?c msg')"
  proof (cases "sr_its_aid req = aid_CA")
    case True
    then show ?thesis using assms(3) prepare_cam_header_spec [OF assms(1) m(2,3)]
      by (simp add: prepare_header_def Let_def)
  next
    case False
    then show ?thesis using assms(3) m
      by (auto simp: prepare_header_def Let_def ebind_Inr set_signer_identifier_Inr [OF assms(1)] setter_defs message_simps
          header_only_def signer_ok_put split: if_splits option.splits)
  qed
  with m(1) show "header_only msg msg'" "stamped req msg'"
    "calculate_digest asn sha ?c \<noteq> None \<Longrightarrow> \<not> sr_self_signed req \<Longrightarrow> signer_ok asn sha ?c msg'"
    by (auto simp: header_only_def)
qed


lemma get_public_key_type: "get_public_key cert = Some pk \<Longrightarrow> get_verification_key_type cert \<noteq> Unspecified"
  by (auto simp: get_public_key_def get_verification_key_type_def split: VerificationKeyIndicator.splits PublicVerificationKey.splits)

lemma hash_id_set: "is_signed msg \<Longrightarrow> hash_id (set_hash_id hash msg) = hash"
  by (cases hash) (auto simp: hash_id_def set_hash_id_def message_simps is_signed_iff)

lemma set_payload_new:
  "is_signed (set_message_payload b (set_hash_id hash with_signed_data))"
  "protocol_version (set_message_payload b (set_hash_id hash with_signed_data)) = 3"
  "message_payload (set_message_payload b (set_hash_id hash with_signed_data)) = b"
  "hash_id (set_message_payload b (set_hash_id hash with_signed_data)) = hash"
  by (cases hash; simp add: set_message_payload_def set_hash_id_def with_signed_data_def signed_data_with_def on_signed_data_def
      message_payload_def signed_payload_def set_unsecured_def is_signed_def protocol_version_def hash_id_def
      get_signed_data_def)+

lemma set_signature_put: "\<exists>s. set_signature sig msg = put_signature s msg"
  by (cases "sig_type sig") (auto simp: set_signature_def set_dummy_signature_def)

text \<open>What a successfully signed message says.\<close>

lemma straight_sign_spec:
  assumes "codec_ok asn"
    and "straight_sign asn sha mc backend validator provider now location req st = (Inr confirm, st')"
    and "sign_secured_message confirm = Some msg"
  shows "\<exists>msg0 tbs_bytes digest sig. msg = set_signature sig msg0
    \<and> prepare_header asn sha provider (cert_cache st) now location req
        (set_message_payload (convert_to_payload (sr_plain_message req))
           (set_hash_id (specified_hash_algorithm (get_verification_key_type (own_certificate provider))) with_signed_data))
        (header_policy st) = (Inr msg0, header_policy st')
    \<and> validator (own_certificate provider) (sr_its_aid req) = Valid
    \<and> signing_payload mc msg0 = Inr tbs_bytes
    \<and> calculate_message_hash asn backend (specified_hash_algorithm (get_verification_key_type (own_certificate provider)))
        tbs_bytes (own_certificate provider) = Inr digest
    \<and> sign_digest backend (own_private_key provider) digest = Inr sig"
  using assms(2,3)
  by (fastforce simp: straight_sign_def Let_def ebind_Inr sign_success_def sign_failure_def split: prod.splits if_splits)

definition signs_for :: "EccBackend \<Rightarrow> PrivateKey \<Rightarrow> PublicKey \<Rightarrow> bool" where
  "signs_for backend private_key public_key \<longleftrightarrow> (\<forall>digest sig. sign_digest backend private_key digest = Inr sig \<longrightarrow>
     sig_type sig \<noteq> Unspecified \<and> verify_digest backend public_key digest sig)"

lemma straight_sign_message:
  assumes "codec_ok asn"
    and "straight_sign asn sha mc backend validator provider now location req st = (Inr confirm, st')"
    and "sign_secured_message confirm = Some msg"
  shows "is_signed msg" and "protocol_version msg = 3" and "stamped req msg"
    and "message_payload msg = convert_to_payload (sr_plain_message req)"
    and "calculate_digest asn sha (own_certificate provider) \<noteq> None \<Longrightarrow> \<not> sr_self_signed req \<Longrightarrow>
      signer_ok asn sha (own_certificate provider) msg"
    and "get_public_key (own_certificate provider) = Some pk \<Longrightarrow> signs_for backend (own_private_key provider) pk \<Longrightarrow>
      signed_under asn mc backend msg (own_certificate provider)"
proof -
  let ?h = "specified_hash_algorithm (get_verification_key_type (own_certificate provider))"
  let ?m = "set_message_payload (convert_to_payload (sr_plain_message req)) (set_hash_id ?h with_signed_data)"
  from straight_sign_spec [OF assms] obtain msg0 tbs digest sig where msg: "msg = set_signature sig msg0"
    and prep: "prepare_header asn sha provider (cert_cache st) now location req ?m (header_policy st) = (Inr msg0, header_policy st')"
    and tbs: "signing_payload mc msg0 = Inr tbs" "calculate_message_hash asn backend ?h tbs (own_certificate provider) = Inr digest"
    and sig: "sign_digest backend (own_private_key provider) digest = Inr sig" by blast
  obtain s where put: "msg = put_signature s msg0" using msg set_signature_put by blast
  note spec = prepare_header_spec [OF assms(1) set_payload_new(1) prep]
  show "is_signed msg" "protocol_version msg = 3" "stamped req msg"
    "message_payload msg = convert_to_payload (sr_plain_message req)"
    using spec(1,2) by (simp_all add: put header_only_def message_simps set_payload_new)
  show "signer_ok asn sha (own_certificate provider) msg"
    if "calculate_digest asn sha (own_certificate provider) \<noteq> None" "\<not> sr_self_signed req"
    using spec(3) [OF that] by (simp add: put message_simps)
  show "signed_under asn mc backend msg (own_certificate provider)"
    if "get_public_key (own_certificate provider) = Some pk" "signs_for backend (own_private_key provider) pk"
  proof -
    have "sig_type sig \<noteq> Unspecified" "verify_digest backend pk digest sig" using that(2) sig by (auto simp: signs_for_def)
    moreover have "is_signed msg0" "hash_id msg0 = ?h" using spec(1) by (simp_all add: header_only_def set_payload_new)
    ultimately have "message_signature msg = Some sig" "hash_id msg = ?h" "signing_payload mc msg = Inr tbs"
      using tbs(1) by (simp_all add: msg set_signature_roundtrip, simp_all add: put [unfolded msg] message_simps)
    then show ?thesis using that(1) tbs(2) \<open>verify_digest backend pk digest sig\<close> by (auto simp: signed_under_def)
  qed
qed

lemma digest_length: "calculate_digest asn sha c = Some d \<Longrightarrow> length d \<le> 8"
  by (auto simp: calculate_digest_def calculate_digest_internal_def create_hashed_id8_def last_octets_def Let_def
      split: if_splits option.splits KeyType.splits)

lemma signer_ok_lookup:
  assumes "signer_ok asn sha cert msg" and "calculate_digest asn sha cert = Some d"
    and "signer_identifier msg = Certificate_View cert \<or> uses_cert_cache ctx \<and> cache_lookup cache d = Some cert"
  shows "lookup_signer ctx cache (signer_identifier msg) = Some cert"
    and "get_certificate_id asn sha (signer_identifier msg) = Some d"
  using assms digest_length [OF assms(2)] by (auto simp: signer_ok_def make_hashed_id8_def)

section \<open>Requests of certificates\<close>

lemma policy_ops [simp]:
  "incoming_requests (request_certificate p) = incoming_requests p"
  "outgoing_requests (request_certificate p) = outgoing_requests p"
  "incoming_requests (request_unrecognized_certificate i p) = incoming_requests p"
  "outgoing_requests (request_unrecognized_certificate i p) = add_request (truncate_hashed_id i) (outgoing_requests p)"
  "outgoing_requests (handle_p2p_header asn sha h p) = outgoing_requests p"
proof -
  have "outgoing_requests (fold (\<lambda>r. enqueue_p2p_request (create_hashed_id3 r)) rs q) = outgoing_requests q" for rs q
    by (induction rs arbitrary: q) (simp_all add: enqueue_p2p_request_def)
  then show "outgoing_requests (handle_p2p_header asn sha h p) = outgoing_requests p"
    by (simp add: handle_p2p_header_def Let_def discard_p2p_request_def split: option.split)
qed (simp_all add: request_certificate_def request_unrecognized_certificate_def)

abbreviation incoming :: "SecurityState \<Rightarrow> HashedId3 PeerRequestTracker" where
  "incoming st \<equiv> incoming_requests (header_policy st)"

abbreviation outgoing :: "SecurityState \<Rightarrow> HashedId3 PeerRequestTracker" where
  "outgoing st \<equiv> outgoing_requests (header_policy st)"

lemma track_station_requests [simp]:
  "incoming (track_station ctx msg d st) = incoming st" "outgoing (track_station ctx msg d st) = outgoing st"
  by (simp_all add: track_station_def on_policy_def Let_def split: option.split prod.split)

lemma handle_p2p_outgoing [simp]: "outgoing (handle_p2p asn sha ctx msg st) = outgoing st"
  by (simp add: handle_p2p_def on_policy_def split: option.split)

lemma verify_signed_by_incoming [simp]:
  "incoming (snd (verify_signed_by asn sha mc backend ctx msg sig d cert st)) = incoming st"
proof -
  have "incoming (request_unknown_issuer ctx cert st) = incoming st" for st
    by (simp add: request_unknown_issuer_def on_policy_def split: option.split)
  moreover have "incoming (snd (store_signer asn sha ctx view cert c st)) = incoming st" for view c st
    by (simp add: store_signer_def on_policy_def Let_def split: option.split)
  ultimately show ?thesis by (simp add: verify_signed_by_def Let_def split: option.split sum.split)
qed

definition well_formed :: "SecuredMessage \<Rightarrow> bool" where
  "well_formed msg \<longleftrightarrow> is_signed msg \<and> protocol_version msg = 3 \<and> generation_time msg \<noteq> None \<and> message_signature msg \<noteq> None"

lemma straight_verify_incoming:
  assumes "well_formed msg"
  shows "incoming (snd (straight_verify asn sha mc backend ctx msg st))
    = incoming (handle_p2p asn sha ctx msg (track_station ctx msg (get_certificate_id asn sha (signer_identifier msg)) st))"
  using assms
  by (auto simp: well_formed_def straight_verify_def request_unknown_signer_def on_policy_def Let_def split: option.split)

lemma straight_verify_unknown:
  assumes "well_formed msg" and "its_aid msg = aid_CA" and "uses_sign_policy ctx"
    and "lookup_signer ctx (cert_cache st) (signer_identifier msg) = None"
    and "get_certificate_id asn sha (signer_identifier msg) = Some d"
  shows "fst (straight_verify asn sha mc backend ctx msg st) = Inr (verify_failed ctx Signer_Certificate_Not_Found)"
    and "outgoing (snd (straight_verify asn sha mc backend ctx msg st)) = add_request (truncate_hashed_id d) (outgoing st)"
  using assms
  by (auto simp: well_formed_def straight_verify_def lookup_signer_tracked Let_def request_unknown_signer_def on_policy_def)


lemma note_own_request_outgoing [simp]: "outgoing_requests (note_own_request d p) = outgoing_requests p"
  by (simp add: note_own_request_def split: option.split)

lemma inline_set: "is_signed msg \<Longrightarrow> rs \<noteq> [] \<Longrightarrow>
    Option.bind (get_header_info (set_inline_p2pcd_request rs msg)) inlineP2pcdRequest = Some rs"
  using get_header_info_signed [of msg] by (auto simp: set_inline_eq message_simps)

text \<open>A CAM carries all requests for unknown certificates that have accumulated.\<close>

lemma prepare_cam_inline:
  assumes "codec_ok asn" and "is_signed msg" and "pr_fifo (outgoing_requests p) \<noteq> []"
    and "prepare_cam_header asn sha at_cert cache now msg p = (Inr msg', p')"
  shows "Option.bind (get_header_info msg') inlineP2pcdRequest = Some (pr_fifo (outgoing_requests p))"
proof -
  let ?rs = "pr_fifo (outgoing_requests p)"
  have "\<exists>m. is_signed m \<and> (msg' = set_inline_p2pcd_request ?rs m
      \<or> (\<exists>f. msg' = on_header_info (requestedCertificate_update f) (set_inline_p2pcd_request ?rs m)))"
  proof (cases "now < cam_next_certificate (note_own_request (calculate_digest asn sha at_cert) p)
      \<and> \<not> cert_requested (note_own_request (calculate_digest asn sha at_cert) p)")
    case True
    let ?m = "case calculate_digest asn sha at_cert of Some d \<Rightarrow> set_signer_identifier_digest d msg | None \<Rightarrow> msg"
    have "is_signed ?m" using assms(2) by (auto simp: setter_defs message_simps split: option.split)
    with assms(4) True show ?thesis
      by (auto simp: prepare_cam_header_def Let_def all_requests_def split: prod.splits option.splits
          dest!: set_requested_certificate_Inr)
  next
    case False
    then have "msg' = set_inline_p2pcd_request ?rs (put_signer (Signer_certificate [at_cert]) msg)"
      using assms(4)
      by (auto simp: prepare_cam_header_def Let_def all_requests_def set_signer_identifier_Inr [OF assms(1)] split: sum.splits)
    moreover have "is_signed (put_signer (Signer_certificate [at_cert]) msg)" using assms(2) by (simp add: message_simps)
    ultimately show ?thesis by blast
  qed
  then show ?thesis using inline_set [OF _ assms(3)] by (force simp: message_simps bind_eq_Some_conv)
qed

lemma prepare_cam_requested:
  assumes "codec_ok asn" and "is_signed msg" and "calculate_digest asn sha at_cert = Some d"
    and "is_pending (truncate_hashed_id d) (incoming_requests p)"
    and "prepare_cam_header asn sha at_cert cache now msg p = (Inr msg', p')"
  shows "signer_identifier msg' = Certificate_View at_cert"
  using assms(3-5) put_signer_view(1) [OF assms(2)]
  by (auto simp: prepare_cam_header_def note_own_request_def Let_def all_requests_def set_inline_eq message_simps
      set_signer_identifier_Inr [OF assms(1)] split: sum.splits)

text \<open>Requests are kept as long as there is room for all of them.\<close>

lemma enqueue_all:
  assumes "tracker_inv (incoming_requests p)" and "length (pr_fifo (incoming_requests p)) + length rs \<le> pr_limit (incoming_requests p)"
    and "r \<in> set rs \<or> is_pending r (incoming_requests p)" and "list_all (\<lambda>r. length r \<le> 3) rs"
  shows "is_pending r (incoming_requests (fold (\<lambda>r. enqueue_p2p_request (create_hashed_id3 r)) rs p))"
  using assms
proof (induction rs arbitrary: p)
  case (Cons x rs)
  let ?t = "incoming_requests p" and ?p = "enqueue_p2p_request (create_hashed_id3 x) p"
  have x: "create_hashed_id3 x = x" using Cons.prems(4) by (simp add: create_hashed_id3_def)
  have fifo: "pr_fifo (add_request x ?t) = (if x \<in> set (pr_fifo ?t) then pr_fifo ?t else pr_fifo ?t @ [x])"
    using Cons.prems(1,2) by (simp add: add_request_fifo)
  have inv: "tracker_inv (add_request x ?t)" using Cons.prems(1) by (rule add_request_inv)
  have "r \<in> set rs \<or> is_pending r (add_request x ?t)"
    using Cons.prems(1,3) by (auto simp: is_pending_iff [OF inv] is_pending_iff [OF Cons.prems(1)] fifo)
  moreover have "length (pr_fifo (add_request x ?t)) + length rs \<le> pr_limit ?t" using Cons.prems(2) by (simp add: fifo)
  ultimately show ?case
    using Cons.IH [of ?p] inv Cons.prems(4) by (simp add: enqueue_p2p_request_def x)
qed simp


lemma straight_sign_prepares:
  assumes "codec_ok asn" and "sr_its_aid req = aid_CA"
    and "straight_sign asn sha mc backend validator provider now location req st = (Inr confirm, st')"
    and "sign_secured_message confirm = Some msg"
  obtains m msg0 s where "is_signed m" and "msg = put_signature s msg0"
    and "prepare_cam_header asn sha (own_certificate provider) (cert_cache st) now m (header_policy st) = (Inr msg0, header_policy st')"
proof -
  let ?m = "set_message_payload (convert_to_payload (sr_plain_message req))
    (set_hash_id (specified_hash_algorithm (get_verification_key_type (own_certificate provider))) with_signed_data)"
  from straight_sign_spec [OF assms(1,3,4)] obtain msg0 sig where msg: "msg = set_signature sig msg0"
    and prep: "prepare_header asn sha provider (cert_cache st) now location req ?m (header_policy st) = (Inr msg0, header_policy st')"
    by blast
  obtain s where put: "msg = put_signature s msg0" using msg set_signature_put by blast
  show thesis
  proof (rule that [OF _ put])
    show "is_signed (set_generation_time (convert_time64 now) (set_its_aid aid_CA ?m))"
      by (simp add: setter_defs message_simps set_payload_new)
    show "prepare_cam_header asn sha (own_certificate provider) (cert_cache st) now
        (set_generation_time (convert_time64 now) (set_its_aid aid_CA ?m)) (header_policy st) = (Inr msg0, header_policy st')"
      using prep assms(2) by (simp add: prepare_header_def Let_def)
  qed
qed

lemma straight_sign_cam:
  assumes "codec_ok asn" and "sr_its_aid req = aid_CA"
    and "straight_sign asn sha mc backend validator provider now location req st = (Inr confirm, st')"
    and "sign_secured_message confirm = Some msg"
  shows "pr_fifo (outgoing st) \<noteq> [] \<Longrightarrow>
      Option.bind (get_header_info msg) inlineP2pcdRequest = Some (pr_fifo (outgoing st))"
    and "calculate_digest asn sha (own_certificate provider) = Some d \<Longrightarrow> is_pending (truncate_hashed_id d) (incoming st) \<Longrightarrow>
      signer_identifier msg = Certificate_View (own_certificate provider)"
  by (rule straight_sign_prepares [OF assms], simp add: message_simps prepare_cam_inline [OF assms(1)])
    (rule straight_sign_prepares [OF assms], simp add: message_simps prepare_cam_requested [OF assms(1)])

text \<open>No other certificate in the header has the same short digest.\<close>

definition no_collision :: "Asn1Codec \<Rightarrow> ShaFunctions \<Rightarrow> HashedId8 \<Rightarrow> SecuredMessage \<Rightarrow> bool" where
  "no_collision asn sha d msg \<longleftrightarrow> (\<forall>h c e. get_header_info msg = Some h \<longrightarrow> requestedCertificate h = Some c
     \<longrightarrow> calculate_digest asn sha c = Some e \<longrightarrow> truncate_hashed_id e \<noteq> truncate_hashed_id d)"

lemma request_received:
  assumes "well_formed msg" and "its_aid msg = aid_CA" and "uses_sign_policy ctx" and "no_collision asn sha d msg"
    and "Option.bind (get_header_info msg) inlineP2pcdRequest = Some rs" and "truncate_hashed_id d \<in> set rs"
    and "list_all (\<lambda>r. length r \<le> 3) rs" and "tracker_inv (incoming st)"
    and "length (pr_fifo (incoming st)) + length rs \<le> pr_limit (incoming st)"
  shows "is_pending (truncate_hashed_id d) (incoming (snd (straight_verify asn sha mc backend ctx msg st)))"
proof -
  obtain h where h: "get_header_info msg = Some h" "inlineP2pcdRequest h = Some rs"
    using assms(5) by (auto simp: bind_eq_Some_conv)
  have keep: "is_pending r (incoming_requests (discard_p2p_request e p)) = is_pending r (incoming_requests p)" if "e \<noteq> r" for r e p
    using that by (simp add: discard_p2p_request_def discard_request_def is_pending_def)
  have "is_pending (truncate_hashed_id d) (incoming_requests (fold (\<lambda>r. enqueue_p2p_request (create_hashed_id3 r)) rs p))"
    if "incoming_requests p = incoming st" for p
    using enqueue_all [of p rs] that assms(6-9) by simp
  then have "is_pending (truncate_hashed_id d) (incoming_requests (handle_p2p_header asn sha h p))"
    if "incoming_requests p = incoming st" for p
    using that h assms(4) by (auto simp: handle_p2p_header_def Let_def keep no_collision_def split: option.split)
  then show ?thesis using assms(1-3) h
    by (simp add: straight_verify_incoming handle_p2p_def on_policy_def)
qed

text \<open>Short digests in the queues have their length.\<close>

lemma truncate_length: "length (truncate_hashed_id d) \<le> 3"
  by (simp add: truncate_hashed_id_def last_octets_def)

lemma request_sent:
  "tracker_inv t \<Longrightarrow> i \<in> set (pr_fifo (add_request i t))"
  by (simp add: add_request_fifo)

lemma verified_is_cached:
  assumes "codec_ok asn" and "fst (straight_verify asn sha mc backend ctx msg st) = Inr c" and "vc_report c = Success"
    and "signer_identifier msg = Certificate_View cert" and "calculate_digest asn sha cert = Some d" and "uses_cert_cache ctx"
  shows "cache_lookup (cert_cache (snd (straight_verify asn sha mc backend ctx msg st))) d \<noteq> None"
proof -
  have enc: "asn1_copy asn cert = Some cert" using digest_encodable [OF assms(1,5)] asn1_copy_ok [OF assms(1)] by blast
  have store: "cache_lookup (cache_store asn sha cert cache) d \<noteq> None" for cache
    using assms(5) by (auto simp: cache_store_def cache_lookup_def)
  have "cache_lookup (cert_cache (snd (store_signer asn sha ctx (Certificate_View cert) cert c' st'))) d \<noteq> None"
    if "vc_certificate_id c' = Some d" for c' st'
    using that assms(6) store by (simp add: store_signer_def enc Let_def)
  then show ?thesis using assms(2-5)
    by (auto simp: straight_verify_def verify_signed_by_def verify_failed_def Let_def split: if_splits option.splits sum.splits)
qed

section \<open>Runs of a station\<close>

text \<open>
  A run of a station interleaves successful signatures and verifications, from one state of its
  services to another. The trace has the messages it signed with the times of signing. The
  verification contexts may vary, as the validators depend on the time and the stores.
\<close>

inductive station_run ::
    "Asn1Codec \<Rightarrow> ShaFunctions \<Rightarrow> MessageCodec \<Rightarrow> EccBackend \<Rightarrow> CertificateProvider \<Rightarrow> VerifyContext set
       \<Rightarrow> SecurityState \<Rightarrow> (time_point \<times> SecuredMessage) list \<Rightarrow> SecurityState \<Rightarrow> bool"
  for asn sha mc backend provider contexts st0 where
  start: "station_run asn sha mc backend provider contexts st0 [] st0"
| sign: "station_run asn sha mc backend provider contexts st0 tr st1 \<Longrightarrow>
    straight_sign asn sha mc backend validator provider now location req st1 = (Inr confirm, st2) \<Longrightarrow>
    sign_secured_message confirm = Some msg \<Longrightarrow> station_run asn sha mc backend provider contexts st0 (tr @ [(now, msg)]) st2"
| verify: "station_run asn sha mc backend provider contexts st0 tr st1 \<Longrightarrow> ctx \<in> contexts \<Longrightarrow>
    straight_verify asn sha mc backend ctx msg st1 = (result, st2) \<Longrightarrow> station_run asn sha mc backend provider contexts st0 tr st2"

text \<open>The queues of a station are well formed and take sixteen requests.\<close>

definition queue_ok :: "'id PeerRequestTracker \<Rightarrow> bool" where
  "queue_ok t \<longleftrightarrow> tracker_inv t \<and> pr_limit t = 16"

lemma queue_ok_new: "queue_ok (peer_request_tracker 16)"
  using tracker_inv_new by (simp add: queue_ok_def) (simp add: peer_request_tracker_def)

lemma queue_oks:
  "queue_ok t \<Longrightarrow> queue_ok (add_request i t)" "queue_ok t \<Longrightarrow> queue_ok (discard_request i t)"
  "queue_ok t \<Longrightarrow> queue_ok (snd (next_one t))" "queue_ok t \<Longrightarrow> queue_ok (snd (all_requests t))"
  by (simp_all add: queue_ok_def tracker_invs)

lemma queue_ok_fifo: "queue_ok t \<Longrightarrow> distinct (pr_fifo t) \<and> length (pr_fifo t) \<le> 16"
  by (auto simp: queue_ok_def tracker_inv_def)

definition services_inv :: "Asn1Codec \<Rightarrow> ShaFunctions \<Rightarrow> VerifyContext set \<Rightarrow> SecurityState \<Rightarrow> bool" where
  "services_inv asn sha contexts st \<longleftrightarrow> queue_ok (incoming st) \<and> queue_ok (outgoing st) \<and> cache_inv (cert_cache st)
     \<and> (\<forall>d c. cache_lookup (cert_cache st) d = Some c \<longrightarrow>
          calculate_digest asn sha c = Some d \<and> (\<exists>ctx \<in> contexts. \<exists>aid. accepted_by ctx aid c))"

definition initial_services :: "time_point \<Rightarrow> SecurityState" where
  "initial_services now = \<lparr>header_policy = default_sign_header_policy now, cert_cache = certificate_cache\<rparr>"

lemma services_inv_initial: "services_inv asn sha contexts (initial_services now)"
proof -
  have "cache_lookup certificate_cache d = None" for d by (simp add: cache_lookup_def certificate_cache_def)
  then show ?thesis
    by (simp add: services_inv_def initial_services_def default_sign_header_policy_def queue_ok_new cache_inv_initial)
qed

text \<open>Operations of the policy and of the cache that verification uses.\<close>

lemma services_inv_policy:
  assumes "services_inv asn sha contexts st" and "queue_ok (incoming_requests p)" and "queue_ok (outgoing_requests p)"
  shows "services_inv asn sha contexts (st\<lparr>header_policy := p\<rparr>)"
  using assms by (simp add: services_inv_def)

lemma services_inv_on_policy:
  assumes "services_inv asn sha contexts st"
    and "\<And>p. queue_ok (incoming_requests p) \<Longrightarrow> queue_ok (incoming_requests (f p))"
    and "\<And>p. queue_ok (outgoing_requests p) \<Longrightarrow> queue_ok (outgoing_requests (f p))"
  shows "services_inv asn sha contexts (on_policy ctx f st)"
  using assms by (simp add: on_policy_def services_inv_def)

lemma handle_p2p_header_inv:
  assumes "queue_ok (incoming_requests p)" shows "queue_ok (incoming_requests (handle_p2p_header asn sha h p))"
proof -
  have "queue_ok (incoming_requests (fold (\<lambda>r. enqueue_p2p_request (create_hashed_id3 r)) rs q))"
    if "queue_ok (incoming_requests q)" for rs q
    using that by (induction rs arbitrary: q) (simp_all add: enqueue_p2p_request_def queue_oks)
  with assms show ?thesis
    by (simp add: handle_p2p_header_def Let_def discard_p2p_request_def queue_oks split: option.split)
qed

lemma services_inv_ops:
  assumes "services_inv asn sha contexts st"
  shows "services_inv asn sha contexts (track_station ctx msg d st)"
    and "services_inv asn sha contexts (handle_p2p asn sha ctx msg st)"
    and "services_inv asn sha contexts (request_unknown_signer ctx msg d st)"
    and "services_inv asn sha contexts (request_unknown_issuer ctx cert st)"
proof -
  have "services_inv asn sha contexts (st\<lparr>cert_cache := snd (cache_announce h (cert_cache st))\<rparr>)" for h
    using assms cache_inv_announce [of "cert_cache st" h] by (simp add: services_inv_def cache_announce_def cache_lookup_def)
  then show "services_inv asn sha contexts (track_station ctx msg d st)"
    using assms by (auto simp: track_station_def Let_def cache_announce_def intro!: services_inv_on_policy split: option.split)
  show "services_inv asn sha contexts (handle_p2p asn sha ctx msg st)"
    using assms by (auto simp: handle_p2p_def handle_p2p_header_inv intro!: services_inv_on_policy split: option.split)
  show "services_inv asn sha contexts (request_unknown_signer ctx msg d st)"
    "services_inv asn sha contexts (request_unknown_issuer ctx cert st)"
    using assms by (auto simp: request_unknown_signer_def request_unknown_issuer_def queue_oks
        intro!: services_inv_on_policy split: option.split)
qed

lemma services_inv_store:
  assumes "services_inv asn sha contexts st" and "codec_ok asn" and "ctx \<in> contexts" and "accepted_by ctx aid cert"
  shows "services_inv asn sha contexts (snd (store_signer asn sha ctx view cert confirm st))"
proof -
  have stored: "services_inv asn sha contexts (st1\<lparr>cert_cache := cache_store asn sha cert (cert_cache st1)\<rparr>)"
    if "services_inv asn sha contexts st1" for st1
    using that assms(3,4) cache_inv_store
    by (auto simp: services_inv_def cache_lookup_def) (auto simp: cache_store_def split: option.splits if_splits)
  have asked: "services_inv asn sha contexts (on_policy ctx request_certificate st)"
    by (rule services_inv_on_policy [OF assms(1)]) simp_all
  have "copy = cert" if "asn1_copy asn cert = Some copy" for copy
    using asn1_copy_SomeD [OF assms(2) that] by blast
  then show ?thesis using assms(1) stored [OF assms(1)] stored [OF asked] asked
    by (auto simp: store_signer_def Let_def split: option.split)
qed

lemma services_inv_verify:
  assumes "services_inv asn sha contexts st" and "codec_ok asn" and "ctx \<in> contexts"
  shows "services_inv asn sha contexts (snd (straight_verify asn sha mc backend ctx msg st))"
proof -
  have "services_inv asn sha contexts (snd (verify_signed_by asn sha mc backend ctx msg sig d cert st1))"
    if "services_inv asn sha contexts st1" for sig d cert st1
  proof (cases "accepted_by ctx (its_aid msg) cert")
    case True
    then show ?thesis using that assms(2,3) services_inv_ops(4) services_inv_store
      by (auto simp: verify_signed_by_def Let_def split: option.split sum.split)
  qed (use that in \<open>auto simp: verify_signed_by_def accepted_by_def split: option.splits\<close>)
  then show ?thesis using assms(1) services_inv_ops(1-3) [where contexts = contexts]
    by (simp add: straight_verify_def Let_def split: option.split)
qed

lemma next_ca_certificate_inv: "queue_ok t \<Longrightarrow> queue_ok (snd (next_ca_certificate cache t))"
proof (induction cache t rule: next_ca_certificate.induct)
  case (1 cache t)
  have n: "queue_ok (snd (next_one t))" using "1.prems" by (rule queue_oks(3))
  show ?case
  proof (cases "next_one t")
    case (Pair o t')
    then show ?thesis using 1 n by (subst next_ca_certificate.simps) (auto split: option.split)
  qed
qed

lemma prepare_header_inv:
  assumes "queue_ok (incoming_requests p)" and "queue_ok (outgoing_requests p)"
    and "p' = snd (prepare_header asn sha provider cache now location req msg p)"
  shows "queue_ok (incoming_requests p') \<and> queue_ok (outgoing_requests p')"
proof -
  let ?q = "note_own_request (calculate_digest asn sha (own_certificate provider)) p"
  have q: "queue_ok (incoming_requests ?q)" using assms(1) by (simp add: note_own_request_def queue_oks split: option.split)
  then have "queue_ok (incoming_requests p') \<and> queue_ok (outgoing_requests p')"
    if "p' = snd (prepare_cam_header asn sha (own_certificate provider) cache now m p)" for m
    using that assms(2) queue_oks(4) [OF assms(2)] next_ca_certificate_inv [OF q, of cache]
    by (auto simp: prepare_cam_header_def Let_def all_requests_def split: prod.splits sum.splits)
  then show ?thesis using assms by (auto simp: prepare_header_def Let_def split: if_splits option.splits)
qed

lemma services_inv_sign:
  assumes "services_inv asn sha contexts st"
  shows "services_inv asn sha contexts (snd (straight_sign asn sha mc backend validator provider now location req st))"
  using assms prepare_header_inv [of "header_policy st", OF _ _ refl]
  by (auto simp: straight_sign_def Let_def services_inv_def case_prod_beta)


lemma services_inv_run:
  assumes "codec_ok asn" and "services_inv asn sha contexts st"
  shows "station_run asn sha mc backend provider contexts st tr st' \<Longrightarrow> services_inv asn sha contexts st'"
proof (induction rule: station_run.induct)
  case (sign tr st1 validator now location req confirm st2 msg)
  then show ?case using services_inv_sign by (metis snd_conv)
next
  case (verify tr st1 ctx msg result st2)
  then show ?case using services_inv_verify [OF _ assms(1)] by (metis snd_conv)
qed (rule assms(2))

section \<open>How often certificates are sent\<close>

lemma prepare_cam_certificate:
  assumes "codec_ok asn" and "is_signed msg" and "prepare_cam_header asn sha at_cert cache now msg p = (Inr msg', p')"
  shows "signer_identifier msg' = Certificate_View at_cert \<and> cam_next_certificate p' = now + 950000
      \<or> now < cam_next_certificate p \<and> cam_next_certificate p' = cam_next_certificate p"
proof -
  let ?p = "note_own_request (calculate_digest asn sha at_cert) p"
  have keep: "cam_next_certificate ?p = cam_next_certificate p" by (simp add: note_own_request_def split: option.split)
  show ?thesis
  proof (cases "now < cam_next_certificate ?p \<and> \<not> cert_requested ?p")
    case True
    then show ?thesis using assms(3) keep
      by (auto simp: prepare_cam_header_def Let_def all_requests_def split: prod.splits)
  next
    case False
    then have "msg' = set_inline_p2pcd_request (pr_fifo (outgoing_requests p)) (put_signer (Signer_certificate [at_cert]) msg)"
      "cam_next_certificate p' = now + 950000"
      using assms(3)
      by (auto simp: prepare_cam_header_def Let_def all_requests_def set_signer_identifier_Inr [OF assms(1)] split: sum.splits)
    then show ?thesis using put_signer_view(1) [OF assms(2)] by (simp add: set_inline_eq message_simps)
  qed
qed

abbreviation next_certificate :: "SecurityState \<Rightarrow> time_point" where
  "next_certificate st \<equiv> cam_next_certificate (header_policy st)"

lemma straight_sign_certificate:
  assumes "codec_ok asn"
    and "straight_sign asn sha mc backend validator provider now location req st = (Inr confirm, st')"
    and "sign_secured_message confirm = Some msg"
  shows "its_aid msg \<noteq> aid_CA \<and> next_certificate st' = next_certificate st
    \<or> its_aid msg = aid_CA \<and> signer_identifier msg = Certificate_View (own_certificate provider)
        \<and> next_certificate st' = now + 950000
    \<or> its_aid msg = aid_CA \<and> now < next_certificate st \<and> next_certificate st' = next_certificate st"
proof -
  have aid: "its_aid msg = sr_its_aid req" using straight_sign_message(3) [OF assms] by (simp add: stamped_def)
  show ?thesis
  proof (cases "sr_its_aid req = aid_CA")
    case True
    from straight_sign_prepares [OF assms(1) this assms(2,3)] obtain m msg0 s where m: "is_signed m" "msg = put_signature s msg0"
      "prepare_cam_header asn sha (own_certificate provider) (cert_cache st) now m (header_policy st) = (Inr msg0, header_policy st')" .
    from prepare_cam_certificate [OF assms(1) m(1,3)] True aid m(2) show ?thesis by (auto simp: message_simps)
  next
    case False
    with straight_sign_spec [OF assms] have "header_policy st' = header_policy st"
      by (auto simp: prepare_header_def Let_def split: if_splits option.splits)
    with False aid show ?thesis by simp
  qed
qed

lemma straight_verify_next: "next_certificate (snd (straight_verify asn sha mc backend ctx msg st)) = next_certificate st"
proof -
  have ops: "cam_next_certificate (request_certificate p) = cam_next_certificate p"
    "cam_next_certificate (request_unrecognized_certificate i p) = cam_next_certificate p" for i p
    by (simp_all add: request_certificate_def request_unrecognized_certificate_def)
  have "cam_next_certificate (fold (\<lambda>r. enqueue_p2p_request (create_hashed_id3 r)) rs p) = cam_next_certificate p" for rs p
    by (induction rs arbitrary: p) (simp_all add: enqueue_p2p_request_def)
  then have "cam_next_certificate (handle_p2p_header asn sha h p) = cam_next_certificate p" for h p
    by (simp add: handle_p2p_header_def Let_def discard_p2p_request_def split: option.split)
  then have [simp]: "next_certificate (handle_p2p asn sha ctx msg st) = next_certificate st" for st
    by (simp add: handle_p2p_def on_policy_def split: option.split)
  have [simp]: "next_certificate (track_station ctx msg d st) = next_certificate st"
    "next_certificate (request_unknown_signer ctx msg d st) = next_certificate st"
    "next_certificate (request_unknown_issuer ctx cert st) = next_certificate st" for d cert st
    by (simp_all add: track_station_def request_unknown_signer_def request_unknown_issuer_def
        on_policy_def ops Let_def split: option.split prod.split)
  have [simp]: "next_certificate (snd (store_signer asn sha ctx view cert c st)) = next_certificate st" for view cert c st
    by (simp add: store_signer_def on_policy_def ops Let_def split: option.split)
  show ?thesis
    by (simp add: straight_verify_def verify_signed_by_def Let_def split: option.split sum.split)
qed

definition announces :: "CertificateProvider \<Rightarrow> SecuredMessage \<Rightarrow> bool" where
  "announces provider msg \<longleftrightarrow> its_aid msg = aid_CA \<and> signer_identifier msg = Certificate_View (own_certificate provider)"

lemma cam_run:
  assumes "codec_ok asn" and "station_run asn sha mc backend provider contexts st0 tr st" and "next_certificate st0 = t0"
    and "\<And>now msg. (now, msg) \<in> set tr \<Longrightarrow> t0 \<le> now"
  shows "(next_certificate st = t0 \<or> (\<exists>k<length tr. announces provider (snd (tr ! k)) \<and> next_certificate st = fst (tr ! k) + 950000))
    \<and> (\<forall>i<length tr. its_aid (snd (tr ! i)) = aid_CA \<longrightarrow>
         (\<exists>k\<le>i. announces provider (snd (tr ! k)) \<and> fst (tr ! i) < fst (tr ! k) + 950000))"
  using assms(2,4)
proof (induction rule: station_run.induct)
  case start
  then show ?case using assms(3) by simp
next
  case (sign tr st1 validator now location req confirm st2 msg)
  let ?tr = "tr @ [(now, msg)]"
  have IH: "next_certificate st1 = t0 \<or> (\<exists>k<length tr. announces provider (snd (tr ! k)) \<and> next_certificate st1 = fst (tr ! k) + 950000)"
    "\<forall>i<length tr. its_aid (snd (tr ! i)) = aid_CA \<longrightarrow>
       (\<exists>k\<le>i. announces provider (snd (tr ! k)) \<and> fst (tr ! i) < fst (tr ! k) + 950000)"
    using sign.IH sign.prems by auto
  have old: "?tr ! k = tr ! k" if "k < length tr" for k using that by (simp add: nth_append)
  have new: "?tr ! length tr = (now, msg)" by simp
  have now: "t0 \<le> now" using sign.prems by auto
  note step = straight_sign_certificate [OF assms(1) sign.hyps(2,3)]
  have next': "next_certificate st2 = t0 \<or> (\<exists>k<length ?tr. announces provider (snd (?tr ! k)) \<and> next_certificate st2 = fst (?tr ! k) + 950000)"
  proof (cases "next_certificate st2 = next_certificate st1")
    case True
    then show ?thesis using IH(1) old by (auto intro: less_SucI)
  next
    case False
    then have "announces provider msg" "next_certificate st2 = now + 950000" using step by (auto simp: announces_def)
    then show ?thesis using new by (intro disjI2 exI [of _ "length tr"]) simp
  qed
  moreover have "\<exists>k\<le>length tr. announces provider (snd (?tr ! k)) \<and> now < fst (?tr ! k) + 950000" if "its_aid msg = aid_CA"
  proof (cases "now < next_certificate st1 \<and> next_certificate st2 = next_certificate st1")
    case True
    then obtain k where "k < length tr" "announces provider (snd (tr ! k))" "next_certificate st1 = fst (tr ! k) + 950000"
      using IH(1) now by auto
    then show ?thesis using True old [of k] by (intro exI [of _ k]) simp
  next
    case False
    then have "announces provider msg" using step that by (auto simp: announces_def)
    then show ?thesis using new by (intro exI [of _ "length tr"]) simp
  qed
  moreover have "\<exists>k\<le>i. announces provider (snd (?tr ! k)) \<and> fst (?tr ! i) < fst (?tr ! k) + 950000"
    if i: "i < length tr" "its_aid (snd (?tr ! i)) = aid_CA" for i
  proof -
    obtain k where "k \<le> i" "announces provider (snd (tr ! k))" "fst (tr ! i) < fst (tr ! k) + 950000"
      using IH(2) i old [of i] by auto
    then show ?thesis using i(1) old [of i] old [of k] by (intro exI [of _ k]) simp
  qed
  ultimately show ?case using new by (auto simp: less_Suc_eq)
next
  case (verify tr st1 ctx msg result st2)
  then have "next_certificate st2 = next_certificate st1" using straight_verify_next by (metis snd_conv)
  then show ?case using verify by auto
qed

end
