(* ===== verification/Services_Properties.thy ===== *)
theory Services_Properties
  imports Services_Correctness
begin

text \<open>
  What stations can rely on when they sign and verify messages: which messages are accepted, that a
  signed message is, how certificates spread, what a station keeps; and where the services lose or
  garble information.
\<close>

section \<open>Properties\<close>

text \<open>
  C4: verification always returns a confirm. It reports success exactly if the message is signed, has
  protocol version 3 and a generation time, its certificate is in the message or in the cache,
  the validator (if there is one) accepts that certificate for the application of the message,
  and the key of the certificate verifies the signature over the hash of the signed part. The
  confirm then has application and permissions of that certificate.
\<close>

theorem straight_verify_accepts:
  assumes "codec_ok asn"
  shows "\<exists>c. fst (straight_verify asn sha mc backend ctx msg st) = Inr c
    \<and> (vc_report c = Success \<longleftrightarrow> is_signed msg \<and> protocol_version msg = 3 \<and> generation_time msg \<noteq> None
         \<and> (\<exists>cert sig public_key tbs_bytes digest.
              (signer_identifier msg = Certificate_View cert \<or> (\<exists>h. signer_identifier msg = Digest_View (Some h)
                 \<and> uses_cert_cache ctx \<and> cache_lookup (cert_cache st) (make_hashed_id8 h) = Some cert))
              \<and> (cert_validator ctx = None \<or> (\<exists>valid. cert_validator ctx = Some valid \<and> valid cert (its_aid msg) = Valid))
              \<and> message_signature msg = Some sig \<and> get_public_key cert = Some public_key
              \<and> signing_payload mc msg = Inr tbs_bytes
              \<and> calculate_message_hash asn backend (hash_id msg) tbs_bytes cert = Inr digest
              \<and> verify_digest backend public_key digest sig
              \<and> vc_its_aid c = its_aid msg \<and> vc_permissions c = get_app_permissions cert (its_aid msg)))"
proof -
  have found: "lookup_signer ctx (cert_cache st) (signer_identifier msg) = Some cert \<longleftrightarrow>
      signer_identifier msg = Certificate_View cert \<or> (\<exists>h. signer_identifier msg = Digest_View (Some h)
         \<and> uses_cert_cache ctx \<and> cache_lookup (cert_cache st) (make_hashed_id8 h) = Some cert)" for cert
  proof (cases "signer_identifier msg")
    case (Digest_View h)
    then show ?thesis by (cases h) auto
  qed auto
  have accepted: "accepted_by ctx (its_aid msg) cert \<longleftrightarrow>
      cert_validator ctx = None \<or> (\<exists>valid. cert_validator ctx = Some valid \<and> valid cert (its_aid msg) = Valid)" for cert
    by (auto simp: accepted_by_def split: option.splits)
  obtain c where c: "fst (straight_verify asn sha mc backend ctx msg st) = Inr c"
    and iff: "vc_report c = Success \<longleftrightarrow> is_signed msg \<and> protocol_version msg = 3 \<and> generation_time msg \<noteq> None
      \<and> (\<exists>cert. lookup_signer ctx (cert_cache st) (signer_identifier msg) = Some cert
           \<and> accepted_by ctx (its_aid msg) cert \<and> signed_under asn mc backend msg cert)"
    and full: "\<forall>cert. vc_report c = Success \<longrightarrow> lookup_signer ctx (cert_cache st) (signer_identifier msg) = Some cert
      \<longrightarrow> c = success_confirm asn sha msg cert"
    using straight_verify_report [OF assms] by blast
  have "vc_its_aid c = its_aid msg \<and> vc_permissions c = get_app_permissions cert (its_aid msg)"
    if "vc_report c = Success" "lookup_signer ctx (cert_cache st) (signer_identifier msg) = Some cert" for cert
    using full that by (simp add: success_confirm_def)
  with c iff show ?thesis unfolding found accepted signed_under_def by blast
qed

text \<open>
  C6: signing and verifying. A message that a station signed for an application with an encodable
  certificate of its own is accepted by every station that accepts the certificate for that
  application and finds it in the message or in its cache. The receiver is told the application
  and the permissions and the digest of that certificate, and reads the payload that was signed.
\<close>

theorem sign_verify_roundtrip:
  assumes "codec_ok asn" and "own_certificate provider = cert"
    and "straight_sign asn sha mc backend validator provider now location req st = (Inr confirm, st')"
    and "sign_secured_message confirm = Some msg" and "\<not> sr_self_signed req"
    and "get_public_key cert = Some pk" and "signs_for backend (own_private_key provider) pk"
    and "calculate_digest asn sha cert = Some d" and "accepted_by ctx (sr_its_aid req) cert"
    and "signer_identifier msg = Certificate_View cert \<or> uses_cert_cache ctx \<and> cache_lookup (cert_cache st2) d = Some cert"
  shows "fst (straight_verify asn sha mc backend ctx msg st2) = Inr \<lparr>vc_report = Success, vc_its_aid = sr_its_aid req,
      vc_permissions = get_app_permissions cert (sr_its_aid req), vc_certificate_validity = None, vc_certificate_id = Some d\<rparr>
    \<and> message_payload msg = convert_to_payload (sr_plain_message req)"
proof -
  note m = straight_sign_message [OF assms(1,3,4)]
  have signer: "signer_ok asn sha cert msg" using m(5) assms(2,5,8) by simp
  note found = signer_ok_lookup [OF signer assms(8,10)]
  have aid: "its_aid msg = sr_its_aid req" "generation_time msg \<noteq> None" using m(3) by (simp_all add: stamped_def)
  obtain c where c: "fst (straight_verify asn sha mc backend ctx msg st2) = Inr c" and success: "vc_report c = Success"
    and full: "\<forall>x. lookup_signer ctx (cert_cache st2) (signer_identifier msg) = Some x \<longrightarrow> c = success_confirm asn sha msg x"
    using straight_verify_report [OF assms(1), of sha mc backend ctx msg st2] m(1,2,6) aid found(1) assms(2,6,7,9) by auto
  then show ?thesis using m(4) found aid(1) by (simp add: success_confirm_def)
qed

text \<open>
  C7: peers learn certificates from each other. Station A receives a cooperative awareness message
  (CAM) of station B with a digest A does not know, and drops it. A's next CAM reaches B. Then B's
  next CAM carries B's certificate, A accepts it, and has the certificate in its cache. This
  holds if the request queue of B has room for the requests of A, no other certificate with the
  same short digest is on its way, the keys of the stations match their certificates, and A accepts
  the certificate of B.
\<close>

theorem certificate_learned_from_peer:
  assumes "codec_ok asn" and "own_certificate b = cert" and "calculate_digest asn sha cert = Some d"
    and "uses_cert_cache ctx_a" and "uses_sign_policy ctx_a" and "uses_sign_policy ctx_b"
    and "tracker_inv (outgoing a0)" and "list_all (\<lambda>r. length r \<le> 3) (pr_fifo (outgoing a0))" and "tracker_inv (incoming b0)"
    and "cache_lookup (cert_cache a0) d = None"
    and "well_formed cam1" and "its_aid cam1 = aid_CA" and "signer_identifier cam1 = Digest_View (Some d)"
    and "a1 = snd (straight_verify asn sha mc backend ctx_a cam1 a0)"
    and "sr_its_aid req2 = aid_CA" and "straight_sign asn sha mc backend valid_a a t2 loc2 req2 a1 = (Inr c2, a2)"
    and "sign_secured_message c2 = Some cam2" and "message_signature cam2 \<noteq> None" and "no_collision asn sha d cam2"
    and "length (pr_fifo (incoming b0)) + length (pr_fifo (outgoing a1)) \<le> pr_limit (incoming b0)"
    and "b1 = snd (straight_verify asn sha mc backend ctx_b cam2 b0)"
    and "sr_its_aid req3 = aid_CA" and "\<not> sr_self_signed req3"
    and "straight_sign asn sha mc backend valid_b b t3 loc3 req3 b1 = (Inr c3, b2)"
    and "sign_secured_message c3 = Some cam3"
    and "get_public_key cert = Some pk" and "signs_for backend (own_private_key b) pk" and "accepted_by ctx_a aid_CA cert"
  shows "signer_identifier cam3 = Certificate_View cert
    \<and> (\<exists>c. fst (straight_verify asn sha mc backend ctx_a cam3 a2) = Inr c \<and> vc_report c = Success
         \<and> vc_certificate_id c = Some d)
    \<and> cache_lookup (cert_cache (snd (straight_verify asn sha mc backend ctx_a cam3 a2))) d \<noteq> None"
proof -
  have d8: "make_hashed_id8 d = d" using digest_length [OF assms(3)] by (simp add: make_hashed_id8_def)
  let ?t = "truncate_hashed_id d" and ?rs = "pr_fifo (outgoing a1)"
  have out: "outgoing a1 = add_request ?t (outgoing a0)"
    unfolding assms(14) using assms(5,10-13) d8 by (intro straight_verify_unknown(2)) simp_all
  have asked: "?t \<in> set ?rs" unfolding out using assms(7) by (rule request_sent)
  have short: "list_all (\<lambda>r. length r \<le> 3) ?rs"
    using assms(8) truncate_length [of d]
    by (auto simp: out add_request_fifo [OF assms(7)] list_all_iff dest: in_set_dropD)
  have inline: "Option.bind (get_header_info cam2) inlineP2pcdRequest = Some ?rs"
    using asked by (intro straight_sign_cam(1) [OF assms(1,15,16,17)]) auto
  note m2 = straight_sign_message [OF assms(1,16,17)]
  have "well_formed cam2" "its_aid cam2 = aid_CA"
    using m2(1,2,3) assms(15,18) by (simp_all add: well_formed_def stamped_def)
  from request_received [OF this assms(6,19) inline asked short assms(9,20)]
  have pending: "is_pending ?t (incoming b1)" by (simp add: assms(21))
  have view: "signer_identifier cam3 = Certificate_View cert"
    using straight_sign_cam(2) [OF assms(1,22,24,25) _ pending] assms(2,3) by simp
  note m3 = straight_sign_message [OF assms(1,24,25)]
  have "signed_under asn mc backend cam3 cert" using m3(6) assms(2,26,27) by simp
  moreover have "its_aid cam3 = aid_CA" "generation_time cam3 \<noteq> None" using m3(3) assms(22) by (simp_all add: stamped_def)
  ultimately obtain c where c: "fst (straight_verify asn sha mc backend ctx_a cam3 a2) = Inr c" "vc_report c = Success"
      "c = success_confirm asn sha cam3 cert"
    using straight_verify_report [OF assms(1), of sha mc backend ctx_a cam3 a2] m3(1,2) assms(28) view by auto
  have "vc_certificate_id c = Some d" using c(3) view assms(3) by (simp add: success_confirm_def)
  moreover note verified_is_cached [OF assms(1) c(1,2) view assms(3,4)]
  ultimately show ?thesis using view c(1,2) by blast
qed



text \<open>
  C39: requests for unknown certificates are lost if signing fails. The header of a CAM is prepared before
  the validator is asked about the signing certificate: if the certificate is rejected no message
  leaves the station, but the requests that were to go out with it are gone.
\<close>

theorem failed_signing_loses_requests:
  assumes "sr_its_aid req = aid_CA"
    and "straight_sign asn sha mc backend validator provider now location req st = (Inr (sign_failure No_Certificate), st')"
  shows "pr_fifo (outgoing st') = []"
proof -
  obtain prepared p where prep: "prepare_cam_header asn sha (own_certificate provider) (cert_cache st) now
      (set_generation_time (convert_time64 now) (set_its_aid (sr_its_aid req)
        (set_message_payload (convert_to_payload (sr_plain_message req))
          (set_hash_id (specified_hash_algorithm (get_verification_key_type (own_certificate provider))) with_signed_data))))
      (header_policy st) = (prepared, p)" by (meson surj_pair)
  then have "header_policy st' = p \<and> (\<exists>m. prepared = Inr m)"
    using assms by (auto simp: straight_sign_def prepare_header_def Let_def ebind_Inr split: prod.splits)
  moreover have "pr_fifo (outgoing_requests p) = []" if "prepared = Inr m" for m
    using prep [symmetric] that
    by (auto simp: prepare_cam_header_def all_requests_def Let_def case_prod_beta split: if_splits sum.splits)
  ultimately show ?thesis by auto
qed

text \<open>
   reading the certificate requests of a header back does not give the requests: all of them are the
  last three octets of a buffer that nothing has been written to.
\<close>

theorem inline_requests_read_back:
  assumes "is_signed msg" and "length uninit = 8" and "list_all (\<lambda>r. length r = 3) requests" and "requests \<noteq> []"
  shows "get_inline_p2pcd_request uninit (set_inline_p2pcd_request requests msg) = replicate (length requests) (drop 5 uninit)"
  using assms by (rule inline_requests_uninitialized)

text \<open>
  C38: a message that names another hash algorithm than SHA-256 and SHA-384 is verified against an empty
  digest, since the backends hash to nothing then and no check compares the algorithm with that of
  the certificate. If one such message is accepted, so is every other one with its signature and
  certificate for the same application, whatever its payload and generation time.
\<close>

theorem unspecified_hash_binds_nothing:
  assumes "codec_ok asn" and "calculate_hash backend = backend_hash sha"
    and "straight_verify asn sha mc backend ctx msg st = (Inr c, st')" and "vc_report c = Success"
    and "hash_id msg = Hash_Unspecified" and "hash_id forged = Hash_Unspecified"
    and "message_signature forged = message_signature msg" and "signer_identifier forged = signer_identifier msg"
    and "its_aid forged = its_aid msg" and "is_signed forged" and "protocol_version forged = 3"
    and "generation_time forged = Some t" and "signing_payload mc forged = Inr tbs_bytes"
  shows "\<exists>c. fst (straight_verify asn sha mc backend ctx forged st) = Inr c \<and> vc_report c = Success"
proof -
  obtain cert where cert: "lookup_signer ctx (cert_cache st) (signer_identifier msg) = Some cert"
    "accepted_by ctx (its_aid msg) cert" "signed_under asn mc backend msg cert"
    using straight_verify_report [OF assms(1), of sha mc backend ctx msg st] assms(3,4) by auto
  have "signed_under asn mc backend forged cert"
    using cert(3) assms(2,5-7,13) by (auto simp: signed_under_def calculate_message_hash_def ebind_Inr Let_def)
  then show ?thesis
    using straight_verify_report [OF assms(1), of sha mc backend ctx forged st] cert(1,2) assms(8-12) by auto
qed

section \<open>Concrete stations\<close>

definition sample_message_codec :: MessageCodec where
  "sample_message_codec = \<lparr>encode_msg = (\<lambda>_. None), decode_msg = (\<lambda>_. None), encode_tbs_data = (\<lambda>_. Some []),
     encode_aes_key = (\<lambda>_. None)\<rparr>"

definition sample_provider :: CertificateProvider where
  "sample_provider = \<lparr>authorization_ticket = ticket_certificate, authorization_ticket_key = sample_key\<rparr>"

definition sample_context :: VerifyContext where
  "sample_context = use_sign_header_policy True (use_certificate_provider True
     (use_certificate_validator (Some (\<lambda>_ _. Valid)) (verify_context 0)))"

definition station_location :: ThreeDLocation where
  "station_location = \<lparr>td_latitude = 0, td_longitude = 0, td_elevation = 4096\<rparr>"

definition cam_request :: SignRequest where
  "cam_request = sign_request (empty_chunk_packet(Network := [7])) 36 []"

definition peer_provider :: CertificateProvider where
  "peer_provider = \<lparr>authorization_ticket = root_certificate, authorization_ticket_key = sample_key\<rparr>"

abbreviation "sample_sign provider now st \<equiv> straight_sign sample_codec identity_sha sample_message_codec trusting_ecc
  (\<lambda>_ _. Valid) provider now station_location cam_request st"

abbreviation "sample_verify msg st \<equiv> straight_verify sample_codec identity_sha sample_message_codec trusting_ecc sample_context msg st"

definition signed_message :: "(cert_exception + SecuredMessage SignConfirm) \<times> SecurityState \<Rightarrow> SecuredMessage" where
  "signed_message result = (case fst result of
     Inr c \<Rightarrow> (case sign_secured_message c of Some m \<Rightarrow> m | None \<Rightarrow> with_signed_data) | Inl _ \<Rightarrow> with_signed_data)"

definition is_message :: "(cert_exception + SecuredMessage SignConfirm) \<times> SecurityState \<Rightarrow> bool" where
  "is_message result = (case fst result of Inr c \<Rightarrow> sign_secured_message c \<noteq> None | Inl _ \<Rightarrow> False)"

lemma is_messageD:
  "is_message result \<Longrightarrow> result = (Inr (projr (fst result)), snd result)
     \<and> sign_secured_message (projr (fst result)) = Some (signed_message result)"
  by (cases result) (auto simp: is_message_def signed_message_def split: sum.splits)

text \<open>The ticket's holder B has sent a message with its certificate when A receives the next one.\<close>

definition exchange_b0 :: SecurityState where
  "exchange_b0 = snd (sample_sign sample_provider 5 (initial_services 0))"
definition exchange_cam1 :: SecuredMessage where
  "exchange_cam1 = signed_message (sample_sign sample_provider 10 exchange_b0)"
definition exchange_a1 :: SecurityState where
  "exchange_a1 = snd (sample_verify exchange_cam1 (initial_services 0))"
definition exchange_cam2 :: SecuredMessage where
  "exchange_cam2 = signed_message (sample_sign peer_provider 11 exchange_a1)"
definition exchange_b1 :: SecurityState where
  "exchange_b1 = snd (sample_verify exchange_cam2 exchange_b0)"

lemma sample_station_facts:
  "codec_ok sample_codec" "own_certificate sample_provider = ticket_certificate"
  "get_public_key ticket_certificate = Some \<lparr>pk_x = replicate 32 0, pk_y = [], pk_type = NistP256, pk_compression = Y0\<rparr>"
  "signs_for trusting_ecc (own_private_key sample_provider) pk" "accepted_by sample_context aid cert"
  "uses_cert_cache sample_context" "uses_sign_policy sample_context" "sr_its_aid cam_request = aid_CA" "\<not> sr_self_signed cam_request"
  by (simp_all add: sample_codec_def codec_ok_list_codec sample_provider_def own_certificate_def own_private_key_def
      signs_for_def trusting_ecc_def sample_key_def accepted_by_def sample_context_def use_certificate_validator_def
      use_certificate_provider_def use_certificate_cache_def use_sign_header_policy_def verify_context_def
      cam_request_def sign_request_def aid_CA_def)
    (simp add: get_public_key_def sample_defs)

lemma exchange_facts:
  "is_message (sample_sign sample_provider 5 (initial_services 0))"
  "signer_identifier (signed_message (sample_sign sample_provider 5 (initial_services 0))) = Certificate_View ticket_certificate"
  "well_formed exchange_cam1" "its_aid exchange_cam1 = aid_CA" "signer_identifier exchange_cam1 = Digest_View (Some [0])"
  "is_message (sample_sign peer_provider 11 exchange_a1)" "message_signature exchange_cam2 \<noteq> None"
  "is_message (sample_sign sample_provider 12 exchange_b1)"
  "pr_fifo (incoming exchange_b0) = []" "pr_fifo (outgoing exchange_a1) = [[0]]" "pr_limit (incoming exchange_b0) = 16"
  by code_simp+

lemma exchange_no_collision: "no_collision sample_codec identity_sha [0] exchange_cam2"
proof -
  have "(case get_header_info exchange_cam2 of Some h \<Rightarrow> requestedCertificate h = None | None \<Rightarrow> False)" by code_simp
  then show ?thesis by (auto simp: no_collision_def split: option.splits)
qed

theorem straight_verify_accepts_witness:
  "\<exists>c. fst (sample_verify (signed_message (sample_sign sample_provider 5 (initial_services 0))) (initial_services 0)) = Inr c
     \<and> vc_report c = Success \<and> vc_its_aid c = 36 \<and> vc_permissions c = [1, 0, 0]"
proof -
  let ?m = "signed_message (sample_sign sample_provider 5 (initial_services 0))"
  have "vc_report (projr (fst (sample_verify ?m (initial_services 0)))) = Success" "its_aid ?m = 36"
    "get_app_permissions ticket_certificate 36 = [1, 0, 0]" by code_simp+
  then show ?thesis
    using straight_verify_accepts [OF sample_station_facts(1), of identity_sha sample_message_codec trusting_ecc sample_context ?m
        "initial_services 0"] exchange_facts(2) by auto
qed

theorem sign_verify_roundtrip_witness:
  "fst (sample_verify (signed_message (sample_sign sample_provider 5 (initial_services 0))) (initial_services 0))
     = Inr \<lparr>vc_report = Success, vc_its_aid = 36, vc_permissions = [1, 0, 0], vc_certificate_validity = None,
            vc_certificate_id = Some [0]\<rparr>
   \<and> message_payload (signed_message (sample_sign sample_provider 5 (initial_services 0))) = [7]"
proof -
  have "get_app_permissions ticket_certificate (sr_its_aid cam_request) = [1, 0, 0]" "sr_its_aid cam_request = 36"
    "convert_to_payload (sr_plain_message cam_request) = [7]" by code_simp+
  then show ?thesis
    using sign_verify_roundtrip [OF sample_station_facts(1,2) conjunct1 [OF is_messageD] conjunct2 [OF is_messageD]
        sample_station_facts(9,3,4) sample_digests(2) sample_station_facts(5), OF exchange_facts(1,1) disjI1 [OF exchange_facts(2)]]
    by simp
qed

theorem certificate_learned_from_peer_witness:
  "signer_identifier (signed_message (sample_sign sample_provider 12 exchange_b1)) = Certificate_View ticket_certificate
   \<and> cache_lookup (cert_cache (snd (sample_verify (signed_message (sample_sign sample_provider 12 exchange_b1))
       (snd (sample_sign peer_provider 11 exchange_a1))))) [0] \<noteq> None"
proof -
  have empty: "tracker_inv (outgoing (initial_services 0))" "pr_fifo (outgoing (initial_services 0)) = []"
    "cache_lookup (cert_cache (initial_services 0)) [0] = None"
    using tracker_inv_new [of 16]
    by (simp_all add: initial_services_def default_sign_header_policy_def cache_lookup_def certificate_cache_def)
      (simp add: peer_request_tracker_def)
  have b0: "tracker_inv (incoming exchange_b0)"
    using services_inv_sign [OF services_inv_initial, of sample_codec identity_sha "{}"]
    by (simp add: exchange_b0_def services_inv_def queue_ok_def)
  have a2: "sample_sign peer_provider 11 exchange_a1 = (Inr (projr (fst (sample_sign peer_provider 11 exchange_a1))),
      snd (sample_sign peer_provider 11 exchange_a1))"
    "sign_secured_message (projr (fst (sample_sign peer_provider 11 exchange_a1))) = Some exchange_cam2"
    using is_messageD [OF exchange_facts(6)] by (simp_all add: exchange_cam2_def)
  have b2: "sample_sign sample_provider 12 exchange_b1 = (Inr (projr (fst (sample_sign sample_provider 12 exchange_b1))),
      snd (sample_sign sample_provider 12 exchange_b1))"
    "sign_secured_message (projr (fst (sample_sign sample_provider 12 exchange_b1)))
      = Some (signed_message (sample_sign sample_provider 12 exchange_b1))"
    using is_messageD [OF exchange_facts(8)] by simp_all
  have short: "list_all (\<lambda>r. length r \<le> 3) (pr_fifo (outgoing (initial_services 0)))" by (simp add: empty)
  have room: "length (pr_fifo (incoming exchange_b0)) + length (pr_fifo (outgoing exchange_a1)) \<le> pr_limit (incoming exchange_b0)"
    by (simp add: exchange_facts)
  show ?thesis
    using certificate_learned_from_peer [OF sample_station_facts(1,2) sample_digests(2) sample_station_facts(6,7,7) empty(1) short
        b0 empty(3) exchange_facts(3-5) exchange_a1_def sample_station_facts(8) a2 exchange_facts(7) exchange_no_collision room
        exchange_b1_def sample_station_facts(8,9) b2 sample_station_facts(3,4,5)] by blast
qed

definition sample_trace :: "(time_point \<times> SecuredMessage) list" where
  "sample_trace = [(5, signed_message (sample_sign sample_provider 5 (initial_services 0))), (10, exchange_cam1)]"

lemma sample_run: "station_run sample_codec identity_sha sample_message_codec trusting_ecc sample_provider {sample_context}
    (initial_services 0) sample_trace (snd (sample_sign sample_provider 10 exchange_b0))"
proof -
  have m: "is_message (sample_sign sample_provider 10 exchange_b0)" by code_simp
  show ?thesis
    unfolding sample_trace_def
    using station_run.sign [OF station_run.sign [OF station_run.start conjunct1 [OF is_messageD [OF exchange_facts(1)]]
        conjunct2 [OF is_messageD [OF exchange_facts(1)]]], folded exchange_b0_def, OF conjunct1 [OF is_messageD [OF m]]
        conjunct2 [OF is_messageD [OF m]], folded exchange_cam1_def] by simp
qed



theorem failed_signing_loses_requests_witness:
  "pr_fifo (outgoing exchange_a1) = [[0]]
   \<and> pr_fifo (outgoing (snd (straight_sign sample_codec identity_sha sample_message_codec trusting_ecc (\<lambda>_ _. Expired)
       peer_provider 11 station_location cam_request exchange_a1))) = []"
proof -
  let ?s = "straight_sign sample_codec identity_sha sample_message_codec trusting_ecc (\<lambda>_ _. Expired)
    peer_provider 11 station_location cam_request exchange_a1"
  have "fst ?s = Inr (sign_failure No_Certificate)" by code_simp
  then have "?s = (Inr (sign_failure No_Certificate), snd ?s)" by (metis prod.collapse)
  from failed_signing_loses_requests [OF sample_station_facts(8) this] exchange_facts(10) show ?thesis by blast
qed

definition empty_digest_backend :: EccBackend where
  "empty_digest_backend = trusting_ecc\<lparr>calculate_hash := backend_hash identity_sha, verify_digest := (\<lambda>_ d _. d = [])\<rparr>"

definition no_hash_message :: SecuredMessage where
  "no_hash_message = set_hash_id Hash_Unspecified (signed_message (sample_sign sample_provider 5 (initial_services 0)))"

theorem unspecified_hash_binds_nothing_witness:
  "\<exists>c. fst (straight_verify sample_codec identity_sha sample_message_codec empty_digest_backend sample_context
     (set_message_payload [6, 6, 6] no_hash_message) (initial_services 0)) = Inr c \<and> vc_report c = Success"
proof -
  let ?v = "straight_verify sample_codec identity_sha sample_message_codec empty_digest_backend sample_context no_hash_message
    (initial_services 0)"
  let ?f = "set_message_payload [6, 6, 6] no_hash_message"
  have v: "(case fst ?v of Inr c \<Rightarrow> vc_report c = Success | Inl _ \<Rightarrow> False)" by code_simp
  then obtain c where c: "?v = (Inr c, snd ?v)" "vc_report c = Success" by (auto split: sum.splits) (metis prod.collapse)
  have f: "hash_id no_hash_message = Hash_Unspecified" "hash_id ?f = Hash_Unspecified"
    "message_signature ?f = message_signature no_hash_message" "signer_identifier ?f = signer_identifier no_hash_message"
    "its_aid ?f = its_aid no_hash_message" "is_signed ?f" "protocol_version ?f = 3" "generation_time ?f = Some 5"
    "signing_payload sample_message_codec ?f = Inr []" by code_simp+
  have "calculate_hash empty_digest_backend = backend_hash identity_sha" by (simp add: empty_digest_backend_def)
  from unspecified_hash_binds_nothing [OF sample_station_facts(1) this c f] show ?thesis .
qed

theorem inline_requests_read_back_witness:
  "get_inline_p2pcd_request [0, 1, 2, 3, 4, 5, 6, 7] (set_inline_p2pcd_request [[8, 8, 8], [9, 9, 9]] with_signed_data)
     = [[5, 6, 7], [5, 6, 7]]"
proof -
  have "is_signed with_signed_data" by code_simp
  then show ?thesis
    using inline_requests_read_back [of with_signed_data "[0, 1, 2, 3, 4, 5, 6, 7]" "[[8, 8, 8], [9, 9, 9]]"] by simp
qed

end
