(* ===== verification/Secured_Stack.thy ===== *)
theory Secured_Stack
  imports Router_Properties Services_Properties
begin

text \<open>
  The router with the security services: the verify service of the router is the straight verify
  service over both message generations, and its validator for certificates is the hybrid one. What
  the router passes up under strict security then has the guarantees of all of them.
\<close>

section \<open>The services as the router sees them\<close>

text \<open>
  The verify service of a router does not throw (\<open>v2_verify\<close> stands for the older generation); the payload
  of a message is that of its generation.
\<close>

definition uses_straight_verify ::
    "('v2 \<Rightarrow> 'w \<Rightarrow> (cert_exception + VerifyConfirm) \<times> 'w) \<Rightarrow> 'v2 V2Operations
       \<Rightarrow> Asn1Codec \<Rightarrow> ShaFunctions \<Rightarrow> MessageCodec \<Rightarrow> EccBackend \<Rightarrow> VerifyContext
       \<Rightarrow> ('v2 SecuredMessageVariant, SecurityState \<times> 'w, 'r) RouterEnv \<Rightarrow> bool" where
  "uses_straight_verify v2_verify v2 asn sha mc backend ctx env \<longleftrightarrow>
     (\<forall>msg st. straight_verify_variant v2_verify asn sha mc backend ctx msg st
        = (Inr (fst (env_verify env msg st)), snd (env_verify env msg st)))
     \<and> env_get_payload_copy env = variant_payload_copy v2"

lemma verified_by_straight:
  assumes "uses_straight_verify v2_verify v2 asn sha mc backend ctx env" and "codec_ok asn"
    and "vc_report (fst (env_verify env (V3_Message m) st)) = Success"
  shows "\<exists>cert. accepted_by ctx (its_aid m) cert \<and> signed_under asn mc backend m cert
    \<and> fst (env_verify env (V3_Message m) st) = success_confirm asn sha m cert"
proof -
  have "straight_verify_variant v2_verify asn sha mc backend ctx (V3_Message m) st
      = (Inr (fst (env_verify env (V3_Message m) st)), snd (env_verify env (V3_Message m) st))"
    using assms(1) unfolding uses_straight_verify_def by blast
  then have "fst (straight_verify asn sha mc backend ctx m (fst st)) = Inr (fst (env_verify env (V3_Message m) st))"
    by (cases st) (simp split: prod.splits)
  then show ?thesis using straight_verify_report [OF assms(2), of sha mc backend ctx m "fst st"] assms(3) by auto
qed

section \<open>Properties\<close>

text \<open>
  C1: from the air to the transport layer. A router with strict security whose verify service is the
  straight one with a hybrid validator that requires hybrid certificates passes up nothing but payloads
  of messages that either the service for the older generation accepted, or that are signed
  under a certificate the validator accepts for the application: its chain of issuers ends in
  a trusted root, every certificate of the chain has complete post-quantum material, and each
  post-quantum signature of it verifies. Application and permissions of the indication are those of
  the message and of the certificate.
\<close>

theorem passed_up_is_authentic:
  assumes "env_ok env" and "0 \<le> itsGnLifetimeLocTE (env_mib env)" and "list_all event_ok evs"
    and "itsGnSecurity (env_mib env)" and "itsGnSnDecapResultHandling (env_mib env) = Strict"
    and "router_events env evs (start_router env now gen addr entity protocols) = Inr r"
    and "(ind, packet) \<in> set (passed_up r)"
    and "uses_straight_verify v2_verify v2 asn sha mc backend ctx env" and "codec_ok asn"
    and "cert_validator ctx = Some (hybrid_valid_for_signing asn sha v)" and "h_verification_policy v = HybridRequired"
  shows "(\<exists>m st c st'. v2_verify m st = (Inr c, st') \<and> vc_report c = Success
         \<and> packet_conveys packet (variant_payload_copy v2 (V2_Message m))
         \<and> gn_its_aid ind = Some (vc_its_aid c) \<and> gn_permissions ind = Some (vc_permissions c))
    \<or> (\<exists>m cert lookup store ecc pqc cs n.
         packet = Cohesive (set_boundary Network n (cohesive_packet (message_payload m) Network))
         \<and> gn_its_aid ind = Some (its_aid m) \<and> gn_permissions ind = Some (get_app_permissions cert (its_aid m))
         \<and> signed_under asn mc backend m cert \<and> hybrid_valid_for_signing asn sha v cert (its_aid m) = Valid
         \<and> h_issuer_lookup v = Some lookup \<and> h_trust_store v = Some store
         \<and> h_ecc_backend v = Some ecc \<and> h_pqc_backend v = Some pqc
         \<and> issuing_chain lookup cert cs \<and> trusted asn sha store (last cs)
         \<and> alternative_material_state asn ` set cs \<subseteq> {Authority, EndEntity}
         \<and> linked (\<lambda>s i. verify_alternative_certificate asn sha ecc pqc s (Some i)) cs
         \<and> verify_alternative_certificate asn sha ecc pqc (last cs) None)"
proof -
  from passed_up_verified [OF assms(1-7)] obtain msg e where conveys: "packet_conveys packet (env_get_payload_copy env msg)"
    and success: "vc_report (fst (env_verify env msg e)) = Success"
    and ind: "gn_its_aid ind = Some (vc_its_aid (fst (env_verify env msg e)))"
    "gn_permissions ind = Some (vc_permissions (fst (env_verify env msg e)))" unfolding verified_def by blast
  show ?thesis
  proof (cases msg)
    case (V2_Message m)
    have "straight_verify_variant v2_verify asn sha mc backend ctx msg e
        = (Inr (fst (env_verify env msg e)), snd (env_verify env msg e))"
      and "env_get_payload_copy env = variant_payload_copy v2"
      using assms(8) unfolding uses_straight_verify_def by blast+
    with success conveys ind show ?thesis unfolding V2_Message by (cases e) (auto split: prod.splits)
  next
    case (V3_Message m)
    from verified_by_straight [OF assms(8,9) success [unfolded V3_Message]] obtain cert where
      cert: "accepted_by ctx (its_aid m) cert" "signed_under asn mc backend m cert"
      and c: "fst (env_verify env msg e) = success_confirm asn sha m cert" unfolding V3_Message by blast
    have valid: "hybrid_valid_for_signing asn sha v cert (its_aid m) = Valid"
      using cert(1) assms(10) by (simp add: accepted_by_def)
    have "env_get_payload_copy env msg = Plain_Cohesive (cohesive_packet (message_payload m) Network)"
      using assms(8) by (simp add: uses_straight_verify_def V3_Message payload_packet_def)
    with conveys obtain n where n: "packet = Cohesive (set_boundary Network n (cohesive_packet (message_payload m) Network))" by auto
    have "gn_its_aid ind = Some (its_aid m)" "gn_permissions ind = Some (get_app_permissions cert (its_aid m))"
      using ind c by (simp_all add: success_confirm_def)
    moreover obtain lookup store ecc pqc cs where chain: "h_issuer_lookup v = Some lookup" "h_trust_store v = Some store"
      "h_ecc_backend v = Some ecc" "h_pqc_backend v = Some pqc" "issuing_chain lookup cert cs" "trusted asn sha store (last cs)"
      "alternative_material_state asn ` set cs \<subseteq> {Authority, EndEntity}"
      "linked (\<lambda>s i. verify_alternative_certificate asn sha ecc pqc s (Some i) \<and> get_alternative_public_key asn i \<noteq> None) cs"
      "verify_alternative_certificate asn sha ecc pqc (last cs) None"
      using hybrid_required_chain [OF assms(11) valid] by blast
    moreover have "linked (\<lambda>s i. verify_alternative_certificate asn sha ecc pqc s (Some i)) cs"
      by (rule linked_mono [OF chain(8)]) simp
    ultimately show ?thesis using n cert(2) valid by blast
  qed
qed

section \<open>A concrete stack\<close>

definition stack_context :: VerifyContext where
  "stack_context = use_certificate_validator (Some (hybrid_valid_for_signing hybrid_codec identity_sha hybrid_validator)) (verify_context 0)"

definition stack_message :: SecuredMessage where
  "stack_message = set_signature \<lparr>sig_r = [], sig_s = [], sig_type = NistP256\<rparr>
     (put_signer (Signer_certificate [signed_root]) (set_generation_time 5 (set_its_aid 36
       (set_message_payload sample_plaintext with_signed_data))))"

definition no_v2_operations :: "unit V2Operations" where
  "no_v2_operations = \<lparr>v2_its_aid = (\<lambda>_. 0), v2_size = (\<lambda>_. 0), v2_serialize = (\<lambda>_. []),
     v2_deserialize = (\<lambda>ar. (None, ar)), v2_payload = (\<lambda>_. Plain_Cohesive (cohesive_packet [] Network))\<rparr>"

definition no_v2_verify :: "unit \<Rightarrow> unit \<Rightarrow> (cert_exception + VerifyConfirm) \<times> unit" where
  "no_v2_verify _ st = (Inr (verify_failed stack_context Incompatible_Protocol), st)"

definition stack_env :: "(unit SecuredMessageVariant, SecurityState \<times> unit, unit) RouterEnv" where
  "stack_env = \<lparr>env_mib = secure_mib, env_distance = (\<lambda>p q. 0), env_local_cartesian = (\<lambda>_ _. \<lparr>pos_x = 0, pos_y = 0\<rparr>),
     env_get_size = (\<lambda>_. 0), env_v2_deserialize = variant_deserialize_v2 no_v2_operations,
     env_v3_deserialize = (\<lambda>ar. (Some (1, V3_Message stack_message), ar)),
     env_sign = (\<lambda>_ st. (sign_failure No_Certificate, st)),
     env_verify = (\<lambda>msg st. map_prod projr id (straight_verify_variant no_v2_verify hybrid_codec identity_sha
       sample_message_codec trusting_ecc stack_context msg st)),
     env_get_payload_copy = variant_payload_copy no_v2_operations,
     env_jitter = (\<lambda>g. (0, g)), env_octet = (\<lambda>g. (0, g)),
     env_push_back = (\<lambda>n xs x. drop (Suc (length xs) - n) (xs @ [x]))\<rparr>"

lemma stack_message_facts:
  "is_signed stack_message" "protocol_version stack_message = 3" "generation_time stack_message \<noteq> None" "its_aid stack_message = 36"
  "signer_identifier stack_message = Certificate_View signed_root" "message_payload stack_message = sample_plaintext"
  by (simp_all add: stack_message_def set_signature_def put_signature_def put_signer_def set_generation_time_def set_its_aid_def
      on_header_info_def on_signed_data_def set_message_payload_def with_signed_data_def signed_data_with_def set_unsecured_def
      is_signed_def protocol_version_def generation_time_def its_aid_def signer_identifier_def message_payload_def
      signed_payload_def get_header_info_def get_signed_data_def empty_header_info_def)

lemma signed_root_encoded: "encode_cert hybrid_codec signed_root = Some [0, 0]" "is_canonical signed_root"
  by (simp_all add: hybrid_codec_def encode_list_codec hybrid_root_eq sample_alternative_def sample_primary_def numeral_2_eq_2)
    (simp add: is_canonical_def hybrid_root_def sample_defs compressed_point_def)

lemma stack_message_signed: "signed_under hybrid_codec sample_message_codec trusting_ecc stack_message signed_root"
proof -
  have "\<exists>sig. message_signature stack_message = Some sig" "\<exists>b. signing_payload sample_message_codec stack_message = Inr b"
    by (simp_all add: stack_message_def set_signature_def message_signature_def signing_payload_def put_signature_def put_signer_def
        set_generation_time_def set_its_aid_def on_header_info_def on_signed_data_def set_message_payload_def with_signed_data_def
        signed_data_with_def get_signed_data_def sample_message_codec_def or_throw_def)
  then show ?thesis
    by (auto simp: signed_under_def hybrid_root_fields calculate_message_hash_def signed_root_encoded or_throw_def Let_def
        trusting_ecc_def)
qed

lemma stack_verifies:
  "vc_report (fst (env_verify stack_env (V3_Message stack_message) st)) = Success"
proof -
  have "accepted_by stack_context (its_aid stack_message) signed_root"
    by (simp add: accepted_by_def stack_context_def use_certificate_validator_def stack_message_facts signed_root_accepted)
  then show ?thesis
    using straight_verify_report [OF hybrid_codec_ok, of identity_sha sample_message_codec trusting_ecc stack_context stack_message "fst st"]
      stack_message_facts stack_message_signed by (cases st) (auto simp: stack_env_def split: prod.splits)
qed

lemma stack_env_services:
  "uses_straight_verify no_v2_verify no_v2_operations hybrid_codec identity_sha sample_message_codec trusting_ecc stack_context stack_env"
proof -
  have "straight_verify_variant no_v2_verify hybrid_codec identity_sha sample_message_codec trusting_ecc stack_context msg st
      = (Inr (fst (env_verify stack_env msg st)), snd (env_verify stack_env msg st))" for msg st
  proof (cases msg)
    case (V3_Message m)
    then show ?thesis
      using straight_verify_report [OF hybrid_codec_ok, of identity_sha sample_message_codec trusting_ecc stack_context m "fst st"]
      by (cases st) (auto simp: stack_env_def split: prod.splits)
  qed (cases st, simp add: no_v2_verify_def stack_env_def)
  then show ?thesis by (simp add: uses_straight_verify_def) (simp add: stack_env_def)
qed

lemma stack_env_ok: "env_ok stack_env" "env_mib stack_env = secure_mib"
proof -
  have "plaintext_ok (variant_payload_copy no_v2_operations msg)" for msg
    by (cases msg) (simp_all add: no_v2_operations_def payload_packet_def)
  then show "env_ok stack_env" "env_mib stack_env = secure_mib" by (simp_all add: env_ok_def stack_env_def)
qed

lemma stack_passes_up:
  "\<exists>r ind packet. router_events stack_env [Indication (Up_Cohesive (cohesive_packet secured_frame Network)) mac_zero mac_zero]
      (start_router stack_env 0 () sample_address (Some (initial_services 0, ())) [BTP_B]) = Inr r \<and> passed_up r = [(ind, packet)]"
proof -
  let ?r = "start_router stack_env 0 () sample_address (Some (initial_services 0, ())) [BTP_B]"
  let ?basic = "(basic_header_mib secure_mib)\<lparr>basic_next_header := Basic_Secured, hop_limit := 1\<rparr>"
  let ?shb = "\<lparr>shb_source_position = sample_position, shb_dcc = Dcc_Raw 0\<rparr>"
  have wf: "wf_basic ?basic" "wf_common sample_common" "wf_shb ?shb"
    by (simp_all add: wf_basic_def next_header_basic_cast_def wf_common_def sample_common_def next_header_common_cast_def
        header_type_cast_def wf_shb_def wf_lpv_def sample_position_def wf_address_def wf_station_type_def address_of_mac_def station_type_cast_def)
  have parse: "parse_secured (env_v2_deserialize stack_env) (env_v3_deserialize stack_env)
      \<lparr>m_archive = \<lparr>stream = [3], error_code = Ok\<rparr>, m_read_bytes = 4\<rparr> = ((Suc 0, Some (V3_Message stack_message)),
        \<lparr>m_archive = \<lparr>stream = [3], error_code = Ok\<rparr>, m_read_bytes = 5\<rparr>)"
    by (simp add: parse_secured_def stack_env_def is_good_def peek_byte_def)
  have copy: "env_get_payload_copy stack_env (V3_Message stack_message) = Plain_Cohesive (cohesive_packet sample_plaintext Network)"
    by (simp add: stack_env_def payload_packet_def stack_message_facts)
  show ?thesis
    using indicate_secured_shb [OF wf _ _ _ _ _ _ _ parse _ stack_verifies copy, of "[7, 209, 0, 0]" ?r "(initial_services 0, ())" mac_zero mac_zero]
    by (auto simp: secured_frame_def sample_plaintext_def sample_common_def common_header_mib_def basic_header_mib_def stack_env_ok
        secure_mib_def default_mib_def bit_number_def)
qed

theorem passed_up_is_authentic_witness:
  "\<exists>r ind packet. router_events stack_env [Indication (Up_Cohesive (cohesive_packet secured_frame Network)) mac_zero mac_zero]
      (start_router stack_env 0 () sample_address (Some (initial_services 0, ())) [BTP_B]) = Inr r
    \<and> passed_up r = [(ind, packet)]
    \<and> (\<exists>m cert cs. gn_its_aid ind = Some (its_aid m) \<and> signed_under hybrid_codec sample_message_codec trusting_ecc m cert
         \<and> issuing_chain (\<lambda>_. None) cert cs \<and> alternative_material_state hybrid_codec ` set cs \<subseteq> {Authority, EndEntity})"
proof -
  let ?evs = "[Indication (Up_Cohesive (cohesive_packet secured_frame Network)) mac_zero mac_zero] :: unit SecuredMessageVariant router_event list"
  from stack_passes_up obtain r ind packet where run: "router_events stack_env ?evs
      (start_router stack_env 0 () sample_address (Some (initial_services 0, ())) [BTP_B]) = Inr r" "passed_up r = [(ind, packet)]" by blast
  have no_v2: "vc_report c \<noteq> Success" if "no_v2_verify m st = (Inr c, st')" for m st c st'
    using that by (auto simp: no_v2_verify_def verify_failed_def)
  have mib: "0 \<le> itsGnLifetimeLocTE (env_mib stack_env)" "itsGnSecurity (env_mib stack_env)"
    "itsGnSnDecapResultHandling (env_mib stack_env) = Strict" "list_all event_ok ?evs"
    "(ind, packet) \<in> set (passed_up r)" "cert_validator stack_context = Some (hybrid_valid_for_signing hybrid_codec identity_sha hybrid_validator)"
    using run(2) by (simp_all add: stack_env_ok) (simp_all add: secure_mib_def stack_context_def use_certificate_validator_def)
  from passed_up_is_authentic [OF stack_env_ok(1) mib(1,4,2,3) run(1) mib(5) stack_env_services hybrid_codec_ok mib(6)
      hybrid_validator_fields(1)] run show ?thesis
    by (auto simp: hybrid_validator_fields dest: no_v2)
qed

end
