(* ===== verification/Spec2Isabelle.thy ===== *)
theory Spec2Isabelle
  imports Areas Packets Btp Geonet_Parser Recency Manual_Runtime Dcc_Flow_Control Hybrid_Certificates Secured_Stack
begin

text \<open>
  Verification of the Vanetza C-ITS protocol stack with hybrid (classical and post-quantum)
  certificates. All paths are below \<^verbatim>\<open>src/vanetza/\<close>.

  \<^bold>\<open>The program.\<close> A station sends and receives messages over an ad hoc radio network.
  \<^item> The transport layer (\<^verbatim>\<open>btp/\<close>) hands packets with a port number to the network layer and
    dispatches received ones to the handlers registered for their port.
  \<^item> The GeoNetworking router (\<^verbatim>\<open>geonet/\<close>) turns requests into packets with headers, secures them,
    sends them, and forwards the packets of others towards the geographical area they are meant for. It
    keeps a table of its neighbours, lists of packets it has seen, buffers of packets that wait for a
    neighbour or for a contention timer, and sends a beacon when it has been silent.
  \<^item> The security entity (\<^verbatim>\<open>security/\<close>) signs outgoing and verifies incoming messages. Certificates
    are kept in stores, validated up to a trusted root, and asked for when they are unknown.
  \<^item> The hybrid layer (\<^verbatim>\<open>security/pqc/\<close>) adds to every certificate a second, post-quantum public key
    and signature, nested inside the classical one, and a validator with three policies.
  \<^item> Congestion control (\<^verbatim>\<open>dcc/\<close>) queues outgoing packets and decides how often a station may send.
  \<^item> The runtime (\<^verbatim>\<open>common/manual_runtime.*\<close>) invokes callbacks when time advances.

  \<^bold>\<open>The model.\<close> Classes are records and their methods functions on them, in the order of the
  sources and with their names; enumerations and variants are datatypes; integers whose width
  matters are machine words. Exceptions are the left side of a sum, and \<open>ebind\<close> is the sequence of two
  operations that may throw. Time points and durations are integers in the unit of the clock of the source
  (microseconds). Random numbers come from a generator state. Floating point numbers are reals.
  The link layer, the transport handler and application callbacks are logs in the state of the
  router: what is sent, passed up or reported is what has been appended to them.

  \<^item> \<open>Prelude\<close>: words, archives with their error state (\<^verbatim>\<open>common/archives.*, serialization.hpp\<close>),
    the contract \<open>wire_codec\<close> of an encoder and decoder pair with its interpretations for
    integers; lemmas on lists, options and sums that the components share.
  \<^item> \<open>Unit_Interval\<close> (\<^verbatim>\<open>common/unit_interval.*\<close>), \<open>Recency\<close> (\<^verbatim>\<open>common/lru_cache.hpp,
    geonet/gbc_memory.*\<close>; contract \<open>recency_store\<close>), \<open>Manual_Runtime\<close>.
  \<^item> \<open>Geonet_Fields\<close>, \<open>Geonet_Headers\<close>: value types and headers with their wire format, each an
    interpretation of \<open>wire_codec\<close>. \<open>Geonet_Parser\<close>: the parser for received packets accepts exactly the
    images of the encoders. \<open>Packets\<close> (\<^verbatim>\<open>net/\<close>): the two packet representations. \<open>Areas\<close>:
    destination areas and distances. \<open>Geonet_Requests\<close>: requests, configuration, repetition.
  \<^item> \<open>Soft_State\<close>, \<open>Location_Table\<close>: the map with expiring entries refines the contract \<open>expiring_map\<close>;
    the location table and duplicate detection on top of it. \<open>Packet_Buffers\<close>: store-carry-forward
    buffers over the contract \<open>buffer_data\<close>. \<open>Cbf\<close>: contention-based forwarding, with the runs
    \<open>cbf_run\<close> of a buffer.
  \<^item> \<open>Router_Forwarding\<close>, \<open>Router\<close> (\<^verbatim>\<open>geonet/router.cpp\<close>): every request, indication,
    forwarding algorithm, timer and buffer flush. \<open>Router_Correctness\<close>: an invariant kept by
    every operation, through a small program logic for operations that may throw. \<open>Router_Properties\<close>:
    no sequence of events makes the router throw; what is forwarded, to whom and how often; beacons;
    what is passed up; a payload travels from one router to another.
  \<^item> \<open>Btp\<close>: the transport layer, dispatch to handlers.
  \<^item> \<open>Dcc_Rate_Control\<close>, \<open>Dcc_Flow_Control\<close>: state machines and rate controls (contracts
    \<open>transmission_gate\<close> and \<open>rate_control\<close>), and the queues above them in every run \<open>fc_run\<close>: packets
    leave in order, within the rate, and a trigger is pending while packets wait.
  \<^item> \<open>Certificates\<close>, \<open>Certificate_Stores\<close> (contract \<open>digest_store\<close>), \<open>Certificate_Validation\<close>
    (\<^verbatim>\<open>security/v3/\<close>): structure, canonical form and digests of certificates; stores; the default
    validator accepts exactly what its checks say of the chain \<open>issuing_chain\<close>.
  \<^item> \<open>Hybrid_Certificates\<close> (\<^verbatim>\<open>security/pqc/\<close>): issuance, the inputs of the two signatures, and
    the validator: which certificates it accepts, and that under the strictest policy
    no certificate of an accepted chain is without a verified post-quantum signature.
  \<^item> \<open>Security_Entity\<close>: encapsulation and decapsulation as the router calls them.
    \<open>Secured_Messages\<close> (\<^verbatim>\<open>security/v3/secured_message.*, security/secured_message.*\<close>): the
    message structure with all its setters and readers. \<open>Peer_Requests\<close>
    (\<^verbatim>\<open>security/peer_request_tracker.*\<close>), \<open>Security_Services\<close> (\<^verbatim>\<open>security/v3/sign_service.*,
    sign_header_policy.*, security/straight_verify_service.*\<close>): signing and verifying with all their
    effects on the certificate cache and on the queues of certificate requests. \<open>Services_Correctness\<close>,
    \<open>Services_Properties\<close>: what is accepted, that signed messages are, how certificates spread between
    stations, and an invariant of every run \<open>station_run\<close> of a station's services.
  \<^item> \<open>Secured_Stack\<close>: router, verify service and hybrid validator together. Whatever strict
    routers pass up was signed under a certificate with a hybrid chain to a trusted root.

  \<^bold>\<open>Parameters.\<close> Code that is not part of the sources is an argument of the definitions: the
  signature algorithms and hash functions (\<open>EccBackend\<close>, \<open>PqcBackend\<close>, \<open>ShaFunctions\<close>), the ASN.1
  codecs (\<open>Asn1Codec\<close>, \<open>MessageCodec\<close>; \<open>codec_ok\<close> says that decoding inverts
  encoding where that succeeds), local projections and region tests of the
  geodesy libraries, and the bounded buffer of boost. The older generation of messages enters through
  \<open>V2Operations\<close> and a verify function. Every property with such a hypothesis has a witness with
  concrete functions.

  \<^bold>\<open>Bounds and termination.\<close> The validators follow at most eight issuers, the bound of the
  code (\<open>max_chain_depth\<close>); results about chains hold for all certificates, since a longer chain is
  rejected. All functions terminate, by structure or by a measure on the queue they empty. The one
  loop that need not end, triggering callbacks that schedule callbacks, is a partial function into
  options, and that it returns is proved where callbacks schedule into the future. There is no fuel elsewhere.

  \<^bold>\<open>Not modelled.\<close> The older security generation (\<^verbatim>\<open>security/v2/\<close>) except for its time conversion, since
  no part of the hybrid certificates concerns it; the state an operation leaves behind when it throws;
  concurrency (the sources are single threaded); the generated ASN.1 codecs and the bindings to OpenSSL, Crypto++,
  liboqs and boost geometry, which are not the project's own code; files, sockets and devices
  (\<^verbatim>\<open>security/persistence.*, net/\<close> sockets, \<^verbatim>\<open>gnss/, rpc/, asio/\<close>) and the command line tools
  under \<^verbatim>\<open>src/tools/\<close>, which are input and output around the library; the helpers for
  application messages (\<^verbatim>\<open>facilities/\<close>), which work on generated structures.
\<close>

end
